(* ===== verification/Prelude.thy ===== *)
theory Prelude
  imports Complex_Main "HOL-Library.AList" "HOL-Library.Char_ord"
    "HOL-Library.List_Lexorder" "HOL-Library.Product_Lexorder"
begin

text \<open>
  Shared vocabulary of the development: the exceptions of the program as a datatype, results
  as sums (\<open>Inl\<close> is a raised exception), guards in the order the code runs them, Python
  dictionaries as association lists in insertion order, and the lemma collections that the
  component theories use.
\<close>

named_theorems guard_simps "unfolding rules for the guards of the domain model"
named_theorems op_defs "definitions of the operations of a component"
named_theorems inv_intros "preservation lemmas of a component's invariant"

section \<open>Exceptions and results\<close>

text \<open>
  \<open>NotFound kind ident\<close> stands for the message \<open>kind ident was not found\<close>; in
  \<open>EvidenceMissing\<close> the list is the one the code joins with commas. The other constructors
  carry the message without the formatted identifiers.
\<close>

datatype py_error =
    ValueError string
  | InvalidTransition string
  | EvidenceMissing "string list"
  | PackValidationError string
  | ConcurrencyConflict string
  | NotFound string string
  | RuntimeError string
  | IndexError
  | KeyError string
  | TypeError string
  | OverflowError string

type_synonym 'a result = "py_error + 'a"
type_synonym instant = int

fun is_domain_error :: "py_error \<Rightarrow> bool" where
  "is_domain_error (InvalidTransition _) = True"
| "is_domain_error (EvidenceMissing _) = True"
| "is_domain_error (PackValidationError _) = True"
| "is_domain_error _ = False"

fun raise_first :: "py_error option list \<Rightarrow> 'a result \<Rightarrow> 'a result" where
  "raise_first [] r = r"
| "raise_first (None # gs) r = raise_first gs r"
| "raise_first (Some e # gs) r = Inl e"

lemma raise_first_Inr [simp]:
  "raise_first gs r = Inr x \<longleftrightarrow> list_all (\<lambda>g. g = None) gs \<and> r = Inr x"
  by (induction gs r rule: raise_first.induct) auto

lemma raise_first_Inl:
  "raise_first gs r = Inl e \<Longrightarrow> Some e \<in> set gs \<or> r = Inl e"
  by (induction gs r rule: raise_first.induct) auto

lemma raise_first_all_None:
  "list_all (\<lambda>g. g = None) gs \<Longrightarrow> raise_first gs r = r"
  by (induction gs r rule: raise_first.induct) auto

definition check :: "bool \<Rightarrow> py_error \<Rightarrow> py_error option" where
  "check ok e = (if ok then None else Some e)"

lemma check_None [simp]: "check ok e = None \<longleftrightarrow> ok"
  by (simp add: check_def)

lemma check_Some [simp]: "check ok e = Some e' \<longleftrightarrow> \<not> ok \<and> e' = e"
  by (auto simp: check_def)

lemma check_True [simp]: "check True e = None"
  by simp

fun result_bind :: "'a result \<Rightarrow> ('a \<Rightarrow> 'b result) \<Rightarrow> 'b result" where
  "result_bind (Inl e) f = Inl e"
| "result_bind (Inr x) f = f x"

lemma result_bind_Inr [simp]:
  "result_bind r f = Inr y \<longleftrightarrow> (\<exists>x. r = Inr x \<and> f x = Inr y)"
  by (cases r) auto

lemma result_bind_assoc:
  "result_bind (result_bind r f) g = result_bind r (\<lambda>x. result_bind (f x) g)"
  by (cases r) auto

section \<open>Dictionaries\<close>

text \<open>
  A Python dict keeps insertion order, and storing under an existing key keeps the key's place:
  this is the library's association list with \<^const>\<open>AList.update\<close>,
  \<^const>\<open>AList.delete\<close> and \<^const>\<open>map_of\<close>.
\<close>

type_synonym ('k, 'v) dict = "('k \<times> 'v) list"

abbreviation dict_get :: "'k \<Rightarrow> ('k, 'v) dict \<Rightarrow> 'v option" where
  "dict_get k d \<equiv> map_of d k"

abbreviation dict_put :: "'k \<Rightarrow> 'v \<Rightarrow> ('k, 'v) dict \<Rightarrow> ('k, 'v) dict" where
  "dict_put k v d \<equiv> AList.update k v d"

abbreviation dict_pop :: "'k \<Rightarrow> ('k, 'v) dict \<Rightarrow> ('k, 'v) dict" where
  "dict_pop k d \<equiv> AList.delete k d"

definition dict_ok :: "('k, 'v) dict \<Rightarrow> bool" where
  "dict_ok d \<longleftrightarrow> distinct (map fst d)"

lemma dict_ok_Nil [simp]: "dict_ok []"
  by (simp add: dict_ok_def)

lemma dict_ok_put [simp]: "dict_ok d \<Longrightarrow> dict_ok (dict_put k v d)"
  by (simp add: dict_ok_def distinct_update)

lemma dict_ok_pop [simp]: "dict_ok d \<Longrightarrow> dict_ok (dict_pop k d)"
  by (simp add: dict_ok_def distinct_delete)

lemma dict_get_put: "dict_get j (dict_put k v d) = (if j = k then Some v else dict_get j d)"
  by (simp add: update_conv')

lemma dict_get_put_same [simp]: "dict_get k (dict_put k v d) = Some v"
  by (simp add: dict_get_put)

lemma dict_get_put_other [simp]: "j \<noteq> k \<Longrightarrow> dict_get j (dict_put k v d) = dict_get j d"
  by (simp add: dict_get_put)

lemma dict_get_in: "dict_ok d \<Longrightarrow> dict_get k d = Some v \<longleftrightarrow> (k, v) \<in> set d"
  by (simp add: dict_ok_def)

lemma dict_get_mem: "dict_get k d = Some v \<Longrightarrow> (k, v) \<in> set d"
  by (rule map_of_SomeD)

lemma set_dict_put:
  "dict_ok d \<Longrightarrow> set (dict_put k v d) = insert (k, v) {p \<in> set d. fst p \<noteq> k}"
proof (induction d)
  case (Cons p d)
  then show ?case by (cases p) (force simp: dict_ok_def)
qed auto

lemma set_dict_put_subset: "set (dict_put k v d) \<subseteq> insert (k, v) (set d)"
  by (induction d) auto

lemma dict_put_idem: "dict_get k d = Some v \<Longrightarrow> dict_put k v d = d"
  by (induction d) (auto split: if_splits)

lemma keys_put: "set (map fst (dict_put k v d)) = insert k (set (map fst d))"
  by (induction d) auto

lemma dict_ok_map_vals: "dict_ok (map (\<lambda>(k, v). (k, f k v)) d) \<longleftrightarrow> dict_ok d"
  by (simp add: dict_ok_def comp_def case_prod_beta)

lemma dict_get_map_vals: "dict_get k (map (\<lambda>(k, v). (k, f k v)) d) = map_option (f k) (dict_get k d)"
  by (induction d) auto

section \<open>Lists and maximisation\<close>

lemma list_all_append_single [simp]: "list_all P (xs @ [x]) \<longleftrightarrow> list_all P xs \<and> P x"
  by simp

lemma butlast_prefix:
  "xs \<noteq> [] \<Longrightarrow> butlast xs = ys \<Longrightarrow> length xs = Suc (length ys) \<and> take (length ys) xs = ys"
  by (cases xs rule: rev_cases) auto

lemma distinct_filter_map: "distinct (map f xs) \<Longrightarrow> distinct (map f (filter P xs))"
  by (induction xs) auto

text \<open>
  Values of a dictionary that agree on a key \<open>f\<close> no two selected values may share sit in one
  entry; and conversely.
\<close>

lemma distinct_vals_key:
  assumes "distinct (map f (filter P (map snd d)))" and "dict_get k1 d = Some v1"
    and "dict_get k2 d = Some v2" and "P v1" and "P v2" and "f v1 = f v2"
  shows "k1 = k2"
  using assms
proof (induction d)
  case (Cons p d)
  have mem: "f v \<in> f ` (Set.filter P (snd ` set d))" if "dict_get k d = Some v" "P v" for k v
    using that by (force dest: map_of_SomeD)
  show ?case
    using Cons mem[of k1 v1] mem[of k2 v2]
    by (cases p) (auto split: if_splits simp: image_iff)
qed simp

lemma distinct_vals_keyI:
  assumes "dict_ok d"
    and "\<And>k1 k2 v1 v2. \<lbrakk>dict_get k1 d = Some v1; dict_get k2 d = Some v2; P v1; P v2; f v1 = f v2\<rbrakk>
      \<Longrightarrow> k1 = k2"
  shows "distinct (map f (filter P (map snd d)))"
  using assms
proof (induction d)
  case (Cons p d)
  obtain k v where p: "p = (k, v)" by (cases p)
  have ok: "dict_ok d" and fresh: "k \<notin> fst ` set d" using Cons.prems(1) p by (auto simp: dict_ok_def)
  have tl: "distinct (map f (filter P (map snd d)))"
  proof (rule Cons.IH[OF ok])
    fix k1 k2 v1 v2
    assume g: "dict_get k1 d = Some v1" "dict_get k2 d = Some v2" "P v1" "P v2" "f v1 = f v2"
    then have "k1 \<noteq> k" "k2 \<noteq> k" using fresh by (force dest: map_of_SomeD)+
    with g Cons.prems(2)[of k1 v1 k2 v2] p show "k1 = k2" by simp
  qed
  have "f v \<notin> f ` {x \<in> snd ` set d. P x}" if "P v"
  proof
    assume "f v \<in> f ` {x \<in> snd ` set d. P x}"
    then obtain k' v' where e: "(k', v') \<in> set d" "P v'" "f v = f v'" by force
    then have "k' \<noteq> k" "dict_get k' d = Some v'" using fresh ok by (force simp: dict_get_in)+
    with Cons.prems(2)[of k v k' v'] e that p show False by simp
  qed
  with tl p show ?case by (auto simp: image_iff)
qed simp

end
