(* ===== verification/Py_Values.thy ===== *)
theory Py_Values
  imports Prelude
begin

text \<open>
  The Python values that the program passes around untyped: JSON documents, floats with their
  non-finite values, and the string operations of the standard library. A Python string is
  modelled by the list of its code points below 256 (type \<^typ>\<open>string\<close>); character classes and
  case mappings are those of Python on that range.
\<close>

section \<open>Floats and JSON\<close>

text \<open>A finite float is the rational it denotes, so comparisons of floats are exact.\<close>

datatype pyfloat = Finite rat | PosInf | NegInf | NaN

fun fl_isfinite :: "pyfloat \<Rightarrow> bool" where
  "fl_isfinite (Finite _) = True"
| "fl_isfinite _ = False"

fun fl_le :: "pyfloat \<Rightarrow> pyfloat \<Rightarrow> bool" where
  "fl_le NaN _ = False"
| "fl_le _ NaN = False"
| "fl_le NegInf _ = True"
| "fl_le _ PosInf = True"
| "fl_le (Finite a) (Finite b) = (a \<le> b)"
| "fl_le (Finite _) NegInf = False"
| "fl_le PosInf _ = False"

definition fl_lt :: "pyfloat \<Rightarrow> pyfloat \<Rightarrow> bool" where
  "fl_lt a b \<longleftrightarrow> fl_le a b \<and> \<not> fl_le b a"

definition fl_between :: "rat \<Rightarrow> pyfloat \<Rightarrow> rat \<Rightarrow> bool" where
  "fl_between lo x hi \<longleftrightarrow> fl_le (Finite lo) x \<and> fl_le x (Finite hi)"

lemma fl_between_Finite [simp]: "fl_between lo (Finite a) hi \<longleftrightarrow> lo \<le> a \<and> a \<le> hi"
  by (simp add: fl_between_def)

datatype json =
    JNull
  | JBool bool
  | JInt int
  | JFloat pyfloat
  | JStr string
  | JList "json list"
  | JObj "(string \<times> json) list"

text \<open>Python truth value of a JSON value.\<close>

fun truthy :: "json \<Rightarrow> bool" where
  "truthy JNull = False"
| "truthy (JBool b) = b"
| "truthy (JInt n) = (n \<noteq> 0)"
| "truthy (JFloat x) = (x \<noteq> Finite 0)"
| "truthy (JStr s) = (s \<noteq> '''')"
| "truthy (JList xs) = (xs \<noteq> [])"
| "truthy (JObj d) = (d \<noteq> [])"

text \<open>
  Numbers compare across the types bool, int and float, as Python compares them; \<open>None\<close> marks a
  value that is not a number.
\<close>

fun as_number :: "json \<Rightarrow> pyfloat option" where
  "as_number (JBool b) = Some (Finite (if b then 1 else 0))"
| "as_number (JInt n) = Some (Finite (of_int n))"
| "as_number (JFloat x) = Some x"
| "as_number _ = None"

definition fl_eq :: "pyfloat \<Rightarrow> pyfloat \<Rightarrow> bool" where
  "fl_eq a b \<longleftrightarrow> a \<noteq> NaN \<and> a = b"

text \<open>
  Equality of JSON values as the operator \<open>==\<close> decides it: dictionaries do not compare the
  order of their keys.
\<close>

fun json_eq :: "json \<Rightarrow> json \<Rightarrow> bool"
  and json_list_eq :: "json list \<Rightarrow> json list \<Rightarrow> bool"
  and json_obj_sub :: "(string \<times> json) list \<Rightarrow> (string \<times> json) list \<Rightarrow> bool"
where
  "json_eq JNull b = (b = JNull)"
| "json_eq (JStr s) b = (b = JStr s)"
| "json_eq (JList xs) b = (case b of JList ys \<Rightarrow> json_list_eq xs ys | _ \<Rightarrow> False)"
| "json_eq (JObj d) b =
     (case b of JObj e \<Rightarrow> length d = length e \<and> json_obj_sub d e | _ \<Rightarrow> False)"
| "json_eq (JBool x) b =
     (case as_number b of Some y \<Rightarrow> fl_eq (Finite (if x then 1 else 0)) y | None \<Rightarrow> False)"
| "json_eq (JInt x) b =
     (case as_number b of Some y \<Rightarrow> fl_eq (Finite (of_int x)) y | None \<Rightarrow> False)"
| "json_eq (JFloat x) b = (case as_number b of Some y \<Rightarrow> fl_eq x y | None \<Rightarrow> False)"
| "json_list_eq [] ys = (ys = [])"
| "json_list_eq (x # xs) ys =
     (case ys of [] \<Rightarrow> False | y # ys' \<Rightarrow> json_eq x y \<and> json_list_eq xs ys')"
| "json_obj_sub [] e = True"
| "json_obj_sub ((k, v) # d) e =
     (case map_of e k of None \<Rightarrow> False | Some w \<Rightarrow> json_eq v w \<and> json_obj_sub d e)"

definition details_eq :: "(string, json) dict \<Rightarrow> (string, json) dict \<Rightarrow> bool" where
  "details_eq d e \<longleftrightarrow> json_eq (JObj d) (JObj e)"

text \<open>
  A document without NaN and without repeated keys: what \<open>json.loads\<close> of a stored document
  and every dict literal of the program give. On those documents equality is reflexive.
\<close>

fun json_wf :: "json \<Rightarrow> bool" where
  "json_wf (JFloat x) = (x \<noteq> NaN)"
| "json_wf (JList xs) = list_all json_wf xs"
| "json_wf (JObj d) = (dict_ok d \<and> list_all (\<lambda>p. json_wf (snd p)) d)"
| "json_wf _ = True"

lemma json_eq_refl_gen:
  shows "json_wf a \<Longrightarrow> a = b \<Longrightarrow> json_eq a b"
    and "list_all json_wf xs \<Longrightarrow> xs = ys \<Longrightarrow> json_list_eq xs ys"
    and "\<lbrakk>list_all (\<lambda>p. json_wf (snd p)) d; dict_ok e; set d \<subseteq> set e\<rbrakk> \<Longrightarrow> json_obj_sub d e"
  by (induction a b and xs ys and d e rule: json_eq_json_list_eq_json_obj_sub.induct)
    (auto simp: fl_eq_def dict_ok_def split: json.splits option.splits
      dest: map_of_SomeD eq_key_imp_eq_value)

lemma json_eq_refl: "json_wf a \<Longrightarrow> json_eq a a"
  by (rule json_eq_refl_gen) simp_all

lemma details_eq_refl: "json_wf (JObj d) \<Longrightarrow> details_eq d d"
  unfolding details_eq_def by (rule json_eq_refl)

section \<open>Strings\<close>

definition code_point :: "char \<Rightarrow> nat" where
  "code_point c = of_char c"

text \<open>White space of \<open>str.strip\<close> and \<open>str.split\<close> below 256.\<close>

definition is_space :: "char \<Rightarrow> bool" where
  "is_space c = (let n = code_point c in
     (9 \<le> n \<and> n \<le> 13) \<or> (28 \<le> n \<and> n \<le> 32) \<or> n = 133 \<or> n = 160)"

text \<open>\<open>str.isdigit\<close> also accepts the superscripts two, three and one.\<close>

definition is_ascii_digit :: "char \<Rightarrow> bool" where
  "is_ascii_digit c = (48 \<le> code_point c \<and> code_point c \<le> 57)"

definition is_digit :: "char \<Rightarrow> bool" where
  "is_digit c = (is_ascii_digit c \<or> code_point c \<in> {178, 179, 185})"

definition str_strip :: "string \<Rightarrow> string" where
  "str_strip s = rev (dropWhile is_space (rev (dropWhile is_space s)))"

definition str_blank :: "string \<Rightarrow> bool" where
  "str_blank s = (str_strip s = [])"

fun str_join :: "string \<Rightarrow> string list \<Rightarrow> string" where
  "str_join sep [] = []"
| "str_join sep [x] = x"
| "str_join sep (x # y # ys) = x @ sep @ str_join sep (y # ys)"

definition str_starts_with :: "string \<Rightarrow> string \<Rightarrow> bool" where
  "str_starts_with p s = (take (length p) s = p)"

lemma strip_empty [simp]: "str_strip [] = []"
  by (simp add: str_strip_def)

lemma str_strip_all_space: "str_strip s = [] \<longleftrightarrow> (\<forall>c \<in> set s. is_space c)"
proof
  assume "str_strip s = []"
  then have d: "\<forall>c \<in> set (dropWhile is_space s). is_space c"
    by (simp add: str_strip_def)
  have "dropWhile is_space s = []"
    using d hd_dropWhile[of is_space s] by (cases "dropWhile is_space s") auto
  then show "\<forall>c \<in> set s. is_space c" by simp
next
  assume "\<forall>c \<in> set s. is_space c"
  then have "dropWhile is_space s = []" by simp
  then show "str_strip s = []" by (simp only: str_strip_def) simp
qed

lemma set_str_strip: "set (str_strip s) \<subseteq> set s"
proof
  fix c
  assume "c \<in> set (str_strip s)"
  then have "c \<in> set (dropWhile is_space (rev (dropWhile is_space s)))"
    by (simp add: str_strip_def)
  from set_dropWhileD[OF this] have "c \<in> set (dropWhile is_space s)" by simp
  from set_dropWhileD[OF this] show "c \<in> set s" .
qed

lemma length_str_strip: "length (str_strip s) \<le> length s"
proof -
  have "length (dropWhile is_space (rev (dropWhile is_space s)))
      \<le> length (rev (dropWhile is_space s))" by (rule length_dropWhile_le)
  also have "\<dots> \<le> length s" by (simp add: length_dropWhile_le)
  finally show ?thesis by (simp add: str_strip_def)
qed

text \<open>Decimal notation of integers, as \<open>str\<close> writes it.\<close>

definition digit_char :: "nat \<Rightarrow> char" where
  "digit_char d = char_of (48 + d)"

fun nat_str :: "nat \<Rightarrow> string" where
  "nat_str n = (if n < 10 then [digit_char n] else nat_str (n div 10) @ [digit_char (n mod 10)])"

declare nat_str.simps [simp del]

definition int_str :: "int \<Rightarrow> string" where
  "int_str n = (if n < 0 then CHR ''-'' # nat_str (nat (- n)) else nat_str (nat n))"

lemma code_point_digit_char: "d < 10 \<Longrightarrow> code_point (digit_char d) = 48 + d"
  by (simp add: code_point_def digit_char_def)

lemma digit_char_inj: "\<lbrakk>digit_char a = digit_char b; a < 10; b < 10\<rbrakk> \<Longrightarrow> a = b"
  by (metis add_left_cancel code_point_digit_char)

lemma nat_str_nonempty [simp]: "nat_str n \<noteq> []"
  by (subst nat_str.simps) simp

lemma nat_str_digits: "c \<in> set (nat_str n) \<Longrightarrow> is_ascii_digit c"
proof (induction n rule: nat_str.induct)
  case (1 n)
  then show ?case
    by (cases "n < 10")
      (auto simp: nat_str.simps[of n] is_ascii_digit_def code_point_digit_char)
qed

text \<open>Reading the digits back, with which the notation is injective.\<close>

definition digits_value :: "string \<Rightarrow> nat" where
  "digits_value s = foldl (\<lambda>v c. 10 * v + (code_point c - 48)) 0 s"

lemma digits_value_snoc: "digits_value (s @ [c]) = 10 * digits_value s + (code_point c - 48)"
  by (simp add: digits_value_def)

lemma digits_value_nat_str [simp]: "digits_value (nat_str n) = n"
proof (induction n rule: nat_str.induct)
  case (1 n)
  show ?case
  proof (cases "n < 10")
    case True
    then show ?thesis
      by (simp add: nat_str.simps[of n] digits_value_def code_point_digit_char)
  next
    case False
    with 1 have "digits_value (nat_str (n div 10)) = n div 10" by simp
    with False show ?thesis
      by (simp add: nat_str.simps[of n] digits_value_snoc code_point_digit_char)
  qed
qed

lemma nat_str_inj: "nat_str a = nat_str b \<longleftrightarrow> a = b"
  by (metis digits_value_nat_str)

text \<open>\<open>str(value)\<close>; \<open>show\<close> writes floats, lists and mappings.\<close>

fun py_str :: "(json \<Rightarrow> string) \<Rightarrow> json \<Rightarrow> string" where
  "py_str show JNull = ''None''"
| "py_str show (JBool b) = (if b then ''True'' else ''False'')"
| "py_str show (JInt n) = int_str n"
| "py_str show (JStr s) = s"
| "py_str show v = show v"

section \<open>Instants\<close>

text \<open>
  An instant is a UTC \<open>datetime\<close>, counted in microseconds from 1970. \<open>isoformat\<close> writes it as
  the standard library does: the date of the proleptic Gregorian calendar, the time of day, the
  microseconds where they are not zero, and the offset.
\<close>

abbreviation seconds :: "int \<Rightarrow> int" where
  "seconds n \<equiv> n * 1000000"

definition pad_int :: "nat \<Rightarrow> int \<Rightarrow> string" where
  "pad_int w n = (let s = int_str n in replicate (w - length s) (CHR ''0'') @ s)"

definition civil_from_days :: "int \<Rightarrow> int \<times> int \<times> int" where
  "civil_from_days days =
     (let z = days + 719468;
          era = z div 146097;
          doe = z mod 146097;
          yoe = (doe - doe div 1460 + doe div 36524 - doe div 146096) div 365;
          doy = doe - (365 * yoe + yoe div 4 - yoe div 100);
          mp = (5 * doy + 2) div 153;
          d = doy - (153 * mp + 2) div 5 + 1;
          m = (if mp < 10 then mp + 3 else mp - 9);
          y = yoe + era * 400 + (if m \<le> 2 then 1 else 0)
      in (y, m, d))"

definition isoformat :: "instant \<Rightarrow> string" where
  "isoformat t =
     (let micros = t mod 1000000;
          secs = t div 1000000;
          sod = secs mod 86400;
          (y, m, d) = civil_from_days (secs div 86400)
      in pad_int 4 y @ ''-'' @ pad_int 2 m @ ''-'' @ pad_int 2 d @ ''T'' @
         pad_int 2 (sod div 3600) @ '':'' @ pad_int 2 (sod div 60 mod 60) @ '':'' @
         pad_int 2 (sod mod 60) @ (if micros = 0 then [] else ''.'' @ pad_int 6 micros) @
         ''+00:00'')"

end
