(* ===== verification/Domain_Events.thy ===== *)
theory Domain_Events
  imports Py_Values
begin

text \<open>
  Domain events (\<open>domain/events.py\<close>). The code draws an event identifier with \<open>uuid4\<close> and
  reads the clock where no instant is given; here each operation takes the two as a stamp.
\<close>

record stamp =
  st_now :: instant
  st_event_id :: string

record domain_event =
  event_id :: string
  ev_organization_id :: string
  aggregate_type :: string
  aggregate_id :: string
  aggregate_version :: int
  ev_name :: string
  occurred_at :: instant
  ev_payload :: "(string, json) dict"

definition event_create ::
  "stamp \<Rightarrow> string \<Rightarrow> string \<Rightarrow> string \<Rightarrow> int \<Rightarrow> string \<Rightarrow> (string, json) dict \<Rightarrow> domain_event"
where
  "event_create st org agg_type agg_id version name payload =
     \<lparr>event_id = st_event_id st,
      ev_organization_id = org,
      aggregate_type = agg_type,
      aggregate_id = agg_id,
      aggregate_version = version,
      ev_name = name,
      occurred_at = st_now st,
      ev_payload = payload\<rparr>"

text \<open>A payload entry that may be Python's \<open>None\<close>.\<close>

fun opt_str :: "string option \<Rightarrow> json" where
  "opt_str None = JNull"
| "opt_str (Some s) = JStr s"

lemma event_create_sel [simp]:
  "aggregate_version (event_create st org t a v n p) = v"
  "aggregate_id (event_create st org t a v n p) = a"
  "ev_organization_id (event_create st org t a v n p) = org"
  "ev_name (event_create st org t a v n p) = n"
  "occurred_at (event_create st org t a v n p) = st_now st"
  "aggregate_type (event_create st org t a v n p) = t"
  by (simp_all add: event_create_def)

end
