(* ===== verification/Work_Order.thy ===== *)
theory Work_Order
  imports Domain_Events
begin

text \<open>
  The work order aggregate (\<open>domain/work_order.py\<close>): its data, the guards in the order the
  methods run them, and one definition per method. A method that raises is \<open>Inl\<close>; one that
  returns gives the changed order.
\<close>

section \<open>Data\<close>

datatype pool_mode = CURATED | FIRST_CLAIM

datatype pool_response_status = INTERESTED | SELECTED | REJECTED | WITHDRAWN

datatype wo_status_t =
  SUBMITTED | POOL_OPEN | ASSIGNED | ACCEPTED | EN_ROUTE | IN_PROGRESS | COMPLETED | CANCELLED

fun pool_mode_value :: "pool_mode \<Rightarrow> string" where
  "pool_mode_value CURATED = ''curated''"
| "pool_mode_value FIRST_CLAIM = ''first_claim''"

fun response_status_value :: "pool_response_status \<Rightarrow> string" where
  "response_status_value INTERESTED = ''interested''"
| "response_status_value SELECTED = ''selected''"
| "response_status_value REJECTED = ''rejected''"
| "response_status_value WITHDRAWN = ''withdrawn''"

fun status_value :: "wo_status_t \<Rightarrow> string" where
  "status_value SUBMITTED = ''submitted''"
| "status_value POOL_OPEN = ''pool_open''"
| "status_value ASSIGNED = ''assigned''"
| "status_value ACCEPTED = ''accepted''"
| "status_value EN_ROUTE = ''en_route''"
| "status_value IN_PROGRESS = ''in_progress''"
| "status_value COMPLETED = ''completed''"
| "status_value CANCELLED = ''cancelled''"

definition TERMINAL_STATUSES :: "wo_status_t list" where
  "TERMINAL_STATUSES = [COMPLETED, CANCELLED]"

record evidence_requirements =
  minimum_photos :: int
  comment_required :: bool
  signature_required :: bool
  customer_code_required :: bool

definition default_evidence :: evidence_requirements where
  "default_evidence = \<lparr>minimum_photos = 0, comment_required = False,
     signature_required = False, customer_code_required = False\<rparr>"

definition make_evidence ::
  "int \<Rightarrow> bool \<Rightarrow> bool \<Rightarrow> bool \<Rightarrow> evidence_requirements result" where
  "make_evidence photos comment signature code =
     (if photos < 0 then Inl (ValueError ''minimum_photos cannot be negative'')
      else Inr \<lparr>minimum_photos = photos, comment_required = comment,
                signature_required = signature, customer_code_required = code\<rparr>)"

record completion_report =
  photo_refs :: "string list"
  rep_comment :: "string option"
  signature_ref :: "string option"
  customer_code :: "string option"

definition empty_report :: completion_report where
  "empty_report = \<lparr>photo_refs = [], rep_comment = None, signature_ref = None,
     customer_code = None\<rparr>"

record pool_response =
  pr_executor_id :: string
  pr_status :: pool_response_status
  pr_responded_at :: instant

record work_order =
  wo_id :: string
  wo_public_number :: string
  wo_organization_id :: string
  wo_work_type :: string
  wo_source :: string
  wo_details :: "(string, json) dict"
  wo_requester_id :: "string option"
  wo_coordinator_id :: "string option"
  wo_evidence :: evidence_requirements
  wo_status :: wo_status_t
  wo_pool_mode :: "pool_mode option"
  wo_assignee_id :: "string option"
  wo_pool_responses :: "(string, pool_response) dict"
  wo_report :: "completion_report option"
  wo_version :: int
  wo_created_at :: instant
  wo_updated_at :: instant
  wo_events :: "domain_event list"

section \<open>Recording and guards\<close>

definition wo_record :: "string \<Rightarrow> (string, json) dict \<Rightarrow> stamp \<Rightarrow> work_order \<Rightarrow> work_order" where
  "wo_record name payload st w =
     (let v = wo_version w + 1
      in w\<lparr>wo_version := v, wo_updated_at := st_now st,
           wo_events := wo_events w @
             [event_create st (wo_organization_id w) ''work_order'' (wo_id w) v name payload]\<rparr>)"

definition require_not_terminal :: "work_order \<Rightarrow> py_error option" where
  "require_not_terminal w =
     check (wo_status w \<notin> set TERMINAL_STATUSES)
       (InvalidTransition (''work order is already '' @ status_value (wo_status w)))"

definition require_coordinator_if_present :: "string option \<Rightarrow> work_order \<Rightarrow> py_error option" where
  "require_coordinator_if_present actor w =
     check (\<not> (wo_coordinator_id w \<noteq> None \<and> actor \<noteq> wo_coordinator_id w))
       (InvalidTransition ''only the assigned coordinator may act'')"

definition require_assignee :: "string \<Rightarrow> work_order \<Rightarrow> py_error option" where
  "require_assignee executor w =
     check (wo_assignee_id w = Some executor)
       (InvalidTransition ''only the assigned executor may perform this action'')"

definition require_executor_id :: "string \<Rightarrow> py_error option" where
  "require_executor_id executor =
     check (executor \<noteq> []) (ValueError ''executor_id is required'')"

definition require_status :: "wo_status_t list \<Rightarrow> work_order \<Rightarrow> py_error option" where
  "require_status allowed w =
     check (wo_status w \<in> set allowed)
       (InvalidTransition (''status '' @ status_value (wo_status w) @
          '' is not allowed; expected one of: '' @ str_join '', '' (map status_value allowed)))"

definition pool_mode_text :: "pool_mode option \<Rightarrow> string" where
  "pool_mode_text m = (case m of None \<Rightarrow> ''None'' | Some x \<Rightarrow> pool_mode_value x)"

definition require_pool_mode :: "pool_mode \<Rightarrow> work_order \<Rightarrow> py_error option" where
  "require_pool_mode mode w =
     (case require_status [POOL_OPEN] w of
        Some e \<Rightarrow> Some e
      | None \<Rightarrow> check (wo_pool_mode w = Some mode)
          (InvalidTransition (''pool mode is '' @ pool_mode_text (wo_pool_mode w) @
             ''; expected '' @ pool_mode_value mode)))"

text \<open>\<open>_validate_report\<close>: the missing items in the order the code lists them.\<close>

definition nonblank :: "string option \<Rightarrow> bool" where
  "nonblank s = (case s of None \<Rightarrow> False | Some t \<Rightarrow> t \<noteq> [] \<and> str_strip t \<noteq> [])"

definition nonempty :: "string option \<Rightarrow> bool" where
  "nonempty s = (case s of None \<Rightarrow> False | Some t \<Rightarrow> t \<noteq> [])"

lemma nonempty_simps [simp]:
  "\<not> nonempty None" "nonempty (Some s) \<longleftrightarrow> s \<noteq> []"
  "\<not> nonblank None" "nonblank (Some s) \<longleftrightarrow> s \<noteq> [] \<and> str_strip s \<noteq> []"
  by (simp_all add: nonempty_def nonblank_def)

definition missing_evidence :: "evidence_requirements \<Rightarrow> completion_report \<Rightarrow> string list" where
  "missing_evidence rules report =
     (if int (length (photo_refs report)) < minimum_photos rules
      then [''at least '' @ int_str (minimum_photos rules) @ '' photo(s)''] else [])
     @ (if comment_required rules \<and> \<not> nonblank (rep_comment report) then [''comment''] else [])
     @ (if signature_required rules \<and> \<not> nonempty (signature_ref report)
        then [''signature''] else [])
     @ (if customer_code_required rules \<and> \<not> nonempty (customer_code report)
        then [''customer code''] else [])"

definition validate_report :: "completion_report \<Rightarrow> work_order \<Rightarrow> py_error option" where
  "validate_report report w =
     (let missing = missing_evidence (wo_evidence w) report
      in check (missing = []) (EvidenceMissing missing))"

text \<open>When each guard lets the call pass.\<close>

lemma require_None [guard_simps]:
  "require_not_terminal w = None \<longleftrightarrow> wo_status w \<noteq> COMPLETED \<and> wo_status w \<noteq> CANCELLED"
  "require_coordinator_if_present actor w = None \<longleftrightarrow>
     wo_coordinator_id w = None \<or> actor = wo_coordinator_id w"
  "require_assignee executor w = None \<longleftrightarrow> wo_assignee_id w = Some executor"
  "require_executor_id executor = None \<longleftrightarrow> executor \<noteq> []"
  "require_status allowed w = None \<longleftrightarrow> wo_status w \<in> set allowed"
  "require_pool_mode mode w = None \<longleftrightarrow> wo_status w = POOL_OPEN \<and> wo_pool_mode w = Some mode"
  "validate_report report w = None \<longleftrightarrow> missing_evidence (wo_evidence w) report = []"
  by (auto simp: require_not_terminal_def require_coordinator_if_present_def require_assignee_def
      require_executor_id_def require_status_def require_pool_mode_def validate_report_def
      TERMINAL_STATUSES_def Let_def check_def)

section \<open>Methods\<close>

text \<open>The constructor's check (\<open>__post_init__\<close>) and the factory method \<open>create\<close>.\<close>

definition work_order_init :: "work_order \<Rightarrow> work_order result" where
  "work_order_init w =
     (if wo_id w = [] \<or> wo_public_number w = [] \<or> wo_organization_id w = [] \<or> wo_work_type w = []
      then Inl (ValueError ''id, public_number, organization_id and work_type are required'')
      else Inr w)"

record submission =
  sub_order_id :: string
  sub_organization_id :: string
  sub_work_type :: string
  sub_source :: string
  sub_details :: "(string, json) dict"
  sub_requester_id :: "string option"
  sub_evidence :: "evidence_requirements option"

definition wo_create :: "submission \<Rightarrow> string \<Rightarrow> stamp \<Rightarrow> work_order result" where
  "wo_create sub number st =
     result_bind
       (work_order_init
         \<lparr>wo_id = sub_order_id sub, wo_public_number = number,
          wo_organization_id = sub_organization_id sub, wo_work_type = sub_work_type sub,
          wo_source = sub_source sub, wo_details = sub_details sub,
          wo_requester_id = sub_requester_id sub, wo_coordinator_id = None,
          wo_evidence = (case sub_evidence sub of None \<Rightarrow> default_evidence | Some e \<Rightarrow> e),
          wo_status = SUBMITTED, wo_pool_mode = None, wo_assignee_id = None,
          wo_pool_responses = [], wo_report = None, wo_version = 0,
          wo_created_at = st_now st, wo_updated_at = st_now st, wo_events = []\<rparr>)
       (\<lambda>w. Inr (wo_record ''work_order.submitted''
          [(''public_number'', JStr number), (''source'', JStr (sub_source sub)),
           (''requester_id'', opt_str (sub_requester_id sub))] st w))"

definition claim_coordination :: "string \<Rightarrow> stamp \<Rightarrow> work_order \<Rightarrow> work_order result" where
  [op_defs]: "claim_coordination coordinator st w =
     raise_first
       [require_not_terminal w,
        check (coordinator \<noteq> []) (ValueError ''coordinator_id is required'')]
       (if wo_coordinator_id w = Some coordinator then Inr w
        else if wo_coordinator_id w \<noteq> None
        then Inl (InvalidTransition ''work order is coordinated by another actor'')
        else Inr (wo_record ''work_order.coordination_claimed''
               [(''coordinator_id'', JStr coordinator)] st
               (w\<lparr>wo_coordinator_id := Some coordinator\<rparr>)))"

definition publish_pool :: "pool_mode \<Rightarrow> string option \<Rightarrow> stamp \<Rightarrow> work_order \<Rightarrow> work_order result" where
  [op_defs]: "publish_pool mode actor st w =
     raise_first [require_status [SUBMITTED] w, require_coordinator_if_present actor w]
       (Inr (wo_record ''work_order.pool_published''
          [(''mode'', JStr (pool_mode_value mode)), (''actor_id'', opt_str actor)] st
          (w\<lparr>wo_pool_mode := Some mode, wo_status := POOL_OPEN\<rparr>)))"

definition put_response ::
  "string \<Rightarrow> pool_response_status \<Rightarrow> stamp \<Rightarrow> work_order \<Rightarrow> work_order" where
  "put_response executor s st w =
     w\<lparr>wo_pool_responses := dict_put executor
          \<lparr>pr_executor_id = executor, pr_status = s, pr_responded_at = st_now st\<rparr>
          (wo_pool_responses w)\<rparr>"

definition response_of :: "string \<Rightarrow> work_order \<Rightarrow> pool_response_status option" where
  "response_of executor w = map_option pr_status (dict_get executor (wo_pool_responses w))"

definition express_interest :: "string \<Rightarrow> stamp \<Rightarrow> work_order \<Rightarrow> work_order result" where
  [op_defs]: "express_interest executor st w =
     raise_first [require_pool_mode CURATED w, require_executor_id executor]
       (if response_of executor w = Some INTERESTED then Inr w
        else Inr (wo_record ''work_order.pool_interest_recorded''
               [(''executor_id'', JStr executor)] st (put_response executor INTERESTED st w)))"

definition withdraw_interest :: "string \<Rightarrow> stamp \<Rightarrow> work_order \<Rightarrow> work_order result" where
  [op_defs]: "withdraw_interest executor st w =
     raise_first
       [require_pool_mode CURATED w,
        check (response_of executor w = Some INTERESTED)
          (InvalidTransition ''executor has no active interest'')]
       (Inr (wo_record ''work_order.pool_interest_withdrawn''
          [(''executor_id'', JStr executor)] st (put_response executor WITHDRAWN st w)))"

definition claim_first :: "string \<Rightarrow> stamp \<Rightarrow> work_order \<Rightarrow> work_order result" where
  [op_defs]: "claim_first executor st w =
     raise_first [require_pool_mode FIRST_CLAIM w, require_executor_id executor]
       (Inr (wo_record ''work_order.first_claim_won'' [(''executor_id'', JStr executor)] st
          (put_response executor SELECTED st
            (w\<lparr>wo_assignee_id := Some executor, wo_status := ASSIGNED\<rparr>))))"

text \<open>\<open>_resolve_curated_responses\<close> rewrites the interested responses in place.\<close>

definition resolve_curated_responses :: "string \<Rightarrow> stamp \<Rightarrow> work_order \<Rightarrow> work_order" where
  "resolve_curated_responses selected st w =
     w\<lparr>wo_pool_responses := map (\<lambda>(executor, response).
          (executor,
           if pr_status response \<noteq> INTERESTED then response
           else \<lparr>pr_executor_id = executor,
                 pr_status = (if executor = selected then SELECTED else REJECTED),
                 pr_responded_at = st_now st\<rparr>)) (wo_pool_responses w)\<rparr>"

definition wo_assign :: "string \<Rightarrow> string option \<Rightarrow> stamp \<Rightarrow> work_order \<Rightarrow> work_order result" where
  [op_defs]: "wo_assign executor actor st w =
     raise_first
       [require_status [SUBMITTED, POOL_OPEN] w, require_coordinator_if_present actor w,
        require_executor_id executor]
       (let w1 = w\<lparr>wo_assignee_id := Some executor, wo_status := ASSIGNED\<rparr>;
            w2 = (if wo_pool_mode w1 = Some CURATED
                  then resolve_curated_responses executor st w1 else w1)
        in Inr (wo_record ''work_order.assigned''
             [(''executor_id'', JStr executor), (''actor_id'', opt_str actor)] st w2))"

definition wo_accept :: "string \<Rightarrow> stamp \<Rightarrow> work_order \<Rightarrow> work_order result" where
  [op_defs]: "wo_accept executor st w =
     raise_first [require_status [ASSIGNED] w, require_assignee executor w]
       (Inr (wo_record ''work_order.accepted'' [(''executor_id'', JStr executor)] st
          (w\<lparr>wo_status := ACCEPTED\<rparr>)))"

definition reject_assignment :: "string \<Rightarrow> stamp \<Rightarrow> work_order \<Rightarrow> work_order result" where
  [op_defs]: "reject_assignment executor st w =
     raise_first [require_status [ASSIGNED] w, require_assignee executor w]
       (let w1 = (if response_of executor w \<noteq> None then put_response executor WITHDRAWN st w else w);
            w2 = w1\<lparr>wo_assignee_id := None,
                     wo_status := (if wo_pool_mode w1 \<noteq> None then POOL_OPEN else SUBMITTED)\<rparr>
        in Inr (wo_record ''work_order.assignment_rejected''
             [(''executor_id'', JStr executor)] st w2))"

definition wo_start_travel :: "string \<Rightarrow> stamp \<Rightarrow> work_order \<Rightarrow> work_order result" where
  [op_defs]: "wo_start_travel executor st w =
     raise_first [require_assignee executor w, require_status [ACCEPTED] w]
       (Inr (wo_record ''work_order.travel_started'' [(''executor_id'', JStr executor)] st
          (w\<lparr>wo_status := EN_ROUTE\<rparr>)))"

definition wo_start_work :: "string \<Rightarrow> stamp \<Rightarrow> work_order \<Rightarrow> work_order result" where
  [op_defs]: "wo_start_work executor st w =
     raise_first [require_assignee executor w, require_status [ACCEPTED, EN_ROUTE] w]
       (Inr (wo_record ''work_order.started'' [(''executor_id'', JStr executor)] st
          (w\<lparr>wo_status := IN_PROGRESS\<rparr>)))"

definition wo_complete ::
  "string \<Rightarrow> completion_report \<Rightarrow> stamp \<Rightarrow> work_order \<Rightarrow> work_order result" where
  [op_defs]: "wo_complete executor report st w =
     raise_first
       [require_assignee executor w, require_status [IN_PROGRESS] w, validate_report report w]
       (Inr (wo_record ''work_order.completed''
          [(''executor_id'', JStr executor),
           (''photo_count'', JInt (int (length (photo_refs report))))] st
          (w\<lparr>wo_report := Some report, wo_status := COMPLETED\<rparr>)))"

definition wo_cancel :: "string \<Rightarrow> string option \<Rightarrow> stamp \<Rightarrow> work_order \<Rightarrow> work_order result" where
  [op_defs]: "wo_cancel reason actor st w =
     raise_first
       [require_not_terminal w, require_coordinator_if_present actor w,
        check (\<not> (reason = [] \<or> str_strip reason = []))
          (ValueError ''cancellation reason is required'')]
       (Inr (wo_record ''work_order.cancelled''
          [(''reason'', JStr (str_strip reason)), (''actor_id'', opt_str actor)] st
          (w\<lparr>wo_status := CANCELLED\<rparr>)))"

definition interested_executor_ids :: "work_order \<Rightarrow> string list" where
  "interested_executor_ids w =
     map fst (filter (\<lambda>(_, r). pr_status r = INTERESTED) (wo_pool_responses w))"

definition wo_pull_events :: "work_order \<Rightarrow> domain_event list \<times> work_order" where
  "wo_pull_events w = (wo_events w, w\<lparr>wo_events := []\<rparr>)"

end
