(* ===== verification/Tokens.thy ===== *)
theory Tokens
  imports Sha256
begin

text \<open>
  Signed tokens of the transports (\<open>transports/common.py\<close>): callback data that carries an
  identifier and a truncated HMAC, the bearer token of an executor, and the grouping of buttons
  into rows. \<open>compare_digest\<close> of the standard library compares ASCII strings and raises for others.
\<close>

section \<open>Standard library functions\<close>

fun split_max :: "nat \<Rightarrow> char \<Rightarrow> string \<Rightarrow> string list" where
  "split_max 0 c s = [s]"
| "split_max (Suc n) c s =
     (case dropWhile (\<lambda>x. x \<noteq> c) s of
        [] \<Rightarrow> [s]
      | _ # rest \<Rightarrow> takeWhile (\<lambda>x. x \<noteq> c) s # split_max n c rest)"

definition is_ascii :: "string \<Rightarrow> bool" where
  "is_ascii s = list_all (\<lambda>c. code_point c < 128) s"

definition compare_digest :: "string \<Rightarrow> string \<Rightarrow> bool result" where
  "compare_digest a b =
     (if is_ascii a \<and> is_ascii b then Inr (a = b)
      else Inl (TypeError ''comparing strings with non-ASCII characters is not supported''))"

text \<open>
  \<open>int(str)\<close>: white space around, one sign, digits with single underscores between them, at most
  4300 digits.
\<close>

fun int_digits :: "string \<Rightarrow> string option" where
  "int_digits [] = None"
| "int_digits [c] = (if is_ascii_digit c then Some [c] else None)"
| "int_digits (c # d # s) =
     (if \<not> is_ascii_digit c then None
      else map_option ((#) c) (int_digits (if d = CHR ''_'' then s else d # s)))"

definition unsigned_int :: "string \<Rightarrow> int option" where
  "unsigned_int s =
     (case int_digits s of
        None \<Rightarrow> None
      | Some ds \<Rightarrow> if length ds > 4300 then None else Some (int (digits_value ds)))"

definition parse_int :: "string \<Rightarrow> int option" where
  "parse_int s =
     (case str_strip s of
        [] \<Rightarrow> None
      | c # t \<Rightarrow> if c = CHR ''-'' then map_option uminus (unsigned_int t)
          else if c = CHR ''+'' then unsigned_int t else unsigned_int (c # t))"

section \<open>Callback data\<close>

definition CALLBACK_VERSION :: string where "CALLBACK_VERSION = ''dc2''"
definition CALLBACK_LEGACY_VERSION :: string where "CALLBACK_LEGACY_VERSION = ''dc1''"
definition EXECUTOR_TOKEN_VERSION :: string where "EXECUTOR_TOKEN_VERSION = ''dt1''"
definition CALLBACK_DATA_MAX :: nat where "CALLBACK_DATA_MAX = 64"
definition CALLBACK_SIG_LEN :: nat where "CALLBACK_SIG_LEN = 16"

definition hmac_hex :: "string \<Rightarrow> string \<Rightarrow> string" where
  "hmac_hex token secret = hex (hmac_sha256 (utf8 secret) (utf8 token))"

definition encode_callback :: "string \<Rightarrow> string \<Rightarrow> string result" where
  "encode_callback token secret =
     raise_first
       [check (\<not> (token = [] \<or> length token > 38))
          (ValueError ''callback token length must be between 1 and 38''),
        check (CHR '':'' \<notin> set token) (ValueError ''callback token must not contain colon''),
        check (secret \<noteq> []) (ValueError ''signing_secret is required'')]
       (let sig = take CALLBACK_SIG_LEN (hmac_hex token secret);
            res = CALLBACK_VERSION @ '':'' @ token @ '':'' @ sig
        in if length res > CALLBACK_DATA_MAX
           then Inl (ValueError ''callback data exceeds Telegram limit'') else Inr res)"

definition decode_v2 :: "string \<Rightarrow> string option \<Rightarrow> string option result" where
  "decode_v2 v secret =
     (case split_max 2 (CHR '':'') v of
        [_, token, sig] \<Rightarrow>
          if token = [] \<or> length token > 38 then Inr None
          else if sig = [] \<or> \<not> (length sig = CALLBACK_SIG_LEN \<or> length sig = 64) then Inr None
          else (case secret of
              None \<Rightarrow> Inr None
            | Some sec \<Rightarrow>
                if sec = [] then Inr None
                else result_bind (compare_digest sig (take (length sig) (hmac_hex token sec)))
                  (\<lambda>same. Inr (if same then Some token else None)))
      | _ \<Rightarrow> Inr None)"

definition decode_legacy :: "string \<Rightarrow> string option" where
  "decode_legacy v =
     (let token = drop (length CALLBACK_LEGACY_VERSION + 1) v
      in if token \<noteq> [] \<and> length token \<le> 48 then Some token else None)"

definition decode_callback :: "json \<Rightarrow> string option \<Rightarrow> string option result" where
  "decode_callback v secret =
     (case v of
        JStr s \<Rightarrow>
          if str_starts_with (CALLBACK_VERSION @ '':'') s then decode_v2 s secret
          else if str_starts_with (CALLBACK_LEGACY_VERSION @ '':'') s then Inr (decode_legacy s)
          else Inr None
      | _ \<Rightarrow> Inr None)"

section \<open>Executor tokens\<close>

definition executor_payload :: "string \<Rightarrow> string \<Rightarrow> int \<Rightarrow> string" where
  "executor_payload org actor expires = org @ '':'' @ actor @ '':'' @ int_str expires"

text \<open>The clock gives microseconds; \<open>int(time.time())\<close> drops them.\<close>

definition encode_executor_token ::
  "string \<Rightarrow> string \<Rightarrow> string \<Rightarrow> int \<Rightarrow> instant \<Rightarrow> (string \<times> int) result" where
  "encode_executor_token org actor secret ttl now =
     raise_first
       [check (\<not> (org = [] \<or> actor = [])) (ValueError ''organization_id and actor_id are required''),
        check (\<not> (CHR '':'' \<in> set org \<or> CHR '':'' \<in> set actor))
          (ValueError ''organization_id and actor_id must not contain colon'')]
       (let expires = now div 1000000 + ttl;
            sig = hmac_hex (executor_payload org actor expires) secret
        in Inr (EXECUTOR_TOKEN_VERSION @ '':'' @ executor_payload org actor expires @ '':'' @ sig,
                expires))"

definition decode_executor_token ::
  "json \<Rightarrow> string option \<Rightarrow> instant \<Rightarrow> (string \<times> string) option result" where
  "decode_executor_token v secret now =
     (case v of
        JStr s \<Rightarrow>
          if \<not> str_starts_with (EXECUTOR_TOKEN_VERSION @ '':'') s then Inr None
          else (case split_max 4 (CHR '':'') s of
              [_, org, actor, expires_str, sig] \<Rightarrow>
                if org = [] \<or> actor = [] then Inr None
                else if sig = [] \<or> length sig \<noteq> 64 then Inr None
                else (case parse_int expires_str of
                    None \<Rightarrow> Inr None
                  | Some expires \<Rightarrow>
                      if now > seconds expires then Inr None
                      else (case secret of
                          None \<Rightarrow> Inr None
                        | Some sec \<Rightarrow>
                            if sec = [] then Inr None
                            else result_bind
                              (compare_digest sig (hmac_hex (executor_payload org actor expires) sec))
                              (\<lambda>same. Inr (if same then Some (org, actor) else None))))
            | _ \<Rightarrow> Inr None)
      | _ \<Rightarrow> Inr None)"

section \<open>Splitting and reading back\<close>

lemma split_max_join [simp]: "c \<notin> set a \<Longrightarrow> split_max (Suc n) c (a @ c # rest) = a # split_max n c rest"
proof -
  assume "c \<notin> set a"
  then have "dropWhile (\<lambda>x. x \<noteq> c) (a @ c # rest) = c # rest"
    "takeWhile (\<lambda>x. x \<noteq> c) (a @ c # rest) = a" by (induction a) auto
  then show ?thesis by simp
qed

lemma split_max_Cons:
  assumes "split_max (Suc n) c s = x # y # zs"
  shows "\<exists>rest. s = x @ c # rest \<and> c \<notin> set x \<and> split_max n c rest = y # zs"
proof (cases "dropWhile (\<lambda>x. x \<noteq> c) s")
  case (Cons d rest)
  have "d = c" using hd_dropWhile[of "\<lambda>x. x \<noteq> c" s] Cons by auto
  moreover have "takeWhile (\<lambda>x. x \<noteq> c) s @ d # rest = s"
    using takeWhile_dropWhile_id[of "\<lambda>x. x \<noteq> c" s] Cons by simp
  moreover have "c \<notin> set (takeWhile (\<lambda>x. x \<noteq> c) s)" by (auto dest: set_takeWhileD)
  ultimately show ?thesis using assms Cons by auto
next
  case Nil
  have "split_max (Suc n) c s = [s]" by (simp only: split_max.simps Nil list.case)
  with assms show ?thesis by simp
qed

lemma split_max_0 [simp]: "split_max 0 c s = [x] \<longleftrightarrow> x = s"
  by auto

lemma hex_ascii: "is_ascii (hex bs)"
proof -
  have h: "code_point (hex_digit n) < 128" if "n < 16" for n
  proof -
    have "n \<in> set [0..<16]" using that by simp
    then show ?thesis by (auto simp: hex_digit_def upt_rec code_point_def)
  qed
  have "list_all (\<lambda>c. code_point c < 128) (hex_byte b)" for b
  proof -
    have "unat b < 256" using unsigned_less[of b] by simp
    then have "unat b div 16 < 16" by linarith
    then show ?thesis using h by (simp add: hex_byte_def)
  qed
  then show ?thesis by (induction bs) (auto simp: is_ascii_def hex_def)
qed

lemma hmac_hex_facts [simp]:
  "length (hmac_hex t s) = 64" "is_ascii (hmac_hex t s)" "CHR '':'' \<notin> set (hmac_hex t s)"
  "hmac_hex t s \<noteq> []"
  using hex_ascii hex_no_colon by (auto simp: hmac_hex_def simp flip: length_greater_0_conv)

lemma is_ascii_take [simp]: "is_ascii s \<Longrightarrow> is_ascii (take n s)"
  by (auto simp: is_ascii_def list_all_iff dest: in_set_takeD)

lemma int_digits_all: "s \<noteq> [] \<Longrightarrow> list_all is_ascii_digit s \<Longrightarrow> int_digits s = Some s"
  by (induction s rule: int_digits.induct) (auto simp: is_ascii_digit_def code_point_def)

lemma digit_not_space: "is_ascii_digit c \<Longrightarrow> \<not> is_space c"
  by (auto simp: is_ascii_digit_def is_space_def Let_def)

lemma strip_nonspace: "s \<noteq> [] \<Longrightarrow> \<not> is_space (hd s) \<Longrightarrow> \<not> is_space (last s) \<Longrightarrow> str_strip s = s"
proof -
  assume s: "s \<noteq> []" "\<not> is_space (hd s)" "\<not> is_space (last s)"
  have "dropWhile is_space s = s" using s by (cases s) auto
  moreover have "dropWhile is_space (rev s) = rev s" using s by (cases s rule: rev_cases) auto
  ultimately show ?thesis by (simp add: str_strip_def)
qed

lemma parse_int_nat_str:
  assumes "length (nat_str n) \<le> 4300"
  shows "parse_int (nat_str n) = Some (int n)"
proof -
  have d: "list_all is_ascii_digit (nat_str n)" using nat_str_digits by (simp add: list_all_iff)
  then have "str_strip (nat_str n) = nat_str n"
    by (intro strip_nonspace) (auto simp: list_all_iff digit_not_space)
  moreover have "unsigned_int (nat_str n) = Some (int n)"
    using int_digits_all[OF _ d] assms by (simp add: unsigned_int_def)
  moreover have "c \<noteq> CHR ''-'' \<and> c \<noteq> CHR ''+''" if "nat_str n = c # t" for c t
    using d that by (auto simp: is_ascii_digit_def code_point_def)
  ultimately show ?thesis
    by (cases "nat_str n") (auto simp: parse_int_def)
qed

lemma nat_str_no_colon: "CHR '':'' \<notin> set (nat_str n)"
  using nat_str_digits[of "CHR '':''" n] by (auto simp: is_ascii_digit_def code_point_def)

lemma executor_token_decodes:
  assumes "encode_executor_token org actor secret ttl now = Inr (v, expires)"
    and "secret \<noteq> []" and "0 \<le> expires" and "length (nat_str (nat expires)) \<le> 4300"
  shows "decode_executor_token (JStr v) (Some secret) now' =
    Inr (if now' \<le> seconds expires then Some (org, actor) else None)"
proof -
  let ?sig = "hmac_hex (executor_payload org actor expires) secret"
  have e: "org \<noteq> []" "actor \<noteq> []" "CHR '':'' \<notin> set org" "CHR '':'' \<notin> set actor"
    and v: "v = ''dt1'' @ CHR '':'' # org @ CHR '':'' # actor @ CHR '':'' # nat_str (nat expires) @ CHR '':'' # ?sig"
    using assms by (auto simp: encode_executor_token_def Let_def executor_payload_def int_str_def
        EXECUTOR_TOKEN_VERSION_def split: if_splits)
  have n: "4 = Suc (Suc (Suc (Suc 0)))" by simp
  have "split_max 4 (CHR '':'') v = [''dt1'', org, actor, nat_str (nat expires), ?sig]"
    unfolding v n using e nat_str_no_colon split_max_join[of "CHR '':''" "''dt1''" "Suc (Suc (Suc 0))"]
    by (simp del: split_max.simps)
  then show ?thesis
    using e v assms parse_int_nat_str[of "nat expires"]
    by (simp add: decode_executor_token_def str_starts_with_def EXECUTOR_TOKEN_VERSION_def
        compare_digest_def)
qed

section \<open>Properties\<close>

text \<open>
  Callback data round trip: what was signed for a token decodes to that token under the same
  secret, and it never exceeds the 64 bytes that the transports allow.
\<close>

lemma callback_roundtrip:
  assumes "encode_callback token secret = Inr v"
  shows "decode_callback (JStr v) (Some secret) = Inr (Some token) \<and> length v \<le> 64"
proof -
  have v: "v = ''dc2'' @ '':'' @ token @ '':'' @ take 16 (hmac_hex token secret)" and
    t: "token \<noteq> []" "length token \<le> 38" "CHR '':'' \<notin> set token" "secret \<noteq> []"
    using assms by (auto simp: encode_callback_def Let_def CALLBACK_VERSION_def CALLBACK_SIG_LEN_def
        split: if_splits)
  have "split_max 2 (CHR '':'') v = [''dc2'', token, take 16 (hmac_hex token secret)]"
    using t split_max_join[of "CHR '':''" "''dc2''" 1] split_max_join[of "CHR '':''" token 0]
    by (simp add: v numeral_2_eq_2)
  then have "decode_v2 v (Some secret) = Inr (Some token)"
    using t by (simp add: decode_v2_def compare_digest_def CALLBACK_SIG_LEN_def flip: length_greater_0_conv)
  then show ?thesis
    using v t by (simp add: decode_callback_def str_starts_with_def CALLBACK_VERSION_def)
qed

lemma callback_roundtrip_witness:
  "\<exists>v. encode_callback ''abc'' ''key'' = Inr v \<and> decode_callback (JStr v) (Some ''key'') = Inr (Some ''abc'')"
proof -
  obtain v where "encode_callback ''abc'' ''key'' = Inr v"
    by (simp add: encode_callback_def Let_def CALLBACK_VERSION_def CALLBACK_SIG_LEN_def
        CALLBACK_DATA_MAX_def)
  with callback_roundtrip[OF this] show ?thesis by blast
qed

text \<open>
  (C20) Callback data of the current version is accepted only with the signature of its token: the
  decoded token is the middle part, has 1 to 38 characters, and the last part is the truncated or
  the whole HMAC of it under the configured secret.
\<close>

theorem callback_authentic:
  assumes "decode_callback (JStr v) secret = Inr (Some token)" and "take 4 v \<noteq> ''dc1:''"
  shows "\<exists>sec n. secret = Some sec \<and> sec \<noteq> [] \<and> n \<in> {16, 64} \<and> token \<noteq> [] \<and> length token \<le> 38 \<and>
    v = ''dc2:'' @ token @ '':'' @ take n (hmac_hex token sec)"
proof -
  have p: "take 4 v = ''dc2:''" and d: "decode_v2 v secret = Inr (Some token)"
    using assms by (auto simp: decode_callback_def str_starts_with_def CALLBACK_VERSION_def
        CALLBACK_LEGACY_VERSION_def eval_nat_numeral split: if_splits)
  obtain pre sig sec where s: "split_max (Suc (Suc 0)) (CHR '':'') v = [pre, token, sig]" and
    t: "token \<noteq> []" "length token \<le> 38" "length sig = 16 \<or> length sig = 64" "secret = Some sec" "sec \<noteq> []"
    "compare_digest sig (take (length sig) (hmac_hex token sec)) = Inr True"
    using d by (auto simp: decode_v2_def CALLBACK_SIG_LEN_def numeral_2_eq_2 split: list.splits if_splits option.splits)
  obtain rest where r: "v = pre @ CHR '':'' # rest" "CHR '':'' \<notin> set pre"
      "split_max (Suc 0) (CHR '':'') rest = [token, sig]"
    using split_max_Cons[OF s] by auto
  obtain rest2 where r2: "rest = token @ CHR '':'' # rest2" "split_max 0 (CHR '':'') rest2 = [sig]"
    using split_max_Cons[OF r(3)] by auto
  have "pre = ''dc2''"
  proof -
    have "takeWhile (\<lambda>x. x \<noteq> CHR '':'') v = pre" using r by (induction pre arbitrary: v) auto
    moreover have "takeWhile (\<lambda>x. x \<noteq> CHR '':'') (''dc2:'' @ drop 4 v) = ''dc2''" by simp
    moreover have "v = ''dc2:'' @ drop 4 v" using p append_take_drop_id[of 4 v] by simp
    ultimately show ?thesis by metis
  qed
  moreover have "sig = take (length sig) (hmac_hex token sec)"
    using t(6) by (auto simp: compare_digest_def split: if_splits)
  ultimately show ?thesis using r r2 t by (intro exI[of _ sec] exI[of _ "length sig"]) auto
qed

theorem callback_authentic_witness:
  "\<exists>v. decode_callback (JStr v) (Some ''key'') = Inr (Some ''abc'') \<and>
     (\<exists>n. v = ''dc2:'' @ ''abc'' @ '':'' @ take n (hmac_hex ''abc'' ''key''))"
proof -
  let ?v = "''dc2:abc:'' @ take 16 (hmac_hex ''abc'' ''key'')"
  have "decode_callback (JStr ?v) (Some ''key'') = Inr (Some ''abc'')"
    by (simp add: decode_callback_def decode_v2_def str_starts_with_def CALLBACK_VERSION_def
        numeral_2_eq_2 compare_digest_def CALLBACK_SIG_LEN_def flip: length_greater_0_conv)
  from callback_authentic[OF this] this show ?thesis by auto
qed

text \<open>
  Executor token round trip: until it expires, the issued token authenticates exactly the
  actor of the organization it was issued for.
\<close>

lemma executor_token_roundtrip:
  assumes "encode_executor_token org actor secret ttl now = Inr (v, expires)"
    and "secret \<noteq> []" and "0 \<le> expires" and "length (nat_str (nat expires)) \<le> 4300"
  shows "decode_executor_token (JStr v) (Some secret) now' =
    Inr (if now' \<le> seconds expires then Some (org, actor) else None)"
  using assms by (rule executor_token_decodes)

lemma executor_token_roundtrip_witness:
  "\<exists>v. encode_executor_token ''acme'' ''m1'' ''key'' 3600 5000000 = Inr (v, 3605) \<and>
     decode_executor_token (JStr v) (Some ''key'') 6000000 = Inr (Some (''acme'', ''m1'')) \<and>
     decode_executor_token (JStr v) (Some ''key'') 3605000001 = Inr None"
proof -
  obtain v where v: "encode_executor_token ''acme'' ''m1'' ''key'' 3600 5000000 = Inr (v, 3605)"
    by (simp add: encode_executor_token_def Let_def)
  have "length (nat_str (nat 3605)) \<le> 4300" by (simp add: nat_str.simps)
  from executor_token_roundtrip[OF v _ _ this] v show ?thesis by auto
qed

text \<open>
  A bearer token is accepted only if its signature is the HMAC of the organization, the actor
  and the instant of expiry it names, that instant has not passed, and organization and actor
  contain no separator, so that the signed text determines all three.
\<close>

lemma executor_token_authentic:
  assumes "decode_executor_token v secret now = Inr (Some (org, actor))"
  shows "\<exists>sec expires pre. secret = Some sec \<and> sec \<noteq> [] \<and> now \<le> seconds expires \<and>
    v = JStr (pre @ '':'' @ hmac_hex (executor_payload org actor expires) sec) \<and>
    CHR '':'' \<notin> set org \<and> CHR '':'' \<notin> set actor"
proof -
  obtain s where s: "v = JStr s" using assms by (auto simp: decode_executor_token_def split: json.splits)
  have n: "4 = Suc (Suc (Suc (Suc 0)))" by simp
  obtain dt es sig sec expires where
    sp: "split_max (Suc (Suc (Suc (Suc 0)))) (CHR '':'') s = [dt, org, actor, es, sig]" and
    t: "secret = Some sec" "sec \<noteq> []" "\<not> now > seconds expires"
      "compare_digest sig (hmac_hex (executor_payload org actor expires) sec) = Inr True"
    using assms unfolding s
    by (auto simp: decode_executor_token_def n simp del: split_max.simps
        split: list.splits if_splits option.splits)
  obtain r1 where r1: "s = dt @ CHR '':'' # r1"
      "split_max (Suc (Suc (Suc 0))) (CHR '':'') r1 = [org, actor, es, sig]"
    using split_max_Cons[OF sp] by auto
  obtain r2 where r2: "r1 = org @ CHR '':'' # r2" "CHR '':'' \<notin> set org"
      "split_max (Suc (Suc 0)) (CHR '':'') r2 = [actor, es, sig]"
    using split_max_Cons[OF r1(2)] by auto
  obtain r3 where r3: "r2 = actor @ CHR '':'' # r3" "CHR '':'' \<notin> set actor"
      "split_max (Suc 0) (CHR '':'') r3 = [es, sig]"
    using split_max_Cons[OF r2(3)] by auto
  obtain r4 where r4: "r3 = es @ CHR '':'' # r4" "split_max 0 (CHR '':'') r4 = [sig]"
    using split_max_Cons[OF r3(3)] by auto
  have "sig = hmac_hex (executor_payload org actor expires) sec"
    using t(4) by (auto simp: compare_digest_def split: if_splits)
  then show ?thesis
    using s t r1 r2 r3 r4
    by (intro exI[of _ sec] exI[of _ expires]
        exI[of _ "dt @ '':'' @ org @ '':'' @ actor @ '':'' @ es"]) auto
qed

lemma executor_token_authentic_witness:
  "\<exists>v pre expires. decode_executor_token (JStr v) (Some ''key'') 6000000 = Inr (Some (''acme'', ''m1'')) \<and>
     v = pre @ '':'' @ hmac_hex (executor_payload ''acme'' ''m1'' expires) ''key''"
proof -
  let ?v = "''dt1:acme:m1:3605:'' @ hmac_hex (executor_payload ''acme'' ''m1'' 3605) ''key''"
  have p: "parse_int ''3605'' = Some 3605"
    using parse_int_nat_str[of 3605] by (simp add: nat_str.simps digit_char_def char_of_def bit_Suc_0_iff)
  have d: "decode_executor_token (JStr ?v) (Some ''key'') 6000000 = Inr (Some (''acme'', ''m1''))"
    by (simp add: decode_executor_token_def str_starts_with_def EXECUTOR_TOKEN_VERSION_def
        eval_nat_numeral compare_digest_def p)
  from executor_token_authentic[OF d] d show ?thesis by auto
qed

text \<open>
  A token whose signature part has the right length but a character outside ASCII is not
  rejected: the comparison raises, for executor tokens and for callback data alike.
\<close>

lemma non_ascii_signature_raises:
  "decode_executor_token (JStr (''dt1:acme:m1:99999:'' @ replicate 64 (char_of (233::nat)))) (Some ''key'') 0
     = Inl (TypeError ''comparing strings with non-ASCII characters is not supported'') \<and>
   decode_callback (JStr (''dc2:abc:'' @ replicate 16 (char_of (233::nat)))) (Some ''key'')
     = Inl (TypeError ''comparing strings with non-ASCII characters is not supported'')"
proof
  have p: "parse_int ''99999'' = Some 99999"
    using parse_int_nat_str[of 99999] by (simp add: nat_str.simps digit_char_def char_of_def bit_Suc_0_iff)
  have a: "\<not> is_ascii (replicate (Suc n) (char_of (233::nat)))" for n
    by (simp add: is_ascii_def code_point_def)
  show "decode_executor_token (JStr (''dt1:acme:m1:99999:'' @ replicate 64 (char_of (233::nat)))) (Some ''key'') 0
     = Inl (TypeError ''comparing strings with non-ASCII characters is not supported'')"
    using a[of 63]
    by (simp add: decode_executor_token_def str_starts_with_def EXECUTOR_TOKEN_VERSION_def
        eval_nat_numeral compare_digest_def p)
  show "decode_callback (JStr (''dc2:abc:'' @ replicate 16 (char_of (233::nat)))) (Some ''key'')
     = Inl (TypeError ''comparing strings with non-ASCII characters is not supported'')"
    using a[of 15]
    by (simp add: decode_callback_def decode_v2_def str_starts_with_def CALLBACK_VERSION_def
        numeral_2_eq_2 compare_digest_def CALLBACK_SIG_LEN_def)
qed

end
