(* ===== verification/Packs.thy ===== *)
theory Packs
  imports Work_Order Tokens
begin

text \<open>
  Industry packs (\<open>packs/catalog.py\<close>): field definitions, branding, the service catalog and the
  pack definition with their JSON form. The default role labels and the built-in packs are
  arguments, because their texts are outside the string model; a document whose text fields are
  not texts is outside the model too (\<open>TypeError\<close>).
\<close>

section \<open>Reading JSON\<close>

definition get_default :: "string \<Rightarrow> json \<Rightarrow> (string, json) dict \<Rightarrow> json" where
  "get_default k dflt d = (case dict_get k d of None \<Rightarrow> dflt | Some v \<Rightarrow> v)"

definition get_required :: "string \<Rightarrow> (string, json) dict \<Rightarrow> json result" where
  "get_required k d = (case dict_get k d of None \<Rightarrow> Inl (KeyError k) | Some v \<Rightarrow> Inr v)"

fun as_str :: "json \<Rightarrow> string result" where
  "as_str (JStr s) = Inr s"
| "as_str _ = Inl (TypeError ''text expected'')"

fun as_obj :: "json \<Rightarrow> (string, json) dict result" where
  "as_obj (JObj d) = Inr d"
| "as_obj _ = Inl (TypeError ''object expected'')"

fun as_list :: "json \<Rightarrow> json list result" where
  "as_list (JList xs) = Inr xs"
| "as_list _ = Inl (TypeError ''list expected'')"

text \<open>\<open>int(value)\<close> of a JSON value.\<close>

fun as_int :: "json \<Rightarrow> int result" where
  "as_int (JInt n) = Inr n"
| "as_int (JBool b) = Inr (if b then 1 else 0)"
| "as_int (JFloat (Finite q)) = Inr (if q < 0 then - \<lfloor>- q\<rfloor> else \<lfloor>q\<rfloor>)"
| "as_int (JFloat NaN) = Inl (ValueError ''cannot convert float NaN to integer'')"
| "as_int (JFloat _) = Inl (OverflowError ''cannot convert float infinity to integer'')"
| "as_int (JStr s) = (case parse_int s of
     None \<Rightarrow> Inl (ValueError ''invalid literal for int() with base 10'') | Some n \<Rightarrow> Inr n)"
| "as_int _ = Inl (TypeError ''int() argument must be a string or a number'')"

text \<open>\<open>value or ()\<close>\<close>

definition or_empty :: "json \<Rightarrow> json" where
  "or_empty v = (if truthy v then v else JList [])"

lemma or_empty_list [simp]: "or_empty (JList xs) = JList xs"
  by (simp add: or_empty_def)

fun map_result :: "('a \<Rightarrow> 'b result) \<Rightarrow> 'a list \<Rightarrow> 'b list result" where
  "map_result f [] = Inr []"
| "map_result f (x # xs) =
     result_bind (f x) (\<lambda>y. result_bind (map_result f xs) (\<lambda>ys. Inr (y # ys)))"

lemma map_result_all:
  "list_all (\<lambda>x. f (g x) = Inr x) xs \<Longrightarrow> map_result f (map g xs) = Inr xs"
  by (induction xs) auto

lemma map_result_Inr: "map_result f xs = Inr ys \<Longrightarrow> y \<in> set ys \<Longrightarrow> \<exists>x \<in> set xs. f x = Inr y"
  by (induction xs arbitrary: ys) auto

section \<open>Fields\<close>

datatype field_type = FText | FInteger | FAddress | FAssetReference | FRoute | FEnum

fun field_type_value :: "field_type \<Rightarrow> string" where
  "field_type_value FText = ''text''"
| "field_type_value FInteger = ''integer''"
| "field_type_value FAddress = ''address''"
| "field_type_value FAssetReference = ''asset_reference''"
| "field_type_value FRoute = ''route''"
| "field_type_value FEnum = ''enum''"

definition field_type_of :: "string \<Rightarrow> field_type result" where
  "field_type_of s =
     (case find (\<lambda>t. field_type_value t = s)
        [FText, FInteger, FAddress, FAssetReference, FRoute, FEnum] of
        None \<Rightarrow> Inl (ValueError ''not a valid FieldType'') | Some t \<Rightarrow> Inr t)"

lemma field_type_roundtrip [simp]: "field_type_of (field_type_value t) = Inr t"
  by (cases t) (simp_all add: field_type_of_def)

record field_def =
  fd_key :: string
  fd_label :: string
  fd_type :: field_type
  fd_required :: bool
  fd_choices :: "string list"
  fd_prompt :: string
  fd_order :: int

definition make_field :: "field_def \<Rightarrow> field_def result" where
  "make_field f =
     raise_first
       [check (\<not> (fd_key f = [] \<or> fd_label f = [])) (ValueError ''field key and label are required''),
        check (\<not> (fd_type f = FEnum \<and> fd_choices f = [])) (ValueError ''enum field requires choices''),
        check (\<not> (fd_type f \<noteq> FEnum \<and> fd_choices f \<noteq> []))
          (ValueError ''choices are valid only for enum fields'')]
       (Inr f)"

definition field_to_json :: "field_def \<Rightarrow> json" where
  "field_to_json f = JObj
     [(''key'', JStr (fd_key f)), (''label'', JStr (fd_label f)),
      (''type'', JStr (field_type_value (fd_type f))), (''required'', JBool (fd_required f)),
      (''choices'', JList (map JStr (fd_choices f))), (''prompt'', JStr (fd_prompt f)),
      (''order'', JInt (fd_order f))]"

definition field_from_json :: "json \<Rightarrow> field_def result" where
  "field_from_json j =
     result_bind (as_obj j) (\<lambda>d.
     result_bind (result_bind (get_required ''key'' d) as_str) (\<lambda>key.
     result_bind (result_bind (get_required ''label'' d) as_str) (\<lambda>label.
     result_bind (result_bind (result_bind (get_required ''type'' d) as_str) field_type_of) (\<lambda>ty.
     result_bind (result_bind (as_list (or_empty (get_default ''choices'' (JList []) d)))
        (map_result as_str)) (\<lambda>choices.
     result_bind (as_str (get_default ''prompt'' (JStr []) d)) (\<lambda>prompt.
     result_bind (as_int (get_default ''order'' (JInt 0) d)) (\<lambda>order.
       make_field \<lparr>fd_key = key, fd_label = label, fd_type = ty,
         fd_required = truthy (get_default ''required'' (JBool False) d), fd_choices = choices,
         fd_prompt = prompt, fd_order = order\<rparr>)))))))"

section \<open>Branding and the service catalog\<close>

record branding =
  br_name :: string
  br_greeting :: string
  br_support :: string

definition branding_to_json :: "branding \<Rightarrow> json" where
  "branding_to_json b = JObj [(''name'', JStr (br_name b)), (''greeting'', JStr (br_greeting b)),
     (''support'', JStr (br_support b))]"

definition branding_from_json :: "json \<Rightarrow> branding result" where
  "branding_from_json j =
     result_bind (as_obj j) (\<lambda>d.
     result_bind (as_str (get_default ''name'' (JStr []) d)) (\<lambda>name.
     result_bind (as_str (get_default ''greeting'' (JStr []) d)) (\<lambda>greeting.
     result_bind (as_str (get_default ''support'' (JStr []) d)) (\<lambda>support.
       Inr \<lparr>br_name = name, br_greeting = greeting, br_support = support\<rparr>))))"

record service_category =
  sc_key :: string
  sc_label :: string

definition make_category :: "service_category \<Rightarrow> service_category result" where
  "make_category c =
     (if sc_key c = [] \<or> sc_label c = []
      then Inl (ValueError ''service category key and label are required'') else Inr c)"

definition category_to_json :: "service_category \<Rightarrow> json" where
  "category_to_json c = JObj [(''key'', JStr (sc_key c)), (''label'', JStr (sc_label c))]"

definition category_from_json :: "json \<Rightarrow> service_category result" where
  "category_from_json j =
     result_bind (as_obj j) (\<lambda>d.
     result_bind (result_bind (get_required ''key'' d) as_str) (\<lambda>key.
     result_bind (result_bind (get_required ''label'' d) as_str) (\<lambda>label.
       make_category \<lparr>sc_key = key, sc_label = label\<rparr>)))"

record service_catalog =
  cat_categories :: "service_category list"
  cat_multi_select :: bool

definition make_catalog :: "service_catalog \<Rightarrow> service_catalog result" where
  "make_catalog c =
     (if distinct (map sc_key (cat_categories c)) then Inr c
      else Inl (ValueError ''duplicate service category key''))"

definition label_for :: "service_catalog \<Rightarrow> string \<Rightarrow> string" where
  "label_for c key =
     (case find (\<lambda>x. sc_key x = key) (cat_categories c) of None \<Rightarrow> key | Some x \<Rightarrow> sc_label x)"

definition catalog_to_json :: "service_catalog \<Rightarrow> json" where
  "catalog_to_json c = JObj [(''multi_select'', JBool (cat_multi_select c)),
     (''categories'', JList (map category_to_json (cat_categories c)))]"

definition catalog_from_json :: "json \<Rightarrow> service_catalog result" where
  "catalog_from_json j =
     result_bind (as_obj j) (\<lambda>d.
     result_bind (result_bind (as_list (get_default ''categories'' (JList []) d))
        (map_result category_from_json)) (\<lambda>cats.
       make_catalog \<lparr>cat_categories = cats,
         cat_multi_select = truthy (get_default ''multi_select'' (JBool True) d)\<rparr>))"

section \<open>Evidence and the pack definition\<close>

definition evidence_to_json :: "evidence_requirements \<Rightarrow> json" where
  "evidence_to_json e = JObj
     [(''minimum_photos'', JInt (minimum_photos e)), (''comment_required'', JBool (comment_required e)),
      (''signature_required'', JBool (signature_required e)),
      (''customer_code_required'', JBool (customer_code_required e))]"

definition evidence_from_json :: "json \<Rightarrow> evidence_requirements result" where
  "evidence_from_json j =
     result_bind (as_obj j) (\<lambda>d.
     result_bind (as_int (get_default ''minimum_photos'' (JInt 0) d)) (\<lambda>photos.
       make_evidence photos (truthy (get_default ''comment_required'' (JBool False) d))
         (truthy (get_default ''signature_required'' (JBool False) d))
         (truthy (get_default ''customer_code_required'' (JBool False) d))))"

record pack_definition =
  pd_branding :: branding
  pd_catalog :: service_catalog
  pd_fields :: "field_def list"
  pd_evidence :: evidence_requirements
  pd_role_labels :: "(string, string) dict"
  pd_pool_mode :: pool_mode

definition ordered_fields :: "pack_definition \<Rightarrow> field_def list" where
  "ordered_fields p = sort_key (\<lambda>f. (fd_order f, fd_key f)) (pd_fields p)"

definition pool_mode_of :: "string \<Rightarrow> pool_mode result" where
  "pool_mode_of s = (if s = ''curated'' then Inr CURATED else if s = ''first_claim'' then Inr FIRST_CLAIM
     else Inl (ValueError ''not a valid PoolMode''))"

definition pack_to_json :: "pack_definition \<Rightarrow> json" where
  "pack_to_json p = JObj
     [(''branding'', branding_to_json (pd_branding p)),
      (''service_catalog'', catalog_to_json (pd_catalog p)),
      (''fields'', JList (map field_to_json (pd_fields p))),
      (''evidence'', evidence_to_json (pd_evidence p)),
      (''role_labels'', JObj (map (\<lambda>(k, v). (k, JStr v)) (pd_role_labels p))),
      (''lifecycle'', JObj [(''default_pool_mode'', JStr (pool_mode_value (pd_pool_mode p)))])]"

definition update_dict :: "('k, 'v) dict \<Rightarrow> ('k, 'v) dict \<Rightarrow> ('k, 'v) dict" where
  "update_dict d e = fold (\<lambda>(k, v). dict_put k v) e d"

definition labels_from_json :: "json \<Rightarrow> (string, string) dict result" where
  "labels_from_json j =
     (if \<not> truthy j then Inr []
      else result_bind (as_obj j) (map_result (\<lambda>(k, v). result_bind (as_str v) (\<lambda>s. Inr (k, s)))))"

definition pack_from_json :: "(string, string) dict \<Rightarrow> json \<Rightarrow> pack_definition result" where
  "pack_from_json default_labels j =
     result_bind (as_obj j) (\<lambda>d.
     result_bind (as_obj (get_default ''lifecycle'' (JObj []) d)) (\<lambda>lifecycle.
     result_bind (labels_from_json (get_default ''role_labels'' (JObj []) d)) (\<lambda>labels.
     result_bind (branding_from_json (get_default ''branding'' (JObj []) d)) (\<lambda>br.
     result_bind (catalog_from_json (get_default ''service_catalog'' (JObj []) d)) (\<lambda>cat.
     result_bind (result_bind (as_list (get_default ''fields'' (JList []) d))
        (map_result field_from_json)) (\<lambda>fields.
     result_bind (evidence_from_json (get_default ''evidence'' (JObj []) d)) (\<lambda>evidence.
     result_bind (result_bind (as_str (get_default ''default_pool_mode''
        (JStr (pool_mode_value CURATED)) lifecycle)) pool_mode_of) (\<lambda>mode.
       Inr \<lparr>pd_branding = br, pd_catalog = cat, pd_fields = fields, pd_evidence = evidence,
         pd_role_labels = update_dict default_labels labels, pd_pool_mode = mode\<rparr>))))))))"

record industry_pack =
  ip_pack_id :: string
  ip_title :: string
  ip_work_types :: "string list"
  ip_branding :: branding
  ip_catalog :: service_catalog
  ip_fields :: "field_def list"
  ip_evidence :: evidence_requirements
  ip_status :: string

definition make_industry_pack :: "industry_pack \<Rightarrow> industry_pack result" where
  "make_industry_pack p =
     raise_first
       [check (\<not> (ip_pack_id p = [] \<or> ip_title p = [] \<or> ip_work_types p = []))
          (ValueError ''pack id, title and work types are required''),
        check (distinct (map fd_key (ip_fields p))) (ValueError ''duplicate field key in pack'')]
       (Inr p)"

definition to_definition :: "(string, string) dict \<Rightarrow> industry_pack \<Rightarrow> pack_definition" where
  "to_definition default_labels p =
     \<lparr>pd_branding = ip_branding p, pd_catalog = ip_catalog p, pd_fields = ip_fields p,
      pd_evidence = ip_evidence p, pd_role_labels = default_labels, pd_pool_mode = CURATED\<rparr>"

definition seed_definition ::
  "(string, string) dict \<Rightarrow> industry_pack list \<Rightarrow> string \<Rightarrow> pack_definition result" where
  "seed_definition default_labels packs pack_id =
     (case find (\<lambda>p. ip_pack_id p = pack_id) (rev packs) of
        None \<Rightarrow> Inl (ValueError ''unknown pack_id'')
      | Some p \<Rightarrow> Inr (to_definition default_labels p))"

definition blank_definition :: "(string, string) dict \<Rightarrow> pack_definition" where
  "blank_definition default_labels =
     \<lparr>pd_branding = \<lparr>br_name = [], br_greeting = [], br_support = []\<rparr>,
      pd_catalog = \<lparr>cat_categories = [], cat_multi_select = True\<rparr>, pd_fields = [],
      pd_evidence = default_evidence, pd_role_labels = default_labels, pd_pool_mode = CURATED\<rparr>"

section \<open>Round trip\<close>

lemma make_field_Inr: "make_field f = Inr g \<Longrightarrow> g = f \<and> make_field g = Inr g"
  by (auto simp: make_field_def)

lemma map_result_str [simp]: "map_result as_str (map JStr xs) = Inr xs"
  by (rule map_result_all) (simp add: list_all_iff)

lemma field_json: "make_field f = Inr f \<Longrightarrow> field_from_json (field_to_json f) = Inr f"
  by (cases f) (simp add: field_from_json_def field_to_json_def get_required_def get_default_def)

lemma field_from_valid: "field_from_json j = Inr f \<Longrightarrow> make_field f = Inr f"
  by (auto simp: field_from_json_def dest: make_field_Inr)

lemma branding_json [simp]: "branding_from_json (branding_to_json b) = Inr b"
  by (cases b) (simp add: branding_from_json_def branding_to_json_def get_default_def)

lemma category_json: "make_category c = Inr c \<Longrightarrow> category_from_json (category_to_json c) = Inr c"
  by (cases c) (simp add: category_from_json_def category_to_json_def get_required_def)

lemma category_from_valid: "category_from_json j = Inr c \<Longrightarrow> make_category c = Inr c"
  by (auto simp: category_from_json_def make_category_def split: if_splits)

lemma catalog_json:
  assumes "catalog_from_json j = Inr c"
  shows "catalog_from_json (catalog_to_json c) = Inr c"
proof -
  obtain js where js: "map_result category_from_json js = Inr (cat_categories c)"
      and d: "distinct (map sc_key (cat_categories c))"
    using assms by (auto simp: catalog_from_json_def make_catalog_def split: if_splits)
  have "list_all (\<lambda>x. category_from_json (category_to_json x) = Inr x) (cat_categories c)"
    using map_result_Inr[OF js] category_from_valid category_json by (auto simp: list_all_iff)
  then have "map_result category_from_json (map category_to_json (cat_categories c)) =
      Inr (cat_categories c)" by (rule map_result_all)
  with d show ?thesis
    by (cases c) (simp add: catalog_from_json_def catalog_to_json_def get_default_def make_catalog_def)
qed

lemma evidence_json:
  assumes "evidence_from_json j = Inr e"
  shows "evidence_from_json (evidence_to_json e) = Inr e"
  using assms
  by (auto simp: evidence_from_json_def evidence_to_json_def get_default_def make_evidence_def
      split: if_splits)

lemma fields_json:
  assumes "map_result field_from_json js = Inr fs"
  shows "map_result field_from_json (map field_to_json fs) = Inr fs"
  using map_result_Inr[OF assms] field_from_valid field_json
  by (intro map_result_all) (auto simp: list_all_iff)

lemma labels_json: "labels_from_json (JObj (map (\<lambda>(k, v). (k, JStr v)) d)) = Inr d"
proof -
  have "map_result (\<lambda>(k, v). result_bind (as_str v) (\<lambda>s. Inr (k, s))) (map (\<lambda>(k, v). (k, JStr v)) d) = Inr d"
    by (rule map_result_all) (auto simp: list_all_iff)
  then show ?thesis by (simp add: labels_from_json_def)
qed

lemma pool_mode_roundtrip [simp]: "pool_mode_of (pool_mode_value m) = Inr m"
  by (cases m) (simp_all add: pool_mode_of_def)

lemma update_dict_simps [simp]:
  "update_dict d [] = d" "update_dict d ((k, v) # e) = update_dict (dict_put k v d) e"
  by (simp_all add: update_dict_def)

lemma update_dict_get: "dict_get k (update_dict d e) = (case dict_get k (rev e) of None \<Rightarrow> dict_get k d | Some v \<Rightarrow> Some v)"
  by (induction e arbitrary: d) (auto simp: dict_get_put map_add_def split: option.splits)

lemma update_dict_ok: "dict_ok d \<Longrightarrow> dict_ok (update_dict d e)"
  by (induction e arbitrary: d) auto

text \<open>\<open>d.update(e)\<close> keeps the keys of \<open>d\<close> first, so updating with the result gives the result.\<close>

lemma dict_put_at: "k \<notin> fst ` set a \<Longrightarrow> dict_put k v (a @ (k, w) # b) = a @ (k, v) # b"
  by (induction a) auto

lemma dict_put_fresh: "k \<notin> fst ` set a \<Longrightarrow> dict_put k v a = a @ [(k, v)]"
  by (induction a) auto

lemma update_dict_overwrite:
  "map fst p = map fst d \<Longrightarrow> distinct (map fst (a @ d)) \<Longrightarrow> update_dict (a @ d) p = a @ p"
proof (induction p arbitrary: a d)
  case (Cons x p)
  obtain k v where x: "x = (k, v)" by (cases x)
  obtain w d' where d: "d = (k, w) # d'" and p: "map fst p = map fst d'"
    using Cons.prems(1) x by (cases d) auto
  have "update_dict (a @ d) (x # p) = update_dict ((a @ [(k, v)]) @ d') p"
    using Cons.prems(2) by (simp add: x d dict_put_at)
  also have "\<dots> = (a @ [(k, v)]) @ p"
    using Cons.prems(2) by (intro Cons.IH p) (auto simp: d)
  finally show ?case by (simp add: x)
qed simp

lemma update_dict_append:
  "distinct (map fst (a @ q)) \<Longrightarrow> update_dict a q = a @ q"
proof (induction q arbitrary: a)
  case (Cons x q)
  obtain k v where x: "x = (k, v)" by (cases x)
  have "update_dict a (x # q) = update_dict (a @ [(k, v)]) q"
    using Cons.prems by (simp add: x dict_put_fresh)
  also have "\<dots> = (a @ [(k, v)]) @ q" using Cons.prems by (intro Cons.IH) (auto simp: x)
  finally show ?case by (simp add: x)
qed simp

lemma update_dict_prefix: "\<exists>ks. map fst (update_dict d e) = map fst d @ ks"
proof (induction e arbitrary: d)
  case (Cons x e)
  obtain k v where x: "x = (k, v)" by (cases x)
  obtain ks where "map fst (update_dict (dict_put k v d) e) = map fst (dict_put k v d) @ ks"
    using Cons by blast
  then show ?case by (auto simp: x update_keys)
qed simp

lemma update_dict_idem:
  assumes "dict_ok d"
  shows "update_dict d (update_dict d e) = update_dict d e"
proof -
  let ?u = "update_dict d e"
  obtain ks where ks: "map fst ?u = map fst d @ ks" using update_dict_prefix by blast
  define p q where "p = take (length d) ?u" and "q = drop (length d) ?u"
  have u: "?u = p @ q" by (simp add: p_def q_def)
  have mp: "map fst p = map fst d" using ks by (simp add: p_def take_map[symmetric])
  have "distinct (map fst (p @ q))" using update_dict_ok[OF assms, of e] u by (simp add: dict_ok_def)
  then have "update_dict p q = p @ q" by (rule update_dict_append)
  moreover have "update_dict d p = p"
    using update_dict_overwrite[OF mp, of "[]"] assms by (simp add: dict_ok_def)
  ultimately have "update_dict (update_dict d p) q = p @ q" by simp
  moreover have "update_dict d (p @ q) = update_dict (update_dict d p) q"
    by (simp add: update_dict_def)
  ultimately show ?thesis by (simp add: u)
qed

text \<open>The labels that a document names; of a repeated key the last one counts.\<close>

definition named_labels :: "(string, json) dict \<Rightarrow> (string, json) dict" where
  "named_labels d = (case dict_get ''role_labels'' d of Some (JObj m) \<Rightarrow> m | _ \<Rightarrow> [])"

lemma map_result_labels:
  "map_result (\<lambda>(k, v). result_bind (as_str v) (\<lambda>s. Inr (k, s))) m = Inr labels \<Longrightarrow>
    m = map (\<lambda>(k, v). (k, JStr v)) labels"
proof (induction m arbitrary: labels)
  case (Cons x m)
  obtain k v where x: "x = (k, v)" by (cases x)
  from Cons show ?case by (cases v) (auto simp: x)
qed simp

lemma labels_named:
  assumes "labels_from_json (get_default ''role_labels'' (JObj []) d) = Inr labels"
  shows "named_labels d = map (\<lambda>(k, v). (k, JStr v)) labels"
proof (cases "dict_get ''role_labels'' d")
  case (Some v)
  with assms map_result_labels show ?thesis
    by (cases v) (auto simp: labels_from_json_def get_default_def named_labels_def split: if_splits)
qed (use assms in \<open>simp add: labels_from_json_def get_default_def named_labels_def\<close>)

lemma dict_get_map_values: "dict_get k (rev (map (\<lambda>(k, v). (k, f v)) xs)) = map_option f (dict_get k (rev xs))"
  using map_of_map[of f "rev xs"] by (simp add: rev_map)

text \<open>
  (C25) JSON round trip of a pack: a pack that was read from any document is written in a form that
  reads back as the same pack, role labels, services, fields and evidence rules included. A role
  that the role_labels of the document name has that label (the last one, should a key be repeated),
  every other role the default label.
\<close>

theorem pack_json_roundtrip:
  assumes "pack_from_json default_labels j = Inr p" and "dict_ok default_labels"
  shows "pack_from_json default_labels (pack_to_json p) = Inr p \<and>
    (\<exists>d. j = JObj d \<and> (\<forall>role. dict_get role (pd_role_labels p) =
       (case dict_get role (rev (named_labels d)) of Some (JStr l) \<Rightarrow> Some l | _ \<Rightarrow> dict_get role default_labels)))"
proof -
  obtain d labels cj fj ej where
    j: "j = JObj d" "labels_from_json (get_default ''role_labels'' (JObj []) d) = Inr labels" and
    l: "pd_role_labels p = update_dict default_labels labels" and
    c: "catalog_from_json cj = Inr (pd_catalog p)" and
    f: "map_result field_from_json fj = Inr (pd_fields p)" and
    e: "evidence_from_json ej = Inr (pd_evidence p)"
    using assms(1) by (cases j) (auto simp: pack_from_json_def)
  have "update_dict default_labels (pd_role_labels p) = pd_role_labels p"
    unfolding l by (rule update_dict_idem[OF assms(2)])
  then have "pack_from_json default_labels (pack_to_json p) = Inr p"
    using catalog_json[OF c] fields_json[OF f] evidence_json[OF e]
    by (cases p) (simp add: pack_from_json_def pack_to_json_def get_default_def labels_json)
  moreover have "dict_get role (pd_role_labels p) =
       (case dict_get role (rev (named_labels d)) of Some (JStr l) \<Rightarrow> Some l | _ \<Rightarrow> dict_get role default_labels)" for role
    unfolding l labels_named[OF j(2)] dict_get_map_values update_dict_get by (simp split: option.splits)
  ultimately show ?thesis using j(1) by blast
qed

text \<open>A document of the form that the configuration writes.\<close>

definition demo_labels :: "(string, string) dict" where
  "demo_labels = [(''master'', ''M''), (''operator'', ''O''), (''client'', ''C'')]"

definition demo_pack_json :: json where
  "demo_pack_json = JObj
     [(''branding'', JObj [(''name'', JStr ''Acme'')]),
      (''service_catalog'', JObj [(''categories'', JList
         [JObj [(''key'', JStr ''repair''), (''label'', JStr ''Repair'')]])]),
      (''fields'', JList [JObj [(''key'', JStr ''address''), (''label'', JStr ''Address''),
         (''type'', JStr ''address''), (''required'', JBool True)]]),
      (''role_labels'', JObj [(''master'', JStr ''Fitter'')])]"

definition demo_pack :: pack_definition where
  "demo_pack = \<lparr>pd_branding = \<lparr>br_name = ''Acme'', br_greeting = [], br_support = []\<rparr>,
     pd_catalog = \<lparr>cat_categories = [\<lparr>sc_key = ''repair'', sc_label = ''Repair''\<rparr>],
       cat_multi_select = True\<rparr>,
     pd_fields = [\<lparr>fd_key = ''address'', fd_label = ''Address'', fd_type = FAddress,
       fd_required = True, fd_choices = [], fd_prompt = [], fd_order = 0\<rparr>],
     pd_evidence = default_evidence,
     pd_role_labels = [(''master'', ''Fitter''), (''operator'', ''O''), (''client'', ''C'')],
     pd_pool_mode = CURATED\<rparr>"

lemma demo_pack_reads: "pack_from_json demo_labels demo_pack_json = Inr demo_pack"
  by (simp add: pack_from_json_def demo_pack_json_def demo_pack_def demo_labels_def get_default_def
      get_required_def branding_from_json_def catalog_from_json_def category_from_json_def
      make_category_def make_catalog_def field_from_json_def field_type_of_def make_field_def
      or_empty_def evidence_from_json_def make_evidence_def default_evidence_def
      labels_from_json_def pool_mode_of_def)

theorem pack_json_roundtrip_witness:
  "pack_from_json demo_labels (pack_to_json demo_pack) = Inr demo_pack"
  using pack_json_roundtrip[OF demo_pack_reads] by (simp add: demo_labels_def dict_ok_def)

end
