(* ===== verification/Tables.thy ===== *)
theory Tables
  imports Prelude
begin

text \<open>
  Database tables as the SQL statements of the stores use them: a table is the list of its rows, a
  statement rewrites or filters it, and the constraints of the table are a test that every
  statement's result must pass. A transaction is one atomic step.
\<close>

definition update_rows :: "('r \<Rightarrow> bool) \<Rightarrow> ('r \<Rightarrow> 'r) \<Rightarrow> 'r list \<Rightarrow> 'r list" where
  "update_rows P f t = map (\<lambda>r. if P r then f r else r) t"

definition count_rows :: "('r \<Rightarrow> bool) \<Rightarrow> 'r list \<Rightarrow> nat" where
  "count_rows P t = length (filter P t)"

definition delete_rows :: "('r \<Rightarrow> bool) \<Rightarrow> 'r list \<Rightarrow> 'r list" where
  "delete_rows P t = filter (\<lambda>r. \<not> P r) t"

definition unique_on :: "('r \<Rightarrow> bool) \<Rightarrow> ('r \<Rightarrow> 'k) \<Rightarrow> 'r list \<Rightarrow> bool" where
  "unique_on P key t = distinct (map key (filter P t))"

definition constrained :: "('r list \<Rightarrow> bool) \<Rightarrow> 'r list \<Rightarrow> 'r list result" where
  "constrained ok t = (if ok t then Inr t else Inl (RuntimeError ''constraint violation''))"

lemma constrained_Inr [simp]: "constrained ok t = Inr t' \<longleftrightarrow> ok t \<and> t' = t"
  by (auto simp: constrained_def)

lemma constrained_ok: "ok t \<Longrightarrow> constrained ok t = Inr t"
  by simp

lemma update_rows_simps [simp]:
  "update_rows P f [] = []"
  "update_rows P f (r # t) = (if P r then f r else r) # update_rows P f t"
  by (simp_all add: update_rows_def)

lemma set_update_rows: "set (update_rows P f t) = {r \<in> set t. \<not> P r} \<union> f ` {r \<in> set t. P r}"
  by (auto simp: update_rows_def)

lemma count_rows_0 [simp]: "count_rows P t = 0 \<longleftrightarrow> (\<forall>r \<in> set t. \<not> P r)"
  by (simp add: count_rows_def filter_empty_conv)

lemma find_None_all: "find P t = None \<longleftrightarrow> (\<forall>r \<in> set t. \<not> P r)"
  by (auto simp: find_None_iff)

lemma find_SomeD: "find P t = Some r \<Longrightarrow> P r \<and> r \<in> set t"
  by (auto simp: find_Some_iff)

lemma unique_on_Nil [simp]: "unique_on P key []"
  by (simp add: unique_on_def)

lemma unique_on_Cons [simp]:
  "unique_on P key (r # t) \<longleftrightarrow> unique_on P key t \<and> (P r \<longrightarrow> key r \<notin> key ` {x \<in> set t. P x})"
  by (auto simp: unique_on_def)

lemma unique_on_snoc:
  "unique_on P key (t @ [r]) \<longleftrightarrow> unique_on P key t \<and> (P r \<longrightarrow> key r \<notin> key ` {x \<in> set t. P x})"
  by (auto simp: unique_on_def)

lemma unique_on_eq:
  "\<lbrakk>unique_on P key t; a \<in> set t; b \<in> set t; P a; P b; key a = key b\<rbrakk> \<Longrightarrow> a = b"
  by (auto simp: unique_on_def distinct_map inj_on_def)

lemma unique_on_delete: "unique_on P key t \<Longrightarrow> unique_on P key (delete_rows Q t)"
  by (induction t) (auto simp: delete_rows_def)

text \<open>An update that changes no key and puts no new row into the index keeps it unique.\<close>

lemma unique_on_update:
  assumes "unique_on P key t" and "\<And>r. r \<in> set t \<Longrightarrow> Q r \<Longrightarrow> key (f r) = key r \<and> (P (f r) \<longrightarrow> P r)"
  shows "unique_on P key (update_rows Q f t)"
  using assms
proof (induction t)
  case (Cons r t)
  have k: "key ` {x \<in> set (update_rows Q f t). P x} \<subseteq> key ` {x \<in> set t. P x}"
    using Cons.prems(2) by (force simp: set_update_rows)
  have "unique_on P key (update_rows Q f t)" using Cons by auto
  then show ?case using Cons.prems(1) Cons.prems(2)[of r] k by auto
qed simp

end
