(* ===== verification/Queues.thy ===== *)
theory Queues
  imports Packs Tables Domain_Events
begin

text \<open>
  The durable queues (\<open>infrastructure/messaging.py\<close>): received updates, domain events to project,
  and messages to send. The three tables share the columns that a claim uses; a claim, a mark and an
  insertion are one statement each, and rows that another transaction has locked are skipped, so
  claims happen one after the other.
\<close>

section \<open>Rows\<close>

datatype delivery_status = Pending | Processing | Delivered | Dead

record ('k, 'd) queue_row =
  q_id :: 'k
  q_organization_id :: string
  q_provider :: string
  q_consumer_key :: string
  q_status :: delivery_status
  q_attempts :: int
  q_next_attempt_at :: instant
  q_claimed_at :: "instant option"
  q_done_at :: "instant option"
  q_last_error :: "string option"
  q_created_at :: instant
  q_data :: 'd

section \<open>Backoff\<close>

definition be_nat :: "byte list \<Rightarrow> nat" where
  "be_nat bs = foldl (\<lambda>v b. 256 * v + unat b) 0 bs"

definition jitter_fraction :: "string \<Rightarrow> int \<Rightarrow> rat" where
  "jitter_fraction stable_key attempts =
     of_nat (be_nat (take 8 (sha256 (utf8 (stable_key @ '':'' @ int_str attempts))))) / (2 ^ 64 - 1)"

text \<open>Seconds as a rational; the rounding of float arithmetic is not modelled, but a power of two that
  no float holds raises.\<close>

definition retry_delay :: "int \<Rightarrow> string \<Rightarrow> rat \<Rightarrow> rat \<Rightarrow> rat \<Rightarrow> rat result" where
  "retry_delay attempts stable_key base_seconds maximum_seconds jitter_ratio =
     raise_first
       [check (\<not> attempts < 1) (ValueError ''attempts must be at least one''),
        check (\<not> (base_seconds \<le> 0 \<or> maximum_seconds \<le> 0))
          (ValueError ''retry delays must be positive''),
        check (0 \<le> jitter_ratio \<and> jitter_ratio \<le> 1)
          (ValueError ''jitter_ratio must be between zero and one''),
        check (attempts \<le> 1024) (OverflowError ''int too large to convert to float'')]
       (let exponential = min (base_seconds * 2 ^ nat (attempts - 1)) maximum_seconds;
            jitter = exponential * jitter_ratio * (jitter_fraction stable_key attempts * 2 - 1)
        in Inr (max (1 / 1000) (min maximum_seconds (exponential + jitter))))"

definition default_delay :: "int \<Rightarrow> string \<Rightarrow> rat result" where
  "default_delay attempts stable_key = retry_delay attempts stable_key 1 300 (1 / 5)"

definition interval :: "rat \<Rightarrow> int" where
  "interval secs = round (secs * 1000000)"

section \<open>Claiming and marking\<close>

definition claimable :: "instant \<Rightarrow> int \<Rightarrow> ('k, 'd) queue_row \<Rightarrow> bool" where
  "claimable now stale_after r \<longleftrightarrow>
     (q_status r = Pending \<and> q_next_attempt_at r \<le> now) \<or>
     (q_status r = Processing \<and>
        (case q_claimed_at r of None \<Rightarrow> False | Some c \<Rightarrow> c < now - seconds stale_after))"

definition take_row :: "instant \<Rightarrow> ('k, 'd) queue_row \<Rightarrow> ('k, 'd) queue_row" where
  "take_row now r = r\<lparr>q_status := Processing, q_attempts := q_attempts r + 1,
     q_claimed_at := Some now, q_last_error := None\<rparr>"

definition claim_rows ::
  "(('k, 'd) queue_row \<Rightarrow> bool) \<Rightarrow> (('k, 'd) queue_row \<Rightarrow> 'o::linorder) \<Rightarrow> nat \<Rightarrow> int \<Rightarrow> instant \<Rightarrow>
   ('k, 'd) queue_row list \<Rightarrow> ('k, 'd) queue_row list \<times> ('k, 'd) queue_row list"
where
  "claim_rows route order limit stale_after now t =
     (let candidates = map q_id (take limit (sort_key order
            (filter (\<lambda>r. route r \<and> claimable now stale_after r) t)));
          t' = update_rows (\<lambda>r. q_id r \<in> set candidates) (take_row now) t
      in (filter (\<lambda>r. q_id r \<in> set candidates) t', t'))"

text \<open>The statement that completes a row may also note something in its data.\<close>

definition mark_done ::
  "('d \<Rightarrow> 'd) \<Rightarrow> 'k \<Rightarrow> instant \<Rightarrow> ('k, 'd) queue_row list \<Rightarrow> ('k, 'd) queue_row list" where
  "mark_done note_result k now t =
     update_rows (\<lambda>r. q_id r = k \<and> q_status r = Processing)
       (\<lambda>r. r\<lparr>q_status := Delivered, q_done_at := Some now, q_claimed_at := None,
              q_data := note_result (q_data r)\<rparr>) t"

definition mark_retry ::
  "'k \<Rightarrow> bool \<Rightarrow> rat \<Rightarrow> string \<Rightarrow> instant \<Rightarrow> ('k, 'd) queue_row list \<Rightarrow> ('k, 'd) queue_row list" where
  "mark_retry k is_dead delay err now t =
     update_rows (\<lambda>r. q_id r = k \<and> q_status r = Processing)
       (\<lambda>r. r\<lparr>q_status := (if is_dead then Dead else Pending),
              q_next_attempt_at := now + interval delay, q_claimed_at := None,
              q_last_error := Some (take 2000 err)\<rparr>) t"

definition claim_limit :: "int \<Rightarrow> py_error option" where
  "claim_limit limit = check (1 \<le> limit \<and> limit \<le> 1000)
     (ValueError ''claim limit must be between 1 and 1000'')"

definition for_organization :: "string option \<Rightarrow> ('k, 'd) queue_row \<Rightarrow> bool" where
  "for_organization org r = (case org of None \<Rightarrow> True | Some x \<Rightarrow> q_organization_id r = x)"

section \<open>The inbox\<close>

type_synonym inbox_key = "string \<times> string \<times> string \<times> string"
type_synonym inbox_row = "(inbox_key, json) queue_row"

definition inbox_row :: "string \<Rightarrow> string \<Rightarrow> string \<Rightarrow> json \<Rightarrow> string \<Rightarrow> instant \<Rightarrow> inbox_row" where
  "inbox_row provider external_event_id org payload consumer now =
     \<lparr>q_id = (org, provider, consumer, external_event_id), q_organization_id = org,
      q_provider = provider, q_consumer_key = consumer, q_status = Pending, q_attempts = 0,
      q_next_attempt_at = now, q_claimed_at = None, q_done_at = None, q_last_error = None,
      q_created_at = now, q_data = payload\<rparr>"

text \<open>\<open>INSERT ... ON CONFLICT DO NOTHING\<close>: was a row inserted?\<close>

definition insert_once ::
  "('k, 'd) queue_row \<Rightarrow> ('k, 'd) queue_row list \<Rightarrow> bool \<times> ('k, 'd) queue_row list" where
  "insert_once r t = (if q_id r \<in> set (map q_id t) then (False, t) else (True, t @ [r]))"

definition inbox_accept ::
  "string \<Rightarrow> string \<Rightarrow> string \<Rightarrow> json \<Rightarrow> string \<Rightarrow> instant \<Rightarrow> inbox_row list \<Rightarrow> bool \<times> inbox_row list" where
  "inbox_accept provider external_event_id org payload consumer now t =
     insert_once (inbox_row provider external_event_id org payload consumer now) t"

type_synonym cursors = "(string \<times> string, string) dict"

fun accept_all ::
  "string \<Rightarrow> string \<Rightarrow> string \<Rightarrow> instant \<Rightarrow> (string \<times> json) list \<Rightarrow> inbox_row list \<Rightarrow> nat \<times> inbox_row list"
where
  "accept_all provider org consumer now [] t = (0, t)"
| "accept_all provider org consumer now ((ext, payload) # es) t =
     (let (new, t1) = inbox_accept provider ext org payload consumer now t;
          (n, t2) = accept_all provider org consumer now es t1
      in ((if new then 1 else 0) + n, t2))"

definition accept_poll_batch ::
  "string \<Rightarrow> string \<Rightarrow> string \<Rightarrow> string option \<Rightarrow> (string \<times> json) list \<Rightarrow> string \<Rightarrow> instant \<Rightarrow>
   inbox_row list \<times> cursors \<Rightarrow> nat \<times> (inbox_row list \<times> cursors)"
where
  "accept_poll_batch provider org consumer cursor_key events next_cursor now st =
     (let (inserted, t) = accept_all provider org consumer now events (fst st);
          key = (case cursor_key of None \<Rightarrow> consumer | Some k \<Rightarrow> if k = [] then consumer else k)
      in (inserted, (t, dict_put (provider, key) next_cursor (snd st))))"

definition get_cursor :: "string \<Rightarrow> string \<Rightarrow> cursors \<Rightarrow> string option" where
  "get_cursor provider consumer c = dict_get (provider, consumer) c"

definition inbox_order :: "inbox_row \<Rightarrow> instant \<times> string \<times> string" where
  "inbox_order r = (q_created_at r, q_provider r, snd (snd (snd (q_id r))))"

definition inbox_claim ::
  "string option \<Rightarrow> string \<Rightarrow> int \<Rightarrow> int \<Rightarrow> instant \<Rightarrow> inbox_row list \<Rightarrow>
   (inbox_row list \<times> inbox_row list) result" where
  "inbox_claim org consumer limit stale_after now t =
     raise_first [claim_limit limit]
       (Inr (claim_rows (\<lambda>r. q_consumer_key r = consumer \<and> for_organization org r) inbox_order
          (nat limit) stale_after now t))"

definition inbox_mark_processed :: "inbox_row \<Rightarrow> instant \<Rightarrow> inbox_row list \<Rightarrow> inbox_row list" where
  "inbox_mark_processed item now t = mark_done (\<lambda>d. d) (q_id item) now t"

definition inbox_mark_failed ::
  "inbox_row \<Rightarrow> string \<Rightarrow> int \<Rightarrow> instant \<Rightarrow> inbox_row list \<Rightarrow> inbox_row list result" where
  "inbox_mark_failed item err max_attempts now t =
     result_bind (default_delay (q_attempts item) (snd (snd (snd (q_id item)))))
       (\<lambda>delay. Inr (mark_retry (q_id item) (q_attempts item \<ge> max_attempts) delay err now t))"

section \<open>The outbox of domain events\<close>

type_synonym outbox_row = "(string, domain_event) queue_row"

definition outbox_order :: "outbox_row \<Rightarrow> instant \<times> string" where
  "outbox_order r = (occurred_at (q_data r), q_id r)"

definition claim_events ::
  "string option \<Rightarrow> int \<Rightarrow> int \<Rightarrow> instant \<Rightarrow> outbox_row list \<Rightarrow>
   (outbox_row list \<times> outbox_row list) result" where
  "claim_events org limit stale_after now t =
     raise_first [claim_limit limit]
       (Inr (claim_rows (for_organization org) outbox_order (nat limit) stale_after now t))"

definition mark_projected :: "string \<Rightarrow> instant \<Rightarrow> outbox_row list \<Rightarrow> outbox_row list" where
  "mark_projected ev now t = mark_done (\<lambda>d. d) ev now t"

definition outbox_mark_failed ::
  "outbox_row \<Rightarrow> string \<Rightarrow> int \<Rightarrow> instant \<Rightarrow> outbox_row list \<Rightarrow> outbox_row list result" where
  "outbox_mark_failed item err max_attempts now t =
     result_bind (default_delay (q_attempts item) (q_id item))
       (\<lambda>delay. Inr (mark_retry (q_id item) (q_attempts item \<ge> max_attempts) delay err now t))"

section \<open>Outbound messages\<close>

text \<open>A row is identified by its deduplication key; its number is its position in the order.\<close>

record message =
  msg_number :: nat
  msg_recipient_id :: string
  msg_text :: json
  msg_buttons :: json
  msg_external_id :: "string option"

type_synonym outbound_row = "(string, message) queue_row"

definition enqueue ::
  "string \<Rightarrow> string \<Rightarrow> string \<Rightarrow> string \<Rightarrow> json \<Rightarrow> json \<Rightarrow> string \<Rightarrow> instant \<Rightarrow> outbound_row list \<Rightarrow>
   bool \<times> outbound_row list" where
  "enqueue dedup org provider recipient text buttons consumer now t =
     insert_once \<lparr>q_id = dedup, q_organization_id = org, q_provider = provider,
       q_consumer_key = consumer, q_status = Pending, q_attempts = 0, q_next_attempt_at = now,
       q_claimed_at = None, q_done_at = None, q_last_error = None, q_created_at = now,
       q_data = \<lparr>msg_number = length t, msg_recipient_id = recipient, msg_text = text,
         msg_buttons = buttons, msg_external_id = None\<rparr>\<rparr> t"

definition outbound_claim ::
  "string \<Rightarrow> string option \<Rightarrow> string \<Rightarrow> string list option \<Rightarrow> int \<Rightarrow> int \<Rightarrow> instant \<Rightarrow> outbound_row list \<Rightarrow>
   (outbound_row list \<times> outbound_row list) result" where
  "outbound_claim provider org consumer consumers limit stale_after now t =
     (let routed = remdups (case consumers of None \<Rightarrow> [consumer] | Some ks \<Rightarrow> if ks = [] then [consumer] else ks)
      in raise_first
        [claim_limit limit,
         check (routed \<noteq> []) (ValueError ''at least one outbound consumer key is required'')]
        (Inr (claim_rows (\<lambda>r. q_provider r = provider \<and> q_consumer_key r \<in> set routed \<and>
             for_organization org r) (\<lambda>r. (q_created_at r, msg_number (q_data r)))
           (nat limit) stale_after now t)))"

definition mark_delivered ::
  "string \<Rightarrow> string option \<Rightarrow> instant \<Rightarrow> outbound_row list \<Rightarrow> outbound_row list" where
  "mark_delivered k external now t = mark_done (\<lambda>d. d\<lparr>msg_external_id := external\<rparr>) k now t"

definition outbound_mark_failed ::
  "outbound_row \<Rightarrow> string \<Rightarrow> int \<Rightarrow> rat option \<Rightarrow> instant \<Rightarrow> outbound_row list \<Rightarrow>
   outbound_row list result" where
  "outbound_mark_failed item err max_attempts retry_after now t =
     result_bind
       (case retry_after of
          Some d \<Rightarrow> Inr (max (1 / 1000) d)
        | None \<Rightarrow> default_delay (q_attempts item) (q_id item))
       (\<lambda>delay. Inr (mark_retry (q_id item) (q_attempts item \<ge> max_attempts) delay err now t))"

end
