(* ===== verification/Ingress.thy ===== *)
theory Ingress
  imports Queues
begin

text \<open>
  What comes in and goes out of the transports: events and buttons with their checks
  (\<open>transports/contracts.py\<close>, \<open>messaging/models.py\<close>, \<open>messaging/replies.py\<close>), the durable polling
  receiver (\<open>transports/polling.py\<close>), payload identifiers (\<open>transports/common.py\<close>), capability links
  (\<open>application/tracking_links.py\<close>) and phone numbers (\<open>messaging/cards.py\<close>). What a poll returns is an
  argument, as is the notation of floats in JSON.
\<close>

section \<open>Events and buttons\<close>

datatype event_kind = EMessage | ECallback | EContact | ELocation | EPhoto | EStart

record inbound_event =
  ev_provider :: string
  ev_external_event_id :: string
  ev_external_user_id :: string
  ev_chat_id :: string
  ev_kind :: event_kind
  ev_text :: "string option"
  ev_callback_token :: "string option"
  ev_callback_id :: "string option"
  ev_media_id :: "string option"
  ev_latitude :: "pyfloat option"
  ev_longitude :: "pyfloat option"

definition falsy :: "string option \<Rightarrow> bool" where
  "falsy s \<longleftrightarrow> s = None \<or> s = Some []"

definition make_event :: "inbound_event \<Rightarrow> inbound_event result" where
  "make_event e = raise_first
     [check (ev_external_event_id e \<noteq> []) (ValueError ''external_event_id is required''),
      check (ev_external_user_id e \<noteq> []) (ValueError ''external_user_id is required''),
      check (ev_chat_id e \<noteq> []) (ValueError ''chat_id is required''),
      check (\<not> (ev_kind e = ECallback \<and> falsy (ev_callback_token e)))
        (ValueError ''callback event requires a callback token''),
      check (\<not> (ev_kind e = ELocation \<and> (ev_latitude e = None \<or> ev_longitude e = None)))
        (ValueError ''location event requires coordinates''),
      check (\<not> (ev_kind e = EPhoto \<and> falsy (ev_media_id e)))
        (ValueError ''photo event requires media_id'')]
     (Inr e)"

fun text_of :: "string option \<Rightarrow> string" where
  "text_of None = []"
| "text_of (Some s) = s"

record outbound_button =
  ob_text :: string
  ob_callback_token :: "string option"
  ob_url :: "string option"
  ob_request_location :: bool
  ob_row :: int

definition make_outbound_button :: "outbound_button \<Rightarrow> outbound_button result" where
  "make_outbound_button b =
     (let destinations = length (filter (\<lambda>x. x)
        [ob_callback_token b \<noteq> None, ob_url b \<noteq> None, ob_request_location b])
      in raise_first
        [check (ob_text b \<noteq> []) (ValueError ''button text is required''),
         check (destinations = 1) (ValueError ''button requires exactly one action''),
         check (0 \<le> ob_row b) (ValueError ''button row cannot be negative'')]
        (Inr b))"

definition group_buttons :: "outbound_button list \<Rightarrow> outbound_button list list" where
  "group_buttons bs = map (\<lambda>row. filter (\<lambda>b. ob_row b = row) bs) (sort (remdups (map ob_row bs)))"

definition button_to_json :: "outbound_button \<Rightarrow> json" where
  "button_to_json b =
     (let opt = (\<lambda>x. case x of None \<Rightarrow> JNull | Some s \<Rightarrow> JStr s)
      in JObj [(''text'', JStr (ob_text b)), (''callback_token'', opt (ob_callback_token b)),
        (''url'', opt (ob_url b)), (''request_location'', JBool (ob_request_location b)),
        (''row'', JInt (ob_row b))])"

record reply_button =
  rb_text :: string
  rb_action :: string
  rb_payload :: "(string, json) dict"
  rb_allowed_role :: "string option"
  rb_row :: int
  rb_url :: "string option"
  rb_request_location :: bool

definition make_reply_button :: "reply_button \<Rightarrow> reply_button result" where
  "make_reply_button b = raise_first
     [check (rb_text b \<noteq> []) (ValueError ''button text is required''),
      check (0 \<le> rb_row b) (ValueError ''button row cannot be negative''),
      check (\<not> (rb_url b \<noteq> None \<and> rb_request_location b))
        (ValueError ''button cannot combine URL and location request''),
      check (\<not> (rb_action b = [] \<and> rb_url b = None \<and> \<not> rb_request_location b))
        (ValueError ''button action is required'')]
     (Inr b)"

text \<open>A reply button becomes an outbound button; one with an action needs a callback token.\<close>

definition mint_button :: "string \<Rightarrow> reply_button \<Rightarrow> outbound_button result" where
  "mint_button token b = make_outbound_button
     (if rb_url b \<noteq> None then \<lparr>ob_text = rb_text b, ob_callback_token = None, ob_url = rb_url b,
        ob_request_location = False, ob_row = rb_row b\<rparr>
      else if rb_request_location b then \<lparr>ob_text = rb_text b, ob_callback_token = None, ob_url = None,
        ob_request_location = True, ob_row = rb_row b\<rparr>
      else \<lparr>ob_text = rb_text b, ob_callback_token = Some token, ob_url = None,
        ob_request_location = False, ob_row = rb_row b\<rparr>)"

text \<open>Every button a coordinator can build is one the transports accept.\<close>

lemma minted_buttons_are_valid:
  "make_reply_button b = Inr b' \<Longrightarrow> \<exists>ob. mint_button token b' = Inr ob \<and> ob_text ob = rb_text b \<and> ob_row ob = rb_row b"
  by (auto simp: make_reply_button_def mint_button_def make_outbound_button_def Let_def)

lemma group_buttons_keeps_all: "set (concat (group_buttons bs)) = set bs"
  by (auto simp: group_buttons_def)

section \<open>JSON text and payload identifiers\<close>

definition json_escape_char :: "char \<Rightarrow> string" where
  "json_escape_char c =
     (if c = CHR 0x22 then [CHR 0x5C, CHR 0x22]
      else if c = CHR 0x5C then [CHR 0x5C, CHR 0x5C]
      else if c = CHR 0x0A then [CHR 0x5C, CHR ''n'']
      else if c = CHR 0x0D then [CHR 0x5C, CHR ''r'']
      else if c = CHR 0x09 then [CHR 0x5C, CHR ''t'']
      else if c = CHR 0x08 then [CHR 0x5C, CHR ''b'']
      else if c = CHR 0x0C then [CHR 0x5C, CHR ''f'']
      else if code_point c < 32 then [CHR 0x5C, CHR ''u'', CHR ''0'', CHR ''0''] @ hex_byte (of_nat (code_point c))
      else [c])"

definition json_string :: "string \<Rightarrow> string" where
  "json_string s = CHR 0x22 # concat (map json_escape_char s) @ [CHR 0x22]"

fun json_dumps :: "(pyfloat \<Rightarrow> string) \<Rightarrow> bool \<Rightarrow> json \<Rightarrow> string" where
  "json_dumps fr by_key JNull = ''null''"
| "json_dumps fr by_key (JBool b) = (if b then ''true'' else ''false'')"
| "json_dumps fr by_key (JInt n) = int_str n"
| "json_dumps fr by_key (JFloat f) = fr f"
| "json_dumps fr by_key (JStr s) = json_string s"
| "json_dumps fr by_key (JList xs) = ''['' @ str_join '','' (map (json_dumps fr by_key) xs) @ '']''"
| "json_dumps fr by_key (JObj d) =
     (let items = map (\<lambda>(k, v). (k, json_string k @ '':'' @ json_dumps fr by_key v)) d
      in ''{'' @ str_join '','' (map snd (if by_key then sort_key fst items else items)) @ ''}'')"

definition stable_payload_id :: "(pyfloat \<Rightarrow> string) \<Rightarrow> string \<Rightarrow> (string, json) dict \<Rightarrow> string" where
  "stable_payload_id fr provider payload =
     provider @ '':sha256:'' @ hex (sha256 (utf8 (json_dumps fr True (JObj payload))))"

section \<open>Polling\<close>

text \<open>In Python a bool is an int.\<close>

fun as_python_int :: "json \<Rightarrow> int option" where
  "as_python_int (JInt n) = Some n"
| "as_python_int (JBool b) = Some (if b then 1 else 0)"
| "as_python_int _ = None"

definition python_int_text :: "json \<Rightarrow> string" where
  "python_int_text v = (case v of JInt n \<Rightarrow> int_str n | JBool b \<Rightarrow> if b then ''True'' else ''False'' | _ \<Rightarrow> [])"

definition telegram_event_id :: "(pyfloat \<Rightarrow> string) \<Rightarrow> (string, json) dict \<Rightarrow> string" where
  "telegram_event_id fr payload =
     (case dict_get ''update_id'' payload of
        Some v \<Rightarrow> if as_python_int v \<noteq> None then ''telegram:'' @ python_int_text v
          else stable_payload_id fr ''telegram'' payload
      | None \<Rightarrow> stable_payload_id fr ''telegram'' payload)"

definition telegram_updates ::
  "json \<Rightarrow> int option \<Rightarrow> ((string, json) dict list \<times> int option) result" where
  "telegram_updates data offset =
     (case data of
        JList items \<Rightarrow>
          (let updates = concat (map (\<lambda>i. case i of JObj d \<Rightarrow> [d] | _ \<Rightarrow> []) items);
               ids = concat (map (\<lambda>u. case dict_get ''update_id'' u of None \<Rightarrow> []
                 | Some v \<Rightarrow> (case as_python_int v of None \<Rightarrow> [] | Some n \<Rightarrow> [n])) updates)
           in Inr (updates, if ids = [] then offset else Some (Max (set ids) + 1)))
      | _ \<Rightarrow> Inl (RuntimeError ''Telegram getUpdates returned a non-list result''))"

definition cursor_key :: "string \<Rightarrow> string \<Rightarrow> string \<Rightarrow> string" where
  "cursor_key organization_id provider consumer_key = organization_id @ '':'' @ provider @ '':'' @ consumer_key"

definition poll_once ::
  "string \<Rightarrow> ((string, json) dict \<Rightarrow> string) \<Rightarrow> (int option \<Rightarrow> ((string, json) dict list \<times> int option) result) \<Rightarrow>
   string \<Rightarrow> string \<Rightarrow> instant \<Rightarrow> inbox_row list \<times> cursors \<Rightarrow> (nat \<times> (inbox_row list \<times> cursors)) result"
where
  "poll_once provider ident get_updates organization_id consumer_key now st =
     (let key = cursor_key organization_id provider consumer_key
      in result_bind
        (case get_cursor provider key (snd st) of
           None \<Rightarrow> Inr None
         | Some s \<Rightarrow> (case parse_int s of None \<Rightarrow> Inl (ValueError ''invalid literal for int()'') | Some n \<Rightarrow> Inr (Some n)))
        (\<lambda>offset. result_bind (get_updates offset) (\<lambda>(updates, next_offset).
           case next_offset of
             None \<Rightarrow> Inr (0, st)
           | Some n \<Rightarrow> Inr (accept_poll_batch provider organization_id consumer_key (Some key)
               (map (\<lambda>u. (ident u, JObj u)) updates) (int_str n) now st))))"

definition telegram_once where
  "telegram_once fr response = poll_once ''telegram'' (telegram_event_id fr) (telegram_updates response)"

definition max_once where
  "max_once ident get_updates = poll_once ''max'' ident get_updates"

section \<open>Capability links\<close>

definition upper_hex_digit :: "nat \<Rightarrow> char" where
  "upper_hex_digit n = ''0123456789ABCDEF'' ! n"

definition is_unreserved :: "char \<Rightarrow> bool" where
  "is_unreserved c \<longleftrightarrow> is_ascii_digit c \<or> (65 \<le> code_point c \<and> code_point c \<le> 90) \<or>
     (97 \<le> code_point c \<and> code_point c \<le> 122) \<or> c \<in> set ''_.-~''"

definition quote_char :: "char \<Rightarrow> string" where
  "quote_char c = (if is_unreserved c then [c]
     else concat (map (\<lambda>b. [CHR ''%'', upper_hex_digit (unat b div 16), upper_hex_digit (unat b mod 16)]) (utf8_char c)))"

definition quote :: "string \<Rightarrow> string" where
  "quote s = concat (map quote_char s)"

definition rstrip_slash :: "string \<Rightarrow> string" where
  "rstrip_slash s = rev (dropWhile (\<lambda>c. c = CHR ''/'') (rev s))"

definition public_tracking_url :: "string \<Rightarrow> string \<Rightarrow> string result" where
  "public_tracking_url base token =
     raise_first [check (43 \<le> length token) (ValueError ''public tracking token is invalid'')]
       (Inr (rstrip_slash base @ ''/track#'' @ quote token))"

definition location_submission_url :: "string \<Rightarrow> string \<Rightarrow> string result" where
  "location_submission_url base token =
     raise_first [check (43 \<le> length token) (ValueError ''location submission token is invalid'')]
       (Inr (rstrip_slash base @ ''/track/share#'' @ quote token))"

definition intake_address_url :: "string \<Rightarrow> string \<Rightarrow> string result" where
  "intake_address_url base token =
     raise_first [check (43 \<le> length token) (ValueError ''intake address token is invalid'')]
       (Inr (rstrip_slash base @ ''/address#'' @ quote token))"

section \<open>Phone numbers\<close>

definition slice :: "nat \<Rightarrow> nat \<Rightarrow> string \<Rightarrow> string" where
  "slice i j s = take (j - i) (drop i s)"

definition normalize_phone :: "string \<Rightarrow> string option" where
  "normalize_phone value =
     (let stripped = str_strip value;
          digits = filter is_digit stripped
      in if str_starts_with ''+'' stripped then
           (if 10 \<le> length digits \<and> length digits \<le> 15 then Some (''+'' @ digits) else None)
         else
           (let digits = (if length digits = 10 then ''7'' @ digits
                  else if length digits = 11 \<and> str_starts_with ''8'' digits then ''7'' @ drop 1 digits
                  else digits)
            in if \<not> (11 \<le> length digits \<and> length digits \<le> 15) then None
               else if length digits = 11 \<and> str_starts_with ''7'' digits then
                 Some (''+7 ('' @ slice 1 4 digits @ '') '' @ slice 4 7 digits @ ''-'' @ slice 7 9 digits @
                   ''-'' @ slice 9 11 digits)
               else Some (''+'' @ digits)))"

section \<open>A poll loses nothing and repeats nothing\<close>

lemma insert_once_rows:
  "insert_once r t = (b, t') \<Longrightarrow> (\<exists>new. t' = t @ new) \<and> q_id r \<in> q_id ` set t' \<and>
     length t' = length t + (if b then 1 else 0) \<and> (q_id r \<in> q_id ` set t \<longrightarrow> \<not> b)"
  by (auto simp: insert_once_def split: if_splits)

lemma accept_all_rows:
  assumes "accept_all provider org consumer now events t = (n, t')"
  shows "(\<exists>new. t' = t @ new) \<and> length t' = length t + n \<and>
    (\<forall>(ext, payload) \<in> set events. (org, provider, consumer, ext) \<in> q_id ` set t') \<and>
    ((\<forall>(ext, payload) \<in> set events. (org, provider, consumer, ext) \<in> q_id ` set t) \<longrightarrow> n = 0)"
  using assms
proof (induction provider org consumer now events t arbitrary: n t' rule: accept_all.induct)
  case (2 provider org consumer now ext payload es t)
  obtain b t1 m where i: "inbox_accept provider ext org payload consumer now t = (b, t1)"
    and a: "accept_all provider org consumer now es t1 = (m, t')" "n = (if b then 1 else 0) + m"
    using "2.prems" by (auto split: prod.splits)
  note first = insert_once_rows[OF i[unfolded inbox_accept_def]]
  note rest = "2.IH"[OF i[symmetric] refl a(1)]
  from first have "q_id (inbox_row provider ext org payload consumer now) = (org, provider, consumer, ext)"
    by (simp add: inbox_row_def)
  with first rest a(2) show ?case by (auto simp: image_Un)
qed simp

definition objects :: "json list \<Rightarrow> (string, json) dict list" where
  "objects items = concat (map (\<lambda>i. case i of JObj d \<Rightarrow> [d] | _ \<Rightarrow> []) items)"

definition update_ids :: "(string, json) dict list \<Rightarrow> int list" where
  "update_ids updates = concat (map (\<lambda>u. case dict_get ''update_id'' u of None \<Rightarrow> []
     | Some v \<Rightarrow> (case as_python_int v of None \<Rightarrow> [] | Some n \<Rightarrow> [n])) updates)"

lemma set_objects: "d \<in> set (objects items) \<longleftrightarrow> JObj d \<in> set items"
  by (force simp: objects_def split: json.splits)

lemma in_update_ids: "\<lbrakk>d \<in> set ds; dict_get ''update_id'' d = Some (JInt u)\<rbrakk> \<Longrightarrow> u \<in> set (update_ids ds)"
  by (force simp: update_ids_def)

lemma telegram_once_step:
  assumes "telegram_once fr (JList items) org consumer now (t, cs) = Inr (n, t', cs')"
    and "update_ids (objects items) \<noteq> []"
  shows "accept_all ''telegram'' org consumer now
      (map (\<lambda>u. (telegram_event_id fr u, JObj u)) (objects items)) t = (n, t') \<and>
    cs' = dict_put (''telegram'', cursor_key org ''telegram'' consumer)
      (int_str (Max (set (update_ids (objects items))) + 1)) cs"
  using assms
  by (auto simp: telegram_once_def poll_once_def telegram_updates_def objects_def[symmetric]
    update_ids_def[symmetric] Let_def accept_poll_batch_def cursor_key_def split: prod.splits)

text \<open>What a batch adds: the events that were not there, of repeated ones the first.\<close>

lemma accept_all_new:
  assumes "accept_all provider org consumer now events t = (n, t')"
  shows "\<exists>es. t' = t @ map (\<lambda>(ext, payload). inbox_row provider ext org payload consumer now) es \<and> n = length es \<and>
    distinct (map fst es) \<and>
    (\<forall>(ext, payload) \<in> set es. map_of events ext = Some payload \<and> (org, provider, consumer, ext) \<notin> q_id ` set t) \<and>
    (\<forall>ext \<in> fst ` set events. (org, provider, consumer, ext) \<in> q_id ` set t \<or> ext \<in> fst ` set es)"
  using assms
proof (induction provider org consumer now events t arbitrary: n t' rule: accept_all.induct)
  case (2 provider org consumer now ext payload es t)
  let ?row = "inbox_row provider ext org payload consumer now" and ?key = "(org, provider, consumer, ext)"
  have key: "q_id ?row = ?key" by (simp add: inbox_row_def)
  obtain b t1 m where i: "inbox_accept provider ext org payload consumer now t = (b, t1)"
    and a: "accept_all provider org consumer now es t1 = (m, t')" "n = (if b then 1 else 0) + m"
    using "2.prems" by (auto split: prod.splits)
  from "2.IH"[OF i[symmetric] refl a(1)] obtain new where
    new: "t' = t1 @ map (\<lambda>(ext, payload). inbox_row provider ext org payload consumer now) new" "m = length new"
      "distinct (map fst new)"
    and N: "\<forall>(ext, payload) \<in> set new. map_of es ext = Some payload \<and> (org, provider, consumer, ext) \<notin> q_id ` set t1"
      "\<forall>ext \<in> fst ` set es. (org, provider, consumer, ext) \<in> q_id ` set t1 \<or> ext \<in> fst ` set new"
    by (elim exE conjE) (rule that; assumption)
  have old: "\<And>e p. (e, p) \<in> set new \<Longrightarrow> map_of es e = Some p \<and> (org, provider, consumer, e) \<notin> q_id ` set t1"
    and all: "\<And>e. e \<in> fst ` set es \<Longrightarrow> (org, provider, consumer, e) \<in> q_id ` set t1 \<or> e \<in> fst ` set new"
    using N by blast+
  define A where "A = q_id ` set t"
  define B where "B = q_id ` set t1"
  note old = old[folded B_def] and all = all[folded B_def]
  have ne: "e \<noteq> ext" if "?key \<in> B" "(e, p) \<in> set new" for e p using old[OF that(2)] that(1) by blast
  show ?case
  proof (cases "?key \<in> A")
    case True
    then have t1: "t1 = t" "n = length new"
      using i key a(2) new(2) by (auto simp: A_def inbox_accept_def insert_once_def)
    have B: "B = A" by (simp add: A_def B_def t1)
    show ?thesis unfolding A_def[symmetric]
      using new t1 old ne all True unfolding B by (intro exI[of _ new]) auto
  next
    case False
    then have t1: "t1 = t @ [?row]" "n = length ((ext, payload) # new)"
      using i key a(2) new(2) by (auto simp: A_def inbox_accept_def insert_once_def)
    have B: "B = insert ?key A" using key by (simp add: A_def B_def t1)
    have "ext \<notin> fst ` set new" using ne unfolding B by force
    moreover have "(org, provider, consumer, a) \<in> A \<or> a \<in> fst ` set new" if "(a, b) \<in> set es" "a \<noteq> ext" for a b
    proof -
      have "a \<in> fst ` set es" using that(1) by force
      from all[OF this] that(2) show ?thesis unfolding B by auto
    qed
    ultimately show ?thesis unfolding A_def[symmetric]
      using new t1 old ne False unfolding B by (intro exI[of _ "(ext, payload) # new"]) (auto, blast)
  qed
qed simp

definition as_obj_or :: "json \<Rightarrow> (string, json) dict" where
  "as_obj_or j = (case j of JObj d \<Rightarrow> d | _ \<Rightarrow> [])"

lemma as_obj_or_obj [simp]: "as_obj_or (JObj d) = d" by (simp add: as_obj_or_def)

lemma find_objects:
  "map_of (map (\<lambda>u. (ident u, JObj u)) ds) e = map_option JObj (find (\<lambda>u. ident u = e) ds)"
  by (induction ds) auto

text \<open>The row of an update, and the rows that a poll adds.\<close>

definition polled_row :: "string \<Rightarrow> string \<Rightarrow> instant \<Rightarrow> string \<Rightarrow> (string, json) dict \<Rightarrow> inbox_row" where
  "polled_row org consumer now ext d =
     \<lparr>q_id = (org, ''telegram'', consumer, ext), q_organization_id = org, q_provider = ''telegram'',
      q_consumer_key = consumer, q_status = Pending, q_attempts = 0, q_next_attempt_at = now, q_claimed_at = None,
      q_done_at = None, q_last_error = None, q_created_at = now, q_data = JObj d\<rparr>"

lemma polled_rows:
  assumes "telegram_once fr (JList items) org consumer now (t, cs) = Inr (n, t', cs')"
    and "update_ids (objects items) \<noteq> []"
  shows "\<exists>ds. t' = t @ map (\<lambda>d. polled_row org consumer now (telegram_event_id fr d) d) ds \<and> n = length ds \<and>
    distinct (map (telegram_event_id fr) ds) \<and>
    (\<forall>d \<in> set ds. find (\<lambda>d'. telegram_event_id fr d' = telegram_event_id fr d) (objects items) = Some d \<and>
      (org, ''telegram'', consumer, telegram_event_id fr d) \<notin> q_id ` set t) \<and>
    (\<forall>d \<in> set (objects items). (org, ''telegram'', consumer, telegram_event_id fr d) \<in> q_id ` set t \<or>
      telegram_event_id fr d \<in> telegram_event_id fr ` set ds)"
proof -
  let ?id = "telegram_event_id fr" and ?key = "\<lambda>e. (org, ''telegram'', consumer, e)"
  let ?ev = "map (\<lambda>u. (?id u, JObj u)) (objects items)"
  from accept_all_new[OF conjunct1[OF telegram_once_step[OF assms]]] obtain es where
    es: "t' = t @ map (\<lambda>(ext, payload). inbox_row ''telegram'' ext org payload consumer now) es" "n = length es"
      "distinct (map fst es)"
    and new: "\<forall>(e, p) \<in> set es. map_of ?ev e = Some p \<and> ?key e \<notin> q_id ` set t"
    and all: "\<forall>e \<in> fst ` set ?ev. ?key e \<in> q_id ` set t \<or> e \<in> fst ` set es"
    by (elim exE conjE) (rule that; assumption)
  have found: "find (\<lambda>u. ?id u = fst x) (objects items) = Some (as_obj_or (snd x)) \<and> snd x = JObj (as_obj_or (snd x)) \<and>
      ?id (as_obj_or (snd x)) = fst x"
    if "x \<in> set es" for x
  proof -
    have "map_of ?ev (fst x) = Some (snd x)" using new that by auto
    then obtain z where z: "find (\<lambda>u. ?id u = fst x) (objects items) = Some z" "snd x = JObj z"
      by (auto simp: find_objects)
    then show ?thesis using find_SomeD[OF z(1)] by simp
  qed
  define ds where "ds = map (as_obj_or \<circ> snd) es"
  have ids: "map ?id ds = map fst es" using found by (simp add: ds_def)
  have "map (\<lambda>(ext, payload). inbox_row ''telegram'' ext org payload consumer now) es =
      map (\<lambda>d. polled_row org consumer now (?id d) d) ds"
    using found by (auto simp: ds_def inbox_row_def polled_row_def split_beta)
  with es(1) have "t' = t @ map (\<lambda>d. polled_row org consumer now (?id d) d) ds" by simp
  moreover have "find (\<lambda>d'. ?id d' = ?id d) (objects items) = Some d \<and> ?key (?id d) \<notin> q_id ` set t" if "d \<in> set ds" for d
  proof -
    from that obtain x where x: "x \<in> set es" "d = as_obj_or (snd x)" by (auto simp: ds_def)
    with new found[OF x(1)] show ?thesis by auto
  qed
  moreover have "?id ` set ds = fst ` set es" using arg_cong[OF ids, of set] by (simp only: list.set_map)
  moreover have "n = length ds" using es(2) by (simp add: ds_def)
  moreover have "distinct (map ?id ds)" using es(3) unfolding ids .
  ultimately show ?thesis using all by (intro exI[of _ ds]) simp
qed

text \<open>
  (C27) After a poll of Telegram that returned numbered updates, on an inbox whose keys are
  distinct: the rows that were there are as they were, behind them stand the rows of exactly the
  updates whose key was not there (of updates with one key the first), each due at once with its
  whole payload, and the count is that of these rows; every update of the response is in the inbox
  exactly once; the cursor lies beyond every number of the response; and polling the same response
  again changes no row.
\<close>

theorem poll_loses_and_repeats_nothing:
  assumes "telegram_once fr (JList items) org consumer now (t, cs) = Inr (n, t', cs')"
    and "JObj d0 \<in> set items" "dict_get ''update_id'' d0 = Some (JInt u0)"
    and "distinct (map q_id t)"
  shows "(\<exists>ds. t' = t @ map (\<lambda>d. polled_row org consumer now (telegram_event_id fr d) d) ds \<and> n = length ds \<and>
      (\<forall>d \<in> set ds. (org, ''telegram'', consumer, telegram_event_id fr d) \<notin> q_id ` set t \<and>
        find (\<lambda>d'. telegram_event_id fr d' = telegram_event_id fr d) (objects items) = Some d)) \<and>
    (\<forall>d. JObj d \<in> set items \<longrightarrow> (\<exists>!r. r \<in> set t' \<and> q_id r = (org, ''telegram'', consumer, telegram_event_id fr d))) \<and>
    (\<exists>next. get_cursor ''telegram'' (cursor_key org ''telegram'' consumer) cs' = Some (int_str next) \<and>
       (\<forall>d u. JObj d \<in> set items \<longrightarrow> dict_get ''update_id'' d = Some (JInt u) \<longrightarrow> u < next)) \<and>
    (\<forall>m now' t'' cs''. telegram_once fr (JList items) org consumer now' (t', cs') = Inr (m, t'', cs'') \<longrightarrow>
       m = 0 \<and> t'' = t')"
proof -
  let ?ids = "update_ids (objects items)" and ?id = "telegram_event_id fr"
  let ?key = "\<lambda>e. (org, ''telegram'', consumer, e)" and ?row = "\<lambda>d. polled_row org consumer now (telegram_event_id fr d) d"
  have ids: "?ids \<noteq> []" using in_update_ids[of d0 "objects items" u0] assms(2,3) by (auto simp: set_objects)
  note s = telegram_once_step[OF assms(1) ids]
  from polled_rows[OF assms(1) ids] obtain ds where t': "t' = t @ map ?row ds" "n = length ds"
    and dist: "distinct (map ?id ds)"
    and new: "\<forall>d \<in> set ds. find (\<lambda>d'. ?id d' = ?id d) (objects items) = Some d \<and> ?key (?id d) \<notin> q_id ` set t"
    and all: "\<forall>d \<in> set (objects items). ?key (?id d) \<in> q_id ` set t \<or> ?id d \<in> ?id ` set ds"
    by (elim exE conjE) (rule that; assumption)
  have keys: "map q_id (map ?row ds) = map ?key (map ?id ds)" by (simp add: polled_row_def)
  have "distinct (map ?key (map ?id ds))" using dist by (subst distinct_map) (auto simp: inj_on_def)
  then have dist': "distinct (map q_id t')"
    using assms(4) new unfolding t'(1) map_append distinct_append keys by auto
  have in_inbox: "?key (?id d) \<in> q_id ` set t'" if "JObj d \<in> set items" for d
    using all that arg_cong[OF keys, of set] by (auto simp: set_objects t'(1) image_Un image_image)
  have once: "\<exists>!r. r \<in> set t' \<and> q_id r = ?key (?id d)" if "JObj d \<in> set items" for d
    using in_inbox[OF that] dist' by (elim imageE) (auto simp: distinct_map inj_on_def)
  have below: "u < Max (set ?ids) + 1" if "JObj d \<in> set items" "dict_get ''update_id'' d = Some (JInt u)" for d u
    using Max_ge[of "set ?ids" u] in_update_ids[of d "objects items" u] that by (simp add: set_objects)
  have again: "m = 0 \<and> t'' = t'"
    if "telegram_once fr (JList items) org consumer now' (t', cs') = Inr (m, t'', cs'')" for m now' t'' cs''
  proof -
    have "m = 0 \<and> (\<exists>new. t'' = t' @ new) \<and> length t'' = length t' + m"
      using accept_all_rows[OF conjunct1[OF telegram_once_step[OF that ids]]] accept_all_rows[OF conjunct1[OF s]] by auto
    then show ?thesis by auto
  qed
  have "get_cursor ''telegram'' (cursor_key org ''telegram'' consumer) cs' = Some (int_str (Max (set ?ids) + 1))"
    using s by (simp add: get_cursor_def)
  with t' new once below again show ?thesis by blast
qed

theorem poll_loses_and_repeats_nothing_witness:
  "\<exists>n t' cs'. telegram_once (\<lambda>f. []) (JList [JObj [(''update_id'', JInt 7)]]) ''org'' ''client'' 0 ([], []) = Inr (n, t', cs') \<and>
     (\<exists>!r. r \<in> set t' \<and> q_id r = (''org'', ''telegram'', ''client'', ''telegram:7''))"
proof -
  let ?r = "telegram_once (\<lambda>f. []) (JList [JObj [(''update_id'', JInt 7)]]) ''org'' ''client'' 0 ([], [])"
  have e: "telegram_event_id (\<lambda>f. []) [(''update_id'', JInt 7)] = ''telegram:7''"
  proof -
    have "int_str 7 = ''7''" by code_simp
    then show ?thesis by (simp add: telegram_event_id_def python_int_text_def)
  qed
  obtain n t' cs' where r: "?r = Inr (n, t', cs')"
    by (simp add: telegram_once_def poll_once_def telegram_updates_def Let_def get_cursor_def) (metis prod.exhaust)
  from poll_loses_and_repeats_nothing[OF r, of "[(''update_id'', JInt 7)]" 7]
  have "\<exists>!x. x \<in> set t' \<and> q_id x = (''org'', ''telegram'', ''client'', telegram_event_id (\<lambda>f. []) [(''update_id'', JInt 7)])"
    by simp
  with r show ?thesis unfolding e by blast
qed

end
