(* ===== verification/Transports.thy ===== *)
theory Transports
  imports Ingress "HOL-Library.Log_Nat"
begin

text \<open>
  The two messengers as the program speaks to them: what \<open>parse\<close> makes of an update, the bodies that \<open>send\<close>
  and the other requests post, what their responses mean (\<open>transports/telegram.py\<close>, \<open>transports/max.py\<close>). The
  HTTP client is an argument. So are the notation of floats, lists and mappings in text (\<open>show\<close>) and the reading
  of floats from text (\<open>read_float\<close>).
\<close>

section \<open>Values of a payload\<close>

type_synonym payload = "(string, json) dict"

text \<open>\<open>d.get(k)\<close>, \<open>a or b\<close>, \<open>x if isinstance(x, dict) else {}\<close>, \<open>str(x or "")\<close> and \<open>s or None\<close>\<close>

definition got :: "string \<Rightarrow> payload \<Rightarrow> json" where
  "got k d = get_default k JNull d"

definition either :: "json \<Rightarrow> json \<Rightarrow> json" where
  "either a b = (if truthy a then a else b)"

fun object_or_empty :: "json \<Rightarrow> payload" where
  "object_or_empty (JObj d) = d"
| "object_or_empty _ = []"

fun list_or_empty :: "json \<Rightarrow> json list" where
  "list_or_empty (JList xs) = xs"
| "list_or_empty _ = []"

fun is_object :: "json \<Rightarrow> bool" where
  "is_object (JObj d) = True"
| "is_object _ = False"

definition text_or_empty :: "(json \<Rightarrow> string) \<Rightarrow> json \<Rightarrow> string" where
  "text_or_empty show v = (if truthy v then py_str show v else [])"

definition text_option :: "string \<Rightarrow> string option" where
  "text_option s = (if s = [] then None else Some s)"

text \<open>
  \<open>float(x)\<close>. An integer is rounded to 53 significant bits, half to even, and does not fit from
  \<open>2 ^ 1024\<close> on.
\<close>

definition round_53 :: "nat \<Rightarrow> nat" where
  "round_53 n =
     (if n < 2 ^ 53 then n
      else let e = floorlog 2 n - 53; q = n div 2 ^ e; r = n mod 2 ^ e
           in (if r > 2 ^ (e - 1) \<or> (r = 2 ^ (e - 1) \<and> odd q) then q + 1 else q) * 2 ^ e)"

definition float_of_int :: "int \<Rightarrow> pyfloat result" where
  "float_of_int n =
     (let m = int (round_53 (nat \<bar>n\<bar>))
      in if m < 2 ^ 1024 then Inr (Finite (of_int (if n < 0 then - m else m)))
         else Inl (OverflowError ''int too large to convert to float''))"

fun to_float :: "(string \<Rightarrow> pyfloat option) \<Rightarrow> json \<Rightarrow> pyfloat result" where
  "to_float read_float (JFloat x) = Inr x"
| "to_float read_float (JInt n) = float_of_int n"
| "to_float read_float (JBool b) = Inr (Finite (if b then 1 else 0))"
| "to_float read_float (JStr s) =
     (case read_float s of Some x \<Rightarrow> Inr x | None \<Rightarrow> Inl (ValueError ''could not convert string to float''))"
| "to_float read_float _ = Inl (TypeError ''float() argument must be a string or a real number'')"

text \<open>\<open>float(d[k])\<close> for the two coordinates, where a missing key and a value that is no number give None.\<close>

definition coordinates ::
  "(string \<Rightarrow> pyfloat option) \<Rightarrow> payload \<Rightarrow> (pyfloat \<times> pyfloat) option result" where
  "coordinates read_float d =
     (let read = (\<lambda>k. case dict_get k d of None \<Rightarrow> Inl (KeyError k) | Some v \<Rightarrow> to_float read_float v)
      in case result_bind (read ''latitude'') (\<lambda>lat. result_bind (read ''longitude'') (\<lambda>lon. Inr (lat, lon))) of
           Inr c \<Rightarrow> Inr (Some c)
         | Inl (KeyError k) \<Rightarrow> Inr None
         | Inl (TypeError m) \<Rightarrow> Inr None
         | Inl (ValueError m) \<Rightarrow> Inr None
         | Inl e \<Rightarrow> Inl e)"

definition blank_event :: "string \<Rightarrow> string \<Rightarrow> string \<Rightarrow> string \<Rightarrow> event_kind \<Rightarrow> inbound_event" where
  "blank_event provider ident user chat kind =
     \<lparr>ev_provider = provider, ev_external_event_id = ident, ev_external_user_id = user, ev_chat_id = chat,
      ev_kind = kind, ev_text = None, ev_callback_token = None, ev_callback_id = None, ev_media_id = None,
      ev_latitude = None, ev_longitude = None\<rparr>"

definition one_event :: "inbound_event \<Rightarrow> inbound_event list result" where
  "one_event e = result_bind (make_event e) (\<lambda>e'. Inr [e'])"

section \<open>Updates of Telegram\<close>

definition telegram_callback :: "(json \<Rightarrow> string) \<Rightarrow> string \<Rightarrow> string \<Rightarrow> payload \<Rightarrow> inbound_event list result" where
  "telegram_callback show secret ident callback =
     result_bind (decode_callback (got ''data'' callback) (Some secret)) (\<lambda>token.
       let actor = object_or_empty (got ''from'' callback);
           chat = object_or_empty (got ''chat'' (object_or_empty (got ''message'' callback)));
           user = text_or_empty show (got ''id'' actor);
           chat_id = py_str show (either (got ''id'' chat) (JStr user))
       in if falsy token \<or> user = [] then Inr []
          else one_event ((blank_event ''telegram'' ident user chat_id ECallback)
            \<lparr>ev_callback_token := token, ev_callback_id := text_option (text_or_empty show (got ''id'' callback))\<rparr>))"

definition telegram_text :: "inbound_event \<Rightarrow> json \<Rightarrow> inbound_event list result" where
  "telegram_text e text =
     (case text of
        JStr s \<Rightarrow> one_event (e\<lparr>ev_kind := (if str_starts_with ''/start'' s then EStart else EMessage), ev_text := Some s\<rparr>)
      | _ \<Rightarrow> Inr [])"

definition telegram_photo :: "(json \<Rightarrow> string) \<Rightarrow> inbound_event \<Rightarrow> payload \<Rightarrow> inbound_event option" where
  "telegram_photo show e message =
     (case list_or_empty (got ''photo'' message) of
        [] \<Rightarrow> None
      | photos \<Rightarrow>
          let file = got ''file_id'' (object_or_empty (last photos))
          in if truthy file
             then Some (e\<lparr>ev_kind := EPhoto, ev_text := text_option (text_or_empty show (got ''caption'' message)),
               ev_media_id := Some (py_str show file)\<rparr>)
             else None)"

definition telegram_message ::
  "(json \<Rightarrow> string) \<Rightarrow> (string \<Rightarrow> pyfloat option) \<Rightarrow> string \<Rightarrow> payload \<Rightarrow> inbound_event list result" where
  "telegram_message show read_float ident message =
     (let actor = object_or_empty (got ''from'' message); chat = object_or_empty (got ''chat'' message);
          user = text_or_empty show (either (got ''id'' actor) (got ''id'' chat));
          chat_id = py_str show (either (got ''id'' chat) (JStr user));
          e = blank_event ''telegram'' ident user chat_id EMessage;
          phone = got ''phone_number'' (object_or_empty (got ''contact'' message));
          location = got ''location'' message
      in if user = [] then Inr []
         else if truthy phone then one_event (e\<lparr>ev_kind := EContact, ev_text := Some (py_str show phone)\<rparr>)
         else if is_object location then
           result_bind (coordinates read_float (object_or_empty location)) (\<lambda>c. case c of
               None \<Rightarrow> Inr []
             | Some (lat, lon) \<Rightarrow> one_event (e\<lparr>ev_kind := ELocation, ev_latitude := Some lat, ev_longitude := Some lon\<rparr>))
         else (case telegram_photo show e message of
             Some p \<Rightarrow> one_event p
           | None \<Rightarrow> telegram_text e (got ''text'' message)))"

definition telegram_parse ::
  "(json \<Rightarrow> string) \<Rightarrow> (pyfloat \<Rightarrow> string) \<Rightarrow> (string \<Rightarrow> pyfloat option) \<Rightarrow> string \<Rightarrow> payload \<Rightarrow>
   inbound_event list result"
where
  "telegram_parse show fr read_float secret payload =
     (let ident = telegram_event_id fr payload
      in case got ''callback_query'' payload of
           JObj callback \<Rightarrow> telegram_callback show secret ident callback
         | _ \<Rightarrow> (case either (got ''message'' payload) (got ''edited_message'' payload) of
               JObj message \<Rightarrow> telegram_message show read_float ident message
             | _ \<Rightarrow> Inr []))"

section \<open>Updates of MAX\<close>

definition max_candidates :: "payload \<Rightarrow> json list" where
  "max_candidates item =
     (let callback = object_or_empty (got ''callback'' item); message = object_or_empty (got ''message'' item);
          body = object_or_empty (got ''body'' message)
      in [got ''update_id'' item, got ''callback_id'' callback, got ''mid'' body, got ''message_id'' message,
          got ''timestamp'' item])"

definition max_event_id :: "(json \<Rightarrow> string) \<Rightarrow> (pyfloat \<Rightarrow> string) \<Rightarrow> payload \<Rightarrow> string" where
  "max_event_id show fr payload =
     (case find truthy (max_candidates payload) of
        Some candidate \<Rightarrow> ''max:'' @ py_str show candidate
      | None \<Rightarrow> stable_payload_id fr ''max'' payload)"

fun max_user_in :: "(json \<Rightarrow> string) \<Rightarrow> string list \<Rightarrow> payload \<Rightarrow> string option" where
  "max_user_in show [] item = None"
| "max_user_in show (k # ks) item =
     (case got k item of
        JObj user \<Rightarrow>
          let value = either (got ''id'' user) (got ''user_id'' user)
          in if value \<noteq> JNull then Some (py_str show value) else max_user_in show ks item
      | _ \<Rightarrow> max_user_in show ks item)"

definition max_user_id :: "(json \<Rightarrow> string) \<Rightarrow> payload \<Rightarrow> string" where
  "max_user_id show item =
     (case max_user_in show [''user'', ''from'', ''sender''] item of
        Some u \<Rightarrow> u
      | None \<Rightarrow> let value = got ''user_id'' item in if value \<noteq> JNull then py_str show value else [])"

definition max_text :: "(json \<Rightarrow> string) \<Rightarrow> payload \<Rightarrow> string option" where
  "max_text show item =
     (let text = got ''text'' item;
          text' = (if text = JNull then got ''text'' (object_or_empty (got ''body'' item)) else text)
      in if text' = JNull then None else Some (py_str show text'))"

definition or_text :: "string \<Rightarrow> string \<Rightarrow> string" where
  "or_text a b = (if a = [] then b else a)"

definition max_callback :: "(json \<Rightarrow> string) \<Rightarrow> string \<Rightarrow> string \<Rightarrow> payload \<Rightarrow> inbound_event list result" where
  "max_callback show secret ident item =
     (let callback = object_or_empty (got ''callback'' item);
          user = or_text (max_user_id show callback) (max_user_id show item)
      in result_bind (decode_callback (either (got ''payload'' callback) (got ''data'' callback)) (Some secret)) (\<lambda>token.
         if user = [] \<or> falsy token then Inr []
         else one_event ((blank_event ''max'' ident user user ECallback)
           \<lparr>ev_callback_token := token, ev_callback_id := text_option (text_or_empty show (got ''callback_id'' callback))\<rparr>)))"

definition max_attachment ::
  "(json \<Rightarrow> string) \<Rightarrow> (string \<Rightarrow> pyfloat option) \<Rightarrow> inbound_event \<Rightarrow> json \<Rightarrow> inbound_event list result" where
  "max_attachment show read_float e attachment =
     (case attachment of
        JObj a \<Rightarrow>
          let url = got ''url'' (object_or_empty (got ''payload'' a))
          in if got ''type'' a = JStr ''image'' \<and> truthy url
             then one_event (e\<lparr>ev_kind := EPhoto, ev_media_id := Some (py_str show url)\<rparr>)
             else if got ''type'' a = JStr ''location'' then
               result_bind (coordinates read_float a) (\<lambda>c. case c of
                   None \<Rightarrow> Inr []
                 | Some (lat, lon) \<Rightarrow> one_event (e\<lparr>ev_kind := ELocation, ev_latitude := Some lat, ev_longitude := Some lon\<rparr>))
             else Inr []
      | _ \<Rightarrow> Inr [])"

fun collect_events :: "('a \<Rightarrow> 'b list result) \<Rightarrow> 'a list \<Rightarrow> 'b list result" where
  "collect_events f [] = Inr []"
| "collect_events f (x # xs) =
     result_bind (f x) (\<lambda>ys. result_bind (collect_events f xs) (\<lambda>zs. Inr (ys @ zs)))"

definition max_message ::
  "(json \<Rightarrow> string) \<Rightarrow> (string \<Rightarrow> pyfloat option) \<Rightarrow> string \<Rightarrow> payload \<Rightarrow> inbound_event list result" where
  "max_message show read_float ident item =
     (let message = (case got ''message'' item of JObj d \<Rightarrow> d | _ \<Rightarrow> item);
          user = or_text (max_user_id show message) (max_user_id show item);
          e = (blank_event ''max'' ident user user EMessage)\<lparr>ev_text := max_text show message\<rparr>;
          attachments = list_or_empty (got ''attachments'' (object_or_empty (got ''body'' message)))
      in if user = [] then Inr []
         else result_bind (collect_events (max_attachment show read_float e) attachments)
           (\<lambda>events. if events = [] then one_event e else Inr events))"

text \<open>A list or a mapping cannot be looked up in a set.\<close>

definition max_parse_one ::
  "(json \<Rightarrow> string) \<Rightarrow> (pyfloat \<Rightarrow> string) \<Rightarrow> (string \<Rightarrow> pyfloat option) \<Rightarrow> string \<Rightarrow> payload \<Rightarrow>
   inbound_event list result"
where
  "max_parse_one show fr read_float secret item =
     (let update_type = either (either (got ''update_type'' item) (got ''type'' item)) (JStr ''message'');
          ident = max_event_id show fr item
      in if update_type = JStr ''message_callback'' then max_callback show secret ident item
         else if update_type = JStr ''bot_started'' then
           (let user = max_user_id show item
            in if user = [] then Inr []
               else one_event ((blank_event ''max'' ident user user EStart)
                 \<lparr>ev_text := Some (case max_text show item of None \<Rightarrow> ''/start'' | Some s \<Rightarrow> or_text s ''/start'')\<rparr>))
         else (case update_type of
             JList xs \<Rightarrow> Inl (TypeError ''unhashable type'')
           | JObj d \<Rightarrow> Inl (TypeError ''unhashable type'')
           | _ \<Rightarrow> if update_type \<notin> {JStr ''message_created'', JStr ''message''} then Inr []
               else max_message show read_float ident item))"

definition max_parse ::
  "(json \<Rightarrow> string) \<Rightarrow> (pyfloat \<Rightarrow> string) \<Rightarrow> (string \<Rightarrow> pyfloat option) \<Rightarrow> string \<Rightarrow> payload \<Rightarrow>
   inbound_event list result"
where
  "max_parse show fr read_float secret payload =
     (case got ''updates'' payload of
        JList updates \<Rightarrow>
          collect_events (\<lambda>item. case item of JObj d \<Rightarrow> max_parse_one show fr read_float secret d | _ \<Rightarrow> Inr []) updates
      | _ \<Rightarrow> max_parse_one show fr read_float secret payload)"

definition transport_parse ::
  "(json \<Rightarrow> string) \<Rightarrow> (pyfloat \<Rightarrow> string) \<Rightarrow> (string \<Rightarrow> pyfloat option) \<Rightarrow> string \<Rightarrow> string \<Rightarrow> payload \<Rightarrow>
   inbound_event list result"
where
  "transport_parse show fr read_float secret provider =
     (if provider = ''telegram'' then telegram_parse show fr read_float secret
      else max_parse show fr read_float secret)"

section \<open>What is sent\<close>

text \<open>A request is the path it goes to and its document; a response is a status and a body, None if that is no JSON.\<close>

record http_response =
  hr_status :: int
  hr_body :: "json option"

text \<open>The rate limit errors carry the delay the service asked for; they are no \<open>RuntimeError\<close>.\<close>

datatype transport_error = RateLimited json string | Raised py_error

type_synonym 'a posted = "transport_error + 'a"

text \<open>A dictionary display sets its keys in turn; \<open>updated\<close> adds the keys of a later statement.\<close>

definition telegram_button :: "string \<Rightarrow> outbound_button \<Rightarrow> json result" where
  "telegram_button secret b =
     (case ob_callback_token b of
        Some token \<Rightarrow> result_bind (encode_callback token secret)
          (\<lambda>d. Inr (JObj [(''text'', JStr (ob_text b)), (''callback_data'', JStr d)]))
      | None \<Rightarrow> (case ob_url b of
            Some url \<Rightarrow> Inr (JObj [(''text'', JStr (ob_text b)), (''url'', JStr url)])
          | None \<Rightarrow>
              if ob_request_location b then Inl (ValueError ''Telegram location request requires a reply keyboard'')
              else Inl (ValueError ''unsupported Telegram button'')))"

definition max_button :: "string \<Rightarrow> outbound_button \<Rightarrow> json result" where
  "max_button secret b =
     (case ob_callback_token b of
        Some token \<Rightarrow> result_bind (encode_callback token secret)
          (\<lambda>d. Inr (JObj [(''type'', JStr ''callback''), (''text'', JStr (ob_text b)), (''payload'', JStr d)]))
      | None \<Rightarrow> (case ob_url b of
            Some url \<Rightarrow> Inr (JObj [(''type'', JStr ''link''), (''text'', JStr (ob_text b)), (''url'', JStr url)])
          | None \<Rightarrow>
              if ob_request_location b
              then Inr (JObj [(''type'', JStr ''request_geo_location''), (''text'', JStr (ob_text b))])
              else Inl (ValueError ''unsupported MAX button'')))"

definition location_key :: "outbound_button \<Rightarrow> json" where
  "location_key b = JObj [(''text'', JStr (ob_text b)), (''request_location'', JBool True)]"

definition keyboard :: "(outbound_button \<Rightarrow> json result) \<Rightarrow> outbound_button list \<Rightarrow> json result" where
  "keyboard button bs =
     result_bind (map_result (\<lambda>row. result_bind (map_result button row) (\<lambda>keys. Inr (JList keys))) (group_buttons bs))
       (\<lambda>rows. Inr (JList rows))"

definition telegram_markup :: "string \<Rightarrow> outbound_button list \<Rightarrow> payload result" where
  "telegram_markup secret bs =
     (if bs = [] then Inr []
      else let located = filter ob_request_location bs
           in if located \<noteq> [] then
                (if length located \<noteq> length bs then Inl (ValueError ''Telegram cannot mix inline and reply keyboard buttons'')
                 else result_bind (keyboard (\<lambda>b. Inr (location_key b)) bs) (\<lambda>rows.
                   Inr [(''reply_markup'', JObj [(''keyboard'', rows), (''resize_keyboard'', JBool True),
                     (''one_time_keyboard'', JBool True)])]))
              else result_bind (keyboard (telegram_button secret) bs) (\<lambda>rows.
                Inr [(''reply_markup'', JObj [(''inline_keyboard'', rows)])]))"

definition TELEGRAM_TEXT_LIMIT :: nat where "TELEGRAM_TEXT_LIMIT = 4096"
definition MAX_TEXT_LIMIT :: nat where "MAX_TEXT_LIMIT = 4000"

definition telegram_body :: "string \<Rightarrow> string \<Rightarrow> string \<Rightarrow> outbound_button list \<Rightarrow> payload result" where
  "telegram_body secret recipient text bs =
     result_bind (telegram_markup secret bs) (\<lambda>markup.
       Inr ([(''chat_id'', JStr recipient), (''text'', JStr (take TELEGRAM_TEXT_LIMIT text)),
         (''disable_web_page_preview'', JBool True)] @ markup))"

definition max_body :: "string \<Rightarrow> string \<Rightarrow> outbound_button list \<Rightarrow> payload result" where
  "max_body secret text bs =
     result_bind
       (if bs = [] then Inr []
        else result_bind (keyboard (max_button secret) bs) (\<lambda>rows.
          Inr [(''attachments'', JList [JObj [(''type'', JStr ''inline_keyboard''), (''payload'', JObj [(''buttons'', rows)])]])]))
       (\<lambda>attachments. Inr ((''text'', JStr (take MAX_TEXT_LIMIT text)) # attachments))"

section \<open>What a response means\<close>

definition telegram_check :: "(json \<Rightarrow> string) \<Rightarrow> http_response \<Rightarrow> json posted" where
  "telegram_check show r =
     (let parameters = (\<lambda>d. object_or_empty (got ''parameters'' d))
      in if hr_status r = 429 then
           Inl (RateLimited (either (case hr_body r of Some (JObj d) \<Rightarrow> got ''retry_after'' (parameters d) | _ \<Rightarrow> JNull)
             (JInt 30)) ''Too Many Requests'')
         else if hr_status r \<ge> 500 then
           Inl (Raised (RuntimeError (''Telegram server error HTTP '' @ int_str (hr_status r))))
         else (case hr_body r of
             None \<Rightarrow> Inl (Raised (ValueError ''the response is not JSON''))
           | Some (JObj d) \<Rightarrow>
               if truthy (got ''ok'' d) then Inr (got ''result'' d)
               else let description = py_str show (get_default ''description'' (JStr ''unknown error'') d);
                        code = py_str show (get_default ''error_code'' (JInt (hr_status r)) d);
                        retry = got ''retry_after'' (parameters d)
                    in if truthy retry then Inl (RateLimited retry description)
                       else Inl (Raised (RuntimeError (''Telegram API error '' @ code @ '': '' @ description)))
           | Some v \<Rightarrow> Inl (Raised (RuntimeError
               (''Telegram returned non-object response: '' @ int_str (hr_status r))))))"

definition lift_sent :: "'a result \<Rightarrow> 'a posted" where
  "lift_sent r = (case r of Inl e \<Rightarrow> Inl (Raised e) | Inr x \<Rightarrow> Inr x)"

text \<open>\<open>post\<close> is the HTTP client: a path and a document give a response, or the error it raised.\<close>

definition telegram_call ::
  "(json \<Rightarrow> string) \<Rightarrow> (string \<Rightarrow> payload \<Rightarrow> http_response result) \<Rightarrow> string \<Rightarrow> payload \<Rightarrow> json posted" where
  "telegram_call show post method body =
     (case post method body of Inl e \<Rightarrow> Inl (Raised e) | Inr r \<Rightarrow> telegram_check show r)"

definition telegram_send ::
  "(json \<Rightarrow> string) \<Rightarrow> string \<Rightarrow> (string \<Rightarrow> payload \<Rightarrow> http_response result) \<Rightarrow> string \<Rightarrow> string \<Rightarrow>
   outbound_button list \<Rightarrow> string option posted"
where
  "telegram_send show secret post recipient text bs =
     (case telegram_body secret recipient text bs of
        Inl e \<Rightarrow> Inl (Raised e)
      | Inr body \<Rightarrow> (case telegram_call show post ''/sendMessage'' body of
            Inl e \<Rightarrow> Inl e
          | Inr sent \<Rightarrow>
              let message_id = got ''message_id'' (object_or_empty sent)
              in Inr (if message_id = JNull then None else Some (py_str show message_id))))"

definition telegram_answer ::
  "(json \<Rightarrow> string) \<Rightarrow> (string \<Rightarrow> payload \<Rightarrow> http_response result) \<Rightarrow> string \<Rightarrow> string option \<Rightarrow> unit posted" where
  "telegram_answer show post callback_id text =
     (case telegram_call show post ''/answerCallbackQuery''
         ((''callback_query_id'', JStr callback_id) # (if falsy text then [] else [(''text'', JStr (text_of text))])) of
        Inl e \<Rightarrow> Inl e | Inr v \<Rightarrow> Inr ())"

definition ALLOWED_UPDATES :: json where
  "ALLOWED_UPDATES = JList [JStr ''message'', JStr ''edited_message'', JStr ''callback_query'']"

definition telegram_get_updates ::
  "(json \<Rightarrow> string) \<Rightarrow> (string \<Rightarrow> payload \<Rightarrow> http_response result) \<Rightarrow> int \<Rightarrow> int \<Rightarrow> int option \<Rightarrow>
   (payload list \<times> int option) posted"
where
  "telegram_get_updates show post wait limit offset =
     (case telegram_call show post ''/getUpdates''
         ([(''timeout'', JInt wait), (''limit'', JInt limit), (''allowed_updates'', ALLOWED_UPDATES)] @
           (case offset of None \<Rightarrow> [] | Some n \<Rightarrow> [(''offset'', JInt n)])) of
        Inl e \<Rightarrow> Inl e | Inr data \<Rightarrow> lift_sent (telegram_updates data offset))"

definition set_webhook ::
  "(json \<Rightarrow> string) \<Rightarrow> (string \<Rightarrow> payload \<Rightarrow> http_response result) \<Rightarrow> string \<Rightarrow> string \<Rightarrow> bool \<Rightarrow> unit posted" where
  "set_webhook show post url secret_token drop_pending =
     (case telegram_call show post ''/setWebhook'' [(''url'', JStr url), (''secret_token'', JStr secret_token),
         (''allowed_updates'', ALLOWED_UPDATES), (''drop_pending_updates'', JBool drop_pending)] of
        Inl e \<Rightarrow> Inl e | Inr v \<Rightarrow> Inr ())"

definition set_my_commands ::
  "(json \<Rightarrow> string) \<Rightarrow> (string \<Rightarrow> payload \<Rightarrow> http_response result) \<Rightarrow> (string \<times> string) list \<Rightarrow> payload option \<Rightarrow>
   unit posted"
where
  "set_my_commands show post commands scope =
     (case telegram_call show post ''/setMyCommands''
         ((''commands'', JList (map (\<lambda>(c, d). JObj [(''command'', JStr c), (''description'', JStr d)]) commands)) #
           (case scope of None \<Rightarrow> [] | Some s \<Rightarrow> [(''scope'', JObj s)])) of
        Inl e \<Rightarrow> Inl e | Inr v \<Rightarrow> Inr ())"

definition provider_error :: "(json \<Rightarrow> string) \<Rightarrow> string \<Rightarrow> payload \<Rightarrow> py_error" where
  "provider_error show operation d =
     RuntimeError (''MAX '' @ operation @ '' error '' @ py_str show (either (got ''code'' d) (JStr ''unknown_error'')) @ '': '' @
       py_str show (either (either (either (got ''message'' d) (got ''description'' d)) (got ''error'' d))
         (JStr ''provider rejected the request'')))"

text \<open>\<open>_request\<close> without the wait for its turn, which the theory of the rate limit models.\<close>

definition max_request :: "(json \<Rightarrow> string) \<Rightarrow> http_response result \<Rightarrow> http_response posted" where
  "max_request show response =
     (case response of
        Inl e \<Rightarrow> Inl (Raised e)
      | Inr r \<Rightarrow>
          let d = (case hr_body r of Some v \<Rightarrow> object_or_empty v | None \<Rightarrow> [])
          in if hr_status r = 429 then Inl (RateLimited (get_default ''retry_after'' (JInt 30) d) [])
             else if hr_status r \<ge> 500 then
               Inl (Raised (RuntimeError (''MAX server error HTTP '' @ int_str (hr_status r))))
             else if hr_status r \<ge> 400 then Inl (Raised (provider_error show (''HTTP '' @ int_str (hr_status r)) d))
             else Inr r)"

definition response_object ::
  "(json \<Rightarrow> string) \<Rightarrow> string \<Rightarrow> string list \<Rightarrow> http_response \<Rightarrow> payload posted" where
  "response_object show operation allowed r =
     (case hr_body r of
        None \<Rightarrow> Inl (Raised (RuntimeError (''MAX '' @ operation @ '' response is not valid JSON'')))
      | Some (JObj d) \<Rightarrow>
          if truthy (got ''code'' d) \<and> py_str show (got ''code'' d) \<notin> set allowed
          then Inl (Raised (provider_error show operation d)) else Inr d
      | Some v \<Rightarrow> Inl (Raised (RuntimeError (''MAX '' @ operation @ '' response is not an object''))))"

definition bind_sent :: "'a posted \<Rightarrow> ('a \<Rightarrow> 'b posted) \<Rightarrow> 'b posted" where
  "bind_sent r f = (case r of Inl e \<Rightarrow> Inl e | Inr x \<Rightarrow> f x)"

text \<open>
  A message whose attachment is not ready is posted again, four times at most; \<open>respond n\<close> is the response
  to the request number \<open>n\<close>. The second component counts the requests.
\<close>

definition NOT_READY :: string where "NOT_READY = ''attachment.not.ready''"
definition READY_RETRIES :: nat where "READY_RETRIES = 4"

fun max_post :: "(json \<Rightarrow> string) \<Rightarrow> (nat \<Rightarrow> http_response result) \<Rightarrow> nat \<Rightarrow> nat \<Rightarrow> payload posted \<times> nat" where
  "max_post show respond attempt 0 = (Inr [], 0)"
| "max_post show respond attempt (Suc left) =
     (case bind_sent (max_request show (respond attempt)) (response_object show ''send message'' [NOT_READY]) of
        Inl e \<Rightarrow> (Inl e, 1)
      | Inr d \<Rightarrow>
          if got ''code'' d = JStr NOT_READY \<and> left > 0
          then let (r, n) = max_post show respond (attempt + 1) left in (r, n + 1)
          else (Inr d, 1))"

definition sent_message_id :: "payload \<Rightarrow> json" where
  "sent_message_id d =
     (let sent = (case got ''message'' d of JObj m \<Rightarrow> m | _ \<Rightarrow> d)
      in either (either (either (got ''mid'' (object_or_empty (got ''body'' sent))) (got ''message_id'' sent)) (got ''id'' sent))
           (got ''message_id'' d))"

definition max_send ::
  "(json \<Rightarrow> string) \<Rightarrow> string \<Rightarrow> (payload \<Rightarrow> nat \<Rightarrow> http_response result) \<Rightarrow> string \<Rightarrow> outbound_button list \<Rightarrow>
   string option posted"
where
  "max_send show secret respond text bs =
     (case max_body secret text bs of
        Inl e \<Rightarrow> Inl (Raised e)
      | Inr body \<Rightarrow> bind_sent (fst (max_post show (respond body) 0 READY_RETRIES)) (\<lambda>d.
          if truthy (got ''code'' d) then Inl (Raised (provider_error show ''send message'' d))
          else if truthy (sent_message_id d) then Inr (Some (py_str show (sent_message_id d)))
          else Inl (Raised (RuntimeError ''MAX send message response has no message id''))))"

definition max_answer :: "(json \<Rightarrow> string) \<Rightarrow> (payload \<Rightarrow> http_response result) \<Rightarrow> string option \<Rightarrow> unit posted" where
  "max_answer show respond text =
     bind_sent (max_request show (respond (if falsy text then [] else [(''notification'', JStr (text_of text))])))
       (\<lambda>r. bind_sent (response_object show ''answer callback'' [] r) (\<lambda>d. Inr ()))"

text \<open>\<open>int(x)\<close> of a marker; a float is cut off, an infinite one or NaN cannot be.\<close>

definition to_int :: "json \<Rightarrow> int result" where
  "to_int v =
     (case v of
        JInt n \<Rightarrow> Inr n
      | JBool b \<Rightarrow> Inr (if b then 1 else 0)
      | JStr s \<Rightarrow> (case parse_int s of Some n \<Rightarrow> Inr n | None \<Rightarrow> Inl (ValueError ''invalid literal for int()''))
      | JFloat (Finite x) \<Rightarrow> Inr (if x < 0 then - \<lfloor>- x\<rfloor> else \<lfloor>x\<rfloor>)
      | JFloat NaN \<Rightarrow> Inl (ValueError ''cannot convert float NaN to integer'')
      | JFloat y \<Rightarrow> Inl (OverflowError ''cannot convert float infinity to integer'')
      | _ \<Rightarrow> Inl (TypeError ''int() argument must be a string or a number''))"

definition max_marker :: "json \<Rightarrow> int option \<Rightarrow> int option result" where
  "max_marker v marker =
     (if v = JNull then Inr marker
      else (case to_int v of
          Inr n \<Rightarrow> Inr (Some n)
        | Inl (OverflowError m) \<Rightarrow> Inl (OverflowError m)
        | Inl e \<Rightarrow> Inl (RuntimeError ''MAX marker is not an integer'')))"

definition max_get_updates ::
  "(json \<Rightarrow> string) \<Rightarrow> (payload \<Rightarrow> http_response result) \<Rightarrow> int \<Rightarrow> int \<Rightarrow> int option \<Rightarrow>
   (payload list \<times> int option) posted"
where
  "max_get_updates show respond wait limit marker =
     bind_sent (max_request show (respond ([(''timeout'', JInt wait), (''limit'', JInt limit)] @
         (case marker of None \<Rightarrow> [] | Some n \<Rightarrow> [(''marker'', JInt n)]))))
       (\<lambda>r. bind_sent (response_object show ''updates'' [] r) (\<lambda>d.
         (case either (got ''updates'' d) (JList []) of
            JList updates \<Rightarrow> lift_sent (result_bind (max_marker (got ''marker'' d) marker)
              (\<lambda>next. Inr (concat (map (\<lambda>u. case u of JObj x \<Rightarrow> [x] | _ \<Rightarrow> []) updates), next)))
          | _ \<Rightarrow> Inl (Raised (RuntimeError ''MAX updates field is not a list'')))))"

section \<open>What parsing can do\<close>

lemma py_str_nonempty: "\<lbrakk>\<forall>v. show v \<noteq> []; truthy v\<rbrakk> \<Longrightarrow> py_str show v \<noteq> []"
  by (cases v) (auto simp: int_str_def)

lemma either_text_nonempty: "\<lbrakk>\<forall>v. show v \<noteq> []; s \<noteq> []\<rbrakk> \<Longrightarrow> py_str show (either v (JStr s)) \<noteq> []"
  by (auto simp: either_def dest: py_str_nonempty)

lemma event_ids_nonempty: "telegram_event_id fr d \<noteq> []" "max_event_id show fr d \<noteq> []"
  by (auto simp: telegram_event_id_def max_event_id_def stable_payload_id_def split: option.splits)

text \<open>
  A parse that is sound for a provider: its events pass their checks, or the error is one of three: strings
  outside ASCII cannot be compared by \<open>hmac.compare_digest\<close>, an integer may be too large for a float, and
  MAX looks the update type up in a set.
\<close>

definition SIGNATURE_NOT_ASCII :: py_error where
  "SIGNATURE_NOT_ASCII = TypeError ''comparing strings with non-ASCII characters is not supported''"
definition COORDINATE_TOO_LARGE :: py_error where
  "COORDINATE_TOO_LARGE = OverflowError ''int too large to convert to float''"
definition TYPE_UNHASHABLE :: py_error where
  "TYPE_UNHASHABLE = TypeError ''unhashable type''"

definition parse_error :: "string \<Rightarrow> py_error \<Rightarrow> bool" where
  "parse_error provider e \<longleftrightarrow>
     e = SIGNATURE_NOT_ASCII \<or> e = COORDINATE_TOO_LARGE \<or> (provider = ''max'' \<and> e = TYPE_UNHASHABLE)"

lemmas parse_error_defs = parse_error_def SIGNATURE_NOT_ASCII_def COORDINATE_TOO_LARGE_def TYPE_UNHASHABLE_def

definition sound_parse :: "string \<Rightarrow> inbound_event list result \<Rightarrow> bool" where
  "sound_parse provider r \<longleftrightarrow> (case r of
     Inl e \<Rightarrow> parse_error provider e
   | Inr evs \<Rightarrow> list_all (\<lambda>e. make_event e = Inr e \<and> ev_provider e = provider) evs)"

lemma sound_Nil [simp]: "sound_parse provider (Inr [])"
  by (simp add: sound_parse_def)

lemma sound_one:
  assumes "ev_provider e = provider" "ev_external_event_id e \<noteq> []" "ev_external_user_id e \<noteq> []" "ev_chat_id e \<noteq> []"
    and "ev_kind e = ECallback \<Longrightarrow> \<not> falsy (ev_callback_token e)"
    and "ev_kind e = ELocation \<Longrightarrow> ev_latitude e \<noteq> None \<and> ev_longitude e \<noteq> None"
    and "ev_kind e = EPhoto \<Longrightarrow> \<not> falsy (ev_media_id e)"
  shows "sound_parse provider (one_event e)"
proof -
  have "make_event e = Inr e" using assms by (auto simp: make_event_def)
  then show ?thesis using assms(1) by (simp add: one_event_def sound_parse_def)
qed

lemma sound_bind:
  assumes "\<And>e. r = Inl e \<Longrightarrow> parse_error provider e" "\<And>x. r = Inr x \<Longrightarrow> sound_parse provider (f x)"
  shows "sound_parse provider (result_bind r f)"
  using assms by (cases r) (auto simp: sound_parse_def)

lemma sound_collect:
  "(\<And>x. x \<in> set xs \<Longrightarrow> sound_parse provider (f x)) \<Longrightarrow> sound_parse provider (collect_events f xs)"
  by (induction xs) (fastforce simp: sound_parse_def split: sum.splits)+

lemma decode_error: "decode_callback v s = Inl e \<Longrightarrow> parse_error provider e"
  by (auto simp: decode_callback_def decode_v2_def compare_digest_def parse_error_defs
      split: json.splits if_splits list.splits option.splits)

lemma to_float_error:
  "to_float read_float v = Inl e \<Longrightarrow> \<exists>m. e \<in> {ValueError m, TypeError m, COORDINATE_TOO_LARGE}"
  by (cases v) (auto simp: float_of_int_def Let_def COORDINATE_TOO_LARGE_def split: if_splits option.splits)

lemma coordinates_error:
  assumes "coordinates read_float d = Inl e"
  shows "parse_error provider e"
proof -
  let ?read = "\<lambda>k. case dict_get k d of None \<Rightarrow> Inl (KeyError k) | Some v \<Rightarrow> to_float read_float v"
  let ?r = "result_bind (?read ''latitude'') (\<lambda>lat. result_bind (?read ''longitude'') (\<lambda>lon. Inr (lat, lon)))"
  have read: "\<exists>m. err \<in> {KeyError m, ValueError m, TypeError m, COORDINATE_TOO_LARGE}" if "?read k = Inl err" for k err
    using that by (auto split: option.splits dest!: to_float_error)
  have "\<exists>m. err \<in> {KeyError m, ValueError m, TypeError m, COORDINATE_TOO_LARGE}" if "?r = Inl err" for err
    using that read[of "''latitude''"] read[of "''longitude''"]
    by (cases "?read ''latitude''"; cases "?read ''longitude''") auto
  moreover have "(case ?r of Inr c \<Rightarrow> Inr (Some c) | Inl (KeyError k) \<Rightarrow> Inr None | Inl (TypeError m) \<Rightarrow> Inr None
      | Inl (ValueError m) \<Rightarrow> Inr None | Inl e \<Rightarrow> Inl e) = Inl e"
    using assms by (simp add: coordinates_def Let_def)
  ultimately show ?thesis by (cases ?r) (fastforce simp: parse_error_defs split: py_error.splits)+
qed

lemma sound_location:
  assumes "\<And>lat lon. sound_parse provider (one_event (g lat lon))"
  shows "sound_parse provider (result_bind (coordinates read_float d)
    (\<lambda>c. case c of None \<Rightarrow> Inr [] | Some (lat, lon) \<Rightarrow> one_event (g lat lon)))"
  by (rule sound_bind) (auto intro: coordinates_error assms split: option.splits)

text \<open>The start of an event: who wrote where.\<close>

definition event_base :: "string \<Rightarrow> inbound_event \<Rightarrow> bool" where
  "event_base provider e \<longleftrightarrow> ev_provider e = provider \<and> ev_external_event_id e \<noteq> [] \<and> ev_external_user_id e \<noteq> [] \<and>
     ev_chat_id e \<noteq> []"

lemma sound_event:
  assumes "event_base provider e"
  shows "sound_parse provider (one_event (e\<lparr>ev_kind := EMessage, ev_text := text\<rparr>))"
    and "sound_parse provider (one_event (e\<lparr>ev_kind := EStart, ev_text := text\<rparr>))"
    and "sound_parse provider (one_event (e\<lparr>ev_kind := EContact, ev_text := text\<rparr>))"
    and "sound_parse provider (one_event (e\<lparr>ev_kind := ELocation, ev_latitude := Some lat, ev_longitude := Some lon\<rparr>))"
    and "m \<noteq> [] \<Longrightarrow> sound_parse provider (one_event (e\<lparr>ev_kind := EPhoto, ev_text := text, ev_media_id := Some m\<rparr>))"
    and "m \<noteq> [] \<Longrightarrow> sound_parse provider (one_event (e\<lparr>ev_kind := EPhoto, ev_media_id := Some m\<rparr>))"
  using assms by (auto intro!: sound_one simp: event_base_def falsy_def)

lemma sound_text: "event_base provider e \<Longrightarrow> sound_parse provider (telegram_text e v)"
  by (cases v) (auto simp: telegram_text_def sound_event)

lemma sound_photo:
  "\<lbrakk>\<forall>v. show v \<noteq> []; event_base provider e; telegram_photo show e message = Some p\<rbrakk> \<Longrightarrow> sound_parse provider (one_event p)"
  by (auto simp: telegram_photo_def Let_def sound_event py_str_nonempty split: list.splits if_splits)

lemma sound_callback:
  "\<lbrakk>event_base provider e; ev_kind e = ECallback; \<not> falsy token\<rbrakk> \<Longrightarrow>
   sound_parse provider (one_event (e\<lparr>ev_callback_token := token, ev_callback_id := c\<rparr>))"
  by (rule sound_one) (auto simp: event_base_def)

lemma blank_base [simp]:
  "event_base provider (blank_event p ident user chat kind) \<longleftrightarrow> p = provider \<and> ident \<noteq> [] \<and> user \<noteq> [] \<and> chat \<noteq> []"
  "ev_kind (blank_event p ident user chat kind) = kind"
  by (simp_all add: event_base_def blank_event_def)

lemma telegram_parse_sound:
  assumes "\<forall>v. show v \<noteq> []"
  shows "sound_parse ''telegram'' (telegram_parse show fr read_float secret payload)"
proof -
  let ?ident = "telegram_event_id fr payload"
  note ne = event_ids_nonempty either_text_nonempty[OF assms]
  have cb: "sound_parse ''telegram'' (telegram_callback show secret ?ident callback)" for callback
    unfolding telegram_callback_def Let_def
    by (rule sound_bind) (auto intro!: sound_callback simp: decode_error ne)
  have msg: "sound_parse ''telegram'' (telegram_message show read_float ?ident message)" for message
  proof -
    define actor chat where "actor = object_or_empty (got ''from'' message)" "chat = object_or_empty (got ''chat'' message)"
    define user where "user = text_or_empty show (either (got ''id'' actor) (got ''id'' chat))"
    define e where "e = blank_event ''telegram'' ?ident user (py_str show (either (got ''id'' chat) (JStr user))) EMessage"
    have e: "user \<noteq> [] \<Longrightarrow> event_base ''telegram'' e" by (simp add: e_def ne)
    show ?thesis
      unfolding telegram_message_def Let_def actor_chat_def[symmetric] user_def[symmetric] e_def[symmetric]
      by (auto intro: sound_event[OF e] sound_location sound_text[OF e] sound_photo[OF assms e] split: option.splits)
  qed
  show ?thesis
    unfolding telegram_parse_def Let_def by (auto simp: cb msg split: json.splits)
qed

lemma max_parse_one_sound:
  assumes "\<forall>v. show v \<noteq> []"
  shows "sound_parse ''max'' (max_parse_one show fr read_float secret item)"
proof -
  let ?ident = "max_event_id show fr item"
  note ne = event_ids_nonempty
  have cb: "sound_parse ''max'' (max_callback show secret ?ident item)"
    unfolding max_callback_def Let_def
    by (rule sound_bind) (auto intro!: sound_callback simp: decode_error ne)
  have att: "sound_parse ''max'' (max_attachment show read_float e a)" if "event_base ''max'' e" for e a
    by (cases a) (auto intro: sound_location simp: sound_event[OF that] py_str_nonempty[OF assms] max_attachment_def Let_def)
  have msg: "sound_parse ''max'' (max_message show read_float ?ident item)"
  proof -
    define message where "message = (case got ''message'' item of JObj d \<Rightarrow> d | _ \<Rightarrow> item)"
    define user where "user = or_text (max_user_id show message) (max_user_id show item)"
    define e where "e = (blank_event ''max'' ?ident user user EMessage)\<lparr>ev_text := max_text show message\<rparr>"
    have e: "user \<noteq> [] \<Longrightarrow> event_base ''max'' e" "ev_kind e = EMessage"
      by (simp_all add: e_def event_base_def blank_event_def ne)
    have one: "user \<noteq> [] \<Longrightarrow> sound_parse ''max'' (one_event e)"
      using e by (intro sound_one) (auto simp: event_base_def)
    have coll: "user \<noteq> [] \<Longrightarrow> sound_parse ''max'' (collect_events (max_attachment show read_float e) attachments)" for attachments
      by (intro sound_collect att e)
    have "user \<noteq> [] \<Longrightarrow> sound_parse ''max'' (result_bind (collect_events (max_attachment show read_float e) attachments)
        (\<lambda>events. if events = [] then one_event e else Inr events))" for attachments
      using coll[of attachments] one by (auto simp: sound_parse_def[of _ "Inl _"] sound_parse_def[of _ "Inr _"] intro!: sound_bind)
    then show ?thesis
      unfolding max_message_def message_def[symmetric] Let_def user_def[symmetric] e_def[symmetric] by simp
  qed
  have st: "user \<noteq> [] \<Longrightarrow> sound_parse ''max'' (one_event ((blank_event ''max'' ?ident user user EStart)\<lparr>ev_text := t\<rparr>))" for user t
    by (rule sound_one) (auto simp: blank_event_def ne)
  show ?thesis
    unfolding max_parse_one_def Let_def
    by (auto simp: cb msg st parse_error_defs sound_parse_def[of _ "Inl _"] split: json.splits)
qed


lemma max_parse_sound:
  assumes "\<forall>v. show v \<noteq> []"
  shows "sound_parse ''max'' (max_parse show fr read_float secret payload)"
  unfolding max_parse_def
  by (auto intro!: sound_collect max_parse_one_sound assms split: json.splits)

text \<open>
  (C39) Whatever a messenger delivers, parsing it never trips over the checks of an event: every
  event it gives satisfies them and names the provider. Missing keys, values of other types and
  coordinates that are no numbers raise nothing. If parsing raises at all, the error is one of
  three: the TypeError of comparing a signature outside ASCII, the OverflowError of an integer too
  large for a float, and for MAX only the TypeError of an update type that cannot be hashed. show is
  the notation of floats, lists and mappings, which is never empty.
\<close>

theorem parsed_events_are_valid:
  assumes "\<forall>v. show v \<noteq> []" and "provider \<in> {''telegram'', ''max''}"
  shows "case transport_parse show fr read_float secret provider payload of
    Inl e \<Rightarrow> e = TypeError ''comparing strings with non-ASCII characters is not supported'' \<or>
      e = OverflowError ''int too large to convert to float'' \<or>
      (provider = ''max'' \<and> e = TypeError ''unhashable type'')
  | Inr evs \<Rightarrow> \<forall>ev \<in> set evs. make_event ev = Inr ev \<and> ev_provider ev = provider"
proof -
  have "sound_parse provider (transport_parse show fr read_float secret provider payload)"
    using assms by (auto simp: transport_parse_def telegram_parse_sound max_parse_sound)
  then show ?thesis
    by (auto simp: sound_parse_def parse_error_defs list_all_iff split: sum.splits)
qed

definition demo_update :: payload where
  "demo_update = [(''update_id'', JInt 7), (''message'', JObj [(''from'', JObj [(''id'', JInt 42)]),
     (''chat'', JObj [(''id'', JInt 42)]), (''location'', JObj [(''latitude'', JInt 55), (''longitude'', JFloat (Finite 37))])])]"

lemma demo_parse:
  "transport_parse (\<lambda>v. ''?'') (\<lambda>f. []) (\<lambda>s. None) [] ''telegram'' demo_update =
   Inr [(blank_event ''telegram'' (''telegram:'' @ int_str 7) (int_str 42) (int_str 42) ELocation)
     \<lparr>ev_latitude := Some (Finite 55), ev_longitude := Some (Finite 37)\<rparr>]"
  by (simp add: demo_update_def transport_parse_def telegram_parse_def telegram_message_def telegram_event_id_def Let_def
      python_int_text_def got_def get_default_def either_def text_or_empty_def coordinates_def float_of_int_def round_53_def
      one_event_def make_event_def blank_event_def int_str_def check_def)

theorem parsed_events_are_valid_witness:
  "\<exists>ev. transport_parse (\<lambda>v. ''?'') (\<lambda>f. []) (\<lambda>s. None) [] ''telegram'' demo_update = Inr [ev] \<and>
     make_event ev = Inr ev \<and> ev_latitude ev = Some (Finite 55)"
  using parsed_events_are_valid[of "\<lambda>v. ''?''" "''telegram''" "\<lambda>f. []" "\<lambda>s. None" "[]" demo_update] demo_parse
  by simp

text \<open>The handlers around \<open>float\<close> do not name \<open>OverflowError\<close>: such an update is retried until it is given up.\<close>

lemma round_53_large:
  assumes "2 ^ k \<le> n" "53 \<le> k"
  shows "2 ^ k \<le> round_53 n"
proof -
  let ?l = "floorlog 2 n"
  have "(2::nat) ^ 53 \<le> 2 ^ k" using assms(2) by (intro power_increasing) auto
  then have n: "\<not> n < 2 ^ 53" "0 < n" using assms(1) by (auto intro: less_le_trans[of 0 "2 ^ k" n])
  have b: "2 ^ (?l - 1) \<le> n" "n < 2 ^ ?l" using floorlog_bounds[of n 2] n by auto
  then have "(2::nat) ^ k < 2 ^ ?l" using assms(1) by linarith
  then have l: "k < ?l" by simp
  have "(52::nat) + (?l - 53) = ?l - 1" using l assms(2) by linarith
  then have e: "(2::nat) ^ 52 * 2 ^ (?l - 53) = 2 ^ (?l - 1)" by (metis power_add)
  then have "2 ^ 52 \<le> n div 2 ^ (?l - 53)"
    using b(1) e by (simp only: less_eq_div_iff_mult_less_eq zero_less_power zero_less_numeral)
  then have "2 ^ 52 * 2 ^ (?l - 53) \<le> round_53 n"
    using n(1) by (auto simp: round_53_def Let_def intro!: mult_le_mono)
  moreover have "(2::nat) ^ k \<le> 2 ^ (?l - 1)" using l by (intro power_increasing) auto
  ultimately show ?thesis using e by linarith
qed

lemma huge_coordinate_raises:
  assumes "2 ^ 1024 \<le> n"
  shows "telegram_parse show fr read_float secret
     [(''message'', JObj [(''from'', JObj [(''id'', JInt 42)]),
       (''location'', JObj [(''latitude'', JInt n), (''longitude'', JInt 0)])])] =
   Inl (OverflowError ''int too large to convert to float'')"
proof -
  have "(2::nat) ^ k \<le> nat \<bar>n\<bar>" if "(2::int) ^ k \<le> n" for k using that by (simp add: le_nat_iff)
  then have "2 ^ k \<le> round_53 (nat \<bar>n\<bar>)" if "(2::int) ^ k \<le> n" "53 \<le> k" for k by (simp add: that round_53_large)
  then have "(2::int) ^ k \<le> int (round_53 (nat \<bar>n\<bar>))" if "(2::int) ^ k \<le> n" "53 \<le> k" for k
    using that by (simp flip: of_nat_le_iff)
  from this[OF assms] have "\<not> int (round_53 (nat \<bar>n\<bar>)) < 2 ^ 1024" by simp
  then have "float_of_int n = Inl (OverflowError ''int too large to convert to float'')"
    by (simp only: float_of_int_def Let_def if_False)
  then show ?thesis
    by (simp add: telegram_parse_def telegram_message_def Let_def got_def get_default_def either_def text_or_empty_def
        int_str_def coordinates_def)
qed

section \<open>Buttons come back\<close>

lemma map_result_mem: "\<lbrakk>map_result f xs = Inr ys; x \<in> set xs\<rbrakk> \<Longrightarrow> \<exists>y \<in> set ys. f x = Inr y"
  by (induction xs arbitrary: ys) auto

text \<open>The key of a button is in the keyboard that \<open>keyboard\<close> builds.\<close>

definition on_keyboard :: "json \<Rightarrow> json \<Rightarrow> bool" where
  "on_keyboard key rows \<longleftrightarrow> (\<exists>rs row. rows = JList rs \<and> JList row \<in> set rs \<and> key \<in> set row)"

lemma keyboard_has_all:
  assumes "keyboard button bs = Inr rows" "b \<in> set bs"
  obtains key where "button b = Inr key" "on_keyboard key rows"
proof -
  from assms(1) obtain rs where rs: "rows = JList rs"
    "map_result (\<lambda>row. result_bind (map_result button row) (\<lambda>keys. Inr (JList keys))) (group_buttons bs) = Inr rs"
    by (auto simp: keyboard_def)
  from assms(2) obtain row where row: "row \<in> set (group_buttons bs)" "b \<in> set row"
    using group_buttons_keeps_all[of bs] by auto
  from map_result_mem[OF rs(2) row(1)] obtain keys where keys: "JList keys \<in> set rs" "map_result button row = Inr keys"
    by auto
  from map_result_mem[OF keys(2) row(2)] obtain key where "key \<in> set keys" "button b = Inr key" by auto
  then show thesis using that[of key] keys(1) rs(1) by (auto simp: on_keyboard_def)
qed

lemma telegram_callback_of:
  assumes "decode_callback (JStr d) (Some secret) = Inr (Some token)" "token \<noteq> []"
    and "dict_get ''callback_query'' update = Some (JObj callback)" "got ''data'' callback = JStr d"
    and "text_or_empty show (got ''id'' (object_or_empty (got ''from'' callback))) = user" "user \<noteq> []" "\<forall>v. show v \<noteq> []"
  shows "\<exists>ev. telegram_parse show fr read_float secret update = Inr [ev] \<and> ev_kind ev = ECallback \<and>
    ev_callback_token ev = Some token \<and> ev_external_user_id ev = user"
  using assms event_ids_nonempty(1)[of fr update] either_text_nonempty[OF assms(7,6)]
  by (auto simp: telegram_parse_def telegram_callback_def Let_def got_def get_default_def falsy_def
      one_event_def make_event_def blank_event_def)

lemma max_callback_of:
  assumes "decode_callback (JStr d) (Some secret) = Inr (Some token)" "token \<noteq> []" "d \<noteq> []"
    and "got ''update_type'' update = JStr ''message_callback''"
    and "dict_get ''updates'' update = None" "dict_get ''callback'' update = Some (JObj callback)"
    and "got ''payload'' callback = JStr d" "max_user_id show callback = user" "user \<noteq> []"
  shows "\<exists>ev. max_parse show fr read_float secret update = Inr [ev] \<and> ev_kind ev = ECallback \<and>
    ev_callback_token ev = Some token \<and> ev_external_user_id ev = user"
  using assms
  by (auto simp: event_ids_nonempty max_parse_def max_parse_one_def max_callback_def or_text_def either_def Let_def got_def get_default_def
      falsy_def one_event_def make_event_def blank_event_def)

lemma encoded_decodes:
  assumes "encode_callback token secret = Inr d"
  shows "decode_callback (JStr d) (Some secret) = Inr (Some token)" "token \<noteq> []" "d \<noteq> []"
  using callback_roundtrip[OF assms] assms by (auto simp: encode_callback_def Let_def CALLBACK_VERSION_def split: if_splits)

lemma telegram_body_keyboard:
  assumes "telegram_body secret recipient text bs = Inr body" "b \<in> set bs" "ob_callback_token b \<noteq> None"
    and "make_outbound_button b = Inr b"
  obtains rows where "dict_get ''reply_markup'' body = Some (JObj [(''inline_keyboard'', rows)])"
    "keyboard (telegram_button secret) bs = Inr rows"
proof -
  have nl: "\<not> ob_request_location b" using assms(3,4) by (auto simp: make_outbound_button_def Let_def split: if_splits)
  obtain markup where m: "telegram_markup secret bs = Inr markup"
    "body = [(''chat_id'', JStr recipient), (''text'', JStr (take TELEGRAM_TEXT_LIMIT text)),
         (''disable_web_page_preview'', JBool True)] @ markup"
    using assms(1) by (auto simp: telegram_body_def)
  have "length (filter ob_request_location bs) \<noteq> length bs"
    using nl assms(2) by (metis filter_id_conv length_filter_less less_irrefl)
  then obtain rows where "keyboard (telegram_button secret) bs = Inr rows"
    "markup = [(''reply_markup'', JObj [(''inline_keyboard'', rows)])]"
    using m(1) assms(2) by (auto simp: telegram_markup_def Let_def split: if_splits)
  then show thesis using that[of rows] m(2) by simp
qed

lemma max_body_keyboard:
  assumes "max_body secret text bs = Inr body" "b \<in> set bs"
  obtains rows where "dict_get ''attachments'' body = Some (JList [JObj [(''type'', JStr ''inline_keyboard''),
      (''payload'', JObj [(''buttons'', rows)])]])"
    "keyboard (max_button secret) bs = Inr rows"
  using assms by (auto simp: max_body_def split: if_splits)

text \<open>
  (C16) A button that was sent comes back. When the body of a message can be built, every button of it that
  carries a callback token is a key of its keyboard, with data that the callback update of a user who
  presses it brings back: parsing that update gives one event, of that user and with that token. This holds
  for both messengers.
\<close>

theorem sent_button_comes_back:
  assumes "b \<in> set bs" "ob_callback_token b = Some token" "make_outbound_button b = Inr b" and "\<forall>v. show v \<noteq> []"
  shows "(telegram_body secret recipient text bs = Inr body \<longrightarrow>
      (\<exists>rows d. dict_get ''reply_markup'' body = Some (JObj [(''inline_keyboard'', rows)]) \<and>
        on_keyboard (JObj [(''text'', JStr (ob_text b)), (''callback_data'', JStr d)]) rows \<and>
        (\<forall>update callback user. dict_get ''callback_query'' update = Some (JObj callback) \<and> got ''data'' callback = JStr d \<and>
            text_or_empty show (got ''id'' (object_or_empty (got ''from'' callback))) = user \<and> user \<noteq> [] \<longrightarrow>
          (\<exists>ev. telegram_parse show fr read_float secret update = Inr [ev] \<and> ev_kind ev = ECallback \<and>
            ev_callback_token ev = Some token \<and> ev_external_user_id ev = user)))) \<and>
    (max_body secret text bs = Inr body' \<longrightarrow>
      (\<exists>rows d. dict_get ''attachments'' body' = Some (JList [JObj [(''type'', JStr ''inline_keyboard''),
            (''payload'', JObj [(''buttons'', rows)])]]) \<and>
        on_keyboard (JObj [(''type'', JStr ''callback''), (''text'', JStr (ob_text b)), (''payload'', JStr d)]) rows \<and>
        (\<forall>update callback user. got ''update_type'' update = JStr ''message_callback'' \<and> dict_get ''updates'' update = None \<and>
            dict_get ''callback'' update = Some (JObj callback) \<and> got ''payload'' callback = JStr d \<and>
            max_user_id show callback = user \<and> user \<noteq> [] \<longrightarrow>
          (\<exists>ev. max_parse show fr read_float secret update = Inr [ev] \<and> ev_kind ev = ECallback \<and>
            ev_callback_token ev = Some token \<and> ev_external_user_id ev = user))))"
proof (intro conjI impI, goal_cases)
  case 1
  obtain rows where rows: "dict_get ''reply_markup'' body = Some (JObj [(''inline_keyboard'', rows)])"
    "keyboard (telegram_button secret) bs = Inr rows"
    using telegram_body_keyboard[OF 1 assms(1)] assms(2,3) by auto
  obtain key where key: "telegram_button secret b = Inr key" "on_keyboard key rows"
    by (rule keyboard_has_all[OF rows(2) assms(1)])
  then obtain d where d: "encode_callback token secret = Inr d"
    "key = JObj [(''text'', JStr (ob_text b)), (''callback_data'', JStr d)]"
    using assms(2) by (auto simp: telegram_button_def)
  show ?case using rows(1) key(2) d(2) telegram_callback_of[OF encoded_decodes(1,2)[OF d(1)] _ _ _ _ assms(4)] by blast
next
  case 2
  obtain rows where rows: "dict_get ''attachments'' body' = Some (JList [JObj [(''type'', JStr ''inline_keyboard''),
      (''payload'', JObj [(''buttons'', rows)])]])" "keyboard (max_button secret) bs = Inr rows"
    by (rule max_body_keyboard[OF 2 assms(1)])
  obtain key where key: "max_button secret b = Inr key" "on_keyboard key rows"
    by (rule keyboard_has_all[OF rows(2) assms(1)])
  then obtain d where d: "encode_callback token secret = Inr d"
    "key = JObj [(''type'', JStr ''callback''), (''text'', JStr (ob_text b)), (''payload'', JStr d)]"
    using assms(2) by (auto simp: max_button_def)
  show ?case using rows(1) key(2) d(2) max_callback_of[OF encoded_decodes[OF d(1)]] by blast
qed

definition demo_key :: outbound_button where
  "demo_key = \<lparr>ob_text = ''Yes'', ob_callback_token = Some ''abc'', ob_url = None, ob_request_location = False, ob_row = 0\<rparr>"

theorem sent_button_comes_back_witness:
  "\<exists>d ev. encode_callback ''abc'' ''key'' = Inr d \<and>
     telegram_parse (\<lambda>v. ''?'') (\<lambda>f. []) (\<lambda>s. None) ''key''
       [(''callback_query'', JObj [(''data'', JStr d), (''from'', JObj [(''id'', JInt 42)])])] = Inr [ev] \<and>
     ev_callback_token ev = Some ''abc'' \<and> ev_external_user_id ev = int_str 42"
proof -
  obtain d where d: "encode_callback ''abc'' ''key'' = Inr d" using callback_roundtrip_witness by blast
  have valid: "make_outbound_button demo_key = Inr demo_key" by (simp add: demo_key_def make_outbound_button_def)
  have g: "group_buttons [demo_key] = [[demo_key]]" by (simp add: group_buttons_def)
  have k: "telegram_button ''key'' demo_key = Inr (JObj [(''text'', JStr ''Yes''), (''callback_data'', JStr d)])"
    by (simp add: telegram_button_def demo_key_def d)
  have kb: "keyboard (telegram_button ''key'') [demo_key] =
      Inr (JList [JList [JObj [(''text'', JStr ''Yes''), (''callback_data'', JStr d)]]])"
    by (simp add: keyboard_def g k)
  have nl: "\<not> ob_request_location demo_key" by (simp add: demo_key_def)
  have m: "telegram_markup ''key'' [demo_key] = Inr [(''reply_markup'', JObj [(''inline_keyboard'',
      JList [JList [JObj [(''text'', JStr ''Yes''), (''callback_data'', JStr d)]]])])]"
    by (simp add: telegram_markup_def kb nl)
  obtain body where body: "telegram_body ''key'' ''42'' ''Hi'' [demo_key] = Inr body"
    "dict_get ''reply_markup'' body = Some (JObj [(''inline_keyboard'',
      JList [JList [JObj [(''text'', JStr ''Yes''), (''callback_data'', JStr d)]]])])"
    by (simp add: telegram_body_def m)
  have "\<forall>v. (\<lambda>v. ''?'') v \<noteq> []" by simp
  from conjunct1[OF sent_button_comes_back[of demo_key "[demo_key]" "''abc''" "\<lambda>v. ''?''" "''key''" "''42''" "''Hi''" body
      "\<lambda>f. []" "\<lambda>s. None"], THEN mp, OF _ _ valid this body(1)]
  obtain rows d' where c: "dict_get ''reply_markup'' body = Some (JObj [(''inline_keyboard'', rows)])"
    "on_keyboard (JObj [(''text'', JStr ''Yes''), (''callback_data'', JStr d')]) rows"
    and p: "\<And>update callback user. dict_get ''callback_query'' update = Some (JObj callback) \<and> got ''data'' callback = JStr d' \<and>
        text_or_empty (\<lambda>v. ''?'') (got ''id'' (object_or_empty (got ''from'' callback))) = user \<and> user \<noteq> [] \<Longrightarrow>
      \<exists>ev. telegram_parse (\<lambda>v. ''?'') (\<lambda>f. []) (\<lambda>s. None) ''key'' update = Inr [ev] \<and> ev_kind ev = ECallback \<and>
        ev_callback_token ev = Some ''abc'' \<and> ev_external_user_id ev = user"
    by (auto simp: demo_key_def)
  have "d' = d" using c body(2) by (auto simp: on_keyboard_def)
  then show ?thesis
    using d p[of "[(''callback_query'', JObj [(''data'', JStr d), (''from'', JObj [(''id'', JInt 42)])])]"
      "[(''data'', JStr d), (''from'', JObj [(''id'', JInt 42)])]" "int_str 42"]
    by (simp add: got_def get_default_def text_or_empty_def int_str_def) blast
qed

section \<open>Sending ends\<close>

text \<open>
  The loop around a message whose attachment is not ready makes at most four requests, and one more only
  after that answer.
\<close>

lemma max_post_requests: "snd (max_post show respond attempt left) \<le> left"
  by (induction left arbitrary: attempt)
    (auto simp: Let_def split: sum.splits prod.splits, metis snd_conv Suc_le_mono)

lemma max_post_stops:
  "\<lbrakk>max_request show (respond attempt) = Inr r; response_object show ''send message'' [NOT_READY] r = Inr d;
    got ''code'' d \<noteq> JStr NOT_READY\<rbrakk> \<Longrightarrow> max_post show respond attempt (Suc left) = (Inr d, 1)"
  by (simp add: bind_sent_def)

end
