(* ===== verification/Rate_Limit.thy ===== *)
theory Rate_Limit
  imports Py_Values
begin

text \<open>
  The wait for a turn of the MAX transport (\<open>_wait_api_slot\<close>, \<open>_prune_request_times\<close> and \<open>_slot_delay\<close> in
  \<open>transports/max.py\<close>). A pass of its loop runs under a lock, so the passes of all callers form one sequence;
  the reading of the monotonic clock is an argument of the pass. Times are exact numbers of seconds.
\<close>

section \<open>One pass\<close>

record rate_state =
  rs_times :: "rat list"
  rs_chats :: "(string, rat list) dict"

definition CHAT_RATE :: nat where "CHAT_RATE = 2"
definition CHATS_KEPT :: nat where "CHATS_KEPT = 1000"

definition empty_rate :: rate_state where
  "empty_rate = \<lparr>rs_times = [], rs_chats = []\<rparr>"

definition prune_times :: "rat \<Rightarrow> rat list \<Rightarrow> rat list" where
  "prune_times cutoff ts = dropWhile (\<lambda>t. t \<le> cutoff) ts"

definition slot_delay :: "rat list option \<Rightarrow> nat \<Rightarrow> rat \<Rightarrow> rat" where
  "slot_delay values limit now =
     (case values of
        None \<Rightarrow> 0
      | Some ts \<Rightarrow> if length ts < limit then 0 else max 0 (1 - (now - hd ts)))"

text \<open>Looking a chat up in the \<open>defaultdict\<close> creates its entry.\<close>

definition chat_times :: "string \<Rightarrow> rate_state \<Rightarrow> rat list" where
  "chat_times k st = (case dict_get k (rs_chats st) of None \<Rightarrow> [] | Some ts \<Rightarrow> ts)"

definition pruned :: "string option \<Rightarrow> rat \<Rightarrow> rate_state \<Rightarrow> rate_state" where
  "pruned key cutoff st =
     \<lparr>rs_times = prune_times cutoff (rs_times st),
      rs_chats = (case key of None \<Rightarrow> rs_chats st
        | Some k \<Rightarrow> dict_put k (prune_times cutoff (chat_times k st)) (rs_chats st))\<rparr>"

definition take_slot :: "string option \<Rightarrow> rat \<Rightarrow> rate_state \<Rightarrow> rate_state" where
  "take_slot key now st =
     (let chats = (case key of None \<Rightarrow> rs_chats st | Some k \<Rightarrow> dict_put k (chat_times k st @ [now]) (rs_chats st))
      in \<lparr>rs_times = rs_times st @ [now],
          rs_chats = (if length chats > CHATS_KEPT
            then filter (\<lambda>(k, ts). ts \<noteq> [] \<and> last ts > now - 1) chats else chats)\<rparr>)"

text \<open>None is the turn; \<open>Some d\<close> is the sleep before the next pass.\<close>

definition slot_pass :: "nat \<Rightarrow> string option \<Rightarrow> rat \<Rightarrow> rate_state \<Rightarrow> rat option \<times> rate_state" where
  "slot_pass rate key now st =
     (let st' = pruned key (now - 1) st;
          delay = max (slot_delay (Some (rs_times st')) rate now)
            (slot_delay (map_option (\<lambda>k. chat_times k st') key) CHAT_RATE now)
      in if delay \<le> 0 then (None, take_slot key now st') else (Some delay, st'))"

text \<open>A sequence of passes, and the requests that got their turn in it.\<close>

fun rate_run ::
  "nat \<Rightarrow> (string option \<times> rat) list \<Rightarrow> rate_state \<Rightarrow> (string option \<times> rat) list \<times> rate_state" where
  "rate_run rate [] st = ([], st)"
| "rate_run rate ((key, now) # ps) st =
     (case slot_pass rate key now st of
        (None, st') \<Rightarrow> (let (gs, st2) = rate_run rate ps st' in ((key, now) # gs, st2))
      | (Some d, st') \<Rightarrow> rate_run rate ps st')"

section \<open>The rates are kept\<close>

definition in_window :: "rat \<Rightarrow> rat list \<Rightarrow> nat" where
  "in_window t ts = length (filter (\<lambda>x. t - 1 < x \<and> x \<le> t) ts)"

definition rate_kept :: "nat \<Rightarrow> rat list \<Rightarrow> bool" where
  "rate_kept limit ts \<longleftrightarrow> (\<forall>t. in_window t ts \<le> limit)"

definition turns_of :: "string \<Rightarrow> (string option \<times> rat) list \<Rightarrow> rat list" where
  "turns_of k gs = map snd (filter (\<lambda>g. fst g = Some k) gs)"

text \<open>What a deque remembers of the turns \<open>ts\<close> by the time \<open>now\<close>: those after some moment a second ago or more.\<close>

definition remembers :: "rat \<Rightarrow> rat list \<Rightarrow> rat list \<Rightarrow> bool" where
  "remembers now ts d \<longleftrightarrow> (\<exists>c \<le> now - 1. d = filter (\<lambda>t. c < t) ts)"

lemma remembers_mono:
  assumes "remembers now ts d" "now \<le> now'"
  shows "remembers now' ts d"
proof -
  obtain c where "c \<le> now - 1" "d = filter (\<lambda>t. c < t) ts" using assms(1) by (auto simp: remembers_def)
  moreover have "c \<le> now' - 1" using \<open>c \<le> now - 1\<close> assms(2) by linarith
  ultimately show ?thesis by (auto simp: remembers_def)
qed

lemma prune_sorted: "sorted ts \<Longrightarrow> prune_times c ts = filter (\<lambda>t. c < t) ts"
  by (induction ts) (auto simp: prune_times_def not_le intro!: filter_True[symmetric])

lemma prune_remembers:
  assumes "remembers now ts d" "sorted ts"
  shows "prune_times (now - 1) d = filter (\<lambda>t. now - 1 < t) ts"
proof -
  obtain c where c: "c \<le> now - 1" "d = filter (\<lambda>t. c < t) ts" using assms(1) by (auto simp: remembers_def)
  have "sorted d" using assms(2) c(2) by (simp add: sorted_wrt_filter)
  then have "prune_times (now - 1) d = filter (\<lambda>t. now - 1 < t) d" by (rule prune_sorted)
  also have "\<dots> = filter (\<lambda>t. now - 1 < t) ts" using c by (auto intro!: filter_cong)
  finally show ?thesis .
qed

lemma length_filter_imp: "(\<And>x. P x \<Longrightarrow> Q x) \<Longrightarrow> length (filter P xs) \<le> length (filter Q xs)"
  by (induction xs) auto

lemma rate_kept_snoc:
  assumes "rate_kept limit ts" "length (filter (\<lambda>t. now - 1 < t) ts) < limit"
  shows "rate_kept limit (ts @ [now])"
  unfolding rate_kept_def
proof
  fix t
  show "in_window t (ts @ [now]) \<le> limit"
  proof (cases "t - 1 < now \<and> now \<le> t")
    case True
    then have "length (filter (\<lambda>x. t - 1 < x \<and> x \<le> t) ts) \<le> length (filter (\<lambda>x. now - 1 < x) ts)"
      by (intro length_filter_imp) linarith
    then show ?thesis using assms(2) True by (simp add: in_window_def)
  next
    case False
    then show ?thesis using assms(1) False by (auto simp: rate_kept_def in_window_def)
  qed
qed

definition rate_inv :: "nat \<Rightarrow> rat \<Rightarrow> (string option \<times> rat) list \<Rightarrow> rate_state \<Rightarrow> bool" where
  "rate_inv rate now gs st \<longleftrightarrow>
     dict_ok (rs_chats st) \<and> sorted (map snd gs) \<and> (\<forall>g \<in> set gs. snd g \<le> now) \<and>
     rate_kept rate (map snd gs) \<and> remembers now (map snd gs) (rs_times st) \<and>
     (\<forall>k. rate_kept CHAT_RATE (turns_of k gs) \<and> remembers now (turns_of k gs) (chat_times k st))"

lemma turns_of_snoc: "turns_of k (gs @ [(key, now)]) = turns_of k gs @ (if key = Some k then [now] else [])"
  by (simp add: turns_of_def)

lemma turns_sorted: "sorted (map snd gs) \<Longrightarrow> sorted (turns_of k gs)"
  unfolding turns_of_def by (rule sorted_filter)

lemma turns_subset: "x \<in> set (turns_of k gs) \<Longrightarrow> \<exists>g \<in> set gs. snd g = x"
  by (auto simp: turns_of_def)

text \<open>A deque that was pruned now is exactly the turns of the last second.\<close>

definition last_second :: "rat \<Rightarrow> rat list \<Rightarrow> rat list" where
  "last_second now ts = filter (\<lambda>t. now - 1 < t) ts"

lemma remembers_last_second: "remembers now ts (last_second now ts)"
  by (auto simp: remembers_def last_second_def)

lemma last_second_snoc: "remembers now (ts @ [now]) (last_second now ts @ [now])"
proof -
  have "last_second now ts @ [now] = last_second now (ts @ [now])" by (simp add: last_second_def)
  then show ?thesis by (metis remembers_last_second)
qed

lemma slot_delay_free:
  assumes "slot_delay (Some (last_second now ts)) limit now \<le> 0" "0 < limit"
  shows "length (last_second now ts) < limit"
proof (rule ccontr)
  assume full: "\<not> ?thesis"
  then have ne: "last_second now ts \<noteq> []" using assms(2) by auto
  then have "hd (last_second now ts) \<in> set (last_second now ts)" by simp
  then have "0 < 1 - (now - hd (last_second now ts))" by (auto simp: last_second_def)
  then show False using assms(1) full by (simp add: slot_delay_def)
qed

lemma dropped_chat:
  assumes d: "remembers now ts d" "sorted ts" and old: "\<not> (d \<noteq> [] \<and> last d > now - 1)"
  shows "remembers now ts []"
proof -
  obtain c where c: "c \<le> now - 1" "d = filter (\<lambda>t. c < t) ts" using d(1) by (auto simp: remembers_def)
  have "sorted d" using d(2) c(2) by (simp add: sorted_wrt_filter)
  have "x \<le> now - 1" if x: "x \<in> set ts" for x
  proof (cases "c < x")
    case True
    then have xd: "x \<in> set d" using x c(2) by simp
    then have ne: "d \<noteq> []" by auto
    from xd have "x \<le> last d" using \<open>sorted d\<close> by (induction d) (auto split: if_splits)
    then show ?thesis using old ne by auto
  qed (use c(1) in linarith)
  then have "[] = filter (\<lambda>t. now - 1 < t) ts" by (auto simp: filter_empty_conv not_less)
  then show ?thesis by (auto simp: remembers_def)
qed

lemma dict_get_filter:
  "dict_ok d \<Longrightarrow> dict_get k (filter (\<lambda>(k, v). P v) d) =
     (case dict_get k d of None \<Rightarrow> None | Some v \<Rightarrow> if P v then Some v else None)"
  by (induction d) (fastforce simp: dict_ok_def image_iff split: option.splits dest: map_of_SomeD)+

lemma dict_ok_filter: "dict_ok d \<Longrightarrow> dict_ok (filter P d)"
  by (simp add: dict_ok_def distinct_map_filter)

lemma chat_times_pruned:
  "chat_times k (pruned key c st) = (if key = Some k then prune_times c (chat_times k st) else chat_times k st)"
  by (auto simp: chat_times_def pruned_def split: option.splits)

lemma chat_times_taken:
  assumes "dict_ok (rs_chats st)"
  shows "chat_times k (take_slot key now st) = (if key = Some k then chat_times k st @ [now] else chat_times k st) \<or>
    (chat_times k (take_slot key now st) = [] \<and> key \<noteq> Some k \<and>
      \<not> (chat_times k st \<noteq> [] \<and> last (chat_times k st) > now - 1))"
  using assms by (auto simp: chat_times_def take_slot_def Let_def dict_get_filter dict_get_put split: option.splits)

lemma chats_ok: "dict_ok (rs_chats st) \<Longrightarrow> dict_ok (rs_chats (pruned key c st))"
  "dict_ok (rs_chats st) \<Longrightarrow> dict_ok (rs_chats (take_slot key now st))"
  by (auto simp: pruned_def take_slot_def Let_def dict_ok_filter split: option.splits)

lemma inv_pruned:
  assumes inv: "rate_inv rate before gs st" and now: "before \<le> now"
  shows "rate_inv rate now gs (pruned key (now - 1) st)"
    and "rs_times (pruned key (now - 1) st) = last_second now (map snd gs)"
    and "key = Some k \<Longrightarrow> chat_times k (pruned key (now - 1) st) = last_second now (turns_of k gs)"
proof -
  have rem: "remembers now (map snd gs) (rs_times st)" "remembers now (turns_of k gs) (chat_times k st)" for k
    using inv remembers_mono[OF _ now] by (auto simp: rate_inv_def)
  have so: "sorted (map snd gs)" "sorted (turns_of k gs)" for k using inv turns_sorted by (auto simp: rate_inv_def)
  show g: "rs_times (pruned key (now - 1) st) = last_second now (map snd gs)"
    using prune_remembers[OF rem(1) so(1)] by (simp add: pruned_def last_second_def)
  show c: "key = Some k \<Longrightarrow> chat_times k (pruned key (now - 1) st) = last_second now (turns_of k gs)" for k
    using prune_remembers[OF rem(2) so(2)] by (simp add: chat_times_pruned last_second_def)
  have "remembers now (turns_of k gs) (chat_times k (pruned key (now - 1) st))" for k
  proof (cases "key = Some k")
    case True
    show ?thesis by (simp add: c[OF True] remembers_last_second)
  next
    case False
    then show ?thesis using rem(2) by (simp add: chat_times_pruned)
  qed
  moreover have "\<forall>g \<in> set gs. snd g \<le> now" using inv now by (force simp: rate_inv_def)
  ultimately show "rate_inv rate now gs (pruned key (now - 1) st)"
    using inv by (simp add: rate_inv_def g remembers_last_second chats_ok)
qed

lemma inv_taken:
  assumes inv: "rate_inv rate now gs st" and times: "rs_times st = last_second now (map snd gs)"
    and chat: "\<And>k. key = Some k \<Longrightarrow> chat_times k st = last_second now (turns_of k gs)"
    and room: "length (last_second now (map snd gs)) < rate"
      "\<And>k. key = Some k \<Longrightarrow> length (last_second now (turns_of k gs)) < CHAT_RATE"
  shows "rate_inv rate now (gs @ [(key, now)]) (take_slot key now st)"
proof -
  let ?gs = "gs @ [(key, now)]" let ?st = "take_slot key now st"
  have ok: "dict_ok (rs_chats st)" "sorted (map snd gs)" "\<forall>g \<in> set gs. snd g \<le> now" using inv by (auto simp: rate_inv_def)
  have so: "sorted (map snd ?gs)" using ok(2,3) by (auto simp: sorted_append)
  have k: "rate_kept CHAT_RATE (turns_of k ?gs) \<and> remembers now (turns_of k ?gs) (chat_times k ?st)" for k
  proof (cases "key = Some k")
    case True
    then have t: "turns_of k ?gs = turns_of k gs @ [now]" "chat_times k ?st = last_second now (turns_of k gs) @ [now]"
      using chat_times_taken[OF ok(1), of k key now] chat by (auto simp: turns_of_snoc)
    have "rate_kept CHAT_RATE (turns_of k gs @ [now])"
      by (rule rate_kept_snoc) (use inv room(2)[OF True] in \<open>auto simp: rate_inv_def last_second_def\<close>)
    then show ?thesis using t last_second_snoc by simp
  next
    case False
    then have t: "turns_of k ?gs = turns_of k gs" by (simp add: turns_of_snoc)
    have r: "remembers now (turns_of k gs) (chat_times k st)" using inv by (simp add: rate_inv_def)
    have "remembers now (turns_of k gs) (chat_times k ?st)"
      using chat_times_taken[OF ok(1), of k key now] False r dropped_chat[OF r turns_sorted[OF ok(2)]] by auto
    then show ?thesis using t inv by (simp add: rate_inv_def)
  qed
  have "rate_kept rate (map snd gs @ [now])"
    by (rule rate_kept_snoc) (use inv room(1) in \<open>auto simp: rate_inv_def last_second_def\<close>)
  moreover have "rs_times ?st = last_second now (map snd gs) @ [now]" using times by (simp add: take_slot_def Let_def)
  ultimately show ?thesis
    using so ok k last_second_snoc[of now "map snd gs"] chats_ok(2)[OF ok(1)] by (simp add: rate_inv_def)
qed

lemma pass_inv:
  assumes inv: "rate_inv rate before gs st" and now: "before \<le> now" and pos: "0 < rate"
    and pass: "slot_pass rate key now st = (r, st')"
  shows "rate_inv rate now (if r = None then gs @ [(key, now)] else gs) st'"
proof (cases r)
  case None
  let ?st = "pruned key (now - 1) st"
  note p = inv_pruned[OF inv now, of key]
  have free: "slot_delay (Some (rs_times ?st)) rate now \<le> 0"
    "slot_delay (map_option (\<lambda>k. chat_times k ?st) key) CHAT_RATE now \<le> 0" and st': "st' = take_slot key now ?st"
    using pass None by (auto simp: slot_pass_def Let_def split: if_splits)
  have "rate_inv rate now (gs @ [(key, now)]) (take_slot key now ?st)"
  proof (rule inv_taken[OF p(1,2)])
    show "chat_times k ?st = last_second now (turns_of k gs)" if "key = Some k" for k by (rule p(3)[OF that])
    show "length (last_second now (map snd gs)) < rate" using slot_delay_free free(1) pos p(2) by simp
    show "length (last_second now (turns_of k gs)) < CHAT_RATE" if "key = Some k" for k
      using slot_delay_free[of now "turns_of k gs" CHAT_RATE] free(2) that p(3)[OF that] by (simp add: CHAT_RATE_def)
  qed
  then show ?thesis using None st' by simp
next
  case (Some d)
  then have "st' = pruned key (now - 1) st" using pass by (auto simp: slot_pass_def Let_def split: if_splits)
  then show ?thesis using Some inv_pruned(1)[OF inv now] by simp
qed

lemma run_inv:
  "\<lbrakk>rate_inv rate before gs st; sorted (map snd ps); \<forall>p \<in> set ps. before \<le> snd p; 0 < rate;
    rate_run rate ps st = (new, st')\<rbrakk>
   \<Longrightarrow> \<exists>now. rate_inv rate now (gs @ new) st' \<and> before \<le> now \<and> (\<forall>t. before \<le> t \<and> (\<forall>p \<in> set ps. snd p \<le> t) \<longrightarrow> now \<le> t)"
proof (induction ps arbitrary: before gs st new)
  case (Cons p ps)
  obtain key now where p: "p = (key, now)" by force
  obtain r st1 where s: "slot_pass rate key now st = (r, st1)" by force
  have now: "before \<le> now" "sorted (map snd ps)" "\<forall>q \<in> set ps. now \<le> snd q" using Cons.prems p by auto
  obtain new' where n: "rate_run rate ps st1 = (new', st')" "new = (if r = None then (key, now) # new' else new')"
    using Cons.prems(5) p s by (auto split: option.splits prod.splits)
  from Cons.IH[OF pass_inv[OF Cons.prems(1) now(1) Cons.prems(4) s] now(2,3) Cons.prems(4) n(1)]
  obtain now' where i: "rate_inv rate now' ((if r = None then gs @ [(key, now)] else gs) @ new') st'" "now \<le> now'"
    "\<forall>t. now \<le> t \<and> (\<forall>q \<in> set ps. snd q \<le> t) \<longrightarrow> now' \<le> t" by blast
  have "rate_inv rate now' (gs @ new) st'" using i(1) n(2) by (cases "r = None") auto
  then show ?case using i(2,3) now(1) p by (intro exI[of _ now']) auto
qed auto

lemma empty_inv: "rate_inv rate now [] empty_rate"
  by (auto simp: rate_inv_def empty_rate_def rate_kept_def in_window_def remembers_def turns_of_def chat_times_def)

lemma reached_inv:
  assumes "sorted (map snd ps)" "0 < rate" "rate_run rate ps empty_rate = (gs, st)" "\<forall>p \<in> set ps. snd p \<le> now"
  shows "rate_inv rate now gs st"
proof -
  define start where "start = Min (insert now (snd ` set ps))"
  have "start \<le> now" "\<forall>p \<in> set ps. start \<le> snd p" by (auto simp: start_def)
  from run_inv[OF empty_inv[of rate start] assms(1) this(2) assms(2,3)] obtain now' where
    i: "rate_inv rate now' gs st" "now' \<le> now" using assms(4) \<open>start \<le> now\<close> by auto
  then show ?thesis using remembers_mono unfolding rate_inv_def by (meson order_trans)
qed

text \<open>
  (C17) The rates of MAX are kept. However many callers share the transport, as long as its clock does not run
  backwards, any second contains at most rate requests, and at most two to the same chat. The counts of idle
  chats, which are dropped when more than a thousand are known, are not missed.
\<close>

theorem max_rate_is_kept:
  assumes "sorted (map snd ps)" "0 < rate" "rate_run rate ps empty_rate = (gs, st)"
  shows "in_window t (map snd gs) \<le> rate \<and> in_window t (turns_of k gs) \<le> 2"
proof -
  obtain now where "\<forall>p \<in> set ps. snd p \<le> now" using finite_set[of "map snd ps"] Max_ge by (metis set_map finite_imageI imageI)
  from reached_inv[OF assms this] show ?thesis by (simp add: rate_inv_def rate_kept_def CHAT_RATE_def)
qed

theorem max_rate_is_kept_witness:
  "in_window 0 (map snd (fst (rate_run 1 [(Some ''a'', 0), (Some ''a'', 1 / 2), (None, 1 / 2)] empty_rate))) = 1"
proof -
  let ?r = "rate_run 1 [(Some ''a'', 0), (Some ''a'', 1 / 2), (None, 1 / 2)] empty_rate"
  have r: "fst ?r = [(Some ''a'', 0)]"
    by (simp add: slot_pass_def pruned_def prune_times_def take_slot_def slot_delay_def chat_times_def empty_rate_def
        CHAT_RATE_def CHATS_KEPT_def Let_def)
  have "in_window 0 (map snd (fst ?r)) \<le> 1"
    using max_rate_is_kept[of "[(Some ''a'', 0), (Some ''a'', 1 / 2), (None, 1 / 2)]" 1 "fst ?r" "snd ?r" 0] by simp
  moreover have "0 < in_window 0 (map snd (fst ?r))" unfolding r by (simp add: in_window_def)
  ultimately show ?thesis by linarith
qed

section \<open>Waiting ends\<close>

lemma later_free:
  assumes all: "\<forall>x \<in> set ts. x \<le> now" and few: "in_window now ts \<le> limit" "0 < limit"
    and delay: "slot_delay (Some (last_second now ts)) limit now \<le> d" "now + d \<le> now'"
  shows "length (last_second now' ts) < limit"
proof (cases "length (last_second now ts) < limit")
  case True
  then have "0 \<le> d" using delay(1) by (simp add: slot_delay_def)
  then have "length (last_second now' ts) \<le> length (last_second now ts)"
    unfolding last_second_def by (intro length_filter_imp) (use delay(2) in linarith)
  then show ?thesis using True by linarith
next
  case False
  then obtain h rest where h: "last_second now ts = h # rest" using few(2) by (cases "last_second now ts") auto
  have late: "h \<le> now' - 1" and fwd: "now \<le> now'" using delay False h by (auto simp: slot_delay_def)
  have "last_second now' ts = filter (\<lambda>t. now' - 1 < t) (last_second now ts)"
    using fwd by (auto simp: last_second_def intro!: filter_cong)
  also have "\<dots> = filter (\<lambda>t. now' - 1 < t) rest" using h late by simp
  finally have "length (last_second now' ts) \<le> length rest" by simp
  moreover have "length (last_second now ts) = in_window now ts"
    using all by (auto simp: last_second_def in_window_def intro!: arg_cong[of _ _ length] filter_cong)
  ultimately show ?thesis using h few(1) by simp
qed

text \<open>
  (C40) A caller waits for at most one sleep when nobody overtakes it: if a pass tells it to sleep d seconds,
  d is positive and at most one, and the pass after the sleep gives it its turn, unless another caller got
  one in between.
\<close>

theorem waiting_ends:
  assumes run: "sorted (map snd ps)" "\<forall>p \<in> set ps. snd p \<le> now" "rate_run rate ps empty_rate = (gs, st)" "0 < rate"
    and sleep: "slot_pass rate key now st = (Some d, st1)"
    and others: "rate_run rate others st1 = ([], st2)" "sorted (map snd others)" "\<forall>p \<in> set others. now \<le> snd p \<and> snd p \<le> now'"
    and again: "now + d \<le> now'"
  shows "0 < d \<and> d \<le> 1 \<and> (\<exists>st3. slot_pass rate key now' st2 = (None, st3))"
proof -
  note i = reached_inv[OF run(1,4,3,2)]
  note p = inv_pruned[OF i order_refl, of key]
  have d: "0 < d" "d = max (slot_delay (Some (last_second now (map snd gs))) rate now)
      (slot_delay (map_option (\<lambda>k. chat_times k (pruned key (now - 1) st)) key) CHAT_RATE now)"
    "st1 = pruned key (now - 1) st"
    using sleep p(2) by (auto simp: slot_pass_def Let_def split: if_splits)
  have le1: "slot_delay (Some (last_second now ts)) limit now \<le> 1" if "\<forall>x \<in> set ts. x \<le> now" "0 < limit" for ts limit
  proof (cases "last_second now ts")
    case (Cons h rest)
    then have "h \<in> set (last_second now ts)" by simp
    then have "h \<le> now" using that(1) by (auto simp: last_second_def)
    then show ?thesis using Cons by (simp add: slot_delay_def)
  qed (use that(2) in \<open>simp add: slot_delay_def\<close>)
  have all: "\<forall>x \<in> set (map snd gs). x \<le> now" "\<forall>x \<in> set (turns_of k gs). x \<le> now" for k
    using i turns_subset[of _ k gs] by (auto simp: rate_inv_def)
  have "d \<le> 1" using d(2) le1 all p(3) d(1) by (cases key) (auto simp: slot_delay_def[of None] CHAT_RATE_def run(4))
  moreover obtain now1 where i2: "rate_inv rate now1 gs st2" "now1 \<le> now'"
    using run_inv[OF p(1) others(2) _ run(4), of "[]" st2] others(1,3) d(1,3) again by auto
  note p2 = inv_pruned[OF i2, of key]
  have "length (last_second now' (map snd gs)) < rate"
    by (rule later_free[OF all(1) _ run(4) _ again]) (use i d(2) in \<open>auto simp: rate_inv_def rate_kept_def\<close>)
  moreover have "length (last_second now' (turns_of k gs)) < CHAT_RATE" if "key = Some k" for k
    by (rule later_free[OF all(2) _ _ _ again])
      (use i d(2) p(3)[OF that] that in \<open>auto simp: rate_inv_def rate_kept_def CHAT_RATE_def\<close>)
  ultimately show ?thesis
    using d(1) p2(2,3) by (cases key) (auto simp: slot_pass_def Let_def slot_delay_def)
qed

theorem waiting_ends_witness:
  "\<exists>st st1 st3. rate_run 1 [(None, 0)] empty_rate = ([(None, 0)], st) \<and> slot_pass 1 None 0 st = (Some 1, st1) \<and>
     slot_pass 1 None 1 st1 = (None, st3)"
proof -
  let ?st = "\<lparr>rs_times = [0], rs_chats = []\<rparr>"
  have r: "rate_run 1 [(None, 0)] empty_rate = ([(None, 0)], ?st)"
    by (simp add: slot_pass_def pruned_def prune_times_def take_slot_def slot_delay_def empty_rate_def CHATS_KEPT_def Let_def)
  have s: "slot_pass 1 None 0 ?st = (Some 1, ?st)"
    by (simp add: slot_pass_def pruned_def prune_times_def slot_delay_def Let_def)
  from waiting_ends[OF _ _ r _ s, of "[]" ?st 1] r s show ?thesis by simp
qed

end
