(* ===== verification/Work_Order_Lifecycle.thy ===== *)
theory Work_Order_Lifecycle
  imports Work_Order
begin

text \<open>
  The life cycle of one work order as a state machine: a command is one method call of
  \<open>domain/work_order.py\<close> with its arguments, a step is a call that returned. The invariant of
  the reachable orders, the graph of status changes, and the evidence that a completed order
  carries are proved here.
\<close>

section \<open>Commands and steps\<close>

datatype wo_command =
    ClaimCoordination string
  | PublishPool pool_mode "string option"
  | ExpressInterest string
  | WithdrawInterest string
  | ClaimFirst string
  | Assign string "string option"
  | Accept string
  | RejectAssignment string
  | StartTravel string
  | StartWork string
  | Complete string completion_report
  | Cancel string "string option"

fun wo_exec :: "wo_command \<Rightarrow> stamp \<Rightarrow> work_order \<Rightarrow> work_order result" where
  "wo_exec (ClaimCoordination c) st w = claim_coordination c st w"
| "wo_exec (PublishPool m a) st w = publish_pool m a st w"
| "wo_exec (ExpressInterest x) st w = express_interest x st w"
| "wo_exec (WithdrawInterest x) st w = withdraw_interest x st w"
| "wo_exec (ClaimFirst x) st w = claim_first x st w"
| "wo_exec (Assign x a) st w = wo_assign x a st w"
| "wo_exec (Accept x) st w = wo_accept x st w"
| "wo_exec (RejectAssignment x) st w = reject_assignment x st w"
| "wo_exec (StartTravel x) st w = wo_start_travel x st w"
| "wo_exec (StartWork x) st w = wo_start_work x st w"
| "wo_exec (Complete x r) st w = wo_complete x r st w"
| "wo_exec (Cancel reason a) st w = wo_cancel reason a st w"

inductive wo_step :: "work_order \<Rightarrow> work_order \<Rightarrow> bool" where
  exec: "wo_exec c st w = Inr w' \<Longrightarrow> wo_step w w'"
| pull: "wo_step w (snd (wo_pull_events w))"

inductive wo_reachable :: "work_order \<Rightarrow> bool" where
  create: "wo_create sub number st = Inr w \<Longrightarrow> wo_reachable w"
| step: "wo_reachable w \<Longrightarrow> wo_step w w' \<Longrightarrow> wo_reachable w'"

inductive_cases wo_stepE: "wo_step w w'"

section \<open>What recording changes\<close>

lemma wo_record_sel [simp]:
  "wo_id (wo_record n p st w) = wo_id w"
  "wo_public_number (wo_record n p st w) = wo_public_number w"
  "wo_organization_id (wo_record n p st w) = wo_organization_id w"
  "wo_work_type (wo_record n p st w) = wo_work_type w"
  "wo_source (wo_record n p st w) = wo_source w"
  "wo_details (wo_record n p st w) = wo_details w"
  "wo_requester_id (wo_record n p st w) = wo_requester_id w"
  "wo_coordinator_id (wo_record n p st w) = wo_coordinator_id w"
  "wo_evidence (wo_record n p st w) = wo_evidence w"
  "wo_status (wo_record n p st w) = wo_status w"
  "wo_pool_mode (wo_record n p st w) = wo_pool_mode w"
  "wo_assignee_id (wo_record n p st w) = wo_assignee_id w"
  "wo_pool_responses (wo_record n p st w) = wo_pool_responses w"
  "wo_report (wo_record n p st w) = wo_report w"
  "wo_version (wo_record n p st w) = wo_version w + 1"
  "wo_created_at (wo_record n p st w) = wo_created_at w"
  "wo_updated_at (wo_record n p st w) = st_now st"
  "wo_events (wo_record n p st w) = wo_events w @
     [event_create st (wo_organization_id w) ''work_order'' (wo_id w) (wo_version w + 1) n p]"
  by (simp_all add: wo_record_def Let_def)

lemma put_response_sel [simp]:
  "wo_id (put_response x s st w) = wo_id w"
  "wo_public_number (put_response x s st w) = wo_public_number w"
  "wo_organization_id (put_response x s st w) = wo_organization_id w"
  "wo_work_type (put_response x s st w) = wo_work_type w"
  "wo_source (put_response x s st w) = wo_source w"
  "wo_details (put_response x s st w) = wo_details w"
  "wo_requester_id (put_response x s st w) = wo_requester_id w"
  "wo_coordinator_id (put_response x s st w) = wo_coordinator_id w"
  "wo_evidence (put_response x s st w) = wo_evidence w"
  "wo_status (put_response x s st w) = wo_status w"
  "wo_pool_mode (put_response x s st w) = wo_pool_mode w"
  "wo_assignee_id (put_response x s st w) = wo_assignee_id w"
  "wo_report (put_response x s st w) = wo_report w"
  "wo_version (put_response x s st w) = wo_version w"
  "wo_created_at (put_response x s st w) = wo_created_at w"
  "wo_updated_at (put_response x s st w) = wo_updated_at w"
  "wo_events (put_response x s st w) = wo_events w"
  by (simp_all add: put_response_def)

lemma resolve_sel [simp]:
  "wo_id (resolve_curated_responses x st w) = wo_id w"
  "wo_public_number (resolve_curated_responses x st w) = wo_public_number w"
  "wo_organization_id (resolve_curated_responses x st w) = wo_organization_id w"
  "wo_work_type (resolve_curated_responses x st w) = wo_work_type w"
  "wo_source (resolve_curated_responses x st w) = wo_source w"
  "wo_details (resolve_curated_responses x st w) = wo_details w"
  "wo_requester_id (resolve_curated_responses x st w) = wo_requester_id w"
  "wo_coordinator_id (resolve_curated_responses x st w) = wo_coordinator_id w"
  "wo_evidence (resolve_curated_responses x st w) = wo_evidence w"
  "wo_status (resolve_curated_responses x st w) = wo_status w"
  "wo_pool_mode (resolve_curated_responses x st w) = wo_pool_mode w"
  "wo_assignee_id (resolve_curated_responses x st w) = wo_assignee_id w"
  "wo_report (resolve_curated_responses x st w) = wo_report w"
  "wo_version (resolve_curated_responses x st w) = wo_version w"
  "wo_created_at (resolve_curated_responses x st w) = wo_created_at w"
  "wo_updated_at (resolve_curated_responses x st w) = wo_updated_at w"
  "wo_events (resolve_curated_responses x st w) = wo_events w"
  by (simp_all add: resolve_curated_responses_def)

lemma response_of_put:
  "response_of y (put_response x s st w) = (if y = x then Some s else response_of y w)"
  by (simp add: response_of_def put_response_def dict_get_put)

lemma response_of_resolve:
  "response_of y (resolve_curated_responses x st w) =
     map_option (\<lambda>s. if s \<noteq> INTERESTED then s else if y = x then SELECTED else REJECTED)
       (response_of y w)"
  unfolding response_of_def resolve_curated_responses_def
  by (simp add: dict_get_map_vals option.map_comp comp_def if_distrib[of pr_status] cong: if_cong)

lemma wo_exec_identity:
  assumes "wo_exec c st w = Inr w'"
  shows "wo_id w' = wo_id w" and "wo_organization_id w' = wo_organization_id w"
    and "wo_public_number w' = wo_public_number w" and "wo_evidence w' = wo_evidence w"
    and "wo_work_type w' = wo_work_type w" and "wo_source w' = wo_source w"
    and "wo_requester_id w' = wo_requester_id w" and "wo_details w' = wo_details w"
    and "wo_created_at w' = wo_created_at w"
  using assms by (cases c; auto simp: op_defs Let_def split: if_splits)+

section \<open>Versions and events\<close>

text \<open>
  A returned call either leaves the order as it was (a repeated claim or a repeated interest) or
  moves the version by one and appends one event that carries the new version.
\<close>

lemma wo_exec_effect:
  assumes "wo_exec c st w = Inr w'"
  shows "w' = w \<or>
    (wo_version w' = wo_version w + 1 \<and> wo_updated_at w' = st_now st \<and>
     wo_events w' \<noteq> [] \<and> butlast (wo_events w') = wo_events w \<and>
     aggregate_version (last (wo_events w')) = wo_version w' \<and>
     aggregate_id (last (wo_events w')) = wo_id w \<and>
     ev_organization_id (last (wo_events w')) = wo_organization_id w \<and>
     aggregate_type (last (wo_events w')) = ''work_order'' \<and>
     occurred_at (last (wo_events w')) = st_now st)"
  using assms by (cases c; clarsimp simp: op_defs Let_def split: if_splits; fastforce)

lemma wo_exec_version:
  "wo_exec c st w = Inr w' \<Longrightarrow> wo_version w' = wo_version w \<Longrightarrow> w' = w"
  by (auto dest: wo_exec_effect)

lemma wo_exec_version_mono: "wo_exec c st w = Inr w' \<Longrightarrow> wo_version w \<le> wo_version w'"
  by (auto dest: wo_exec_effect)

section \<open>The graph of status changes\<close>

fun lifecycle_edge :: "wo_status_t \<Rightarrow> wo_status_t \<Rightarrow> bool" where
  "lifecycle_edge SUBMITTED t = (t \<in> {POOL_OPEN, ASSIGNED, CANCELLED})"
| "lifecycle_edge POOL_OPEN t = (t \<in> {ASSIGNED, CANCELLED})"
| "lifecycle_edge ASSIGNED t = (t \<in> {ACCEPTED, POOL_OPEN, SUBMITTED, CANCELLED})"
| "lifecycle_edge ACCEPTED t = (t \<in> {EN_ROUTE, IN_PROGRESS, CANCELLED})"
| "lifecycle_edge EN_ROUTE t = (t \<in> {IN_PROGRESS, CANCELLED})"
| "lifecycle_edge IN_PROGRESS t = (t \<in> {COMPLETED, CANCELLED})"
| "lifecycle_edge COMPLETED t = False"
| "lifecycle_edge CANCELLED t = False"

lemma wo_exec_status:
  "wo_exec c st w = Inr w' \<Longrightarrow>
     wo_status w' = wo_status w \<or> lifecycle_edge (wo_status w) (wo_status w')"
  by (cases c; clarsimp simp: op_defs guard_simps Let_def split: if_splits;
      cases "wo_status w"; fastforce)

lemma wo_exec_terminal:
  assumes "wo_status w \<in> set TERMINAL_STATUSES"
  shows "\<exists>e. wo_exec c st w = Inl e"
proof (cases "wo_exec c st w")
  case (Inr w')
  then have False
    using assms
    by (cases c; clarsimp simp: op_defs guard_simps Let_def TERMINAL_STATUSES_def split: if_splits; fastforce)
  then show ?thesis ..
qed auto

section \<open>The invariant\<close>

fun unassigned_status :: "wo_status_t \<Rightarrow> bool" where
  "unassigned_status SUBMITTED = True"
| "unassigned_status POOL_OPEN = True"
| "unassigned_status _ = False"

fun owned_status :: "wo_status_t \<Rightarrow> bool" where
  "owned_status SUBMITTED = False"
| "owned_status POOL_OPEN = False"
| "owned_status CANCELLED = False"
| "owned_status _ = True"

definition inv_assignee :: "work_order \<Rightarrow> bool" where
  "inv_assignee w \<longleftrightarrow>
     (unassigned_status (wo_status w) \<longrightarrow> wo_assignee_id w = None) \<and>
     (owned_status (wo_status w) \<longrightarrow> nonempty (wo_assignee_id w))"

definition inv_pool :: "work_order \<Rightarrow> bool" where
  "inv_pool w \<longleftrightarrow>
     (wo_pool_mode w = None \<longrightarrow> wo_pool_responses w = []) \<and>
     (wo_status w = SUBMITTED \<longrightarrow> wo_pool_mode w = None) \<and>
     (wo_status w = POOL_OPEN \<longrightarrow> wo_pool_mode w \<noteq> None)"

definition inv_responses :: "work_order \<Rightarrow> bool" where
  "inv_responses w \<longleftrightarrow> dict_ok (wo_pool_responses w) \<and>
     list_all (\<lambda>(k, r). pr_executor_id r = k \<and> k \<noteq> []) (wo_pool_responses w)"

definition inv_selected :: "work_order \<Rightarrow> bool" where
  "inv_selected w \<longleftrightarrow>
     (\<forall>x. response_of x w = Some SELECTED \<longrightarrow> wo_assignee_id w = Some x)"

definition inv_first_claim :: "work_order \<Rightarrow> bool" where
  "inv_first_claim w \<longleftrightarrow>
     (wo_pool_mode w \<noteq> Some CURATED \<longrightarrow>
        (\<forall>x. response_of x w \<noteq> Some INTERESTED \<and> response_of x w \<noteq> Some REJECTED))"

definition inv_interest :: "work_order \<Rightarrow> bool" where
  "inv_interest w \<longleftrightarrow>
     (wo_status w \<noteq> POOL_OPEN \<and> wo_status w \<noteq> CANCELLED \<longrightarrow>
        (\<forall>x. response_of x w \<noteq> Some INTERESTED))"

definition inv_report :: "work_order \<Rightarrow> bool" where
  "inv_report w \<longleftrightarrow>
     (wo_status w = COMPLETED \<longleftrightarrow> wo_report w \<noteq> None) \<and>
     (\<forall>r. wo_report w = Some r \<longrightarrow> missing_evidence (wo_evidence w) r = [])"

definition inv_events :: "work_order \<Rightarrow> bool" where
  "inv_events w \<longleftrightarrow> int (length (wo_events w)) \<le> wo_version w \<and> 1 \<le> wo_version w \<and>
     map aggregate_version (wo_events w) =
       [wo_version w - int (length (wo_events w)) + 1..wo_version w]"

definition inv_fields :: "work_order \<Rightarrow> bool" where
  "inv_fields w \<longleftrightarrow> wo_id w \<noteq> [] \<and> wo_public_number w \<noteq> [] \<and> wo_organization_id w \<noteq> [] \<and>
     wo_work_type w \<noteq> []"

definition wo_inv :: "work_order \<Rightarrow> bool" where
  "wo_inv w \<longleftrightarrow> inv_assignee w \<and> inv_pool w \<and> inv_responses w \<and> inv_selected w \<and>
     inv_first_claim w \<and> inv_interest w \<and> inv_report w \<and> inv_events w \<and> inv_fields w"

subsection \<open>One step keeps it\<close>

lemma dict_put_nonempty [simp]: "dict_put k v d \<noteq> []"
  by (cases d) auto

lemma inv_assignee_exec [inv_intros]:
  "wo_exec c st w = Inr w' \<Longrightarrow> inv_assignee w \<Longrightarrow> inv_assignee w'"
  by (cases c; clarsimp simp: op_defs guard_simps Let_def inv_assignee_def
      split: if_splits; fastforce)

lemma responses_put_nonempty [simp]: "wo_pool_responses (put_response x s st w) \<noteq> []"
  by (simp add: put_response_def)

lemma responses_resolve_Nil [simp]:
  "wo_pool_responses (resolve_curated_responses x st w) = [] \<longleftrightarrow> wo_pool_responses w = []"
  by (simp add: resolve_curated_responses_def)

lemma response_of_Nil [simp]: "wo_pool_responses w = [] \<Longrightarrow> response_of x w = None"
  by (simp add: response_of_def)

lemma inv_pool_exec [inv_intros]:
  "wo_exec c st w = Inr w' \<Longrightarrow> inv_pool w \<Longrightarrow> inv_pool w'"
  by (cases c; clarsimp simp: op_defs guard_simps Let_def inv_pool_def split: if_splits; fastforce)

lemma inv_responses_put [simp]:
  "inv_responses w \<Longrightarrow> x \<noteq> [] \<Longrightarrow> inv_responses (put_response x s st w)"
  unfolding inv_responses_def put_response_def
  using set_dict_put_subset[of x "\<lparr>pr_executor_id = x, pr_status = s, pr_responded_at = st_now st\<rparr>"
      "wo_pool_responses w"]
  by (auto simp: list_all_iff)

lemma inv_responses_resolve [simp]:
  "inv_responses w \<Longrightarrow> inv_responses (resolve_curated_responses x st w)"
  unfolding inv_responses_def resolve_curated_responses_def
  by (auto simp: list_all_iff dict_ok_map_vals)

lemma inv_responses_record [simp]: "inv_responses (wo_record n p st w) = inv_responses w"
  by (simp add: inv_responses_def)

lemma inv_responses_update [simp]:
  "inv_responses (w\<lparr>wo_status := s\<rparr>) = inv_responses w"
  "inv_responses (w\<lparr>wo_assignee_id := a\<rparr>) = inv_responses w"
  "inv_responses (w\<lparr>wo_pool_mode := m\<rparr>) = inv_responses w"
  "inv_responses (w\<lparr>wo_coordinator_id := c\<rparr>) = inv_responses w"
  "inv_responses (w\<lparr>wo_report := r\<rparr>) = inv_responses w"
  by (simp_all add: inv_responses_def)

lemma response_of_key: "inv_responses w \<Longrightarrow> response_of x w = Some s \<Longrightarrow> x \<noteq> []"
  by (auto simp: response_of_def inv_responses_def list_all_iff dest: map_of_SomeD)

lemma inv_responses_put_known [simp]:
  "inv_responses w \<Longrightarrow> response_of x w = Some r \<Longrightarrow> inv_responses (put_response x s st w)"
  by (simp add: response_of_key)

lemma inv_responses_exec [inv_intros]:
  "wo_exec c st w = Inr w' \<Longrightarrow> inv_responses w \<Longrightarrow> inv_responses w'"
  by (cases c; clarsimp simp: op_defs guard_simps Let_def split: if_splits; fastforce)

lemma response_of_record [simp]: "response_of x (wo_record n p st w) = response_of x w"
  by (simp add: response_of_def)

lemma response_of_update [simp]:
  "response_of x (w\<lparr>wo_status := s\<rparr>) = response_of x w"
  "response_of x (w\<lparr>wo_assignee_id := a\<rparr>) = response_of x w"
  "response_of x (w\<lparr>wo_pool_mode := m\<rparr>) = response_of x w"
  "response_of x (w\<lparr>wo_coordinator_id := c\<rparr>) = response_of x w"
  "response_of x (w\<lparr>wo_report := r\<rparr>) = response_of x w"
  by (simp_all add: response_of_def)

lemma inv_selected_exec [inv_intros]:
  assumes "wo_exec c st w = Inr w'" and "inv_selected w" and "inv_assignee w"
  shows "inv_selected w'"
  using assms
  by (cases c; clarsimp simp: op_defs guard_simps Let_def inv_selected_def inv_assignee_def
      response_of_put response_of_resolve split: if_splits; fastforce)

lemma inv_first_claim_exec [inv_intros]:
  assumes "wo_exec c st w = Inr w'" and "inv_first_claim w" and "inv_pool w"
  shows "inv_first_claim w'"
  using assms
  by (cases c; clarsimp simp: op_defs guard_simps Let_def inv_first_claim_def inv_pool_def
      response_of_put response_of_resolve split: if_splits; fastforce)

lemma inv_interest_exec [inv_intros]:
  assumes "wo_exec c st w = Inr w'" and "inv_interest w" and "inv_first_claim w"
  shows "inv_interest w'"
  using assms
  by (cases c; clarsimp simp: op_defs guard_simps Let_def inv_interest_def inv_first_claim_def
      response_of_put response_of_resolve split: if_splits; fastforce)

lemma inv_report_exec [inv_intros]:
  "wo_exec c st w = Inr w' \<Longrightarrow> inv_report w \<Longrightarrow> inv_report w'"
  by (cases c; clarsimp simp: op_defs guard_simps Let_def inv_report_def split: if_splits; fastforce)

lemma inv_events_grow:
  assumes "inv_events w" and "wo_version w' = wo_version w + 1" and "wo_events w' \<noteq> []"
    and "butlast (wo_events w') = wo_events w"
    and "aggregate_version (last (wo_events w')) = wo_version w'"
  shows "inv_events w'"
proof -
  have ev: "wo_events w' = wo_events w @ [last (wo_events w')]"
    using assms(3,4) by (metis append_butlast_last_id)
  then have len: "length (wo_events w') = Suc (length (wo_events w))"
    by (metis length_append_singleton)
  have "map aggregate_version (wo_events w') =
      [wo_version w - int (length (wo_events w)) + 1..wo_version w] @ [wo_version w + 1]"
    using assms by (subst ev) (simp add: inv_events_def)
  also have "\<dots> = [wo_version w - int (length (wo_events w)) + 1..wo_version w + 1]"
    using assms(1) upto_rec2[of "wo_version w - int (length (wo_events w)) + 1" "wo_version w + 1"]
    by (simp add: inv_events_def)
  finally show ?thesis
    using assms(1,2) len by (simp add: inv_events_def)
qed

lemma inv_events_exec [inv_intros]:
  "wo_exec c st w = Inr w' \<Longrightarrow> inv_events w \<Longrightarrow> inv_events w'"
  using wo_exec_effect inv_events_grow by metis

lemma inv_fields_exec [inv_intros]:
  "wo_exec c st w = Inr w' \<Longrightarrow> inv_fields w \<Longrightarrow> inv_fields w'"
  using wo_exec_identity by (metis inv_fields_def)

lemma wo_inv_exec: "wo_exec c st w = Inr w' \<Longrightarrow> wo_inv w \<Longrightarrow> wo_inv w'"
  unfolding wo_inv_def by (auto intro: inv_intros)

lemma wo_inv_pull: "wo_inv w \<Longrightarrow> wo_inv (snd (wo_pull_events w))"
  by (auto simp: wo_inv_def wo_pull_events_def inv_assignee_def inv_pool_def inv_responses_def
      inv_selected_def inv_first_claim_def inv_interest_def inv_report_def inv_events_def inv_fields_def response_of_def)

lemma wo_inv_step: "wo_step w w' \<Longrightarrow> wo_inv w \<Longrightarrow> wo_inv w'"
  by (auto elim!: wo_stepE intro: wo_inv_exec wo_inv_pull)

lemma wo_create_inv: "wo_create sub number st = Inr w \<Longrightarrow> wo_inv w"
  by (auto simp: wo_create_def work_order_init_def wo_inv_def inv_assignee_def inv_pool_def
      inv_responses_def inv_selected_def inv_first_claim_def inv_interest_def inv_report_def inv_events_def inv_fields_def
      split: if_splits)

lemma wo_reachable_inv: "wo_reachable w \<Longrightarrow> wo_inv w"
  by (induction rule: wo_reachable.induct) (auto intro: wo_create_inv wo_inv_step)

section \<open>Runs, and a concrete run through the whole life cycle\<close>

fun wo_run :: "(wo_command \<times> stamp) list \<Rightarrow> work_order \<Rightarrow> work_order result" where
  "wo_run [] w = Inr w"
| "wo_run ((c, st) # cs) w = result_bind (wo_exec c st w) (wo_run cs)"

lemma wo_run_reachable:
  "wo_run cs w = Inr w' \<Longrightarrow> wo_reachable w \<Longrightarrow> wo_reachable w'"
  by (induction cs w rule: wo_run.induct) (auto, metis wo_step.exec wo_reachable.step)

definition demo_stamp :: stamp where
  "demo_stamp = \<lparr>st_now = 100, st_event_id = ''e1''\<rparr>"

definition demo_submission :: submission where
  "demo_submission = \<lparr>sub_order_id = ''o1'', sub_organization_id = ''acme'',
     sub_work_type = ''repair'', sub_source = ''web'', sub_details = [],
     sub_requester_id = Some ''client'',
     sub_evidence = Some \<lparr>minimum_photos = 1, comment_required = True,
        signature_required = False, customer_code_required = False\<rparr>\<rparr>"

definition demo_report :: completion_report where
  "demo_report = \<lparr>photo_refs = [''p1''], rep_comment = Some ''done'', signature_ref = None,
     customer_code = None\<rparr>"

definition demo_order :: work_order where
  "demo_order = wo_record ''work_order.submitted''
     [(''public_number'', JStr ''A000''), (''source'', JStr ''web''),
      (''requester_id'', JStr ''client'')] demo_stamp
     \<lparr>wo_id = ''o1'', wo_public_number = ''A000'', wo_organization_id = ''acme'',
      wo_work_type = ''repair'', wo_source = ''web'', wo_details = [],
      wo_requester_id = Some ''client'', wo_coordinator_id = None,
      wo_evidence = \<lparr>minimum_photos = 1, comment_required = True,
        signature_required = False, customer_code_required = False\<rparr>,
      wo_status = SUBMITTED, wo_pool_mode = None, wo_assignee_id = None,
      wo_pool_responses = [], wo_report = None, wo_version = 0,
      wo_created_at = 100, wo_updated_at = 100, wo_events = []\<rparr>"

lemma demo_order_create: "wo_create demo_submission ''A000'' demo_stamp = Inr demo_order"
  by (simp add: wo_create_def work_order_init_def demo_submission_def demo_order_def
      demo_stamp_def)

lemma demo_order_reachable: "wo_reachable demo_order"
  by (rule wo_reachable.create [OF demo_order_create])

definition demo_commands :: "(wo_command \<times> stamp) list" where
  "demo_commands = map (\<lambda>c. (c, demo_stamp))
     [PublishPool CURATED None, ExpressInterest ''m1'', ExpressInterest ''m2'',
      Assign ''m1'' None, Accept ''m1'', StartTravel ''m1'', StartWork ''m1'',
      Complete ''m1'' demo_report]"

lemmas demo_eval = demo_commands_def demo_order_def demo_report_def op_defs require_status_def
  require_coordinator_if_present_def require_executor_id_def require_pool_mode_def
  require_not_terminal_def TERMINAL_STATUSES_def require_assignee_def validate_report_def
  missing_evidence_def check_def Let_def
  response_of_def put_response_def resolve_curated_responses_def wo_record_def
  str_strip_def is_space_def code_point_def nonblank_def nonempty_def

section \<open>Properties\<close>

text \<open>
  (C11) Every order that the methods can produce is consistent: it has an executor exactly while
  one is required and none while it waits, an open pool has a mode, the response marked selected
  is the executor's, a finished order and only a finished order carries a report and that report
  satisfies the evidence rules, and the unpublished events carry consecutive versions up to the
  order's own.
\<close>

theorem reachable_order_consistent:
  assumes "wo_reachable w"
  shows "(wo_status w = COMPLETED \<longleftrightarrow> wo_report w \<noteq> None) \<and>
    list_all (\<lambda>r. missing_evidence (wo_evidence w) r = [])
      (case wo_report w of None \<Rightarrow> [] | Some r \<Rightarrow> [r]) \<and>
    (unassigned_status (wo_status w) \<longrightarrow> wo_assignee_id w = None) \<and>
    (owned_status (wo_status w) \<longrightarrow> nonempty (wo_assignee_id w)) \<and>
    (\<forall>x. response_of x w = Some SELECTED \<longrightarrow> wo_assignee_id w = Some x) \<and>
    (wo_status w = POOL_OPEN \<longrightarrow> wo_pool_mode w \<noteq> None) \<and>
    dict_ok (wo_pool_responses w) \<and>
    map aggregate_version (wo_events w) =
      [wo_version w - int (length (wo_events w)) + 1..wo_version w]"
  using wo_reachable_inv[OF assms]
  by (auto simp: wo_inv_def inv_report_def inv_assignee_def inv_selected_def inv_pool_def
      inv_responses_def inv_events_def split: option.splits)

theorem reachable_order_consistent_witness:
  "\<exists>w. wo_run demo_commands demo_order = Inr w \<and> wo_status w = COMPLETED \<and> wo_version w = 9 \<and>
     wo_report w \<noteq> None \<and> map aggregate_version (wo_events w) = [1..9]"
proof -
  obtain w where w: "wo_run demo_commands demo_order = Inr w" "wo_status w = COMPLETED"
      "wo_version w = 9" "length (wo_events w) = 9"
    by (simp add: demo_eval)
  have "wo_reachable w" using w(1) demo_order_reachable by (rule wo_run_reachable)
  from reachable_order_consistent[OF this] w show ?thesis by auto
qed

text \<open>
  (C10) A method call that returns keeps the status or moves it along an edge of the documented
  life cycle, and no call ever returns on an order that is completed or cancelled.
\<close>

theorem lifecycle_respected:
  assumes "wo_exec c st w = Inr w'"
  shows "(wo_status w' = wo_status w \<or> lifecycle_edge (wo_status w) (wo_status w')) \<and>
    wo_status w \<notin> set TERMINAL_STATUSES"
  using wo_exec_status[OF assms] wo_exec_terminal[of w c st] assms by auto

theorem lifecycle_respected_witness:
  "\<exists>w'. wo_exec (PublishPool CURATED None) demo_stamp demo_order = Inr w' \<and>
     lifecycle_edge (wo_status demo_order) (wo_status w')"
proof -
  obtain w' where w': "wo_exec (PublishPool CURATED None) demo_stamp demo_order = Inr w'"
      "wo_status w' \<noteq> wo_status demo_order"
    by (simp add: demo_eval)
  with lifecycle_respected[OF w'(1)] show ?thesis by auto
qed

text \<open>
  (C12) The assigned executor of an order in progress completes it exactly when the report meets
  every rule of the order: enough photos, a comment that is not blank, a signature and a customer
  code where they are required.
\<close>

theorem complete_iff_evidence:
  assumes "wo_status w = IN_PROGRESS" and "wo_assignee_id w = Some x"
  shows "(\<exists>w'. wo_complete x report st w = Inr w' \<and> wo_status w' = COMPLETED \<and>
            wo_report w' = Some report) \<longleftrightarrow>
    minimum_photos (wo_evidence w) \<le> int (length (photo_refs report)) \<and>
    \<not> (comment_required (wo_evidence w) \<and> \<not> nonblank (rep_comment report)) \<and>
    \<not> (signature_required (wo_evidence w) \<and> \<not> nonempty (signature_ref report)) \<and>
    \<not> (customer_code_required (wo_evidence w) \<and> \<not> nonempty (customer_code report))"
  using assms by (auto simp: wo_complete_def guard_simps missing_evidence_def)

theorem complete_iff_evidence_witness:
  "\<not> (\<exists>w'. wo_complete ''m1'' empty_report demo_stamp
         (demo_order\<lparr>wo_status := IN_PROGRESS, wo_assignee_id := Some ''m1''\<rparr>) = Inr w' \<and>
         wo_status w' = COMPLETED \<and> wo_report w' = Some empty_report)"
  by (subst complete_iff_evidence) (simp_all add: demo_order_def empty_report_def)

text \<open>
  Choosing an executor from a curated pool settles the pool: the chosen executor becomes
  the assignee, an interested response becomes selected for the chosen one and rejected for every
  other, and the responses that were not interested stay as they were.
\<close>

lemma assign_settles_curated_pool:
  assumes "wo_assign x actor st w = Inr w'" and "wo_pool_mode w = Some CURATED"
  shows "wo_assignee_id w' = Some x \<and> wo_status w' = ASSIGNED \<and> interested_executor_ids w' = [] \<and>
    response_of y w' = (if response_of y w = Some INTERESTED
                        then Some (if y = x then SELECTED else REJECTED) else response_of y w)"
proof -
  have w': "w' = wo_record ''work_order.assigned''
      [(''executor_id'', JStr x), (''actor_id'', opt_str actor)] st
      (resolve_curated_responses x st (w\<lparr>wo_assignee_id := Some x, wo_status := ASSIGNED\<rparr>))"
    using assms by (simp add: wo_assign_def Let_def)
  have "interested_executor_ids w' = []"
    by (auto simp: w' interested_executor_ids_def resolve_curated_responses_def filter_empty_conv
        split: if_splits)
  then show ?thesis
    by (cases "response_of y w") (auto simp: w' response_of_resolve)
qed

lemma assign_settles_curated_pool_witness:
  "\<exists>w w'. wo_run (take 3 demo_commands) demo_order = Inr w \<and>
     wo_assign ''m1'' None demo_stamp w = Inr w' \<and> response_of ''m2'' w' = Some REJECTED"
proof -
  obtain w w' where "wo_run (take 3 demo_commands) demo_order = Inr w"
      "wo_assign ''m1'' None demo_stamp w = Inr w'" "wo_pool_mode w = Some CURATED"
      "response_of ''m2'' w = Some INTERESTED"
    by (simp add: demo_eval numeral_3_eq_3)
  with assign_settles_curated_pool[of "''m1''" None demo_stamp w w' "''m2''"]
  show ?thesis by auto
qed

text \<open>
  A returned call either changes nothing at all or moves the version by exactly one and
  appends exactly one event, which carries the new version, the order's identity and the call's
  instant; so two snapshots of an order with the same version are the same order.
\<close>

lemma version_counts_events:
  assumes "wo_exec c st w = Inr w'"
  shows "w' = w \<or>
    (wo_version w' = wo_version w + 1 \<and> length (wo_events w') = Suc (length (wo_events w)) \<and>
     take (length (wo_events w)) (wo_events w') = wo_events w \<and>
     aggregate_version (last (wo_events w')) = wo_version w' \<and>
     aggregate_id (last (wo_events w')) = wo_id w' \<and>
     ev_organization_id (last (wo_events w')) = wo_organization_id w' \<and>
     occurred_at (last (wo_events w')) = st_now st)"
  using wo_exec_effect[OF assms] wo_exec_identity[OF assms] butlast_prefix[of "wo_events w'"]
  by auto

lemma version_counts_events_witness:
  "\<exists>w'. wo_exec (ClaimCoordination ''boss'') demo_stamp demo_order = Inr w' \<and>
     length (wo_events w') = Suc (length (wo_events demo_order))"
proof -
  obtain w' where w': "wo_exec (ClaimCoordination ''boss'') demo_stamp demo_order = Inr w'"
      "w' \<noteq> demo_order"
    by (simp add: demo_eval)
  from version_counts_events[OF w'(1)] w' show ?thesis by auto
qed

text \<open>
  Once an order has a coordinator, nobody else can publish, assign or cancel it or take over
  the coordination: each of these calls raises for every other actor, named or anonymous.
\<close>

lemma coordinator_is_exclusive:
  assumes "wo_coordinator_id w = Some boss" and "actor \<noteq> Some boss" and "c' \<noteq> boss"
  shows "\<exists>e1 e2 e3 e4. publish_pool m actor st w = Inl e1 \<and> wo_assign x actor st w = Inl e2 \<and>
    wo_cancel reason actor st w = Inl e3 \<and> claim_coordination c' st w = Inl e4"
proof -
  have "\<exists>e. r = Inl e" if "\<And>y. r \<noteq> Inr y" for r :: "work_order result"
    using that by (cases r) auto
  moreover have "publish_pool m actor st w \<noteq> Inr y" "wo_assign x actor st w \<noteq> Inr y"
    "wo_cancel reason actor st w \<noteq> Inr y" "claim_coordination c' st w \<noteq> Inr y" for y
    using assms
    by (auto simp: publish_pool_def wo_assign_def wo_cancel_def claim_coordination_def guard_simps)
  ultimately show ?thesis by metis
qed

lemma coordinator_is_exclusive_witness:
  "\<exists>e. publish_pool CURATED None demo_stamp (demo_order\<lparr>wo_coordinator_id := Some ''boss''\<rparr>)
     = Inl e"
  using coordinator_is_exclusive[of "demo_order\<lparr>wo_coordinator_id := Some ''boss''\<rparr>" "''boss''"
      None "''eve''" CURATED demo_stamp "[]" "[]"]
  by auto

text \<open>
  The first claim of an order in the first-claim mode wins: it makes the claimant the
  executor, and every later claim or interest raises until the claimant gives the order back.
\<close>

lemma first_claim_wins:
  assumes "claim_first x st w = Inr w'"
  shows "wo_assignee_id w' = Some x \<and> wo_status w' = ASSIGNED \<and>
    response_of x w' = Some SELECTED \<and>
    (\<exists>e. claim_first y st' w' = Inl e) \<and> (\<exists>e. express_interest y st' w' = Inl e) \<and>
    (\<exists>w''. reject_assignment x st' w' = Inr w'' \<and> wo_status w'' = POOL_OPEN \<and>
       wo_assignee_id w'' = None \<and> response_of x w'' = Some WITHDRAWN)"
proof -
  have w': "w' = wo_record ''work_order.first_claim_won'' [(''executor_id'', JStr x)] st
      (put_response x SELECTED st (w\<lparr>wo_assignee_id := Some x, wo_status := ASSIGNED\<rparr>))"
    and m: "wo_pool_mode w = Some FIRST_CLAIM"
    using assms by (simp_all add: claim_first_def guard_simps)
  have ne: "\<exists>e. r = Inl e" if "\<And>y. r \<noteq> Inr y" for r :: "work_order result"
    using that by (cases r) auto
  have "\<exists>e. claim_first y st' w' = Inl e" "\<exists>e. express_interest y st' w' = Inl e"
    by (rule ne; simp add: claim_first_def express_interest_def guard_simps w')+
  then show ?thesis
    by (simp add: w' m reject_assignment_def guard_simps response_of_put Let_def)
qed

lemma first_claim_wins_witness:
  "\<exists>w w'. publish_pool FIRST_CLAIM None demo_stamp demo_order = Inr w \<and>
     claim_first ''m1'' demo_stamp w = Inr w' \<and> (\<exists>e. claim_first ''m2'' demo_stamp w' = Inl e)"
proof -
  obtain w w' where "publish_pool FIRST_CLAIM None demo_stamp demo_order = Inr w"
      "claim_first ''m1'' demo_stamp w = Inr w'"
    by (simp add: demo_eval)
  with first_claim_wins[of "''m1''" demo_stamp w w' "''m2''" demo_stamp] show ?thesis by auto
qed

end
