(* ===== verification/Order_Numbers.thy ===== *)
theory Order_Numbers
  imports Py_Values
begin

text \<open>
  Public order numbers (\<open>domain/order_numbers.py\<close>): a monotonically allocated sequence is
  rendered as a letter and three digits while the 26 blocks of a thousand last, and as \<open>X\<close>
  followed by at least six base-36 digits afterwards.
\<close>

definition ALPHABET :: string where
  "ALPHABET = ''0123456789ABCDEFGHIJKLMNOPQRSTUVWXYZ''"

definition SHORT_BLOCK_SIZE :: int where
  "SHORT_BLOCK_SIZE = 1000"

definition SHORT_BLOCK_COUNT :: int where
  "SHORT_BLOCK_COUNT = 26"

definition SHORT_CAPACITY :: int where
  "SHORT_CAPACITY = SHORT_BLOCK_SIZE * SHORT_BLOCK_COUNT"

text \<open>The loop appends the least significant digit first; the result is reversed.\<close>

fun base36_digits :: "nat \<Rightarrow> string" where
  "base36_digits v =
     (if v = 0 then [] else (ALPHABET ! (v mod 36)) # base36_digits (v div 36))"

declare base36_digits.simps [simp del]

definition base36 :: "nat \<Rightarrow> string" where
  "base36 v = rev (base36_digits v)"

definition str_rjust :: "nat \<Rightarrow> char \<Rightarrow> string \<Rightarrow> string" where
  "str_rjust w c s = replicate (w - length s) c @ s"

definition format_order_number :: "int \<Rightarrow> string result" where
  "format_order_number seq =
     (if seq < 1 then Inl (ValueError ''order number sequence must be positive'')
      else
        let offset = seq - 1
        in if offset < SHORT_CAPACITY
           then Inr (char_of (65 + nat (offset div SHORT_BLOCK_SIZE))
                     # str_rjust 3 (CHR ''0'') (nat_str (nat (offset mod SHORT_BLOCK_SIZE))))
           else Inr (CHR ''X'' # str_rjust 6 (CHR ''0'') (base36 (nat seq))))"

section \<open>Reading the digits back\<close>

definition base36_index :: "char \<Rightarrow> nat" where
  "base36_index c = (let n = code_point c in if n < 65 then n - 48 else n - 55)"

definition base36_value :: "string \<Rightarrow> nat" where
  "base36_value s = foldl (\<lambda>v c. 36 * v + base36_index c) 0 s"

lemma base36_value_snoc: "base36_value (s @ [c]) = 36 * base36_value s + base36_index c"
  by (simp add: base36_value_def)

lemma base36_index_ALPHABET: "d < 36 \<Longrightarrow> base36_index (ALPHABET ! d) = d"
proof -
  have "\<forall>d \<in> set [0..<36]. base36_index (ALPHABET ! d) = d"
    by code_simp
  then show "d < 36 \<Longrightarrow> base36_index (ALPHABET ! d) = d" by simp
qed

lemma base36_value_base36 [simp]: "base36_value (base36 v) = v"
proof (induction v rule: base36_digits.induct)
  case (1 v)
  show ?case
  proof (cases "v = 0")
    case True
    then show ?thesis by (simp add: base36_def base36_digits.simps base36_value_def)
  next
    case False
    with 1 have "base36_value (base36 (v div 36)) = v div 36" by simp
    with False show ?thesis
      by (simp add: base36_def base36_digits.simps[of v] base36_value_snoc base36_index_ALPHABET)
  qed
qed

lemma base36_value_zeros: "base36_value (replicate k (CHR ''0'') @ s) = base36_value s"
proof -
  have "foldl (\<lambda>v c. 36 * v + base36_index c) 0 (replicate k (CHR ''0'')) = 0"
    by (induction k) (simp_all add: base36_index_def code_point_def)
  then show ?thesis by (simp add: base36_value_def)
qed

lemma digits_value_zeros: "digits_value (replicate k (CHR ''0'') @ s) = digits_value s"
proof -
  have "foldl (\<lambda>v c. 10 * v + (code_point c - 48)) 0 (replicate k (CHR ''0'')) = 0"
    by (induction k) (simp_all add: code_point_def)
  then show ?thesis by (simp add: digits_value_def)
qed

lemma length_str_rjust: "length (str_rjust w c s) = max w (length s)"
  by (simp add: str_rjust_def)

lemma length_nat_str_le3: "n < 1000 \<Longrightarrow> length (nat_str n) \<le> 3"
  by (subst nat_str.simps, subst nat_str.simps, subst nat_str.simps) simp

lemma code_point_char_of: "n < 256 \<Longrightarrow> code_point (char_of n) = n"
  by (simp add: code_point_def)

lemma char_of_inj_small:
  fixes a b :: nat
  shows "\<lbrakk>char_of a = (char_of b :: char); a < 256; b < 256\<rbrakk> \<Longrightarrow> a = b"
  by (metis code_point_char_of)

section \<open>Numbers never collide\<close>

definition short_number :: "nat \<Rightarrow> string" where
  "short_number k = char_of (65 + k div 1000) # str_rjust 3 (CHR ''0'') (nat_str (k mod 1000))"

definition long_number :: "nat \<Rightarrow> string" where
  "long_number n = CHR ''X'' # str_rjust 6 (CHR ''0'') (base36 n)"

lemma format_order_number_cases:
  assumes "1 \<le> seq"
  shows "format_order_number seq =
    Inr (if seq \<le> 26000 then short_number (nat (seq - 1)) else long_number (nat seq))"
  using assms
  by (simp add: format_order_number_def short_number_def long_number_def SHORT_CAPACITY_def
      SHORT_BLOCK_SIZE_def SHORT_BLOCK_COUNT_def nat_div_distrib nat_mod_distrib Let_def)

lemma format_order_number_total: "1 \<le> seq \<Longrightarrow> \<exists>n. format_order_number seq = Inr n \<and> n \<noteq> []"
  by (simp add: format_order_number_cases short_number_def long_number_def)

lemma length_short_number: "length (short_number k) = 4"
  by (simp add: short_number_def length_str_rjust length_nat_str_le3 max_absorb1)

lemma length_long_number: "7 \<le> length (long_number n)"
  by (simp add: long_number_def length_str_rjust)

lemma short_number_inj:
  assumes "short_number a = short_number b" "a < 26000" "b < 26000"
  shows "a = b"
proof -
  from assms have "a div 1000 = b div 1000"
    using char_of_inj_small[of "65 + a div 1000" "65 + b div 1000"]
    by (simp add: short_number_def)
  moreover from assms have "digits_value (str_rjust 3 (CHR ''0'') (nat_str (a mod 1000)))
      = digits_value (str_rjust 3 (CHR ''0'') (nat_str (b mod 1000)))"
    by (simp add: short_number_def)
  then have "a mod 1000 = b mod 1000"
    by (simp add: str_rjust_def digits_value_zeros)
  ultimately show ?thesis by (metis div_mult_mod_eq)
qed

lemma long_number_inj: "long_number a = long_number b \<Longrightarrow> a = b"
proof -
  assume "long_number a = long_number b"
  then have "base36_value (str_rjust 6 (CHR ''0'') (base36 a))
      = base36_value (str_rjust 6 (CHR ''0'') (base36 b))"
    by (simp add: long_number_def)
  then show "a = b" by (simp add: str_rjust_def base36_value_zeros)
qed

lemma short_not_long: "short_number k \<noteq> long_number n"
proof
  assume "short_number k = long_number n"
  then have "length (short_number k) = length (long_number n)" by simp
  with length_short_number[of k] length_long_number[of n] show False by simp
qed

text \<open>
  Two different positive sequence numbers are never rendered as the same public order
  number, across the short and the long format and their boundary at 26000.
\<close>

lemma format_order_number_distinct:
  assumes "1 \<le> a" and "1 \<le> b" and "a \<noteq> b"
  shows "format_order_number a \<noteq> format_order_number b"
proof
  assume eq: "format_order_number a = format_order_number b"
  have "a = b"
  proof (cases "a \<le> 26000"; cases "b \<le> 26000")
    assume "a \<le> 26000" "b \<le> 26000"
    with eq assms have "nat (a - 1) = nat (b - 1)"
      by (intro short_number_inj) (simp_all add: format_order_number_cases)
    with assms show ?thesis by simp
  next
    assume "\<not> a \<le> 26000" "\<not> b \<le> 26000"
    with eq assms have "nat a = nat b"
      by (intro long_number_inj) (simp add: format_order_number_cases)
    with assms show ?thesis by simp
  qed (use eq assms short_not_long short_not_long[symmetric] in
      \<open>simp_all add: format_order_number_cases\<close>)
  with assms show False by simp
qed

lemma format_order_number_distinct_witness:
  "format_order_number 24000 \<noteq> format_order_number 26001
    \<and> format_order_number 26001 = Inr ''X000K29''"
proof
  show "format_order_number 24000 \<noteq> format_order_number 26001"
    by (rule format_order_number_distinct) simp_all
  show "format_order_number 26001 = Inr ''X000K29''"
    by (simp add: format_order_number_def Let_def SHORT_CAPACITY_def SHORT_BLOCK_SIZE_def
        SHORT_BLOCK_COUNT_def base36_def base36_digits.simps str_rjust_def ALPHABET_def numeral_3_eq_3)
qed

end
