(* ===== verification/Tracking.thy ===== *)
theory Tracking
  imports Domain_Events
begin

text \<open>
  Location tracking (\<open>domain/tracking.py\<close>): the validated point, the session with its
  capability tokens and its points, and the methods of the session. The fresh tokens that the code
  draws with \<open>token_urlsafe\<close> are arguments.
\<close>

section \<open>Data\<close>

datatype tracking_status = TrackActive | TrackCompleted | TrackCancelled

fun tracking_status_value :: "tracking_status \<Rightarrow> string" where
  "tracking_status_value TrackActive = ''active''"
| "tracking_status_value TrackCompleted = ''completed''"
| "tracking_status_value TrackCancelled = ''cancelled''"

datatype location_source = FromTelegram | FromMax | FromWeb | FromMobile | FromImport

fun location_source_value :: "location_source \<Rightarrow> string" where
  "location_source_value FromTelegram = ''telegram''"
| "location_source_value FromMax = ''max''"
| "location_source_value FromWeb = ''web''"
| "location_source_value FromMobile = ''mobile''"
| "location_source_value FromImport = ''import''"

record tracking_point =
  tp_latitude :: pyfloat
  tp_longitude :: pyfloat
  tp_captured_at :: instant
  tp_ingested_at :: instant
  tp_source :: location_source
  tp_accuracy_m :: "pyfloat option"
  tp_source_event_id :: "string option"

definition point_guards :: "tracking_point \<Rightarrow> py_error option list" where
  "point_guards p =
     [check (fl_isfinite (tp_latitude p) \<and> fl_between (-90) (tp_latitude p) 90)
        (ValueError ''latitude must be finite and between -90 and 90''),
      check (fl_isfinite (tp_longitude p) \<and> fl_between (-180) (tp_longitude p) 180)
        (ValueError ''longitude must be finite and between -180 and 180''),
      check (case tp_accuracy_m p of None \<Rightarrow> True
             | Some a \<Rightarrow> \<not> (\<not> fl_isfinite a \<or> fl_lt a (Finite 0)))
        (ValueError ''accuracy_m must be a non-negative finite number''),
      check (case tp_source_event_id p of None \<Rightarrow> True | Some s \<Rightarrow> \<not> str_blank s)
        (ValueError ''source_event_id cannot be blank'')]"

definition make_point :: "tracking_point \<Rightarrow> tracking_point result" where
  "make_point p = raise_first (point_guards p) (Inr p)"

definition valid_point :: "tracking_point \<Rightarrow> bool" where
  "valid_point p = list_all (\<lambda>g. g = None) (point_guards p)"

record tracking_session =
  ts_id :: string
  ts_organization_id :: string
  ts_work_order_id :: string
  ts_executor_id :: string
  ts_public_token :: "string option"
  ts_location_token :: "string option"
  ts_status :: tracking_status
  ts_points :: "tracking_point list"
  ts_point_count :: int
  ts_version :: int
  ts_created_at :: instant
  ts_updated_at :: instant
  ts_events :: "domain_event list"
  ts_persisted_point_count :: int

text \<open>A capability token carries at least 256 bits: 43 characters of base 64.\<close>

definition token_ok :: "string \<Rightarrow> bool" where
  "token_ok t = (\<not> (length t < 43 \<or> str_blank t))"

definition option_token_ok :: "string option \<Rightarrow> bool" where
  "option_token_ok t = (case t of None \<Rightarrow> True | Some s \<Rightarrow> token_ok s)"

abbreviation public_token_error :: py_error where
  "public_token_error \<equiv> ValueError ''public tracking token must contain at least 256 bits''"

abbreviation location_token_error :: py_error where
  "location_token_error \<equiv> ValueError ''location submission token must contain at least 256 bits''"

abbreviation same_token_error :: py_error where
  "same_token_error \<equiv> ValueError ''tracking capability tokens must be distinct''"

text \<open>The constructor (\<open>__post_init__\<close>) fills in the point count and checks the rest.\<close>

definition session_init :: "tracking_session \<Rightarrow> tracking_session result" where
  "session_init s0 =
     (let s = (if ts_points s0 \<noteq> [] \<and> ts_point_count s0 = 0
               then s0\<lparr>ts_point_count := int (length (ts_points s0))\<rparr> else s0)
      in raise_first
        [check (\<not> ts_point_count s < int (length (ts_points s)))
           (ValueError ''point_count cannot be smaller than loaded points''),
         check (0 \<le> ts_persisted_point_count s \<and> ts_persisted_point_count s \<le> ts_point_count s)
           (ValueError ''persisted point count is invalid''),
         check (option_token_ok (ts_public_token s)) public_token_error,
         check (option_token_ok (ts_location_token s)) location_token_error,
         check (\<not> (ts_public_token s \<noteq> None \<and> ts_public_token s = ts_location_token s))
           same_token_error]
        (Inr s))"

definition ts_record :: "string \<Rightarrow> (string, json) dict \<Rightarrow> stamp \<Rightarrow> tracking_session \<Rightarrow> tracking_session"
where
  "ts_record name payload st s =
     (let v = ts_version s + 1
      in s\<lparr>ts_version := v, ts_updated_at := st_now st,
           ts_events := ts_events s @
             [event_create st (ts_organization_id s) ''tracking_session'' (ts_id s) v name
                payload]\<rparr>)"

section \<open>Methods\<close>

definition session_start ::
  "string \<Rightarrow> string \<Rightarrow> string \<Rightarrow> string \<Rightarrow> string option \<Rightarrow> string option \<Rightarrow>
   string \<times> string \<Rightarrow> stamp \<Rightarrow> tracking_session result"
where
  "session_start sid org order_id executor public_token location_token fresh st =
     (let token = (case public_token of Some t \<Rightarrow> t | None \<Rightarrow> fst fresh);
          sender = (case location_token of Some t \<Rightarrow> t | None \<Rightarrow> snd fresh)
      in raise_first
        [check (sid \<noteq> [] \<and> org \<noteq> [] \<and> order_id \<noteq> [] \<and> executor \<noteq> [])
           (ValueError ''tracking session identifiers are required''),
         check (token_ok token) public_token_error,
         check (token_ok sender) location_token_error,
         check (sender \<noteq> token) same_token_error]
        (result_bind
          (session_init
            \<lparr>ts_id = sid, ts_organization_id = org, ts_work_order_id = order_id,
             ts_executor_id = executor, ts_public_token = Some token,
             ts_location_token = Some sender, ts_status = TrackActive, ts_points = [],
             ts_point_count = 0, ts_version = 0, ts_created_at = st_now st,
             ts_updated_at = st_now st, ts_events = [], ts_persisted_point_count = 0\<rparr>)
          (\<lambda>s. Inr (ts_record ''tracking.started''
             [(''browser_location'', JBool True), (''public_tracking'', JBool True)] st s))))"

text \<open>
  Was the point of this source event already recorded in the loaded points? The event of a new
  point takes the instant at which the point was ingested.
\<close>

definition has_point_event :: "string option \<Rightarrow> tracking_session \<Rightarrow> bool" where
  "has_point_event ev s =
     (ev \<noteq> None \<and> list_ex (\<lambda>p. tp_source_event_id p = ev) (ts_points s))"

definition require_active :: "tracking_session \<Rightarrow> py_error option" where
  "require_active s =
     check (ts_status s = TrackActive) (InvalidTransition ''tracking session is not active'')"

definition add_point :: "tracking_point \<Rightarrow> string \<Rightarrow> tracking_session \<Rightarrow> tracking_session result" where
  "add_point p ev_id s =
     (if has_point_event (tp_source_event_id p) s then Inr s
      else raise_first
        [require_active s,
         check (\<not> (ts_points s \<noteq> [] \<and> tp_captured_at p < tp_captured_at (last (ts_points s))))
           (ValueError ''tracking points must be ordered by capture time'')]
        (Inr (ts_record ''tracking.point_recorded''
           [(''captured_at'', JStr (isoformat (tp_captured_at p))),
            (''source'', JStr (location_source_value (tp_source p))),
            (''source_event_id'', opt_str (tp_source_event_id p))]
           \<lparr>st_now = tp_ingested_at p, st_event_id = ev_id\<rparr>
           (s\<lparr>ts_points := ts_points s @ [p], ts_point_count := ts_point_count s + 1\<rparr>))))"

definition session_complete :: "stamp \<Rightarrow> tracking_session \<Rightarrow> tracking_session result" where
  "session_complete st s =
     raise_first [require_active s]
       (Inr (ts_record ''tracking.completed'' [(''point_count'', JInt (ts_point_count s))] st
          (s\<lparr>ts_status := TrackCompleted, ts_public_token := None, ts_location_token := None\<rparr>)))"

definition session_cancel :: "string \<Rightarrow> stamp \<Rightarrow> tracking_session \<Rightarrow> tracking_session result" where
  "session_cancel reason st s =
     raise_first [require_active s]
       (Inr (ts_record ''tracking.cancelled'' [(''reason'', JStr reason)] st
          (s\<lparr>ts_status := TrackCancelled, ts_public_token := None, ts_location_token := None\<rparr>)))"

definition latest_point :: "tracking_session \<Rightarrow> tracking_point option" where
  "latest_point s = (if ts_points s = [] then None else Some (last (ts_points s)))"

definition pending_points :: "tracking_session \<Rightarrow> tracking_point list result" where
  "pending_points s =
     (let pending = ts_point_count s - ts_persisted_point_count s
      in if pending > int (length (ts_points s))
         then Inl (ValueError ''pending point count exceeds loaded tracking points'')
         else if pending = 0 then Inr []
         else if pending < 0 then Inr (drop (nat (- pending)) (ts_points s))
         else Inr (drop (length (ts_points s) - nat pending) (ts_points s)))"

definition ts_pull_events :: "tracking_session \<Rightarrow> domain_event list \<times> tracking_session" where
  "ts_pull_events s = (ts_events s, s\<lparr>ts_events := []\<rparr>)"

section \<open>Steps and invariant\<close>

datatype ts_command =
    AddPoint tracking_point string
  | SessionComplete stamp
  | SessionCancel string stamp

fun ts_exec :: "ts_command \<Rightarrow> tracking_session \<Rightarrow> tracking_session result" where
  "ts_exec (AddPoint p ev) s = add_point p ev s"
| "ts_exec (SessionComplete st) s = session_complete st s"
| "ts_exec (SessionCancel reason st) s = session_cancel reason st s"

text \<open>
  A session is started, changed by its methods with points that the point's constructor let
  through, and emptied of its events when it is saved; a store that keeps the points in a table
  of their own also marks them as persisted.
\<close>

inductive ts_reachable :: "tracking_session \<Rightarrow> bool" where
  start: "session_start sid org oid x pt lt fresh st = Inr s \<Longrightarrow> ts_reachable s"
| exec: "\<lbrakk>ts_reachable s; ts_exec c s = Inr s';
          case c of AddPoint p _ \<Rightarrow> valid_point p | _ \<Rightarrow> True\<rbrakk> \<Longrightarrow> ts_reachable s'"
| pull: "ts_reachable s \<Longrightarrow> ts_reachable (snd (ts_pull_events s))"
| persist: "ts_reachable s \<Longrightarrow> ts_reachable (s\<lparr>ts_persisted_point_count := ts_point_count s\<rparr>)"

lemma ts_record_sel [simp]:
  "ts_id (ts_record n p st s) = ts_id s"
  "ts_organization_id (ts_record n p st s) = ts_organization_id s"
  "ts_work_order_id (ts_record n p st s) = ts_work_order_id s"
  "ts_executor_id (ts_record n p st s) = ts_executor_id s"
  "ts_public_token (ts_record n p st s) = ts_public_token s"
  "ts_location_token (ts_record n p st s) = ts_location_token s"
  "ts_status (ts_record n p st s) = ts_status s"
  "ts_points (ts_record n p st s) = ts_points s"
  "ts_point_count (ts_record n p st s) = ts_point_count s"
  "ts_version (ts_record n p st s) = ts_version s + 1"
  "ts_created_at (ts_record n p st s) = ts_created_at s"
  "ts_updated_at (ts_record n p st s) = st_now st"
  "ts_persisted_point_count (ts_record n p st s) = ts_persisted_point_count s"
  "ts_events (ts_record n p st s) = ts_events s @
     [event_create st (ts_organization_id s) ''tracking_session'' (ts_id s) (ts_version s + 1) n p]"
  by (simp_all add: ts_record_def Let_def)

lemmas ts_op_defs = add_point_def session_complete_def session_cancel_def require_active_def

lemma ts_exec_identity:
  assumes "ts_exec c s = Inr s'"
  shows "ts_id s' = ts_id s" and "ts_organization_id s' = ts_organization_id s"
    and "ts_work_order_id s' = ts_work_order_id s" and "ts_executor_id s' = ts_executor_id s"
  using assms by (cases c; auto simp: ts_op_defs split: if_splits)+

lemma ts_exec_version:
  "ts_exec c s = Inr s' \<Longrightarrow> s' = s \<or> ts_version s' = ts_version s + 1"
  by (cases c; clarsimp simp: ts_op_defs split: if_splits; fastforce)

definition inv_tokens :: "tracking_session \<Rightarrow> bool" where
  "inv_tokens s \<longleftrightarrow>
     (if ts_status s = TrackActive
      then (\<exists>a b. ts_public_token s = Some a \<and> ts_location_token s = Some b \<and>
                  token_ok a \<and> token_ok b \<and> a \<noteq> b)
      else ts_public_token s = None \<and> ts_location_token s = None)"

definition source_events :: "tracking_session \<Rightarrow> string list" where
  "source_events s = List.map_filter tp_source_event_id (ts_points s)"

definition inv_points :: "tracking_session \<Rightarrow> bool" where
  "inv_points s \<longleftrightarrow> sorted (map tp_captured_at (ts_points s)) \<and> distinct (source_events s) \<and>
     list_all valid_point (ts_points s)"

definition inv_count :: "tracking_session \<Rightarrow> bool" where
  "inv_count s \<longleftrightarrow> ts_point_count s = int (length (ts_points s)) \<and>
     0 \<le> ts_persisted_point_count s \<and> ts_persisted_point_count s \<le> ts_point_count s"

definition ts_inv :: "tracking_session \<Rightarrow> bool" where
  "ts_inv s \<longleftrightarrow> inv_tokens s \<and> inv_points s \<and> inv_count s"

lemma source_events_mem:
  "has_point_event (Some e) s \<longleftrightarrow> e \<in> set (source_events s)"
  unfolding has_point_event_def source_events_def
  by (induction "ts_points s" arbitrary: s)
    (auto simp: list_ex_iff map_filter_def image_iff intro: bexI[rotated])

lemma has_point_event_None [simp]: "\<not> has_point_event None s"
  by (simp add: has_point_event_def)

lemma sorted_last_snoc:
  "sorted (map f xs) \<Longrightarrow> (xs \<noteq> [] \<longrightarrow> f (last xs) \<le> f x) \<Longrightarrow> sorted (map f (xs @ [x]))"
  for f :: "'a \<Rightarrow> int"
proof (cases xs rule: rev_cases)
  case (snoc ys y)
  assume "sorted (map f xs)" and "xs \<noteq> [] \<longrightarrow> f (last xs) \<le> f x"
  then show ?thesis using snoc by (auto simp: sorted_append intro: order_trans)
qed simp

lemma inv_points_exec:
  assumes "ts_exec c s = Inr s'" and "case c of AddPoint p _ \<Rightarrow> valid_point p | _ \<Rightarrow> True"
    and "inv_points s"
  shows "inv_points s'"
proof (cases "\<exists>p ev. c = AddPoint p ev \<and> \<not> has_point_event (tp_source_event_id p) s")
  case True
  then obtain p ev where c: "c = AddPoint p ev" "\<not> has_point_event (tp_source_event_id p) s" by auto
  then have pts: "ts_points s' = ts_points s @ [p]"
    and le: "ts_points s \<noteq> [] \<longrightarrow> tp_captured_at (last (ts_points s)) \<le> tp_captured_at p"
    using assms(1) by (auto simp: ts_op_defs)
  have "distinct (source_events s')"
    using assms(3) c(2) pts source_events_mem[of _ s]
    by (cases "tp_source_event_id p")
      (auto simp: inv_points_def source_events_def map_filter_def)
  then show ?thesis
    using assms(2,3) c(1) pts sorted_last_snoc[OF _ le] by (simp add: inv_points_def)
next
  case False
  then have "ts_points s' = ts_points s"
    using assms(1) by (cases c) (auto simp: ts_op_defs split: if_splits)
  then show ?thesis using assms(3) by (simp add: inv_points_def source_events_def)
qed

lemma inv_tokens_exec: "ts_exec c s = Inr s' \<Longrightarrow> inv_tokens s \<Longrightarrow> inv_tokens s'"
  by (cases c; clarsimp simp: ts_op_defs inv_tokens_def split: if_splits; fastforce)

lemma inv_count_exec: "ts_exec c s = Inr s' \<Longrightarrow> inv_count s \<Longrightarrow> inv_count s'"
  by (cases c; clarsimp simp: ts_op_defs inv_count_def split: if_splits; fastforce)

lemma session_start_inv: "session_start sid org oid x pt lt fresh st = Inr s \<Longrightarrow> ts_inv s"
  by (auto simp: session_start_def session_init_def ts_inv_def inv_tokens_def inv_points_def
      inv_count_def source_events_def map_filter_def Let_def)

lemma ts_reachable_inv: "ts_reachable s \<Longrightarrow> ts_inv s"
proof (induction rule: ts_reachable.induct)
  case (start sid org oid x pt lt fresh st s)
  then show ?case by (rule session_start_inv)
next
  case (exec s c s')
  then show ?case
    unfolding ts_inv_def by (auto intro: inv_points_exec inv_tokens_exec inv_count_exec)
qed (auto simp: ts_inv_def inv_tokens_def inv_points_def inv_count_def source_events_def
      ts_pull_events_def)

section \<open>Runs and a concrete session\<close>

fun add_points :: "(tracking_point \<times> string) list \<Rightarrow> tracking_session \<Rightarrow> tracking_session result" where
  "add_points [] s = Inr s"
| "add_points ((p, ev) # ps) s = result_bind (add_point p ev s) (add_points ps)"

definition demo_point :: "instant \<Rightarrow> string \<Rightarrow> tracking_point" where
  "demo_point t ev = \<lparr>tp_latitude = Finite 55, tp_longitude = Finite 37, tp_captured_at = t,
     tp_ingested_at = t, tp_source = FromTelegram, tp_accuracy_m = None,
     tp_source_event_id = Some ev\<rparr>"

definition demo_session :: tracking_session where
  "demo_session = \<lparr>ts_id = ''s1'', ts_organization_id = ''acme'', ts_work_order_id = ''o1'',
     ts_executor_id = ''m1'', ts_public_token = Some (replicate 43 (CHR ''a'')),
     ts_location_token = Some (replicate 43 (CHR ''b'')), ts_status = TrackActive, ts_points = [],
     ts_point_count = 0, ts_version = 1, ts_created_at = 5, ts_updated_at = 5,
     ts_events = [event_create \<lparr>st_now = 5, st_event_id = ''e''\<rparr> ''acme'' ''tracking_session'' ''s1'' 1
       ''tracking.started'' [(''browser_location'', JBool True), (''public_tracking'', JBool True)]],
     ts_persisted_point_count = 0\<rparr>"

lemmas demo_session_eval = demo_session_def session_start_def session_init_def token_ok_def
  option_token_ok_def str_blank_def str_strip_def is_space_def code_point_def ts_record_def Let_def
  demo_point_def add_point_def has_point_event_def require_active_def

lemma demo_session_start:
  "session_start ''s1'' ''acme'' ''o1'' ''m1'' None None
     (replicate 43 (CHR ''a''), replicate 43 (CHR ''b'')) \<lparr>st_now = 5, st_event_id = ''e''\<rparr>
   = Inr demo_session"
  by (simp add: demo_session_eval eval_nat_numeral)

lemma demo_point_valid: "valid_point (demo_point t ''p1'')"
  by (simp add: valid_point_def point_guards_def demo_point_def str_blank_def str_strip_def
      is_space_def code_point_def)

section \<open>Properties\<close>

text \<open>
  (C22) In every reachable session the two capability tokens exist, are long enough and differ
  while the session is active, and are gone once it is finished; its points are in order of
  capture, no source event is recorded twice, and the point counter is their number.
\<close>

theorem tracking_session_consistent:
  assumes "ts_reachable s"
  shows "(ts_status s = TrackActive \<longleftrightarrow> ts_public_token s \<noteq> None) \<and>
    (ts_status s = TrackActive \<longleftrightarrow> ts_location_token s \<noteq> None) \<and>
    option_token_ok (ts_public_token s) \<and> option_token_ok (ts_location_token s) \<and>
    (ts_status s = TrackActive \<longrightarrow> ts_public_token s \<noteq> ts_location_token s) \<and>
    sorted (map tp_captured_at (ts_points s)) \<and> distinct (source_events s) \<and>
    list_all valid_point (ts_points s) \<and> ts_point_count s = int (length (ts_points s))"
  using ts_reachable_inv[OF assms]
  by (auto simp: ts_inv_def inv_tokens_def inv_points_def inv_count_def option_token_ok_def
      split: if_splits)

theorem tracking_session_consistent_witness:
  "\<exists>s. ts_reachable s \<and> ts_status s = TrackCompleted \<and> ts_public_token s = None \<and>
     ts_location_token s = None \<and> ts_point_count s = 1"
proof -
  define st where "st = \<lparr>st_now = 9, st_event_id = ''e''\<rparr>"
  have r0: "ts_reachable demo_session" by (rule ts_reachable.start[OF demo_session_start])
  obtain s1 where s1: "ts_exec (AddPoint (demo_point 7 ''p1'') ''e'') demo_session = Inr s1"
      "ts_status s1 = TrackActive" "ts_points s1 = [demo_point 7 ''p1'']"
    by (simp add: demo_session_eval)
  have r1: "ts_reachable s1"
    using ts_reachable.exec[OF r0 s1(1)] demo_point_valid by simp
  obtain s2 where s2: "ts_exec (SessionComplete st) s1 = Inr s2" "ts_status s2 = TrackCompleted"
      "ts_points s2 = [demo_point 7 ''p1'']"
    using s1 by (auto simp: ts_op_defs)
  have r2: "ts_reachable s2" using ts_reachable.exec[OF r1 s2(1)] by simp
  from tracking_session_consistent[OF r2] r2 s2 show ?thesis by auto
qed

text \<open>
  Delivering the same source event again never changes the session, whatever its status
  then is and whatever happened in between: a point that was recorded stays known.
\<close>

lemma add_point_idempotent:
  assumes "add_point p ev s = Inr s'" and "tp_source_event_id p = Some e"
    and "ts_exec c s' = Inr s''" and "tp_source_event_id q = Some e"
  shows "add_point q ev' s' = Inr s' \<and> add_point q ev' s'' = Inr s''"
proof -
  have "has_point_event (Some e) s'"
    using assms(1,2) by (auto simp: add_point_def has_point_event_def split: if_splits)
  moreover have "has_point_event (Some e) s''"
    using calculation assms(3)
    by (cases c) (auto simp: ts_op_defs has_point_event_def split: if_splits)
  ultimately show ?thesis using assms(4) by (simp add: add_point_def)
qed

lemma add_point_idempotent_witness:
  "\<exists>s s'. add_point (demo_point 7 ''p1'') ''e'' demo_session = Inr s \<and>
     session_complete \<lparr>st_now = 9, st_event_id = ''f''\<rparr> s = Inr s' \<and>
     add_point (demo_point 8 ''p1'') ''g'' s' = Inr s' \<and>
     (\<exists>err. add_point (demo_point 8 ''p2'') ''g'' s' = Inl err)"
proof -
  obtain s s' where s: "add_point (demo_point 7 ''p1'') ''e'' demo_session = Inr s"
      "ts_exec (SessionComplete \<lparr>st_now = 9, st_event_id = ''f''\<rparr>) s = Inr s'"
      "\<exists>err. add_point (demo_point 8 ''p2'') ''g'' s' = Inl err"
    by (simp add: demo_session_eval session_complete_def check_def)
  then show ?thesis
    using add_point_idempotent[OF s(1) _ s(2), of "''p1''" "demo_point 8 ''p1''" "''g''"]
    by (auto simp: demo_point_def)
qed

lemma add_points_effect:
  assumes "add_points ps s = Inr s'" and "inv_count s"
  shows "\<exists>new. set new \<subseteq> set (map fst ps) \<and> ts_points s' = ts_points s @ new \<and>
    ts_point_count s' = ts_point_count s + int (length new) \<and>
    ts_persisted_point_count s' = ts_persisted_point_count s \<and>
    ts_version s' = ts_version s + int (length new) \<and> inv_count s'"
  using assms
proof (induction ps s rule: add_points.induct)
  case (2 p ev ps s)
  then obtain s1 where s1: "add_point p ev s = Inr s1" and rest: "add_points ps s1 = Inr s'"
    by auto
  have i1: "inv_count s1" using inv_count_exec[of "AddPoint p ev" s s1] s1 2(3) by simp
  obtain new where new: "set new \<subseteq> set (map fst ps)" "ts_points s' = ts_points s1 @ new"
      "ts_point_count s' = ts_point_count s1 + int (length new)"
      "ts_persisted_point_count s' = ts_persisted_point_count s1"
      "ts_version s' = ts_version s1 + int (length new)" "inv_count s'"
    using 2(1)[OF rest i1] by auto
  show ?case
  proof (cases "has_point_event (tp_source_event_id p) s")
    case True
    then show ?thesis using s1 new by (intro exI[of _ new]) (auto simp: add_point_def)
  next
    case False
    then show ?thesis using s1 new by (intro exI[of _ "p # new"]) (auto simp: add_point_def)
  qed
qed (auto intro: exI[of _ "[]"])

text \<open>
  What a store still has to write after points were added to a session it had saved is
  exactly the added points, in order: nothing that is persisted is written again, nothing is lost.
\<close>

lemma pending_points_exact:
  assumes "ts_reachable s" and "ts_persisted_point_count s = ts_point_count s"
    and "add_points ps s = Inr s'"
  shows "\<exists>new. set new \<subseteq> set (map fst ps) \<and> ts_points s' = ts_points s @ new \<and>
    pending_points s' = Inr new"
proof -
  have c: "inv_count s" using ts_reachable_inv[OF assms(1)] by (simp add: ts_inv_def)
  from add_points_effect[OF assms(3) c] assms(2) c show ?thesis
    by (force simp: pending_points_def inv_count_def Let_def)
qed

lemma pending_points_exact_witness:
  "\<exists>s'. add_points [(demo_point 7 ''p1'', ''e''), (demo_point 8 ''p1'', ''f'')] demo_session
      = Inr s' \<and> pending_points s' = Inr (ts_points s')"
proof -
  obtain s' where s': "add_points [(demo_point 7 ''p1'', ''e''), (demo_point 8 ''p1'', ''f'')]
      demo_session = Inr s'"
    by (simp add: demo_session_eval)
  have "ts_reachable demo_session" by (rule ts_reachable.start[OF demo_session_start])
  from pending_points_exact[OF this _ s'] s' show ?thesis by (simp add: demo_session_def) auto
qed

end
