(* ===== verification/Dispatch_State.thy ===== *)
theory Dispatch_State
  imports Work_Order_Lifecycle Tracking
begin

text \<open>
  The contract between the application services and a store (\<open>application/ports.py\<close> and
  \<open>application/async_ports.py\<close>): the operations of a unit of work as a record, the abstract state
  that every store represents, and the laws of an optimistic, atomic commit as the locales
  \<open>unit_of_work\<close> and \<open>exact_unit_of_work\<close>.
\<close>

section \<open>The abstract state\<close>

type_synonym okey = "string \<times> string"

record dispatch_state =
  ds_orders :: "okey \<Rightarrow> work_order option"
  ds_sessions :: "okey \<Rightarrow> tracking_session option"
  ds_outbox :: "domain_event list"

definition order_key :: "work_order \<Rightarrow> okey" where
  "order_key w = (wo_organization_id w, wo_id w)"

definition session_key :: "tracking_session \<Rightarrow> okey" where
  "session_key s = (ts_organization_id s, ts_id s)"

text \<open>What a unit of work has staged: the aggregates with the versions they were read at.\<close>

record 'k staged =
  sg_orders :: "('k, work_order \<times> int option) dict"
  sg_sessions :: "(okey, tracking_session \<times> int option) dict"
  sg_events :: "domain_event list"

definition no_changes :: "'k staged" where
  "no_changes = \<lparr>sg_orders = [], sg_sessions = [], sg_events = []\<rparr>"

text \<open>A saved aggregate is a copy whose pending events were pulled.\<close>

definition order_snapshot :: "work_order \<Rightarrow> work_order" where
  "order_snapshot w = snd (wo_pull_events w)"

definition session_snapshot :: "tracking_session \<Rightarrow> tracking_session" where
  "session_snapshot s = snd (ts_pull_events s)"

fun version_matches :: "int option \<Rightarrow> int option \<Rightarrow> bool" where
  "version_matches None None = True"
| "version_matches (Some v) (Some c) = (v = c)"
| "version_matches _ _ = False"

definition versions_match :: "okey staged \<Rightarrow> dispatch_state \<Rightarrow> bool" where
  "versions_match g d \<longleftrightarrow>
     list_all (\<lambda>(k, w, v). version_matches v (map_option wo_version (ds_orders d k))) (sg_orders g) \<and>
     list_all (\<lambda>(k, s, v). version_matches v (map_option ts_version (ds_sessions d k))) (sg_sessions g)"

definition map_puts :: "('k \<times> 'v \<times> 'e) list \<Rightarrow> ('k \<Rightarrow> 'v option) \<Rightarrow> 'k \<Rightarrow> 'v option" where
  "map_puts ps m = fold (\<lambda>(k, v, _) m. m(k \<mapsto> v)) ps m"

definition apply_changes :: "okey staged \<Rightarrow> dispatch_state \<Rightarrow> dispatch_state" where
  "apply_changes g d =
     \<lparr>ds_orders = map_puts (sg_orders g) (ds_orders d),
      ds_sessions = map_puts (sg_sessions g) (ds_sessions d),
      ds_outbox = ds_outbox d @ sg_events g\<rparr>"

text \<open>
  An order occupies its executor while it is assigned and not finished; no executor of an
  organization may have two such orders.
\<close>

fun active_status :: "wo_status_t \<Rightarrow> bool" where
  "active_status ASSIGNED = True"
| "active_status ACCEPTED = True"
| "active_status EN_ROUTE = True"
| "active_status IN_PROGRESS = True"
| "active_status _ = False"

definition busy :: "work_order \<Rightarrow> bool" where
  "busy w = (\<not> (wo_assignee_id w = None \<or> \<not> active_status (wo_status w)))"

definition capacity_ok :: "dispatch_state \<Rightarrow> bool" where
  "capacity_ok d \<longleftrightarrow>
     (\<forall>k1 k2 w1 w2. ds_orders d k1 = Some w1 \<longrightarrow> ds_orders d k2 = Some w2 \<longrightarrow>
        busy w1 \<longrightarrow> busy w2 \<longrightarrow> wo_organization_id w1 = wo_organization_id w2 \<longrightarrow>
        wo_assignee_id w1 = wo_assignee_id w2 \<longrightarrow> k1 = k2)"

text \<open>Every aggregate is stored under its own identity and without pending events.\<close>

definition keyed :: "dispatch_state \<Rightarrow> bool" where
  "keyed d \<longleftrightarrow>
     (\<forall>k w. ds_orders d k = Some w \<longrightarrow> k = order_key w \<and> wo_events w = []) \<and>
     (\<forall>k s. ds_sessions d k = Some s \<longrightarrow> k = session_key s \<and> ts_events s = [])"

text \<open>A unit of work of the services stages at most one order and one session.\<close>

definition well_staged :: "okey staged \<Rightarrow> dispatch_state \<Rightarrow> bool" where
  "well_staged g d \<longleftrightarrow> length (sg_orders g) \<le> 1 \<and> length (sg_sessions g) \<le> 1 \<and>
     list_all (\<lambda>(k, w, v). k = order_key w \<and> wo_events w = [] \<and>
        (v \<noteq> None \<longrightarrow> ds_orders d k \<noteq> None)) (sg_orders g) \<and>
     list_all (\<lambda>(k, s, v). k = session_key s \<and> ts_events s = []) (sg_sessions g)"

definition active_session_of :: "string \<Rightarrow> string \<Rightarrow> tracking_session \<Rightarrow> bool" where
  "active_session_of org oid x \<longleftrightarrow>
     ts_organization_id x = org \<and> ts_work_order_id x = oid \<and> ts_status x = TrackActive"

section \<open>The operations of a unit of work\<close>

record ('s, 'u) uow_ops =
  op_open :: 'u
  op_allocate :: "string \<Rightarrow> 's \<Rightarrow> string result \<times> 's"
  op_get_order :: "string \<Rightarrow> string \<Rightarrow> 's \<Rightarrow> work_order result"
  op_save_order :: "work_order \<Rightarrow> int option \<Rightarrow> 'u \<Rightarrow> 'u"
  op_get_session :: "string \<Rightarrow> string \<Rightarrow> 's \<Rightarrow> tracking_session result"
  op_find_active :: "string \<Rightarrow> string \<Rightarrow> 's \<Rightarrow> tracking_session option result"
  op_save_session :: "tracking_session \<Rightarrow> int option \<Rightarrow> 'u \<Rightarrow> 'u"
  op_add_events :: "domain_event list \<Rightarrow> 'u \<Rightarrow> 'u"
  op_commit :: "'u \<Rightarrow> 's \<Rightarrow> unit result \<times> 's"

text \<open>The asynchronous port also answers whether a source event was already recorded.\<close>

record ('s, 'u) async_uow_ops = "('s, 'u) uow_ops" +
  op_has_source_event :: "string \<Rightarrow> string \<Rightarrow> string \<Rightarrow> 's \<Rightarrow> bool"

fun is_conflict :: "py_error \<Rightarrow> bool" where
  "is_conflict (ConcurrencyConflict _) = True"
| "is_conflict _ = False"

locale unit_of_work =
  fixes ops :: "('s, 'u, 'z) uow_ops_scheme"
    and abs :: "'s \<Rightarrow> dispatch_state"
    and changes :: "'u \<Rightarrow> okey staged"
    and ok :: "'s \<Rightarrow> bool"
  assumes open_law: "changes (op_open ops) = no_changes"
    and save_order_law: "sg_orders (changes u) = [] \<Longrightarrow>
      changes (op_save_order ops w v u) =
        (changes u)\<lparr>sg_orders := [(order_key w, order_snapshot w, v)]\<rparr>"
    and save_session_law: "sg_sessions (changes u) = [] \<Longrightarrow>
      changes (op_save_session ops x v u) =
        (changes u)\<lparr>sg_sessions := [(session_key x, session_snapshot x, v)]\<rparr>"
    and add_events_law: "changes (op_add_events ops es u) =
      (changes u)\<lparr>sg_events := sg_events (changes u) @ es\<rparr>"
    and get_order_law: "ok s \<Longrightarrow> op_get_order ops org oid s =
      (case ds_orders (abs s) (org, oid) of None \<Rightarrow> Inl (NotFound ''work order'' oid)
       | Some w \<Rightarrow> Inr w)"
    and get_session_law: "ok s \<Longrightarrow> op_get_session ops org sid s =
      (case ds_sessions (abs s) (org, sid) of None \<Rightarrow> Inl (NotFound ''tracking session'' sid)
       | Some x \<Rightarrow> Inr x)"
    and find_active_law: "ok s \<Longrightarrow> op_find_active ops org oid s = Inr r \<Longrightarrow>
      {x. ds_sessions (abs s) (session_key x) = Some x \<and> active_session_of org oid x} = set_option r"
    and find_active_total: "ok s \<Longrightarrow> op_find_active ops org oid s = Inl e \<Longrightarrow>
      \<exists>x y. ds_sessions (abs s) (session_key x) = Some x \<and>
        ds_sessions (abs s) (session_key y) = Some y \<and> active_session_of org oid x \<and>
        active_session_of org oid y \<and> session_key x \<noteq> session_key y"
    and allocate_law: "ok s \<Longrightarrow> op_allocate ops org s = (n, s') \<Longrightarrow> abs s' = abs s \<and> ok s'"
    and commit_law: "ok s \<Longrightarrow> well_staged (changes u) (abs s) \<Longrightarrow>
      op_commit ops u s = (Inr (), s') \<Longrightarrow>
      versions_match (changes u) (abs s) \<and> abs s' = apply_changes (changes u) (abs s) \<and>
      ok s' \<and> capacity_ok (abs s')"
    and abort_law: "op_commit ops u s = (Inl e, s') \<Longrightarrow> s' = s \<and> is_conflict e"
    and keyed_law: "ok s \<Longrightarrow> keyed (abs s)"

text \<open>
  A store that keeps organizations apart refuses a commit only for one of the two reasons that
  the abstract state knows: a version that moved, or an executor that has another active order.
\<close>

locale exact_unit_of_work = unit_of_work ops abs changes ok
  for ops :: "('s, 'u, 'z) uow_ops_scheme"
    and abs :: "'s \<Rightarrow> dispatch_state"
    and changes :: "'u \<Rightarrow> okey staged"
    and ok :: "'s \<Rightarrow> bool" +
  assumes commit_complete: "ok s \<Longrightarrow> well_staged (changes u) (abs s) \<Longrightarrow>
      versions_match (changes u) (abs s) \<Longrightarrow> capacity_ok (apply_changes (changes u) (abs s)) \<Longrightarrow>
      fst (op_commit ops u s) = Inr ()"
    and allocate_total: "ok s \<Longrightarrow> \<exists>n s'. op_allocate ops org s = (Inr n, s') \<and> n \<noteq> []"

lemma snapshot_sel [simp]:
  "wo_id (order_snapshot w) = wo_id w"
  "wo_organization_id (order_snapshot w) = wo_organization_id w"
  "wo_status (order_snapshot w) = wo_status w"
  "wo_assignee_id (order_snapshot w) = wo_assignee_id w"
  "wo_version (order_snapshot w) = wo_version w"
  "wo_public_number (order_snapshot w) = wo_public_number w"
  "wo_work_type (order_snapshot w) = wo_work_type w"
  "wo_source (order_snapshot w) = wo_source w"
  "wo_details (order_snapshot w) = wo_details w"
  "wo_requester_id (order_snapshot w) = wo_requester_id w"
  "wo_evidence (order_snapshot w) = wo_evidence w"
  "wo_events (order_snapshot w) = []"
  "order_key (order_snapshot w) = order_key w"
  "ts_id (session_snapshot x) = ts_id x"
  "ts_organization_id (session_snapshot x) = ts_organization_id x"
  "ts_work_order_id (session_snapshot x) = ts_work_order_id x"
  "ts_executor_id (session_snapshot x) = ts_executor_id x"
  "ts_status (session_snapshot x) = ts_status x"
  "ts_version (session_snapshot x) = ts_version x"
  "ts_points (session_snapshot x) = ts_points x"
  "ts_events (session_snapshot x) = []"
  "session_key (session_snapshot x) = session_key x"
  by (simp_all add: order_snapshot_def session_snapshot_def wo_pull_events_def ts_pull_events_def
      order_key_def session_key_def)

lemma pull_events_pair:
  "wo_pull_events w = (wo_events w, order_snapshot w)"
  "ts_pull_events x = (ts_events x, session_snapshot x)"
  by (simp_all add: wo_pull_events_def ts_pull_events_def order_snapshot_def session_snapshot_def)

lemma map_puts_simps [simp]:
  "map_puts [] m = m"
  "map_puts ((k, v, e) # ps) m = map_puts ps (m(k \<mapsto> v))"
  by (simp_all add: map_puts_def)

lemma no_changes_sel [simp]:
  "sg_orders no_changes = []" "sg_sessions no_changes = []" "sg_events no_changes = []"
  by (simp_all add: no_changes_def)

end
