(* ===== verification/Dispatch_Machine.thy ===== *)
theory Dispatch_Machine
  imports Dispatch_State
begin

text \<open>
  The abstract specification of the application services: a transition relation on the abstract
  state whose steps are the atomic effects that a committed service call may have, and the
  invariants of the states it reaches.
\<close>

section \<open>Steps\<close>

definition put_order :: "work_order \<Rightarrow> dispatch_state \<Rightarrow> dispatch_state" where
  "put_order w d = d\<lparr>ds_orders := (ds_orders d)(order_key w \<mapsto> order_snapshot w),
     ds_outbox := ds_outbox d @ wo_events w\<rparr>"

definition put_session :: "tracking_session \<Rightarrow> dispatch_state \<Rightarrow> dispatch_state" where
  "put_session t d = d\<lparr>ds_sessions := (ds_sessions d)(session_key t \<mapsto> session_snapshot t),
     ds_outbox := ds_outbox d @ ts_events t\<rparr>"

fun plain_command :: "wo_command \<Rightarrow> bool" where
  "plain_command (StartTravel _) = False"
| "plain_command (Complete _ _) = False"
| "plain_command (Cancel _ _) = False"
| "plain_command _ = True"

fun closing_command :: "wo_command \<Rightarrow> bool" where
  "closing_command (Complete _ _) = True"
| "closing_command (Cancel _ _) = True"
| "closing_command _ = False"

inductive dispatch_step :: "dispatch_state \<Rightarrow> dispatch_state \<Rightarrow> bool" where
  submit: "\<lbrakk>wo_create sub number st = Inr w; ds_orders d (order_key w) = None;
      capacity_ok (put_order w d)\<rbrakk> \<Longrightarrow> dispatch_step d (put_order w d)"
| change: "\<lbrakk>ds_orders d k = Some w0; plain_command c; wo_exec c st w0 = Inr w;
      capacity_ok (put_order w d)\<rbrakk> \<Longrightarrow> dispatch_step d (put_order w d)"
| travel: "\<lbrakk>ds_orders d (org, oid) = Some w0; wo_start_travel x st w0 = Inr w;
      session_start sid org oid x None None tokens st' = Inr t; ds_sessions d (org, sid) = None;
      capacity_ok (put_order w d)\<rbrakk> \<Longrightarrow> dispatch_step d (put_session t (put_order w d))"
| finish_untracked: "\<lbrakk>ds_orders d (org, oid) = Some w0; closing_command c;
      wo_exec c st w0 = Inr w; \<forall>k t. ds_sessions d k = Some t \<longrightarrow> \<not> active_session_of org oid t;
      capacity_ok (put_order w d)\<rbrakk> \<Longrightarrow> dispatch_step d (put_order w d)"
| finish_tracked: "\<lbrakk>ds_orders d (org, oid) = Some w0; closing_command c;
      wo_exec c st w0 = Inr w; ds_sessions d k = Some t0; active_session_of org oid t0;
      ts_exec tc t0 = Inr t; (\<forall>p ev. tc \<noteq> AddPoint p ev);
      capacity_ok (put_order w d)\<rbrakk> \<Longrightarrow> dispatch_step d (put_session t (put_order w d))"
| locate: "\<lbrakk>ds_sessions d k = Some t0; valid_point p; add_point p ev t0 = Inr t;
      capacity_ok d\<rbrakk> \<Longrightarrow> dispatch_step d (put_session t d)"

inductive dispatch_reachable :: "dispatch_state \<Rightarrow> bool" where
  init: "dispatch_reachable \<lparr>ds_orders = Map.empty, ds_sessions = Map.empty, ds_outbox = []\<rparr>"
| step: "dispatch_reachable d \<Longrightarrow> dispatch_step d d' \<Longrightarrow> dispatch_reachable d'"

lemma put_sel [simp]:
  "ds_orders (put_order w d) = (ds_orders d)(order_key w \<mapsto> order_snapshot w)"
  "ds_sessions (put_order w d) = ds_sessions d"
  "ds_outbox (put_order w d) = ds_outbox d @ wo_events w"
  "ds_orders (put_session t d) = ds_orders d"
  "ds_sessions (put_session t d) = (ds_sessions d)(session_key t \<mapsto> session_snapshot t)"
  "ds_outbox (put_session t d) = ds_outbox d @ ts_events t"
  by (simp_all add: put_order_def put_session_def)

section \<open>The events of one call\<close>

definition event_of :: "string \<Rightarrow> okey \<Rightarrow> domain_event \<Rightarrow> bool" where
  "event_of ty k e \<longleftrightarrow> aggregate_type e = ty \<and> (ev_organization_id e, aggregate_id e) = k"

definition outbox_versions :: "string \<Rightarrow> okey \<Rightarrow> domain_event list \<Rightarrow> int list" where
  "outbox_versions ty k es = map aggregate_version (filter (event_of ty k) es)"

lemma outbox_versions_simps [simp]:
  "outbox_versions ty k (es @ fs) = outbox_versions ty k es @ outbox_versions ty k fs"
  "outbox_versions ty k [] = []"
  "outbox_versions ty k (e # es) =
     (if event_of ty k e then aggregate_version e # outbox_versions ty k es
      else outbox_versions ty k es)"
  by (simp_all add: outbox_versions_def)

definition new_events :: "string \<Rightarrow> okey \<Rightarrow> int \<Rightarrow> int \<Rightarrow> domain_event list \<Rightarrow> bool" where
  "new_events ty k v0 v es \<longleftrightarrow>
     v0 = v \<and> es = [] \<or> v = v0 + 1 \<and> (\<exists>e. es = [e] \<and> event_of ty k e \<and> aggregate_version e = v)"

lemma single_event: "xs \<noteq> [] \<Longrightarrow> butlast xs = [] \<Longrightarrow> xs = [last xs]"
  by (cases xs rule: rev_cases) auto

lemma wo_exec_events:
  assumes "wo_exec c st w0 = Inr w" and "wo_events w0 = []"
  shows "new_events ''work_order'' (order_key w0) (wo_version w0) (wo_version w) (wo_events w)"
    and "order_key w = order_key w0"
proof -
  show "order_key w = order_key w0"
    using wo_exec_identity[OF assms(1)] by (simp add: order_key_def)
  show "new_events ''work_order'' (order_key w0) (wo_version w0) (wo_version w) (wo_events w)"
    using wo_exec_effect[OF assms(1)] assms(2) single_event[of "wo_events w"]
    by (auto simp: new_events_def event_of_def order_key_def)
qed

lemma wo_create_events:
  assumes "wo_create sub number st = Inr w"
  shows "new_events ''work_order'' (order_key w) 0 (wo_version w) (wo_events w)"
    and "order_key w = (sub_organization_id sub, sub_order_id sub)"
  using assms
  by (auto simp: wo_create_def work_order_init_def new_events_def event_of_def order_key_def
      split: if_splits)

lemma ts_exec_events:
  assumes "ts_exec c t0 = Inr t" and "ts_events t0 = []"
  shows "new_events ''tracking_session'' (session_key t0) (ts_version t0) (ts_version t) (ts_events t)"
    and "session_key t = session_key t0"
  using assms
  by (cases c; auto simp: ts_op_defs new_events_def event_of_def session_key_def split: if_splits)+

lemma session_start_sel:
  assumes "session_start sid org oid x pt lt tokens st = Inr t"
  shows "new_events ''tracking_session'' (session_key t) 0 (ts_version t) (ts_events t)"
    and "session_key t = (org, sid)" and "ts_status t = TrackActive"
    and "ts_organization_id t = org" and "ts_work_order_id t = oid" and "ts_executor_id t = x"
  using assms
  by (auto simp: session_start_def session_init_def new_events_def event_of_def session_key_def
      Let_def)

lemma new_events_other: "new_events ty k v0 v es \<Longrightarrow> ty' \<noteq> ty \<or> k' \<noteq> k \<Longrightarrow> outbox_versions ty' k' es = []"
  by (auto simp: new_events_def event_of_def)

lemma new_events_same:
  "new_events ty k v0 v es \<Longrightarrow> 0 \<le> v0 \<Longrightarrow> [1..v0] @ outbox_versions ty k es = [1..v]"
  by (auto simp: new_events_def upto_rec2)

section \<open>Invariants\<close>

definition order_versions :: "okey \<Rightarrow> dispatch_state \<Rightarrow> int list" where
  "order_versions k d = (case ds_orders d k of None \<Rightarrow> [] | Some w \<Rightarrow> [1..wo_version w])"

definition session_versions :: "okey \<Rightarrow> dispatch_state \<Rightarrow> int list" where
  "session_versions k d = (case ds_sessions d k of None \<Rightarrow> [] | Some t \<Rightarrow> [1..ts_version t])"

definition outbox_complete :: "dispatch_state \<Rightarrow> bool" where
  "outbox_complete d \<longleftrightarrow>
     (\<forall>k. outbox_versions ''work_order'' k (ds_outbox d) = order_versions k d) \<and>
     (\<forall>k. outbox_versions ''tracking_session'' k (ds_outbox d) = session_versions k d)"

fun on_the_way :: "wo_status_t \<Rightarrow> bool" where
  "on_the_way EN_ROUTE = True"
| "on_the_way IN_PROGRESS = True"
| "on_the_way _ = False"

definition session_linked :: "dispatch_state \<Rightarrow> tracking_session \<Rightarrow> bool" where
  "session_linked d t \<longleftrightarrow>
     (case ds_orders d (ts_organization_id t, ts_work_order_id t) of
        None \<Rightarrow> False
      | Some w \<Rightarrow> on_the_way (wo_status w) \<and> wo_assignee_id w = Some (ts_executor_id t))"

definition tracking_linked :: "dispatch_state \<Rightarrow> bool" where
  "tracking_linked d \<longleftrightarrow>
     (\<forall>k t. ds_sessions d k = Some t \<longrightarrow> ts_status t = TrackActive \<longrightarrow> session_linked d t)"

definition one_session :: "dispatch_state \<Rightarrow> bool" where
  "one_session d \<longleftrightarrow>
     (\<forall>org oid k1 k2 t1 t2. ds_sessions d k1 = Some t1 \<longrightarrow> ds_sessions d k2 = Some t2 \<longrightarrow>
        active_session_of org oid t1 \<longrightarrow> active_session_of org oid t2 \<longrightarrow> k1 = k2)"

definition aggregates_reachable :: "dispatch_state \<Rightarrow> bool" where
  "aggregates_reachable d \<longleftrightarrow>
     (\<forall>k w. ds_orders d k = Some w \<longrightarrow> wo_reachable w) \<and>
     (\<forall>k t. ds_sessions d k = Some t \<longrightarrow> ts_reachable t)"

definition dispatch_inv :: "dispatch_state \<Rightarrow> bool" where
  "dispatch_inv d \<longleftrightarrow> keyed d \<and> capacity_ok d \<and> aggregates_reachable d \<and> outbox_complete d \<and>
     tracking_linked d \<and> one_session d"

subsection \<open>Storing an aggregate\<close>

lemma keyed_put [simp]:
  "keyed d \<Longrightarrow> keyed (put_order w d)" "keyed d \<Longrightarrow> keyed (put_session t d)"
  by (auto simp: keyed_def)

lemma keyed_order: "\<lbrakk>keyed d; ds_orders d k = Some w\<rbrakk> \<Longrightarrow> order_key w = k \<and> wo_events w = []"
  unfolding keyed_def by metis

lemma keyed_session: "\<lbrakk>keyed d; ds_sessions d k = Some t\<rbrakk> \<Longrightarrow> session_key t = k \<and> ts_events t = []"
  unfolding keyed_def by metis

lemma reachable_put_order [simp]:
  "aggregates_reachable d \<Longrightarrow> wo_reachable w \<Longrightarrow> aggregates_reachable (put_order w d)"
  using wo_reachable.step[OF _ wo_step.pull, of w]
  by (auto simp: aggregates_reachable_def order_snapshot_def)

lemma reachable_put_session [simp]:
  "aggregates_reachable d \<Longrightarrow> ts_reachable t \<Longrightarrow> aggregates_reachable (put_session t d)"
  using ts_reachable.pull[of t] by (auto simp: aggregates_reachable_def session_snapshot_def)

lemma outbox_put_order:
  assumes "outbox_complete d" and "0 \<le> v0"
    and "new_events ''work_order'' (order_key w) v0 (wo_version w) (wo_events w)"
    and "order_versions (order_key w) d = [1..v0]"
  shows "outbox_complete (put_order w d)"
  using assms new_events_other[OF assms(3)] new_events_same[OF assms(3,2)]
  by (auto simp: outbox_complete_def order_versions_def session_versions_def)

lemma outbox_put_session:
  assumes "outbox_complete d" and "0 \<le> v0"
    and "new_events ''tracking_session'' (session_key t) v0 (ts_version t) (ts_events t)"
    and "session_versions (session_key t) d = [1..v0]"
  shows "outbox_complete (put_session t d)"
  using assms new_events_other[OF assms(3)] new_events_same[OF assms(3,2)]
  by (auto simp: outbox_complete_def order_versions_def session_versions_def)

lemma tracking_linkedD:
  "\<lbrakk>tracking_linked d; ds_sessions d k = Some t; ts_status t = TrackActive\<rbrakk> \<Longrightarrow> session_linked d t"
  unfolding tracking_linked_def by metis

lemma tracking_linkedI:
  "(\<And>k t. \<lbrakk>ds_sessions d k = Some t; ts_status t = TrackActive\<rbrakk> \<Longrightarrow> session_linked d t)
    \<Longrightarrow> tracking_linked d"
  unfolding tracking_linked_def by metis

lemma session_linked_put_order:
  "session_linked (put_order w d) t \<longleftrightarrow>
     (if (ts_organization_id t, ts_work_order_id t) = order_key w
      then on_the_way (wo_status w) \<and> wo_assignee_id w = Some (ts_executor_id t)
      else session_linked d t)"
  by (simp add: session_linked_def)

lemma session_linked_put_session [simp]:
  "session_linked (put_session t d) x = session_linked d x"
  "session_linked d (session_snapshot x) = session_linked d x"
  by (simp_all add: session_linked_def cong: option.case_cong)

lemma linked_put_order:
  assumes "tracking_linked d"
    and "\<And>k t. \<lbrakk>ds_sessions d k = Some t; ts_status t = TrackActive;
         (ts_organization_id t, ts_work_order_id t) = order_key w; session_linked d t\<rbrakk> \<Longrightarrow>
         on_the_way (wo_status w) \<and> wo_assignee_id w = Some (ts_executor_id t)"
  shows "tracking_linked (put_order w d)"
proof (rule tracking_linkedI)
  fix k t
  assume t: "ds_sessions (put_order w d) k = Some t" "ts_status t = TrackActive"
  then have "session_linked d t" using tracking_linkedD[OF assms(1), of k t] by simp
  with assms(2)[of k t] t show "session_linked (put_order w d) t"
    by (simp add: session_linked_put_order)
qed

lemma linked_put_both:
  assumes "tracking_linked d"
    and "\<And>k t'. \<lbrakk>ds_sessions d k = Some t'; k \<noteq> session_key t; ts_status t' = TrackActive;
         (ts_organization_id t', ts_work_order_id t') = order_key w; session_linked d t'\<rbrakk> \<Longrightarrow> False"
    and "ts_status t = TrackActive \<Longrightarrow> (ts_organization_id t, ts_work_order_id t) = order_key w \<and>
         on_the_way (wo_status w) \<and> wo_assignee_id w = Some (ts_executor_id t)"
  shows "tracking_linked (put_session t (put_order w d))"
proof (rule tracking_linkedI)
  fix k x
  assume x: "ds_sessions (put_session t (put_order w d)) k = Some x" "ts_status x = TrackActive"
  show "session_linked (put_session t (put_order w d)) x"
  proof (cases "k = session_key t")
    case True
    then show ?thesis using x assms(3) by (auto simp: session_linked_put_order)
  next
    case False
    then have k: "ds_sessions d k = Some x" using x by simp
    with assms(2)[OF k False x(2)] tracking_linkedD[OF assms(1) k x(2)]
    show ?thesis by (auto simp: session_linked_put_order)
  qed
qed

lemma linked_put_session:
  assumes "tracking_linked d" and "ts_status t = TrackActive \<Longrightarrow> session_linked d t"
  shows "tracking_linked (put_session t d)"
proof (rule tracking_linkedI)
  fix k x
  assume x: "ds_sessions (put_session t d) k = Some x" "ts_status x = TrackActive"
  then show "session_linked (put_session t d) x"
    using assms tracking_linkedD[OF assms(1), of k x] by (cases "k = session_key t") auto
qed

lemma one_sessionD:
  "\<lbrakk>one_session d; ds_sessions d k1 = Some t1; ds_sessions d k2 = Some t2;
    active_session_of org oid t1; active_session_of org oid t2\<rbrakk> \<Longrightarrow> k1 = k2"
  unfolding one_session_def by metis

lemma active_snapshot [simp]:
  "active_session_of org oid (session_snapshot t) = active_session_of org oid t"
  by (simp add: active_session_of_def)

lemma one_put_session:
  assumes "one_session d"
    and "\<And>k' t' org oid. \<lbrakk>ds_sessions d k' = Some t'; k' \<noteq> session_key t;
         active_session_of org oid t; active_session_of org oid t'\<rbrakk> \<Longrightarrow> False"
  shows "one_session (put_session t d)"
  unfolding one_session_def
proof (intro allI impI)
  fix org oid k1 k2 t1 t2
  assume "ds_sessions (put_session t d) k1 = Some t1" "ds_sessions (put_session t d) k2 = Some t2"
    "active_session_of org oid t1" "active_session_of org oid t2"
  then show "k1 = k2"
    using assms(2)[of k2 t2 org oid] assms(2)[of k1 t1 org oid]
      one_sessionD[OF assms(1), of k1 t1 k2 t2 org oid]
    by (cases "k1 = session_key t"; cases "k2 = session_key t") auto
qed

lemma one_put_order [simp]: "one_session (put_order w d) = one_session d"
  by (simp add: one_session_def)

lemma capacity_put_session [simp]: "capacity_ok (put_session t d) = capacity_ok d"
  by (simp add: capacity_ok_def)

lemma plain_keeps_way:
  assumes "wo_exec c st w0 = Inr w" and "plain_command c" and "on_the_way (wo_status w0)"
  shows "on_the_way (wo_status w) \<and> wo_assignee_id w = wo_assignee_id w0"
  using assms
  by (cases c; clarsimp simp: op_defs guard_simps Let_def split: if_splits; fastforce)

lemma ts_closing_inactive:
  "ts_exec c t0 = Inr t \<Longrightarrow> \<forall>p ev. c \<noteq> AddPoint p ev \<Longrightarrow> ts_status t \<noteq> TrackActive"
  by (cases c) (auto simp: ts_op_defs)

subsection \<open>Every step keeps the invariant\<close>

lemma stored_order_facts:
  assumes "dispatch_inv d" and "ds_orders d k = Some w0" and "wo_exec c st w0 = Inr w"
  shows "order_key w0 = k" and "order_key w = k" and "wo_reachable w"
    and "outbox_complete (put_order w d)"
proof -
  have k: "order_key w0 = k" "wo_events w0 = []"
    using keyed_order[OF _ assms(2)] assms(1) by (simp_all add: dispatch_inv_def)
  have r: "wo_reachable w0"
    using assms(1,2) unfolding dispatch_inv_def aggregates_reachable_def by metis
  show "order_key w0 = k" by (rule k)
  show kw: "order_key w = k" using wo_exec_events(2)[OF assms(3) k(2)] k(1) by simp
  show "wo_reachable w" using wo_reachable.step[OF r wo_step.exec[OF assms(3)]] .
  have "0 \<le> wo_version w0" using wo_reachable_inv[OF r] by (simp add: wo_inv_def inv_events_def)
  then show "outbox_complete (put_order w d)"
    using assms(1,2) wo_exec_events(1)[OF assms(3) k(2)] k(1) kw
    by (intro outbox_put_order[of d "wo_version w0"])
      (auto simp: dispatch_inv_def order_versions_def)
qed

lemma ts_reachable_version: "ts_reachable t \<Longrightarrow> 0 \<le> ts_version t"
proof (induction rule: ts_reachable.induct)
  case (start sid org oid x pt lt fresh st s)
  then show ?case by (auto simp: session_start_def session_init_def Let_def)
next
  case (exec s c s')
  then show ?case using ts_exec_version[OF exec.hyps(2)] by auto
qed (simp_all add: ts_pull_events_def)

lemma stored_session_facts:
  assumes "keyed d" and "aggregates_reachable d" and "outbox_complete d"
    and "ds_sessions d k = Some t0" and "ts_exec c t0 = Inr t"
    and "case c of AddPoint p _ \<Rightarrow> valid_point p | _ \<Rightarrow> True"
  shows "session_key t0 = k" and "session_key t = k" and "ts_reachable t"
    and "outbox_complete (put_session t d)"
proof -
  have k: "session_key t0 = k" "ts_events t0 = []"
    using keyed_session[OF assms(1,4)] by simp_all
  have r: "ts_reachable t0" using assms(2,4) unfolding aggregates_reachable_def by metis
  show "session_key t0 = k" by (rule k)
  show kt: "session_key t = k" using ts_exec_events(2)[OF assms(5) k(2)] k(1) by simp
  show "ts_reachable t" using ts_reachable.exec[OF r assms(5,6)] .
  show "outbox_complete (put_session t d)"
    using assms(3,4) ts_exec_events(1)[OF assms(5) k(2)] k(1) kt ts_reachable_version[OF r]
    by (intro outbox_put_session[of d "ts_version t0"]) (auto simp: session_versions_def)
qed

lemma dispatch_inv_submit:
  assumes "dispatch_inv d" and "wo_create sub number st = Inr w" and "ds_orders d (order_key w) = None"
    and "capacity_ok (put_order w d)"
  shows "dispatch_inv (put_order w d)"
proof -
  have "outbox_complete (put_order w d)"
    using assms(1,3) wo_create_events(1)[OF assms(2)]
    by (intro outbox_put_order[of d 0]) (auto simp: dispatch_inv_def order_versions_def)
  moreover have "tracking_linked (put_order w d)"
    using assms(1,3) by (intro linked_put_order) (auto simp: dispatch_inv_def session_linked_def)
  ultimately show ?thesis
    using assms wo_reachable.create[OF assms(2)] by (simp add: dispatch_inv_def)
qed

lemma dispatch_inv_change:
  assumes "dispatch_inv d" and "ds_orders d k = Some w0" and "plain_command c"
    and "wo_exec c st w0 = Inr w" and "capacity_ok (put_order w d)"
  shows "dispatch_inv (put_order w d)"
proof -
  note f = stored_order_facts[OF assms(1,2,4)]
  have "tracking_linked (put_order w d)"
    using assms(1,2) f plain_keeps_way[OF assms(4,3)]
    by (intro linked_put_order) (auto simp: dispatch_inv_def session_linked_def)
  then show ?thesis using assms f by (simp add: dispatch_inv_def)
qed

lemma dispatch_inv_travel:
  assumes inv: "dispatch_inv d" and o0: "ds_orders d (org, oid) = Some w0"
    and w: "wo_start_travel x st w0 = Inr w"
    and t: "session_start sid org oid x None None tokens st' = Inr t"
    and fresh: "ds_sessions d (org, sid) = None" and cap: "capacity_ok (put_order w d)"
  shows "dispatch_inv (put_session t (put_order w d))"
proof -
  have e: "wo_exec (StartTravel x) st w0 = Inr w" using w by simp
  note f = stored_order_facts[OF inv o0 e]
  note g = session_start_sel[OF t]
  have acc: "wo_status w0 = ACCEPTED" "wo_status w = EN_ROUTE" "wo_assignee_id w = Some x"
    using w by (auto simp: wo_start_travel_def guard_simps)
  have no: False if "ds_sessions d k = Some t'" "active_session_of org oid t'" for k t'
  proof -
    have "ts_status t' = TrackActive" using that(2) by (simp add: active_session_of_def)
    then have "session_linked d t'"
      using tracking_linkedD[OF _ that(1)] inv by (simp add: dispatch_inv_def)
    then show False using o0 acc that(2) by (simp add: session_linked_def active_session_of_def)
  qed
  have "tracking_linked (put_session t (put_order w d))"
    using inv no f g acc
    by (intro linked_put_both) (auto simp: dispatch_inv_def active_session_of_def)
  moreover have "one_session (put_session t (put_order w d))"
    using inv no g by (intro one_put_session) (auto simp: dispatch_inv_def active_session_of_def)
  moreover have "outbox_complete (put_session t (put_order w d))"
    using f(4) fresh g by (intro outbox_put_session[of _ 0]) (auto simp: session_versions_def)
  ultimately show ?thesis
    using inv f ts_reachable.start[OF t] cap by (simp add: dispatch_inv_def)
qed

lemma dispatch_inv_finish_untracked:
  assumes "dispatch_inv d" and "ds_orders d (org, oid) = Some w0" and "wo_exec c st w0 = Inr w"
    and "\<forall>k t. ds_sessions d k = Some t \<longrightarrow> \<not> active_session_of org oid t"
    and "capacity_ok (put_order w d)"
  shows "dispatch_inv (put_order w d)"
proof -
  note f = stored_order_facts[OF assms(1-3)]
  have "tracking_linked (put_order w d)"
    using assms(1,4) f
    by (intro linked_put_order) (auto simp: dispatch_inv_def active_session_of_def)
  then show ?thesis using assms f by (simp add: dispatch_inv_def)
qed

lemma dispatch_inv_finish_tracked:
  assumes inv: "dispatch_inv d" and o0: "ds_orders d (org, oid) = Some w0"
    and w: "wo_exec c st w0 = Inr w" and t0: "ds_sessions d k = Some t0"
    and act: "active_session_of org oid t0" and t: "ts_exec tc t0 = Inr t"
    and tc: "\<forall>p ev. tc \<noteq> AddPoint p ev" and cap: "capacity_ok (put_order w d)"
  shows "dispatch_inv (put_session t (put_order w d))"
proof -
  note f = stored_order_facts[OF inv o0 w]
  have inact: "ts_status t \<noteq> TrackActive" using ts_closing_inactive[OF t tc] .
  have d1: "keyed (put_order w d)" "aggregates_reachable (put_order w d)"
    using inv f by (simp_all add: dispatch_inv_def)
  have v: "case tc of AddPoint p _ \<Rightarrow> valid_point p | _ \<Rightarrow> True" using tc by (cases tc) auto
  have g: "session_key t0 = k" "session_key t = k" "ts_reachable t"
      "outbox_complete (put_session t (put_order w d))"
    using stored_session_facts[OF d1 f(4) _ t v, of k] t0 by simp_all
  have "tracking_linked (put_session t (put_order w d))"
    using inv inact f g one_sessionD[OF _ _ t0 _ act]
    by (intro linked_put_both) (auto simp: dispatch_inv_def active_session_of_def)
  moreover have "one_session (put_session t (put_order w d))"
    using inv inact by (intro one_put_session) (auto simp: dispatch_inv_def active_session_of_def)
  ultimately show ?thesis using d1 g cap by (simp add: dispatch_inv_def)
qed

lemma dispatch_inv_locate:
  assumes inv: "dispatch_inv d" and t0: "ds_sessions d k = Some t0" and p: "valid_point p"
    and t: "add_point p ev t0 = Inr t"
  shows "dispatch_inv (put_session t d)"
proof -
  have e: "ts_exec (AddPoint p ev) t0 = Inr t" using t by simp
  have d: "keyed d" "aggregates_reachable d" "outbox_complete d"
    using inv by (simp_all add: dispatch_inv_def)
  have g: "session_key t0 = k" "session_key t = k" "ts_reachable t"
      "outbox_complete (put_session t d)"
    using stored_session_facts[OF d t0 e] p by simp_all
  have same: "ts_status t = ts_status t0"
    using t by (auto simp: add_point_def split: if_splits)
  note id = ts_exec_identity[OF e]
  have link: "session_linked d t" if "ts_status t = TrackActive"
    using that same id tracking_linkedD[OF _ t0] inv
    by (simp add: dispatch_inv_def session_linked_def cong: option.case_cong)
  have "one_session (put_session t d)"
    using inv same id g one_sessionD[OF _ _ t0]
    by (intro one_put_session) (auto simp: dispatch_inv_def active_session_of_def)
  then show ?thesis
    using inv g linked_put_session[OF _ link] by (simp add: dispatch_inv_def)
qed

lemma dispatch_inv_step: "dispatch_step d d' \<Longrightarrow> dispatch_inv d \<Longrightarrow> dispatch_inv d'"
  by (induction rule: dispatch_step.induct)
    (blast intro: dispatch_inv_submit dispatch_inv_change dispatch_inv_travel
      dispatch_inv_finish_untracked dispatch_inv_finish_tracked dispatch_inv_locate)+

lemma dispatch_inv_init:
  "dispatch_inv \<lparr>ds_orders = Map.empty, ds_sessions = Map.empty, ds_outbox = []\<rparr>"
  by (simp add: dispatch_inv_def keyed_def capacity_ok_def aggregates_reachable_def
      outbox_complete_def order_versions_def session_versions_def tracking_linked_def one_session_def)

lemma dispatch_reachable_inv: "dispatch_reachable d \<Longrightarrow> dispatch_inv d"
  by (induction rule: dispatch_reachable.induct) (auto intro: dispatch_inv_init dispatch_inv_step)

end
