(* ===== verification/Dispatch_Service.thy ===== *)
theory Dispatch_Service
  imports Dispatch_State
begin

text \<open>
  The application services (\<open>application/service.py\<close> and \<open>application/async_service.py\<close>): every
  method opens a unit of work, reads, changes the aggregates in memory, stages them with the
  version they were read at, adds the pulled events and commits. The methods are parametric in
  the operations of the store. Identifiers and tokens that the code draws at random, and the
  clock, are arguments.
\<close>

section \<open>Actions\<close>

type_synonym ('s, 'a) action = "'s \<Rightarrow> 'a result \<times> 's"

definition act_bind :: "('s, 'a) action \<Rightarrow> ('a \<Rightarrow> ('s, 'b) action) \<Rightarrow> ('s, 'b) action" where
  "act_bind f g s = (case f s of (Inl e, s') \<Rightarrow> (Inl e, s') | (Inr x, s') \<Rightarrow> g x s')"

definition act_read :: "('s \<Rightarrow> 'a result) \<Rightarrow> ('s, 'a) action" where
  "act_read f s = (f s, s)"

definition act_lift :: "'a result \<Rightarrow> ('s, 'a) action" where
  "act_lift r s = (r, s)"

lemma act_bind_Inr [simp]:
  "act_bind f g s = (Inr y, s'') \<longleftrightarrow> (\<exists>x s'. f s = (Inr x, s') \<and> g x s' = (Inr y, s''))"
  by (auto simp: act_bind_def split: prod.splits sum.splits)

lemma act_bind_Inl:
  "act_bind f g s = (Inl e, s'') \<longleftrightarrow>
     f s = (Inl e, s'') \<or> (\<exists>x s'. f s = (Inr x, s') \<and> g x s' = (Inl e, s''))"
  by (auto simp: act_bind_def split: prod.splits sum.splits)

lemma act_read_lift [simp]:
  "act_read f s = (r, s') \<longleftrightarrow> f s = r \<and> s' = s"
  "act_lift r0 s = (r, s') \<longleftrightarrow> r0 = r \<and> s' = s"
  by (auto simp: act_read_def act_lift_def)

fun or_fresh :: "string option \<Rightarrow> string \<Rightarrow> string" where
  "or_fresh (Some s) fresh = (if s = [] then fresh else s)"
| "or_fresh None fresh = fresh"

section \<open>The synchronous service\<close>

definition create_order ::
  "('s, 'u, 'z) uow_ops_scheme \<Rightarrow> string option \<Rightarrow> string \<Rightarrow> submission \<Rightarrow> stamp \<Rightarrow>
   ('s, work_order) action" where
  "create_order ops order_id fresh sub st =
     act_bind (op_allocate ops (sub_organization_id sub)) (\<lambda>number.
     act_bind (act_lift (wo_create (sub\<lparr>sub_order_id := or_fresh order_id fresh\<rparr>) number st)) (\<lambda>w.
       let u1 = op_save_order ops w None (op_open ops);
           (events, w') = wo_pull_events w;
           u2 = op_add_events ops events u1
       in act_bind (op_commit ops u2) (\<lambda>_. act_lift (Inr w'))))"

definition change_order ::
  "('s, 'u, 'z) uow_ops_scheme \<Rightarrow> string \<Rightarrow> string \<Rightarrow> (work_order \<Rightarrow> work_order result) \<Rightarrow>
   ('s, work_order) action" where
  "change_order ops org oid change =
     act_bind (act_read (op_get_order ops org oid)) (\<lambda>w0.
     act_bind (act_lift (change w0)) (\<lambda>w.
       let u1 = op_save_order ops w (Some (wo_version w0)) (op_open ops);
           (events, w') = wo_pull_events w;
           u2 = op_add_events ops events u1
       in act_bind (op_commit ops u2) (\<lambda>_. act_lift (Inr w'))))"

definition svc_claim_coordination where
  "svc_claim_coordination ops org oid coordinator st =
     change_order ops org oid (claim_coordination coordinator st)"

definition svc_publish_pool where
  "svc_publish_pool ops org oid mode actor st = change_order ops org oid (publish_pool mode actor st)"

definition svc_express_interest where
  "svc_express_interest ops org oid executor st =
     change_order ops org oid (express_interest executor st)"

definition svc_withdraw_interest where
  "svc_withdraw_interest ops org oid executor st =
     change_order ops org oid (withdraw_interest executor st)"

definition svc_claim_first where
  "svc_claim_first ops org oid executor st = change_order ops org oid (claim_first executor st)"

definition assign_order where
  "assign_order ops org oid executor actor st = change_order ops org oid (wo_assign executor actor st)"

definition accept_order where
  "accept_order ops org oid executor st = change_order ops org oid (wo_accept executor st)"

definition svc_reject_assignment where
  "svc_reject_assignment ops org oid executor st =
     change_order ops org oid (reject_assignment executor st)"

definition svc_start_work where
  "svc_start_work ops org oid executor st = change_order ops org oid (wo_start_work executor st)"

definition cancel_order ::
  "('s, 'u, 'z) uow_ops_scheme \<Rightarrow> string \<Rightarrow> string \<Rightarrow> string \<Rightarrow> string option \<Rightarrow> stamp \<Rightarrow> stamp \<Rightarrow>
   ('s, work_order) action" where
  "cancel_order ops org oid reason actor st st' =
     act_bind (act_read (op_get_order ops org oid)) (\<lambda>w0.
     act_bind (act_lift (wo_cancel reason actor st w0)) (\<lambda>w.
       let u1 = op_save_order ops w (Some (wo_version w0)) (op_open ops)
       in act_bind (act_read (op_find_active ops org oid)) (\<lambda>session.
         let (events, w') = wo_pull_events w
         in case session of
              None \<Rightarrow> act_bind (op_commit ops (op_add_events ops events u1)) (\<lambda>_. act_lift (Inr w'))
            | Some x0 \<Rightarrow> act_bind (act_lift (session_cancel reason st' x0)) (\<lambda>x.
                let u2 = op_save_session ops x (Some (ts_version x0)) u1;
                    u3 = op_add_events ops (events @ fst (ts_pull_events x)) u2
                in act_bind (op_commit ops u3) (\<lambda>_. act_lift (Inr w'))))))"

definition start_travel ::
  "('s, 'u, 'z) uow_ops_scheme \<Rightarrow> string \<Rightarrow> string \<Rightarrow> string \<Rightarrow> string option \<Rightarrow> string \<Rightarrow>
   string \<times> string \<Rightarrow> stamp \<Rightarrow> stamp \<Rightarrow> ('s, work_order \<times> tracking_session) action" where
  "start_travel ops org oid executor session_id fresh tokens st st' =
     act_bind (act_read (op_get_order ops org oid)) (\<lambda>w0.
     act_bind (act_lift (wo_start_travel executor st w0)) (\<lambda>w.
     act_bind (act_lift (session_start (or_fresh session_id fresh) org (wo_id w) executor
        None None tokens st')) (\<lambda>x.
       let u1 = op_save_order ops w (Some (wo_version w0)) (op_open ops);
           u2 = op_save_session ops x None u1;
           (events, w') = wo_pull_events w;
           (session_events, x') = ts_pull_events x;
           u3 = op_add_events ops (events @ session_events) u2
       in act_bind (op_commit ops u3) (\<lambda>_. act_lift (Inr (w', x'))))))"

record location_report =
  loc_executor_id :: string
  loc_session_id :: string
  loc_latitude :: pyfloat
  loc_longitude :: pyfloat
  loc_source :: location_source
  loc_captured_at :: "instant option"
  loc_accuracy_m :: "pyfloat option"
  loc_source_event_id :: "string option"

definition report_point :: "location_report \<Rightarrow> instant \<Rightarrow> instant \<Rightarrow> tracking_point result" where
  "report_point r observed now =
     make_point \<lparr>tp_latitude = loc_latitude r, tp_longitude = loc_longitude r,
       tp_captured_at = observed, tp_ingested_at = now, tp_source = loc_source r,
       tp_accuracy_m = loc_accuracy_m r, tp_source_event_id = loc_source_event_id r\<rparr>"

definition captured_or_now :: "location_report \<Rightarrow> instant \<Rightarrow> instant" where
  "captured_or_now r now = (case loc_captured_at r of None \<Rightarrow> now | Some t \<Rightarrow> t)"

definition observed_sync :: "location_report \<Rightarrow> instant \<Rightarrow> tracking_session \<Rightarrow> instant" where
  "observed_sync r now x =
     (case latest_point x of
        None \<Rightarrow> captured_or_now r now
      | Some p \<Rightarrow> if captured_or_now r now < tp_captured_at p then now else captured_or_now r now)"

definition save_point ::
  "('s, 'u, 'z) uow_ops_scheme \<Rightarrow> location_report \<Rightarrow> instant \<Rightarrow> stamp \<Rightarrow> tracking_session \<Rightarrow>
   ('s, tracking_session) action" where
  "save_point ops r observed st x0 =
     act_bind (act_lift (result_bind (report_point r observed (st_now st))
        (\<lambda>p. add_point p (st_event_id st) x0))) (\<lambda>x.
       let u1 = op_save_session ops x (Some (ts_version x0)) (op_open ops);
           (events, x') = ts_pull_events x;
           u2 = op_add_events ops events u1
       in act_bind (op_commit ops u2) (\<lambda>_. act_lift (Inr x')))"

definition require_session_executor :: "location_report \<Rightarrow> tracking_session \<Rightarrow> unit result" where
  "require_session_executor r x =
     (if ts_executor_id x \<noteq> loc_executor_id r
      then Inl (InvalidTransition ''session does not belong to this executor'') else Inr ())"

definition record_location ::
  "('s, 'u, 'z) uow_ops_scheme \<Rightarrow> string \<Rightarrow> location_report \<Rightarrow> stamp \<Rightarrow>
   ('s, tracking_session) action" where
  "record_location ops org r st =
     act_bind (act_read (op_get_session ops org (loc_session_id r))) (\<lambda>x.
     act_bind (act_lift (require_session_executor r x)) (\<lambda>_.
       save_point ops r (observed_sync r (st_now st) x) st x))"

definition complete_order ::
  "('s, 'u, 'z) uow_ops_scheme \<Rightarrow> string \<Rightarrow> string \<Rightarrow> string \<Rightarrow> completion_report \<Rightarrow> stamp \<Rightarrow>
   stamp \<Rightarrow> ('s, work_order) action" where
  "complete_order ops org oid executor report st st' =
     act_bind (act_read (op_get_order ops org oid)) (\<lambda>w0.
     act_bind (act_lift (wo_complete executor report st w0)) (\<lambda>w.
       let u1 = op_save_order ops w (Some (wo_version w0)) (op_open ops)
       in act_bind (act_read (op_find_active ops org oid)) (\<lambda>session.
         let (events, w') = wo_pull_events w
         in case session of
              None \<Rightarrow> act_bind (op_commit ops (op_add_events ops events u1)) (\<lambda>_. act_lift (Inr w'))
            | Some x0 \<Rightarrow> act_bind (act_lift (session_complete st' x0)) (\<lambda>x.
                let u2 = op_save_session ops x (Some (ts_version x0)) u1;
                    u3 = op_add_events ops (events @ fst (ts_pull_events x)) u2
                in act_bind (op_commit ops u3) (\<lambda>_. act_lift (Inr w'))))))"

section \<open>The asynchronous service\<close>

text \<open>
  The asynchronous methods that forward to \<open>_change_order\<close>, and cancelling, completing and
  starting to travel, have the same body as the synchronous ones. Three methods are its own:
  creating an order through \<open>_create_new_order\<close>, creating it once, and recording a location,
  which first asks the store whether the source event is known.
\<close>

definition create_new_order ::
  "('s, 'u, 'z) uow_ops_scheme \<Rightarrow> submission \<Rightarrow> stamp \<Rightarrow> ('s, work_order) action" where
  "create_new_order ops sub st =
     act_bind (op_allocate ops (sub_organization_id sub)) (\<lambda>number.
     act_bind (act_lift (wo_create sub number st)) (\<lambda>w.
       let u1 = op_save_order ops w None (op_open ops);
           (events, w') = wo_pull_events w;
           u2 = op_add_events ops events u1
       in act_bind (op_commit ops u2) (\<lambda>_. act_lift (Inr w'))))"

definition async_create_order ::
  "('s, 'u, 'z) uow_ops_scheme \<Rightarrow> string option \<Rightarrow> string \<Rightarrow> submission \<Rightarrow> stamp \<Rightarrow>
   ('s, work_order) action" where
  "async_create_order ops order_id fresh sub st =
     create_new_order ops (sub\<lparr>sub_order_id := or_fresh order_id fresh\<rparr>) st"

definition same_submission :: "work_order \<Rightarrow> work_order \<Rightarrow> bool" where
  "same_submission existing candidate \<longleftrightarrow>
     wo_id existing = wo_id candidate \<and>
     wo_organization_id existing = wo_organization_id candidate \<and>
     wo_work_type existing = wo_work_type candidate \<and>
     wo_source existing = wo_source candidate \<and>
     wo_requester_id existing = wo_requester_id candidate \<and>
     details_eq (wo_details existing) (wo_details candidate) \<and>
     wo_evidence existing = wo_evidence candidate"

definition create_order_once ::
  "('s, 'u, 'z) uow_ops_scheme \<Rightarrow> submission \<Rightarrow> stamp \<Rightarrow> ('s, work_order) action" where
  "create_order_once ops sub st s =
     (case create_new_order ops sub st s of
        (Inl e, s') \<Rightarrow>
          if \<not> is_conflict e then (Inl e, s')
          else act_bind (act_read (op_get_order ops (sub_organization_id sub) (sub_order_id sub)))
            (\<lambda>existing.
             act_bind (act_lift (wo_create sub (wo_public_number existing) st)) (\<lambda>candidate.
               if \<not> same_submission existing candidate
               then act_lift (Inl (ConcurrencyConflict ''work order belongs to a different submission''))
               else act_bind (op_commit ops (op_open ops)) (\<lambda>_. act_lift (Inr existing)))) s'
      | (Inr w, s') \<Rightarrow> (Inr w, s'))"

definition observed_async :: "location_report \<Rightarrow> instant \<Rightarrow> tracking_session \<Rightarrow> instant" where
  "observed_async r now x =
     (case latest_point x of
        None \<Rightarrow> captured_or_now r now
      | Some p \<Rightarrow> if captured_or_now r now < tp_captured_at p
          then max now (tp_captured_at p) else captured_or_now r now)"

definition async_record_location ::
  "('s, 'u, 'z) async_uow_ops_scheme \<Rightarrow> string \<Rightarrow> location_report \<Rightarrow> stamp \<Rightarrow>
   ('s, tracking_session) action" where
  "async_record_location ops org r st =
     act_bind (act_read (op_get_session ops org (loc_session_id r))) (\<lambda>x.
     act_bind (act_lift (require_session_executor r x)) (\<lambda>_ s.
       if (case loc_source_event_id r of None \<Rightarrow> False
           | Some ev \<Rightarrow> op_has_source_event ops org (location_source_value (loc_source r)) ev s)
       then act_bind (op_commit ops (op_open ops)) (\<lambda>_. act_lift (Inr x)) s
       else save_point ops r (observed_async r (st_now st) x) st x s))"

section \<open>Calls\<close>

text \<open>
  A call of either service: its method with the arguments, including the random identifiers and
  the stamps that the call draws. The result value of a call is dropped here, its error is not.
\<close>

record call_env =
  env_session_id :: "string option"
  env_fresh_id :: string
  env_tokens :: "string \<times> string"
  env_stamp :: stamp
  env_session_stamp :: stamp

datatype svc_call =
    CreateCall "string option" string submission stamp
  | CreateOnceCall submission stamp
  | OrderCall string string wo_command call_env
  | LocationCall string location_report stamp

definition forget :: "('s, 'a) action \<Rightarrow> ('s, unit) action" where
  "forget f = act_bind f (\<lambda>_. act_lift (Inr ()))"

fun order_call ::
  "('s, 'u, 'z) uow_ops_scheme \<Rightarrow> string \<Rightarrow> string \<Rightarrow> call_env \<Rightarrow> wo_command \<Rightarrow> ('s, unit) action" where
  "order_call ops org oid env (ClaimCoordination c) =
     forget (svc_claim_coordination ops org oid c (env_stamp env))"
| "order_call ops org oid env (PublishPool m a) =
     forget (svc_publish_pool ops org oid m a (env_stamp env))"
| "order_call ops org oid env (ExpressInterest x) =
     forget (svc_express_interest ops org oid x (env_stamp env))"
| "order_call ops org oid env (WithdrawInterest x) =
     forget (svc_withdraw_interest ops org oid x (env_stamp env))"
| "order_call ops org oid env (ClaimFirst x) =
     forget (svc_claim_first ops org oid x (env_stamp env))"
| "order_call ops org oid env (Assign x a) =
     forget (assign_order ops org oid x a (env_stamp env))"
| "order_call ops org oid env (Accept x) = forget (accept_order ops org oid x (env_stamp env))"
| "order_call ops org oid env (RejectAssignment x) =
     forget (svc_reject_assignment ops org oid x (env_stamp env))"
| "order_call ops org oid env (StartTravel x) =
     forget (start_travel ops org oid x (env_session_id env) (env_fresh_id env) (env_tokens env)
       (env_stamp env) (env_session_stamp env))"
| "order_call ops org oid env (StartWork x) =
     forget (svc_start_work ops org oid x (env_stamp env))"
| "order_call ops org oid env (Complete x r) =
     forget (complete_order ops org oid x r (env_stamp env) (env_session_stamp env))"
| "order_call ops org oid env (Cancel reason a) =
     forget (cancel_order ops org oid reason a (env_stamp env) (env_session_stamp env))"

text \<open>The synchronous service has no method that creates an order once.\<close>

fun sync_exec :: "('s, 'u, 'z) uow_ops_scheme \<Rightarrow> svc_call \<Rightarrow> ('s, unit) action" where
  "sync_exec ops (CreateCall order_id fresh sub st) = forget (create_order ops order_id fresh sub st)"
| "sync_exec ops (CreateOnceCall sub st) = act_lift (Inl (ValueError ''no such method''))"
| "sync_exec ops (OrderCall org oid c env) = order_call ops org oid env c"
| "sync_exec ops (LocationCall org r st) = forget (record_location ops org r st)"

fun async_exec :: "('s, 'u, 'z) async_uow_ops_scheme \<Rightarrow> svc_call \<Rightarrow> ('s, unit) action" where
  "async_exec ops (CreateCall order_id fresh sub st) =
     forget (async_create_order ops order_id fresh sub st)"
| "async_exec ops (CreateOnceCall sub st) = forget (create_order_once ops sub st)"
| "async_exec ops (OrderCall org oid c env) = order_call ops org oid env c"
| "async_exec ops (LocationCall org r st) = forget (async_record_location ops org r st)"

text \<open>A sequence of calls; a caller that gets an error goes on with the next call.\<close>

fun run_calls :: "('c \<Rightarrow> ('s, unit) action) \<Rightarrow> 'c list \<Rightarrow> 's \<Rightarrow> 's" where
  "run_calls step [] s = s"
| "run_calls step (c # cs) s = run_calls step cs (snd (step c s))"

end
