(* ===== verification/Memory_Store.thy ===== *)
theory Memory_Store
  imports Dispatch_State Order_Numbers
begin

text \<open>
  The in-memory store and its unit of work (\<open>infrastructure/memory.py\<close>): orders are kept under
  their identifier alone, tracking sessions under organization and identifier. The lock makes a
  commit and an allocation atomic, so each is one definition; \<open>deepcopy\<close> is the identity on HOL
  values. The laws of the contract hold for it.
\<close>

section \<open>The store\<close>

record 'k mem_store =
  ms_orders :: "('k, work_order) dict"
  ms_sessions :: "(okey, tracking_session) dict"
  ms_outbox :: "domain_event list"
  ms_counters :: "(string, int) dict"

definition empty_store :: "'k mem_store" where
  "empty_store = \<lparr>ms_orders = [], ms_sessions = [], ms_outbox = [], ms_counters = []\<rparr>"

definition mem_allocate :: "string \<Rightarrow> 'k mem_store \<Rightarrow> string result \<times> 'k mem_store" where
  "mem_allocate org s =
     (let seq_no = (case dict_get org (ms_counters s) of None \<Rightarrow> 0 | Some n \<Rightarrow> n) + 1
      in (format_order_number seq_no, s\<lparr>ms_counters := dict_put org seq_no (ms_counters s)\<rparr>))"

definition mem_get_order :: "string \<Rightarrow> string \<Rightarrow> string mem_store \<Rightarrow> work_order result" where
  "mem_get_order org oid s =
     (case dict_get oid (ms_orders s) of
        None \<Rightarrow> Inl (NotFound ''work order'' oid)
      | Some stored \<Rightarrow>
          if wo_organization_id stored \<noteq> org then Inl (NotFound ''work order'' oid)
          else Inr stored)"

definition mem_save_order :: "work_order \<Rightarrow> int option \<Rightarrow> string staged \<Rightarrow> string staged" where
  "mem_save_order w expected u =
     u\<lparr>sg_orders := dict_put (wo_id w) (order_snapshot w, expected) (sg_orders u)\<rparr>"

definition mem_get_session :: "string \<Rightarrow> string \<Rightarrow> 'k mem_store \<Rightarrow> tracking_session result" where
  "mem_get_session org sid s =
     (case dict_get (org, sid) (ms_sessions s) of
        None \<Rightarrow> Inl (NotFound ''tracking session'' sid)
      | Some stored \<Rightarrow> Inr stored)"

definition mem_find_active ::
  "string \<Rightarrow> string \<Rightarrow> 'k mem_store \<Rightarrow> tracking_session option result" where
  "mem_find_active org oid s =
     (case map snd (filter (\<lambda>(k, x). fst k = org \<and> ts_work_order_id x = oid \<and>
             ts_status x = TrackActive) (ms_sessions s)) of
        [] \<Rightarrow> Inr None
      | [x] \<Rightarrow> Inr (Some x)
      | _ \<Rightarrow> Inl (RuntimeError ''more than one active tracking session for work order''))"

definition mem_save_session ::
  "tracking_session \<Rightarrow> int option \<Rightarrow> 'k staged \<Rightarrow> 'k staged" where
  "mem_save_session x expected u =
     u\<lparr>sg_sessions := dict_put (ts_organization_id x, ts_id x) (session_snapshot x, expected)
          (sg_sessions u)\<rparr>"

definition mem_add_events :: "domain_event list \<Rightarrow> 'k staged \<Rightarrow> 'k staged" where
  "mem_add_events es u = u\<lparr>sg_events := sg_events u @ es\<rparr>"

section \<open>Commit\<close>

definition version_error :: "int option \<Rightarrow> int option \<Rightarrow> py_error option" where
  "version_error expected current =
     (case expected of
        None \<Rightarrow> check (current = None) (ConcurrencyConflict ''aggregate already exists'')
      | Some v \<Rightarrow> check (\<not> (current = None \<or> current \<noteq> Some v))
          (ConcurrencyConflict ''aggregate has another version''))"

definition check_collection_versions ::
  "('v \<Rightarrow> int) \<Rightarrow> ('k, 'v) dict \<Rightarrow> ('k, 'v \<times> int option) dict \<Rightarrow> py_error option list" where
  "check_collection_versions version_of stored staged =
     map (\<lambda>(k, _, expected). version_error expected (map_option version_of (dict_get k stored)))
       staged"

definition put_all :: "('k, 'v \<times> 'e) dict \<Rightarrow> ('k, 'v) dict \<Rightarrow> ('k, 'v) dict" where
  "put_all staged d = fold (\<lambda>(k, v, _). dict_put k v) staged d"

fun capacity_scan :: "(work_order \<Rightarrow> 'c) \<Rightarrow> work_order list \<Rightarrow> 'c list \<Rightarrow> py_error option" where
  "capacity_scan key_of [] occupied = None"
| "capacity_scan key_of (w # ws) occupied =
     (if wo_assignee_id w = None \<or> \<not> active_status (wo_status w)
      then capacity_scan key_of ws occupied
      else if key_of w \<in> set occupied
      then Some (ConcurrencyConflict ''executor already has another active work order'')
      else capacity_scan key_of ws (key_of w # occupied))"

definition mem_executor_key :: "work_order \<Rightarrow> string" where
  "mem_executor_key w =
     wo_organization_id w @ '':'' @ (case wo_assignee_id w of None \<Rightarrow> ''None'' | Some x \<Rightarrow> x)"

definition mem_check_capacity :: "string mem_store \<Rightarrow> string staged \<Rightarrow> py_error option" where
  "mem_check_capacity s u =
     capacity_scan mem_executor_key (map snd (put_all (sg_orders u) (ms_orders s))) []"

definition mem_write :: "'k staged \<Rightarrow> 'k mem_store \<Rightarrow> 'k mem_store" where
  "mem_write u s =
     s\<lparr>ms_orders := put_all (sg_orders u) (ms_orders s),
       ms_sessions := put_all (sg_sessions u) (ms_sessions s),
       ms_outbox := ms_outbox s @ sg_events u\<rparr>"

definition commit_guards :: "'k staged \<Rightarrow> 'k mem_store \<Rightarrow> py_error option \<Rightarrow> py_error option list" where
  "commit_guards u s capacity =
     check_collection_versions wo_version (ms_orders s) (sg_orders u)
     @ check_collection_versions ts_version (ms_sessions s) (sg_sessions u) @ [capacity]"

definition commit_with ::
  "py_error option \<Rightarrow> 'k staged \<Rightarrow> 'k mem_store \<Rightarrow> unit result \<times> 'k mem_store" where
  "commit_with capacity u s =
     (case raise_first (commit_guards u s capacity) (Inr ()) of
        Inl e \<Rightarrow> (Inl e, s)
      | Inr _ \<Rightarrow> (Inr (), mem_write u s))"

definition mem_commit :: "string staged \<Rightarrow> string mem_store \<Rightarrow> unit result \<times> string mem_store" where
  "mem_commit u s = commit_with (mem_check_capacity s u) u s"

definition mem_ops :: "(string mem_store, string staged) uow_ops" where
  "mem_ops = \<lparr>op_open = no_changes, op_allocate = mem_allocate, op_get_order = mem_get_order,
     op_save_order = mem_save_order, op_get_session = mem_get_session,
     op_find_active = mem_find_active, op_save_session = mem_save_session,
     op_add_events = mem_add_events, op_commit = mem_commit\<rparr>"

section \<open>What the store represents\<close>

definition mem_ok :: "string mem_store \<Rightarrow> bool" where
  "mem_ok s \<longleftrightarrow> dict_ok (ms_orders s) \<and> dict_ok (ms_sessions s) \<and>
     list_all (\<lambda>(k, w). k = wo_id w \<and> wo_events w = []) (ms_orders s) \<and>
     list_all (\<lambda>(k, x). k = session_key x \<and> ts_events x = []) (ms_sessions s)"

definition mem_abs :: "string mem_store \<Rightarrow> dispatch_state" where
  "mem_abs s =
     \<lparr>ds_orders = (\<lambda>(org, oid). case dict_get oid (ms_orders s) of
         None \<Rightarrow> None
       | Some w \<Rightarrow> if wo_organization_id w = org then Some w else None),
      ds_sessions = map_of (ms_sessions s), ds_outbox = ms_outbox s\<rparr>"

definition mem_changes :: "string staged \<Rightarrow> okey staged" where
  "mem_changes u =
     \<lparr>sg_orders = map (\<lambda>(k, w, v). ((wo_organization_id w, k), w, v)) (sg_orders u),
      sg_sessions = sg_sessions u, sg_events = sg_events u\<rparr>"

section \<open>The laws\<close>

lemma version_error_None [simp]: "version_error v c = None \<longleftrightarrow> version_matches v c"
  by (cases v; cases c) (auto simp: version_error_def)

lemma version_error_conflict: "version_error v c = Some e \<Longrightarrow> is_conflict e"
  by (cases v) (auto simp: version_error_def)

lemma check_versions_None [simp]:
  "list_all (\<lambda>g. g = None) (check_collection_versions f d g) \<longleftrightarrow>
     list_all (\<lambda>(k, _, v). version_matches v (map_option f (dict_get k d))) g"
  by (auto simp: check_collection_versions_def list_all_iff)

lemma capacity_scan_None:
  "capacity_scan f ws occ = None \<longleftrightarrow>
     distinct (map f (filter busy ws)) \<and> set (map f (filter busy ws)) \<inter> set occ = {}"
  by (induction f ws occ rule: capacity_scan.induct) (auto simp: busy_def)

lemma capacity_scan_conflict: "capacity_scan f ws occ = Some e \<Longrightarrow> is_conflict e"
  by (induction f ws occ rule: capacity_scan.induct) (auto split: if_splits)

lemma put_all_simps [simp]:
  "put_all [] d = d" "put_all ((k, v, e) # ps) d = put_all ps (dict_put k v d)"
  by (simp_all add: put_all_def)

lemma dict_ok_put_all [simp]: "dict_ok d \<Longrightarrow> dict_ok (put_all ps d)"
  by (induction ps arbitrary: d) auto

lemma map_of_put_all: "map_of (put_all ps d) = map_puts ps (map_of d)"
  by (induction ps arbitrary: d) (auto simp: update_conv')

lemma list_all_put_all:
  assumes "list_all P d" and "list_all (\<lambda>(k, v, _). P (k, v)) ps"
  shows "list_all P (put_all ps d)"
  using assms
proof (induction ps arbitrary: d)
  case (Cons p ps)
  obtain k v e where p: "p = (k, v, e)" by (cases p)
  have "list_all P (dict_put k v d)"
    using Cons.prems p set_dict_put_subset[of k v d] by (auto simp: list_all_iff)
  with Cons p show ?case by simp
qed simp

lemma commit_with_Inr:
  "commit_with c u s = (Inr (), s') \<longleftrightarrow>
     s' = mem_write u s \<and> list_all (\<lambda>g. g = None) (commit_guards u s c)"
  by (cases "raise_first (commit_guards u s c) (Inr ())")
    (auto simp: commit_with_def raise_first_all_None dest: raise_first_Inr[THEN iffD1] split: sum.splits)

lemma commit_with_Inl:
  assumes "commit_with c u s = (Inl e, s')" and "\<And>e. c = Some e \<Longrightarrow> is_conflict e"
  shows "s' = s \<and> is_conflict e"
proof -
  from assms(1) have "s' = s" and r: "raise_first (commit_guards u s c) (Inr ()) = Inl e"
    by (auto simp: commit_with_def split: sum.splits)
  from raise_first_Inl[OF r] assms(2) have "is_conflict e"
    by (auto simp: commit_guards_def check_collection_versions_def dest: version_error_conflict[OF sym])
  with \<open>s' = s\<close> show ?thesis by simp
qed

lemma list_le_1: "length xs \<le> 1 \<longleftrightarrow> xs = [] \<or> (\<exists>x. xs = [x])"
  by (cases xs) auto

lemma find_active_filter:
  assumes "dict_ok d" and "list_all (\<lambda>(k, x). k = session_key x) d"
    and "mem_find_active org oid s = r" and "ms_sessions s = d"
  defines "A \<equiv> {x. dict_get (session_key x) d = Some x \<and> active_session_of org oid x}"
  shows "(\<forall>r'. r = Inr r' \<longrightarrow> A = set_option r') \<and>
    (\<forall>e. r = Inl e \<longrightarrow> (\<exists>x \<in> A. \<exists>y \<in> A. session_key x \<noteq> session_key y))"
proof -
  define F where "F = filter (\<lambda>(k, x). fst k = org \<and> ts_work_order_id x = oid \<and> ts_status x = TrackActive) d"
  have A: "A = set (map snd F)"
    using assms(1,2) unfolding A_def F_def
    by (force simp: dict_get_in list_all_iff active_session_of_def session_key_def image_iff)
  have dist: "distinct (map fst F)" using assms(1) by (simp add: F_def dict_ok_def distinct_map_filter)
  have key: "session_key (snd p) = fst p" if "p \<in> set F" for p
    using that assms(2) by (auto simp: F_def list_all_iff)
  have r: "r = (case map snd F of [] \<Rightarrow> Inr None | [x] \<Rightarrow> Inr (Some x)
      | _ \<Rightarrow> Inl (RuntimeError ''more than one active tracking session for work order''))"
    using assms(3,4) by (simp add: mem_find_active_def F_def)
  show ?thesis
  proof (cases F rule: remdups_adj.cases)
    case (3 p q ps)
    then have "session_key (snd p) \<noteq> session_key (snd q)" using dist key[of p] key[of q] by simp
    with 3 A r show ?thesis by auto
  qed (use A r in auto)
qed

lemma mem_abs_orders:
  "ds_orders (mem_abs s) (org, oid) = Some w \<longleftrightarrow>
     dict_get oid (ms_orders s) = Some w \<and> wo_organization_id w = org"
  by (auto simp: mem_abs_def split: option.splits)

lemma mem_abs_keyed: "mem_ok s \<Longrightarrow> keyed (mem_abs s)"
  by (auto simp: keyed_def mem_ok_def mem_abs_orders order_key_def list_all_iff mem_abs_def
      split: option.splits if_splits dest!: map_of_SomeD)

lemma mem_write_orders:
  assumes "length (sg_orders u) \<le> 1"
    and "\<And>k w v. (k, w, v) \<in> set (sg_orders u) \<Longrightarrow>
      (case dict_get k (ms_orders s) of None \<Rightarrow> True
       | Some st \<Rightarrow> wo_organization_id st = wo_organization_id w)"
  shows "ds_orders (mem_abs (mem_write u s)) =
    map_puts (map (\<lambda>(k, w, v). ((wo_organization_id w, k), w, v)) (sg_orders u))
      (ds_orders (mem_abs s))"
proof (cases "sg_orders u")
  case (Cons e es)
  obtain k w v where e: "e = (k, w, v)" by (cases e)
  have es: "es = []" using assms(1) Cons by simp
  show ?thesis
    using assms(2)[of k w v] Cons e es
    by (auto simp: mem_abs_def mem_write_def dict_get_put fun_eq_iff split: option.splits)
qed (simp add: mem_abs_def mem_write_def)

lemma mem_commit_sound:
  assumes ok: "mem_ok s" and ws: "well_staged (mem_changes u) (mem_abs s)"
    and c: "mem_commit u s = (Inr (), s')"
  shows "versions_match (mem_changes u) (mem_abs s) \<and>
    mem_abs s' = apply_changes (mem_changes u) (mem_abs s) \<and> mem_ok s' \<and> capacity_ok (mem_abs s')"
proof -
  have s': "s' = mem_write u s"
    and vo: "list_all (\<lambda>(k, _, v). version_matches v (map_option wo_version
        (dict_get k (ms_orders s)))) (sg_orders u)"
    and vs: "list_all (\<lambda>(k, _, v). version_matches v (map_option ts_version
        (dict_get k (ms_sessions s)))) (sg_sessions u)"
    and cap: "mem_check_capacity s u = None"
    using c by (auto simp: mem_commit_def commit_with_Inr commit_guards_def)
  have ok': "mem_ok s'"
    using ok ws unfolding mem_ok_def s' mem_write_def well_staged_def
    by (auto intro!: list_all_put_all simp: mem_changes_def list.pred_map comp_def order_key_def
        case_prod_beta' elim!: list.pred_mono_strong)
  have "capacity_ok (mem_abs s')"
    using cap distinct_vals_key[of mem_executor_key busy "ms_orders s'"]
    unfolding capacity_ok_def mem_check_capacity_def capacity_scan_None s' mem_write_def
    by (auto simp: mem_abs_orders mem_executor_key_def)
  moreover have "versions_match (mem_changes u) (mem_abs s)"
    using vo vs ws
    by (auto simp: versions_match_def mem_changes_def mem_abs_def list_all_iff well_staged_def
        order_key_def split: option.splits; fastforce split: if_splits)
  moreover have "mem_abs s' = apply_changes (mem_changes u) (mem_abs s)"
  proof -
    have "case dict_get k (ms_orders s) of None \<Rightarrow> True
        | Some st \<Rightarrow> wo_organization_id st = wo_organization_id w"
      if "(k, w, v) \<in> set (sg_orders u)" for k w v
      using that vo ws
      by (cases v) (force simp: list_all_iff well_staged_def mem_changes_def order_key_def
          mem_abs_def split: option.splits if_splits)+
    then have "ds_orders (mem_abs s') = ds_orders (apply_changes (mem_changes u) (mem_abs s))"
      using mem_write_orders[of u s] ws
      by (simp add: s' apply_changes_def mem_changes_def well_staged_def)
    then show ?thesis
      by (simp add: s' apply_changes_def mem_changes_def mem_abs_def mem_write_def map_of_put_all)
  qed
  ultimately show ?thesis using ok' by simp
qed


lemma mem_commit_abort: "mem_commit u s = (Inl e, s') \<Longrightarrow> s' = s \<and> is_conflict e"
  unfolding mem_commit_def mem_check_capacity_def
  by (rule commit_with_Inl) (auto dest: capacity_scan_conflict)

interpretation mem_uow: unit_of_work mem_ops mem_abs mem_changes mem_ok
proof
  fix u :: "string staged" and s s' :: "string mem_store" and org oid sid :: string
    and w :: work_order and x :: tracking_session and v :: "int option"
    and es :: "domain_event list" and r :: "tracking_session option" and e :: py_error
    and n :: "string result"
  show "mem_changes (op_open mem_ops) = no_changes"
    by (simp add: mem_ops_def mem_changes_def no_changes_def)
  show "mem_changes (op_save_order mem_ops w v u) =
      (mem_changes u)\<lparr>sg_orders := [(order_key w, order_snapshot w, v)]\<rparr>"
    if "sg_orders (mem_changes u) = []"
    using that by (simp add: mem_ops_def mem_changes_def mem_save_order_def order_key_def)
  show "mem_changes (op_save_session mem_ops x v u) =
      (mem_changes u)\<lparr>sg_sessions := [(session_key x, session_snapshot x, v)]\<rparr>"
    if "sg_sessions (mem_changes u) = []"
    using that by (simp add: mem_ops_def mem_changes_def mem_save_session_def session_key_def)
  show "mem_changes (op_add_events mem_ops es u) =
      (mem_changes u)\<lparr>sg_events := sg_events (mem_changes u) @ es\<rparr>"
    by (simp add: mem_ops_def mem_changes_def mem_add_events_def)
  show "op_get_order mem_ops org oid s = (case ds_orders (mem_abs s) (org, oid) of
      None \<Rightarrow> Inl (NotFound ''work order'' oid) | Some w \<Rightarrow> Inr w)"
    by (simp add: mem_ops_def mem_get_order_def mem_abs_def split: option.splits)
  show "op_get_session mem_ops org sid s = (case ds_sessions (mem_abs s) (org, sid) of
      None \<Rightarrow> Inl (NotFound ''tracking session'' sid) | Some x \<Rightarrow> Inr x)"
    by (simp add: mem_ops_def mem_get_session_def mem_abs_def)
  show "mem_abs s' = mem_abs s \<and> mem_ok s'" if "mem_ok s" "op_allocate mem_ops org s = (n, s')"
    using that by (auto simp: mem_ops_def mem_allocate_def mem_abs_def mem_ok_def Let_def)
  show "keyed (mem_abs s)" if "mem_ok s" using that by (rule mem_abs_keyed)
  show "s' = s \<and> is_conflict e" if "op_commit mem_ops u s = (Inl e, s')"
    using that by (simp add: mem_ops_def mem_commit_abort)
  show "versions_match (mem_changes u) (mem_abs s) \<and>
      mem_abs s' = apply_changes (mem_changes u) (mem_abs s) \<and> mem_ok s' \<and> capacity_ok (mem_abs s')"
    if "mem_ok s" "well_staged (mem_changes u) (mem_abs s)" "op_commit mem_ops u s = (Inr (), s')"
    using that by (intro mem_commit_sound) (simp_all add: mem_ops_def)
  have fa: "(\<forall>r'. op_find_active mem_ops org oid s = Inr r' \<longrightarrow>
      {x. dict_get (session_key x) (ms_sessions s) = Some x \<and> active_session_of org oid x} = set_option r') \<and>
    (\<forall>e. op_find_active mem_ops org oid s = Inl e \<longrightarrow>
      (\<exists>x \<in> {x. dict_get (session_key x) (ms_sessions s) = Some x \<and> active_session_of org oid x}.
        \<exists>y \<in> {x. dict_get (session_key x) (ms_sessions s) = Some x \<and> active_session_of org oid x}.
          session_key x \<noteq> session_key y))" if "mem_ok s"
    using that
    by (intro find_active_filter) (auto simp: mem_ok_def mem_ops_def elim!: list.pred_mono_strong)
  show "{x. ds_sessions (mem_abs s) (session_key x) = Some x \<and> active_session_of org oid x} = set_option r"
    if "mem_ok s" "op_find_active mem_ops org oid s = Inr r"
    using fa that by (simp add: mem_abs_def)
  show "\<exists>x y. ds_sessions (mem_abs s) (session_key x) = Some x \<and>
        ds_sessions (mem_abs s) (session_key y) = Some y \<and> active_session_of org oid x \<and>
        active_session_of org oid y \<and> session_key x \<noteq> session_key y"
    if "mem_ok s" "op_find_active mem_ops org oid s = Inl e"
    using fa[OF that(1)] that(2) by (auto simp: mem_abs_def)
qed

lemma empty_store_ok [simp]: "mem_ok empty_store"
  by (simp add: mem_ok_def empty_store_def)

end
