(* ===== verification/Async_Store.thy ===== *)
theory Async_Store
  imports Memory_Store
begin

text \<open>
  The asynchronous in-memory store (\<open>infrastructure/async_memory.py\<close>): orders are kept under
  organization and identifier, and the capacity check compares organization and executor as a
  pair. It is exact: a commit fails only for a version that moved or an occupied executor.
\<close>

section \<open>The store\<close>

type_synonym async_store = "okey mem_store"

definition async_allocate :: "string \<Rightarrow> async_store \<Rightarrow> string result \<times> async_store" where
  "async_allocate org s =
     (let seq_no = (case dict_get org (ms_counters s) of None \<Rightarrow> 0 | Some n \<Rightarrow> n) + 1
      in (format_order_number seq_no, s\<lparr>ms_counters := dict_put org seq_no (ms_counters s)\<rparr>))"

definition async_get_order :: "string \<Rightarrow> string \<Rightarrow> async_store \<Rightarrow> work_order result" where
  "async_get_order org oid s =
     (case dict_get (org, oid) (ms_orders s) of
        None \<Rightarrow> Inl (NotFound ''work order'' oid)
      | Some w \<Rightarrow> Inr w)"

definition async_save_order :: "work_order \<Rightarrow> int option \<Rightarrow> okey staged \<Rightarrow> okey staged" where
  "async_save_order w expected u =
     u\<lparr>sg_orders := dict_put (wo_organization_id w, wo_id w) (order_snapshot w, expected)
          (sg_orders u)\<rparr>"

definition async_get_session :: "string \<Rightarrow> string \<Rightarrow> async_store \<Rightarrow> tracking_session result" where
  "async_get_session org sid s =
     (case dict_get (org, sid) (ms_sessions s) of
        None \<Rightarrow> Inl (NotFound ''tracking session'' sid)
      | Some x \<Rightarrow> Inr x)"

definition async_find_active ::
  "string \<Rightarrow> string \<Rightarrow> async_store \<Rightarrow> tracking_session option result" where
  "async_find_active org oid s =
     (let matches = map snd (filter (\<lambda>((stored_org, _), x). stored_org = org \<and>
            ts_work_order_id x = oid \<and> ts_status x = TrackActive) (ms_sessions s))
      in if length matches > 1
         then Inl (RuntimeError ''more than one active tracking session for work order'')
         else Inr (case matches of [] \<Rightarrow> None | x # _ \<Rightarrow> Some x))"

definition async_has_source_event :: "string \<Rightarrow> string \<Rightarrow> string \<Rightarrow> async_store \<Rightarrow> bool" where
  "async_has_source_event org source ev s =
     list_ex (\<lambda>x. ts_organization_id x = org \<and>
         list_ex (\<lambda>p. location_source_value (tp_source p) = source \<and>
                     tp_source_event_id p = Some ev) (ts_points x))
       (map snd (ms_sessions s))"

definition async_save_session ::
  "tracking_session \<Rightarrow> int option \<Rightarrow> okey staged \<Rightarrow> okey staged" where
  "async_save_session x expected u =
     u\<lparr>sg_sessions := dict_put (ts_organization_id x, ts_id x) (session_snapshot x, expected)
          (sg_sessions u)\<rparr>"

definition async_add_events :: "domain_event list \<Rightarrow> okey staged \<Rightarrow> okey staged" where
  "async_add_events es u = u\<lparr>sg_events := sg_events u @ es\<rparr>"

definition async_executor_key :: "work_order \<Rightarrow> string \<times> string option" where
  "async_executor_key w = (wo_organization_id w, wo_assignee_id w)"

definition async_check_capacity :: "async_store \<Rightarrow> okey staged \<Rightarrow> py_error option" where
  "async_check_capacity s u =
     capacity_scan async_executor_key (map snd (put_all (sg_orders u) (ms_orders s))) []"

definition async_commit :: "okey staged \<Rightarrow> async_store \<Rightarrow> unit result \<times> async_store" where
  "async_commit u s = commit_with (async_check_capacity s u) u s"

definition async_ops :: "(async_store, okey staged) async_uow_ops" where
  "async_ops = \<lparr>op_open = no_changes, op_allocate = async_allocate,
     op_get_order = async_get_order, op_save_order = async_save_order,
     op_get_session = async_get_session, op_find_active = async_find_active,
     op_save_session = async_save_session, op_add_events = async_add_events,
     op_commit = async_commit, op_has_source_event = async_has_source_event\<rparr>"

section \<open>What the store represents\<close>

definition async_ok :: "async_store \<Rightarrow> bool" where
  "async_ok s \<longleftrightarrow> dict_ok (ms_orders s) \<and> dict_ok (ms_sessions s) \<and>
     list_all (\<lambda>(k, w). k = order_key w \<and> wo_events w = []) (ms_orders s) \<and>
     list_all (\<lambda>(k, x). k = session_key x \<and> ts_events x = []) (ms_sessions s) \<and>
     list_all (\<lambda>(_, n). 0 \<le> n) (ms_counters s)"

definition async_abs :: "async_store \<Rightarrow> dispatch_state" where
  "async_abs s =
     \<lparr>ds_orders = map_of (ms_orders s), ds_sessions = map_of (ms_sessions s),
      ds_outbox = ms_outbox s\<rparr>"

lemma async_ok_entry:
  "\<lbrakk>async_ok s; dict_get k (ms_orders s) = Some w\<rbrakk> \<Longrightarrow> k = order_key w \<and> wo_events w = []"
  "\<lbrakk>async_ok s; dict_get k (ms_sessions s) = Some x\<rbrakk> \<Longrightarrow> k = session_key x \<and> ts_events x = []"
  by (auto simp: async_ok_def list_all_iff dest!: map_of_SomeD)

lemma async_write_abs: "async_abs (mem_write u s) = apply_changes u (async_abs s)"
  by (simp add: async_abs_def mem_write_def apply_changes_def map_of_put_all)

lemma async_guards:
  "list_all (\<lambda>g. g = None) (commit_guards u s c) \<longleftrightarrow> versions_match u (async_abs s) \<and> c = None"
  by (auto simp: commit_guards_def versions_match_def async_abs_def)

lemma async_write_ok:
  "async_ok s \<Longrightarrow> well_staged u (async_abs s) \<Longrightarrow> async_ok (mem_write u s)"
  unfolding async_ok_def mem_write_def well_staged_def
  by (auto intro!: list_all_put_all elim!: list.pred_mono_strong)

lemma async_allocate_ok:
  assumes "async_ok s"
  shows "\<exists>n s'. async_allocate org s = (Inr n, s') \<and> n \<noteq> [] \<and> async_abs s' = async_abs s \<and> async_ok s'"
proof -
  let ?n = "(case dict_get org (ms_counters s) of None \<Rightarrow> 0 | Some n \<Rightarrow> n) + 1"
  have pos: "1 \<le> ?n"
    using assms by (auto simp: async_ok_def list_all_iff split: option.splits dest!: map_of_SomeD)
  then obtain n where "format_order_number ?n = Inr n" "n \<noteq> []"
    using format_order_number_total by blast
  moreover have "async_ok (s\<lparr>ms_counters := dict_put org ?n (ms_counters s)\<rparr>)"
    using assms pos set_dict_put_subset[of org ?n "ms_counters s"]
    by (force simp: async_ok_def list_all_iff)
  ultimately show ?thesis by (simp add: async_allocate_def Let_def async_abs_def)
qed

lemma async_capacity:
  assumes "async_ok (mem_write u s)"
  shows "async_check_capacity s u = None \<longleftrightarrow> capacity_ok (async_abs (mem_write u s))"
proof -
  let ?d = "ms_orders (mem_write u s)"
  have "async_check_capacity s u = None \<longleftrightarrow>
      distinct (map async_executor_key (filter busy (map snd ?d)))"
    by (simp add: async_check_capacity_def capacity_scan_None mem_write_def)
  also have "\<dots> \<longleftrightarrow> capacity_ok (async_abs (mem_write u s))"
  proof
    assume "distinct (map async_executor_key (filter busy (map snd ?d)))"
    from distinct_vals_key[OF this] show "capacity_ok (async_abs (mem_write u s))"
      unfolding capacity_ok_def by (auto simp: async_abs_def async_executor_key_def)
  next
    assume "capacity_ok (async_abs (mem_write u s))"
    then show "distinct (map async_executor_key (filter busy (map snd ?d)))"
      using assms
      by (intro distinct_vals_keyI)
        (auto simp: async_ok_def capacity_ok_def async_abs_def async_executor_key_def)
  qed
  finally show ?thesis .
qed

lemma async_find_active_mem: "async_find_active org oid s = mem_find_active org oid s"
  by (auto simp: async_find_active_def mem_find_active_def Let_def case_prod_beta'
      split: list.splits)

section \<open>The laws\<close>

interpretation async_uow: exact_unit_of_work async_ops async_abs "\<lambda>u. u" async_ok
proof
  fix u :: "okey staged" and s s' :: async_store and org oid sid :: string
    and w :: work_order and x :: tracking_session and v :: "int option"
    and es :: "domain_event list" and r :: "tracking_session option" and e :: py_error
    and n :: "string result"
  show "op_open async_ops = no_changes" by (simp add: async_ops_def)
  show "op_save_order async_ops w v u = u\<lparr>sg_orders := [(order_key w, order_snapshot w, v)]\<rparr>"
    if "sg_orders u = []"
    using that by (simp add: async_ops_def async_save_order_def order_key_def)
  show "op_save_session async_ops x v u = u\<lparr>sg_sessions := [(session_key x, session_snapshot x, v)]\<rparr>"
    if "sg_sessions u = []"
    using that by (simp add: async_ops_def async_save_session_def session_key_def)
  show "op_add_events async_ops es u = u\<lparr>sg_events := sg_events u @ es\<rparr>"
    by (simp add: async_ops_def async_add_events_def)
  show "op_get_order async_ops org oid s = (case ds_orders (async_abs s) (org, oid) of
      None \<Rightarrow> Inl (NotFound ''work order'' oid) | Some w \<Rightarrow> Inr w)"
    by (simp add: async_ops_def async_get_order_def async_abs_def)
  show "op_get_session async_ops org sid s = (case ds_sessions (async_abs s) (org, sid) of
      None \<Rightarrow> Inl (NotFound ''tracking session'' sid) | Some x \<Rightarrow> Inr x)"
    by (simp add: async_ops_def async_get_session_def async_abs_def)
  show "async_abs s' = async_abs s \<and> async_ok s'"
    if "async_ok s" "op_allocate async_ops org s = (n, s')"
    using that async_allocate_ok[OF that(1), of org] by (auto simp: async_ops_def)
  show "\<exists>n s'. op_allocate async_ops org s = (Inr n, s') \<and> n \<noteq> []" if "async_ok s"
    using async_allocate_ok[OF that, of org] by (auto simp: async_ops_def)
  show "keyed (async_abs s)" if "async_ok s"
    using async_ok_entry[OF that] by (auto simp: keyed_def async_abs_def)
  show "s' = s \<and> is_conflict e" if "op_commit async_ops u s = (Inl e, s')"
    using that unfolding async_ops_def
    by (simp add: async_commit_def async_check_capacity_def)
      (rule commit_with_Inl, auto dest: capacity_scan_conflict)
  show "versions_match u (async_abs s) \<and> async_abs s' = apply_changes u (async_abs s) \<and>
      async_ok s' \<and> capacity_ok (async_abs s')"
    if "async_ok s" "well_staged u (async_abs s)" "op_commit async_ops u s = (Inr (), s')"
    using that async_write_ok[OF that(1,2)] async_capacity[of u s]
    by (simp add: async_ops_def async_commit_def commit_with_Inr async_guards async_write_abs)
  show "fst (op_commit async_ops u s) = Inr ()"
    if "async_ok s" "well_staged u (async_abs s)" "versions_match u (async_abs s)"
      "capacity_ok (apply_changes u (async_abs s))"
    using that async_write_ok[OF that(1,2)] async_capacity[of u s]
      commit_with_Inr[of "async_check_capacity s u" u s "mem_write u s"]
    by (simp add: async_ops_def async_commit_def async_guards async_write_abs)
  have fa: "(\<forall>r'. op_find_active async_ops org oid s = Inr r' \<longrightarrow>
      {x. dict_get (session_key x) (ms_sessions s) = Some x \<and> active_session_of org oid x} = set_option r') \<and>
    (\<forall>e. op_find_active async_ops org oid s = Inl e \<longrightarrow>
      (\<exists>x \<in> {x. dict_get (session_key x) (ms_sessions s) = Some x \<and> active_session_of org oid x}.
        \<exists>y \<in> {x. dict_get (session_key x) (ms_sessions s) = Some x \<and> active_session_of org oid x}.
          session_key x \<noteq> session_key y))" if "async_ok s"
    using that
    by (intro find_active_filter)
      (auto simp: async_ok_def async_ops_def async_find_active_mem elim!: list.pred_mono_strong)
  show "{x. ds_sessions (async_abs s) (session_key x) = Some x \<and> active_session_of org oid x} = set_option r"
    if "async_ok s" "op_find_active async_ops org oid s = Inr r"
    using fa that by (simp add: async_abs_def)
  show "\<exists>x y. ds_sessions (async_abs s) (session_key x) = Some x \<and>
        ds_sessions (async_abs s) (session_key y) = Some y \<and> active_session_of org oid x \<and>
        active_session_of org oid y \<and> session_key x \<noteq> session_key y"
    if "async_ok s" "op_find_active async_ops org oid s = Inl e"
    using fa[OF that(1)] that(2) by (auto simp: async_abs_def)
qed

lemma async_empty_ok [simp]: "async_ok empty_store"
  by (simp add: async_ok_def empty_store_def)

lemma async_empty_abs:
  "ds_orders (async_abs empty_store) = Map.empty" "ds_sessions (async_abs empty_store) = Map.empty"
  "ds_outbox (async_abs empty_store) = []"
  by (simp_all add: async_abs_def empty_store_def)

end
