(* ===== verification/Service_Refinement.thy ===== *)
theory Service_Refinement
  imports Dispatch_Machine Dispatch_Service Async_Store
begin

text \<open>
  Both services refine the abstract specification, over every store that satisfies the contract:
  the simulation is proved once inside the locales and instantiated for the two in-memory stores.
\<close>

section \<open>Refinement, for every lawful store\<close>

lemma forget_Inr [simp]: "forget f s = (Inr (), s') \<longleftrightarrow> (\<exists>x. f s = (Inr x, s'))"
  by (auto simp: forget_def)

lemma forget_Inl [simp]: "forget f s = (Inl e, s') \<longleftrightarrow> f s = (Inl e, s')"
  by (auto simp: forget_def act_bind_Inl)

lemma make_point_valid: "make_point p = Inr q \<Longrightarrow> q = p \<and> valid_point p"
  by (auto simp: make_point_def valid_point_def)

lemma apply_changes_put:
  "apply_changes \<lparr>sg_orders = [(order_key w, order_snapshot w, v)], sg_sessions = [],
     sg_events = wo_events w\<rparr> d = put_order w d"
  "apply_changes \<lparr>sg_orders = [(order_key w, order_snapshot w, v)],
     sg_sessions = [(session_key x, session_snapshot x, vx)],
     sg_events = wo_events w @ ts_events x\<rparr> d = put_session x (put_order w d)"
  "apply_changes \<lparr>sg_orders = [], sg_sessions = [(session_key x, session_snapshot x, v)],
     sg_events = ts_events x\<rparr> d = put_session x d"
  by (cases d; simp add: apply_changes_def put_order_def put_session_def)+

lemma wo_exec_funs:
  "claim_coordination y st = wo_exec (ClaimCoordination y) st"
  "publish_pool m a st = wo_exec (PublishPool m a) st"
  "express_interest y st = wo_exec (ExpressInterest y) st"
  "withdraw_interest y st = wo_exec (WithdrawInterest y) st"
  "claim_first y st = wo_exec (ClaimFirst y) st"
  "wo_assign y a st = wo_exec (Assign y a) st"
  "wo_accept y st = wo_exec (Accept y) st"
  "reject_assignment y st = wo_exec (RejectAssignment y) st"
  "wo_start_work y st = wo_exec (StartWork y) st"
  by (rule ext, simp)+

lemmas svc_defs = svc_claim_coordination_def svc_publish_pool_def svc_express_interest_def
  svc_withdraw_interest_def svc_claim_first_def assign_order_def accept_order_def
  svc_reject_assignment_def svc_start_work_def

context unit_of_work
begin

lemma commit_order:
  assumes "ok s" and "op_commit ops (op_add_events ops (wo_events w) (op_save_order ops w v (op_open ops))) s
      = (Inr (), s')"
    and "v \<noteq> None \<Longrightarrow> ds_orders (abs s) (order_key w) \<noteq> None"
  shows "abs s' = put_order w (abs s) \<and> ok s' \<and> capacity_ok (put_order w (abs s)) \<and>
    version_matches v (map_option wo_version (ds_orders (abs s) (order_key w)))"
proof -
  let ?u = "op_add_events ops (wo_events w) (op_save_order ops w v (op_open ops))"
  have ch: "changes ?u = \<lparr>sg_orders = [(order_key w, order_snapshot w, v)], sg_sessions = [],
      sg_events = wo_events w\<rparr>"
    by (simp add: add_events_law save_order_law open_law no_changes_def)
  have ws: "well_staged (changes ?u) (abs s)"
    using assms(3) by (auto simp: ch well_staged_def)
  from commit_law[OF assms(1) ws assms(2)] show ?thesis
    by (auto simp: ch versions_match_def apply_changes_put)
qed

lemma commit_both:
  assumes "ok s"
    and "op_commit ops (op_add_events ops (wo_events w @ ts_events x)
      (op_save_session ops x vx (op_save_order ops w v (op_open ops)))) s = (Inr (), s')"
    and "v \<noteq> None \<Longrightarrow> ds_orders (abs s) (order_key w) \<noteq> None"
  shows "abs s' = put_session x (put_order w (abs s)) \<and> ok s' \<and> capacity_ok (put_order w (abs s)) \<and>
    version_matches vx (map_option ts_version (ds_sessions (abs s) (session_key x)))"
proof -
  let ?u = "op_add_events ops (wo_events w @ ts_events x)
      (op_save_session ops x vx (op_save_order ops w v (op_open ops)))"
  have ch: "changes ?u = \<lparr>sg_orders = [(order_key w, order_snapshot w, v)],
      sg_sessions = [(session_key x, session_snapshot x, vx)], sg_events = wo_events w @ ts_events x\<rparr>"
    by (simp add: add_events_law save_order_law save_session_law open_law no_changes_def)
  have ws: "well_staged (changes ?u) (abs s)"
    using assms(3) by (auto simp: ch well_staged_def)
  from commit_law[OF assms(1) ws assms(2)] show ?thesis
    by (auto simp: ch versions_match_def apply_changes_put)
qed

lemma commit_session:
  assumes "ok s" and "op_commit ops (op_add_events ops (ts_events x) (op_save_session ops x v (op_open ops))) s
      = (Inr (), s')"
  shows "abs s' = put_session x (abs s) \<and> ok s' \<and> capacity_ok (abs s)"
proof -
  let ?u = "op_add_events ops (ts_events x) (op_save_session ops x v (op_open ops))"
  have ch: "changes ?u = \<lparr>sg_orders = [], sg_sessions = [(session_key x, session_snapshot x, v)],
      sg_events = ts_events x\<rparr>"
    by (simp add: add_events_law save_session_law open_law no_changes_def)
  have ws: "well_staged (changes ?u) (abs s)" by (simp add: ch well_staged_def)
  from commit_law[OF assms(1) ws assms(2)] show ?thesis
    by (auto simp: ch apply_changes_put)
qed

lemma commit_nothing:
  "ok s \<Longrightarrow> op_commit ops (op_open ops) s = (Inr (), s') \<Longrightarrow> abs s' = abs s \<and> ok s'"
  using commit_law[of s "op_open ops" s']
  by (simp add: open_law no_changes_def well_staged_def apply_changes_def)

lemma stored_key:
  "ok s \<Longrightarrow> ds_orders (abs s) k = Some w0 \<Longrightarrow> wo_exec c st w0 = Inr w \<Longrightarrow> order_key w = k"
  using keyed_order[OF keyed_law] wo_exec_events(2) by metis

lemma read_order: "ok s \<Longrightarrow> op_get_order ops org oid s = Inr w \<longleftrightarrow> ds_orders (abs s) (org, oid) = Some w"
  by (simp add: get_order_law split: option.splits)

lemma read_session:
  "ok s \<Longrightarrow> op_get_session ops org sid s = Inr x \<longleftrightarrow> ds_sessions (abs s) (org, sid) = Some x"
  by (simp add: get_session_law split: option.splits)

lemma change_order_step:
  assumes "ok s" and "change_order ops org oid (wo_exec c st) s = (Inr w', s')" and "plain_command c"
  shows "dispatch_step (abs s) (abs s') \<and> ok s'"
proof -
  obtain w0 w where w0: "ds_orders (abs s) (org, oid) = Some w0" and w: "wo_exec c st w0 = Inr w"
    and c: "op_commit ops (op_add_events ops (wo_events w)
      (op_save_order ops w (Some (wo_version w0)) (op_open ops))) s = (Inr (), s')"
    using assms(1,2) by (auto simp: change_order_def Let_def pull_events_pair read_order)
  have "order_key w = (org, oid)" using stored_key[OF assms(1) w0 w] .
  with commit_order[OF assms(1) c] w0 dispatch_step.change[OF w0 assms(3) w]
  show ?thesis by simp
qed

lemma create_step:
  assumes "ok s" and "create_new_order ops sub st s = (Inr w', s')"
  shows "dispatch_step (abs s) (abs s') \<and> ok s' \<and>
    ds_orders (abs s) (sub_organization_id sub, sub_order_id sub) = None"
proof -
  obtain n s1 w where a: "op_allocate ops (sub_organization_id sub) s = (Inr n, s1)"
    and w: "wo_create sub n st = Inr w"
    and c: "op_commit ops (op_add_events ops (wo_events w) (op_save_order ops w None (op_open ops))) s1
      = (Inr (), s')"
    using assms(2) by (auto simp: create_new_order_def Let_def pull_events_pair)
  have s1: "ok s1" "abs s1 = abs s" using allocate_law[OF assms(1) a] by simp_all
  have k: "order_key w = (sub_organization_id sub, sub_order_id sub)"
    using wo_create_events(2)[OF w] .
  from commit_order[OF s1(1) c] have e: "abs s' = put_order w (abs s)" "ok s'"
      "capacity_ok (put_order w (abs s))" "ds_orders (abs s) (order_key w) = None"
    by (auto simp: s1 split: option.splits elim: version_matches.elims)
  with dispatch_step.submit[OF w e(4,3)] k show ?thesis by simp
qed

lemma create_error:
  "ok s \<Longrightarrow> create_new_order ops sub st s = (Inl e, s') \<Longrightarrow> abs s' = abs s \<and> ok s'"
  by (auto simp: create_new_order_def act_bind_Inl Let_def pull_events_pair
      dest: allocate_law abort_law)

lemma change_order_error: "change_order ops org oid f s = (Inl e, s') \<Longrightarrow> s' = s"
  by (auto simp: change_order_def act_bind_Inl Let_def pull_events_pair dest: abort_law)

lemma start_travel_step:
  assumes "ok s" and "start_travel ops org oid x sid fresh tokens st st' s = (Inr r, s')"
  shows "dispatch_step (abs s) (abs s') \<and> ok s'"
proof -
  obtain w0 w t where w0: "ds_orders (abs s) (org, oid) = Some w0" and w: "wo_start_travel x st w0 = Inr w"
    and t: "session_start (or_fresh sid fresh) org (wo_id w) x None None tokens st' = Inr t"
    and c: "op_commit ops (op_add_events ops (wo_events w @ ts_events t)
      (op_save_session ops t None (op_save_order ops w (Some (wo_version w0)) (op_open ops)))) s
      = (Inr (), s')"
    using assms by (auto simp: start_travel_def Let_def pull_events_pair read_order)
  have k: "order_key w = (org, oid)" using stored_key[OF assms(1) w0, of "StartTravel x" st w] w by simp
  then have oid: "wo_id w = oid" by (simp add: order_key_def)
  note ks = session_start_sel(2)[OF t]
  have "ds_sessions (abs s) (org, or_fresh sid fresh) = None"
    using commit_both[OF assms(1) c] w0 k ks by (auto elim: version_matches.elims)
  then show ?thesis
    using commit_both[OF assms(1) c] w0 k dispatch_step.travel[OF w0 w t[unfolded oid]] by simp
qed

lemma start_travel_error: "start_travel ops org oid x sid fresh tokens st st' s = (Inl e, s') \<Longrightarrow> s' = s"
  by (auto simp: start_travel_def act_bind_Inl Let_def pull_events_pair dest: abort_law)

lemma no_active_session:
  assumes "ok s" and "op_find_active ops org oid s = Inr None"
  shows "\<forall>k t. ds_sessions (abs s) k = Some t \<longrightarrow> \<not> active_session_of org oid t"
proof (intro allI impI)
  fix k t
  assume t: "ds_sessions (abs s) k = Some t"
  then have "session_key t = k" using keyed_session[OF keyed_law[OF assms(1)]] by simp
  with t find_active_law[OF assms] show "\<not> active_session_of org oid t" by auto
qed

lemma the_active_session:
  assumes "ok s" and "op_find_active ops org oid s = Inr (Some t)"
  shows "ds_sessions (abs s) (session_key t) = Some t \<and> active_session_of org oid t"
  using find_active_law[OF assms] by auto

lemma finish_step:
  assumes "ok s" and w0: "ds_orders (abs s) (org, oid) = Some w0" and c: "closing_command c"
    and w: "wo_exec c st w0 = Inr w"
    and com: "op_commit ops (op_add_events ops (wo_events w)
      (op_save_order ops w (Some (wo_version w0)) (op_open ops))) s = (Inr (), s')"
    and find: "op_find_active ops org oid s = Inr None"
  shows "dispatch_step (abs s) (abs s') \<and> ok s'"
  using commit_order[OF assms(1) com] stored_key[OF assms(1) w0 w] w0
    dispatch_step.finish_untracked[OF w0 c w no_active_session[OF assms(1) find]] by simp

lemma finish_tracked_step:
  assumes "ok s" and w0: "ds_orders (abs s) (org, oid) = Some w0" and c: "closing_command c"
    and w: "wo_exec c st w0 = Inr w"
    and com: "op_commit ops (op_add_events ops (wo_events w @ ts_events t) (op_save_session ops t
      (Some (ts_version t0)) (op_save_order ops w (Some (wo_version w0)) (op_open ops)))) s = (Inr (), s')"
    and find: "op_find_active ops org oid s = Inr (Some t0)"
    and t: "ts_exec tc t0 = Inr t" and tc: "\<forall>p ev. tc \<noteq> AddPoint p ev"
  shows "dispatch_step (abs s) (abs s') \<and> ok s'"
  using commit_both[OF assms(1) com] stored_key[OF assms(1) w0 w] w0
    the_active_session[OF assms(1) find]
    dispatch_step.finish_tracked[OF w0 c w _ _ t tc, of "session_key t0"] by simp

lemma complete_order_step:
  assumes "ok s" and "complete_order ops org oid x report st st' s = (Inr w', s')"
  shows "dispatch_step (abs s) (abs s') \<and> ok s'"
proof -
  obtain w0 w r where w0: "ds_orders (abs s) (org, oid) = Some w0"
    and w: "wo_complete x report st w0 = Inr w" and r: "op_find_active ops org oid s = Inr r"
    using assms by (auto simp: complete_order_def Let_def pull_events_pair read_order)
  have e: "wo_exec (Complete x report) st w0 = Inr w" using w by simp
  have g: "op_get_order ops org oid s = Inr w0" using w0 assms(1) by (simp add: read_order)
  show ?thesis
  proof (cases r)
    case None
    then show ?thesis
      using assms w0 e g r
      by (intro finish_step[OF assms(1) w0 _ e]) (auto simp: complete_order_def Let_def pull_events_pair)
  next
    case (Some t0)
    then obtain t where t: "session_complete st' t0 = Inr t"
      and com: "op_commit ops (op_add_events ops (wo_events w @ ts_events t) (op_save_session ops t
      (Some (ts_version t0)) (op_save_order ops w (Some (wo_version w0)) (op_open ops)))) s = (Inr (), s')"
      using assms w0 e g r by (auto simp: complete_order_def Let_def pull_events_pair)
    show ?thesis
      using r Some t by (intro finish_tracked_step[OF assms(1) w0 _ e com, where tc = "SessionComplete st'"]) auto
  qed
qed

lemma cancel_order_step:
  assumes "ok s" and "cancel_order ops org oid reason a st st' s = (Inr w', s')"
  shows "dispatch_step (abs s) (abs s') \<and> ok s'"
proof -
  obtain w0 w r where w0: "ds_orders (abs s) (org, oid) = Some w0"
    and w: "wo_cancel reason a st w0 = Inr w" and r: "op_find_active ops org oid s = Inr r"
    using assms by (auto simp: cancel_order_def Let_def pull_events_pair read_order)
  have e: "wo_exec (Cancel reason a) st w0 = Inr w" using w by simp
  have g: "op_get_order ops org oid s = Inr w0" using w0 assms(1) by (simp add: read_order)
  show ?thesis
  proof (cases r)
    case None
    then show ?thesis
      using assms w0 e g r
      by (intro finish_step[OF assms(1) w0 _ e]) (auto simp: cancel_order_def Let_def pull_events_pair)
  next
    case (Some t0)
    then obtain t where t: "session_cancel reason st' t0 = Inr t"
      and com: "op_commit ops (op_add_events ops (wo_events w @ ts_events t) (op_save_session ops t
      (Some (ts_version t0)) (op_save_order ops w (Some (wo_version w0)) (op_open ops)))) s = (Inr (), s')"
      using assms w0 e g r by (auto simp: cancel_order_def Let_def pull_events_pair)
    show ?thesis
      using r Some t by (intro finish_tracked_step[OF assms(1) w0 _ e com, where tc = "SessionCancel reason st'"]) auto
  qed
qed

lemma complete_order_error: "complete_order ops org oid x report st st' s = (Inl e, s') \<Longrightarrow> s' = s"
  by (auto simp: complete_order_def act_bind_Inl Let_def pull_events_pair dest: abort_law
      split: option.splits)

lemma cancel_order_error: "cancel_order ops org oid reason a st st' s = (Inl e, s') \<Longrightarrow> s' = s"
  by (auto simp: cancel_order_def act_bind_Inl Let_def pull_events_pair dest: abort_law
      split: option.splits)

lemma save_point_step:
  assumes "ok s" and "ds_sessions (abs s) k = Some x0" and "save_point ops r t st x0 s = (Inr x', s')"
  shows "dispatch_step (abs s) (abs s') \<and> ok s'"
proof -
  obtain p x where p: "report_point r t (st_now st) = Inr p"
    and x: "add_point p (st_event_id st) x0 = Inr x"
    and c: "op_commit ops (op_add_events ops (ts_events x)
      (op_save_session ops x (Some (ts_version x0)) (op_open ops))) s = (Inr (), s')"
    using assms(3) by (auto simp: save_point_def Let_def pull_events_pair)
  have "valid_point p" using p make_point_valid by (auto simp: report_point_def)
  from dispatch_step.locate[OF assms(2) this x] commit_session[OF assms(1) c] show ?thesis by simp
qed

lemma save_point_error: "save_point ops r t st x0 s = (Inl e, s') \<Longrightarrow> s' = s"
  by (auto simp: save_point_def act_bind_Inl Let_def pull_events_pair dest: abort_law)

lemma order_call_refines:
  assumes "ok s" and "order_call ops org oid env c s = (r, s')"
  shows "ok s' \<and> (case r of Inl _ \<Rightarrow> s' = s | Inr _ \<Rightarrow> dispatch_step (abs s) (abs s'))"
proof (cases r)
  case (Inl e)
  with assms show ?thesis
    by (cases c) (auto simp: svc_claim_coordination_def svc_publish_pool_def svc_express_interest_def
        svc_withdraw_interest_def svc_claim_first_def assign_order_def accept_order_def
        svc_reject_assignment_def svc_start_work_def
        dest: change_order_error start_travel_error complete_order_error cancel_order_error)
next
  case (Inr u)
  show ?thesis
    using assms(2) Inr
    by (cases c) (auto simp: svc_defs wo_exec_funs
        dest!: change_order_step[OF assms(1)] start_travel_step[OF assms(1)]
          complete_order_step[OF assms(1)] cancel_order_step[OF assms(1)])
qed

lemma create_order_new:
  "create_order ops order_id fresh sub st =
     create_new_order ops (sub\<lparr>sub_order_id := or_fresh order_id fresh\<rparr>) st"
  by (simp add: create_order_def create_new_order_def)

lemma record_location_refines:
  assumes "ok s" and "record_location ops org r st s = (res, s')"
  shows "ok s' \<and> (case res of Inl _ \<Rightarrow> s' = s | Inr _ \<Rightarrow> dispatch_step (abs s) (abs s'))"
  using assms
  by (cases res) (auto simp: record_location_def act_bind_Inl read_session
      dest: save_point_error save_point_step)

text \<open>
  The refinement of the synchronous service: a call that raises leaves the abstract state alone,
  one that returns is a step of the specification.
\<close>

lemma sync_refines:
  assumes "ok s" and "sync_exec ops c s = (r, s')"
  shows "ok s' \<and> (case r of Inl _ \<Rightarrow> abs s' = abs s | Inr _ \<Rightarrow> dispatch_step (abs s) (abs s'))"
proof (cases c)
  case (CreateCall order_id fresh sub st)
  then show ?thesis
    using assms
    by (cases r) (auto simp: create_order_new dest: create_error create_step)
next
  case (OrderCall org oid c env)
  then show ?thesis
    using assms order_call_refines[OF assms(1), of org oid env c r s'] by (auto split: sum.splits)
next
  case (LocationCall org rep st)
  then show ?thesis
    using assms record_location_refines[OF assms(1)] by (cases r) (fastforce split: sum.splits)+
qed (use assms in auto)

lemma sync_reachable:
  "ok s \<Longrightarrow> dispatch_reachable (abs s) \<Longrightarrow>
     ok (run_calls (sync_exec ops) cs s) \<and> dispatch_reachable (abs (run_calls (sync_exec ops) cs s))"
proof (induction cs arbitrary: s)
  case (Cons c cs)
  obtain r s' where e: "sync_exec ops c s = (r, s')" by (cases "sync_exec ops c s")
  from sync_refines[OF Cons.prems(1) e] Cons.prems(2)
  have "ok s'" "dispatch_reachable (abs s')"
    by (auto split: sum.splits intro: dispatch_reachable.step)
  with Cons.IH show ?case by (simp add: e)
qed simp

end

locale async_unit_of_work = unit_of_work ops abs changes ok
  for ops :: "('s, 'u, 'z) async_uow_ops_scheme"
    and abs :: "'s \<Rightarrow> dispatch_state"
    and changes :: "'u \<Rightarrow> okey staged"
    and ok :: "'s \<Rightarrow> bool" +
  assumes source_event_law: "ok s \<Longrightarrow> op_has_source_event ops org source ev s \<longleftrightarrow>
    (\<exists>k x p. ds_sessions (abs s) k = Some x \<and> ts_organization_id x = org \<and> p \<in> set (ts_points x) \<and>
       location_source_value (tp_source p) = source \<and> tp_source_event_id p = Some ev)"
begin

lemma create_once_refines:
  assumes "ok s" and "create_order_once ops sub st s = (res, s')"
  shows "ok s' \<and> (case res of Inl _ \<Rightarrow> abs s' = abs s
    | Inr _ \<Rightarrow> dispatch_step (abs s) (abs s') \<or> abs s' = abs s)"
proof (cases "create_new_order ops sub st s")
  case (Pair r1 s1)
  show ?thesis
  proof (cases r1)
    case (Inr w)
    then show ?thesis using Pair assms create_step[OF assms(1)] by (auto simp: create_order_once_def)
  next
    case (Inl e)
    then have s1: "abs s1 = abs s" "ok s1" using Pair create_error[OF assms(1)] by auto
    show ?thesis
      using Pair Inl s1 assms(2)
      by (cases res) (auto simp: create_order_once_def act_bind_Inl split: if_splits
          dest: abort_law commit_nothing[OF s1(2)])
  qed
qed

lemma async_location_refines:
  assumes "ok s" and "async_record_location ops org r st s = (res, s')"
  shows "ok s' \<and> (case res of Inl _ \<Rightarrow> s' = s
    | Inr _ \<Rightarrow> dispatch_step (abs s) (abs s') \<or> abs s' = abs s)"
  using assms
  by (cases res) (auto simp: async_record_location_def act_bind_Inl read_session
      split: if_splits dest: save_point_error save_point_step abort_law commit_nothing)

lemma async_refines:
  assumes "ok s" and "async_exec ops c s = (r, s')"
  shows "ok s' \<and> (case r of Inl _ \<Rightarrow> abs s' = abs s
    | Inr _ \<Rightarrow> dispatch_step (abs s) (abs s') \<or> abs s' = abs s)"
proof (cases c)
  case (CreateCall order_id fresh sub st)
  then show ?thesis
    using assms
    by (cases r) (auto simp: async_create_order_def dest: create_error create_step)
next
  case (CreateOnceCall sub st)
  then show ?thesis
    using assms create_once_refines[OF assms(1)] by (cases r) (fastforce split: sum.splits)+
next
  case (OrderCall org oid c env)
  then show ?thesis
    using assms order_call_refines[OF assms(1), of org oid env c r s'] by (auto split: sum.splits)
next
  case (LocationCall org rep st)
  then show ?thesis
    using assms async_location_refines[OF assms(1)] by (cases r) (fastforce split: sum.splits)+
qed

lemma async_reachable:
  "ok s \<Longrightarrow> dispatch_reachable (abs s) \<Longrightarrow>
     ok (run_calls (async_exec ops) cs s) \<and> dispatch_reachable (abs (run_calls (async_exec ops) cs s))"
proof (induction cs arbitrary: s)
  case (Cons c cs)
  obtain r s' where e: "async_exec ops c s = (r, s')" by (cases "async_exec ops c s")
  from async_refines[OF Cons.prems(1) e] Cons.prems(2)
  have "ok s'" "dispatch_reachable (abs s')"
    by (auto split: sum.splits intro: dispatch_reachable.step)
  with Cons.IH show ?case by (simp add: e)
qed simp

end

interpretation async_svc: async_unit_of_work async_ops async_abs "\<lambda>u. u" async_ok
proof
  fix s org source ev
  assume "async_ok s"
  then have "dict_get k (ms_sessions s) = Some x \<longleftrightarrow> (k, x) \<in> set (ms_sessions s)" for k x
    by (auto simp: async_ok_def dict_get_in)
  then show "op_has_source_event async_ops org source ev s \<longleftrightarrow>
    (\<exists>k x p. ds_sessions (async_abs s) k = Some x \<and> ts_organization_id x = org \<and> p \<in> set (ts_points x) \<and>
       location_source_value (tp_source p) = source \<and> tp_source_event_id p = Some ev)"
    by (force simp: async_ops_def async_has_source_event_def async_abs_def list_ex_iff)
qed

lemma empty_reachable:
  "dispatch_reachable (async_abs empty_store)" "dispatch_reachable (mem_abs empty_store)"
proof -
  have "async_abs empty_store = \<lparr>ds_orders = Map.empty, ds_sessions = Map.empty, ds_outbox = []\<rparr>"
    "mem_abs empty_store = \<lparr>ds_orders = Map.empty, ds_sessions = Map.empty, ds_outbox = []\<rparr>"
    by (simp_all add: async_abs_def mem_abs_def empty_store_def fun_eq_iff)
  then show "dispatch_reachable (async_abs empty_store)" "dispatch_reachable (mem_abs empty_store)"
    using dispatch_reachable.init by simp_all
qed

end
