(* ===== verification/Service_Properties.thy ===== *)
theory Service_Properties
  imports Service_Refinement
begin

text \<open>
  What the services guarantee on the in-memory stores: capacity, a complete outbox, tracking tied
  to the order's life cycle, one order per logical submission, and serializable concurrent
  changes.
\<close>

section \<open>How an order may evolve\<close>

definition same_intent :: "work_order \<Rightarrow> work_order \<Rightarrow> bool" where
  "same_intent w w' \<longleftrightarrow> order_key w' = order_key w \<and> wo_work_type w' = wo_work_type w \<and>
     wo_source w' = wo_source w \<and> wo_requester_id w' = wo_requester_id w \<and>
     wo_details w' = wo_details w \<and> wo_evidence w' = wo_evidence w \<and>
     wo_public_number w' = wo_public_number w"

definition evolves :: "work_order \<Rightarrow> work_order \<Rightarrow> bool" where
  "evolves w w' \<longleftrightarrow> same_intent w w' \<and> wo_version w \<le> wo_version w' \<and>
     (wo_version w' = wo_version w \<longrightarrow> w' = w)"

lemma evolves_refl [simp]: "evolves w w"
  by (simp add: evolves_def same_intent_def)

lemma evolves_trans: "evolves a b \<Longrightarrow> evolves b c \<Longrightarrow> evolves a c"
  by (auto simp: evolves_def same_intent_def)

lemma evolves_exec:
  assumes "wo_exec c st w0 = Inr w" and "wo_events w0 = []"
  shows "evolves w0 (order_snapshot w)"
proof -
  have "order_snapshot w = w" if "wo_events w = []" for w
    using that by (simp add: order_snapshot_def wo_pull_events_def)
  moreover have "w = w0 \<or> wo_version w = wo_version w0 + 1"
    using wo_exec_effect[OF assms(1)] by auto
  ultimately show ?thesis
    using wo_exec_identity[OF assms(1)] assms(2)
    by (auto simp: evolves_def same_intent_def order_key_def)
qed

lemma dispatch_step_evolves:
  assumes "dispatch_step d d'" and "keyed d" and "ds_orders d k = Some w"
  shows "\<exists>w'. ds_orders d' k = Some w' \<and> evolves w w'"
proof -
  have one: "\<exists>w'. ds_orders (put_order y d) k = Some w' \<and> evolves w w'"
    if "ds_orders d k0 = Some w0" "wo_exec c st w0 = Inr y" for k0 w0 c st y
  proof -
    have w0: "order_key w0 = k0" "wo_events w0 = []"
      using keyed_order[OF assms(2) that(1)] by simp_all
    have "order_key y = k0" using wo_exec_events(2)[OF that(2) w0(2)] w0(1) by simp
    then show ?thesis
      using assms(3) that evolves_exec[OF that(2) w0(2)] by (cases "k = k0") auto
  qed
  show ?thesis
    using assms(1)
  proof cases
    case (submit sub n st y)
    then show ?thesis using assms(3) by (cases "k = order_key y") auto
  next
    case (change k0 w0 c st y)
    then show ?thesis using one by simp
  next
    case (travel org oid w0 x st y sid st' t)
    then show ?thesis using one[of "(org, oid)" w0 "StartTravel x" st y] by simp
  next
    case (finish_untracked org oid w0 c st y)
    then show ?thesis using one by simp
  next
    case (finish_tracked org oid w0 c st y k0 t0 tc t)
    then show ?thesis using one[of "(org, oid)" w0 c st y] by simp
  next
    case (locate k0 t0 p ev t)
    then show ?thesis using assms(3) by simp
  qed
qed

context async_unit_of_work
begin

lemma async_evolves:
  assumes "ok s" and "ds_orders (abs s) k = Some w"
  shows "\<exists>w'. ds_orders (abs (snd (async_exec ops c s))) k = Some w' \<and> evolves w w'"
proof -
  obtain r s' where e: "async_exec ops c s = (r, s')" by (cases "async_exec ops c s")
  from async_refines[OF assms(1) e] have "dispatch_step (abs s) (abs s') \<or> abs s' = abs s"
    by (auto split: sum.splits)
  then show ?thesis
    using dispatch_step_evolves[OF _ keyed_law[OF assms(1)] assms(2)] assms(2) e by auto
qed

lemma run_evolves:
  assumes "ok s" and "ds_orders (abs s) k = Some w"
  shows "\<exists>w'. ds_orders (abs (run_calls (async_exec ops) cs s)) k = Some w' \<and> evolves w w' \<and>
    ok (run_calls (async_exec ops) cs s)"
  using assms
proof (induction cs arbitrary: s w)
  case (Cons c cs)
  obtain r s' where e: "async_exec ops c s = (r, s')" by (cases "async_exec ops c s")
  have ok: "ok s'" using async_refines[OF Cons.prems(1) e] by simp
  obtain w1 where w1: "ds_orders (abs s') k = Some w1" "evolves w w1"
    using async_evolves[OF Cons.prems, of c] e by auto
  from Cons.IH[OF ok w1(1)] show ?case using w1(2) e by (auto intro: evolves_trans)
qed simp

end

section \<open>Creating an order once\<close>

lemma wo_create_fields:
  assumes "wo_create sub n st = Inr w"
  shows "order_key w = (sub_organization_id sub, sub_order_id sub)"
    and "wo_work_type w = sub_work_type sub" and "wo_source w = sub_source sub"
    and "wo_requester_id w = sub_requester_id sub" and "wo_details w = sub_details sub"
    and "wo_evidence w = (case sub_evidence sub of None \<Rightarrow> default_evidence | Some e \<Rightarrow> e)"
  using assms by (auto simp: wo_create_def work_order_init_def order_key_def split: if_splits)

lemma wo_create_again:
  assumes "wo_create sub n st = Inr w" and "m \<noteq> []"
  shows "\<exists>w'. wo_create sub m st' = Inr w'"
  using assms by (auto simp: wo_create_def work_order_init_def split: if_splits)

definition submission_of :: "submission \<Rightarrow> work_order \<Rightarrow> bool" where
  "submission_of sub w \<longleftrightarrow> order_key w = (sub_organization_id sub, sub_order_id sub) \<and>
     wo_work_type w = sub_work_type sub \<and> wo_source w = sub_source sub \<and>
     wo_requester_id w = sub_requester_id sub \<and> details_eq (wo_details w) (sub_details sub) \<and>
     wo_evidence w = (case sub_evidence sub of None \<Rightarrow> default_evidence | Some e \<Rightarrow> e)"

lemma same_submission_iff:
  "wo_create sub n st = Inr cand \<Longrightarrow> same_submission w cand \<longleftrightarrow> submission_of sub w"
  using wo_create_fields[of sub n st cand]
  by (auto simp: same_submission_def submission_of_def order_key_def)

lemma submission_evolves: "submission_of sub w \<Longrightarrow> evolves w w' \<Longrightarrow> submission_of sub w'"
  by (simp add: submission_of_def evolves_def same_intent_def)

locale exact_async_unit_of_work =
  async_unit_of_work ops abs changes ok + exact_unit_of_work ops abs changes ok
  for ops :: "('s, 'u, 'z) async_uow_ops_scheme"
    and abs :: "'s \<Rightarrow> dispatch_state"
    and changes :: "'u \<Rightarrow> okey staged"
    and ok :: "'s \<Rightarrow> bool"
begin

lemma create_new_returns:
  assumes "ok s" and "create_new_order ops sub st s = (Inr w, s')"
  shows "\<exists>n y. wo_create sub n st = Inr y \<and> w = order_snapshot y \<and>
    ds_orders (abs s') (sub_organization_id sub, sub_order_id sub) = Some w \<and> ok s'"
proof -
  obtain n s1 y where a: "op_allocate ops (sub_organization_id sub) s = (Inr n, s1)"
    and y: "wo_create sub n st = Inr y" "w = order_snapshot y"
    and c: "op_commit ops (op_add_events ops (wo_events y) (op_save_order ops y None (op_open ops))) s1
      = (Inr (), s')"
    using assms(2) by (auto simp: create_new_order_def Let_def pull_events_pair)
  have "ok s1" using allocate_law[OF assms(1) a] by simp
  from commit_order[OF this c] wo_create_fields(1)[OF y(1)] y show ?thesis by auto
qed

lemma create_new_conflict:
  assumes "ok s" and "ds_orders (abs s) (sub_organization_id sub, sub_order_id sub) = Some w0"
    and "wo_create sub n0 st0 = Inr y0"
  shows "\<exists>e s'. create_new_order ops sub st s = (Inl e, s') \<and> is_conflict e \<and> abs s' = abs s \<and> ok s'"
proof (cases "create_new_order ops sub st s")
  case (Pair r s')
  obtain n s1 where a: "op_allocate ops (sub_organization_id sub) s = (Inr n, s1)" and n: "n \<noteq> []"
    using allocate_total[OF assms(1)] by blast
  have s1: "ok s1" "abs s1 = abs s" using allocate_law[OF assms(1) a] by simp_all
  obtain y where y: "wo_create sub n st = Inr y" using wo_create_again[OF assms(3) n] by blast
  show ?thesis
  proof (cases r)
    case (Inr w)
    then show ?thesis using create_step[OF assms(1)] Pair assms(2) by auto
  next
    case (Inl e)
    have c: "op_commit ops (op_add_events ops (wo_events y) (op_save_order ops y None (op_open ops))) s1
        = (Inl e, s')"
      using Pair Inl a y
      by (auto simp: create_new_order_def act_bind_Inl Let_def pull_events_pair)
    from abort_law[OF c] s1 Pair Inl show ?thesis by auto
  qed
qed

lemma commit_nothing_returns:
  assumes "ok s" and "capacity_ok (abs s)"
  shows "\<exists>s'. op_commit ops (op_open ops) s = (Inr (), s') \<and> abs s' = abs s \<and> ok s'"
proof -
  have "apply_changes no_changes (abs s) = abs s" by (simp add: apply_changes_def)
  then have "fst (op_commit ops (op_open ops) s) = Inr ()"
    using assms by (intro commit_complete)
      (simp_all add: open_law well_staged_def versions_match_def)
  then show ?thesis
    using commit_nothing[OF assms(1)] by (cases "op_commit ops (op_open ops) s") auto
qed

lemma create_once_existing:
  assumes "ok s" and "capacity_ok (abs s)" and w0: "ds_orders (abs s) (sub_organization_id sub, sub_order_id sub) = Some w0"
    and "wo_public_number w0 \<noteq> []" and c: "wo_create sub n0 st0 = Inr y0"
  shows "\<exists>s'. abs s' = abs s \<and> ok s' \<and> create_order_once ops sub st s =
    (if submission_of sub w0 then Inr w0
     else Inl (ConcurrencyConflict ''work order belongs to a different submission''), s')"
proof -
  obtain e s1 where s1: "create_new_order ops sub st s = (Inl e, s1)" "is_conflict e"
      "abs s1 = abs s" "ok s1"
    using create_new_conflict[OF assms(1) w0 c] by blast
  obtain cand where cand: "wo_create sub (wo_public_number w0) st = Inr cand"
    using wo_create_again[OF c assms(4)] by blast
  have g: "op_get_order ops (sub_organization_id sub) (sub_order_id sub) s1 = Inr w0"
    using s1 w0 by (simp add: read_order)
  obtain s2 where s2: "op_commit ops (op_open ops) s1 = (Inr (), s2)" "abs s2 = abs s1" "ok s2"
    using commit_nothing_returns[OF s1(4)] assms(2) s1(3) by auto
  show ?thesis
    using s1 s2 g cand same_submission_iff[OF cand, of w0]
    by (cases "submission_of sub w0")
      (auto simp: create_order_once_def act_bind_def act_read_def act_lift_def)
qed

end

interpretation async_exact: exact_async_unit_of_work async_ops async_abs "\<lambda>u. u" async_ok
  by unfold_locales

lemma async_reachable_store:
  "async_ok (run_calls (async_exec async_ops) cs empty_store)"
  "dispatch_inv (async_abs (run_calls (async_exec async_ops) cs empty_store))"
  using async_svc.async_reachable[OF async_empty_ok empty_reachable(1)]
  by (auto intro: dispatch_reachable_inv)

lemma mem_reachable_store:
  "mem_ok (run_calls (sync_exec mem_ops) cs empty_store)"
  "dispatch_inv (mem_abs (run_calls (sync_exec mem_ops) cs empty_store))"
  using mem_uow.sync_reachable[OF empty_store_ok empty_reachable(2)]
  by (auto intro: dispatch_reachable_inv)

section \<open>Properties of the state that calls reach\<close>

lemmas demo_store_eval = act_bind_def act_read_def act_lift_def forget_def Let_def async_ops_def
  mem_ops_def create_order_def async_create_order_def create_new_order_def create_order_once_def
  async_allocate_def mem_allocate_def format_order_number_def SHORT_CAPACITY_def
  SHORT_BLOCK_SIZE_def SHORT_BLOCK_COUNT_def str_rjust_def nat_str.simps digit_char_def
  empty_store_def async_save_order_def mem_save_order_def async_add_events_def mem_add_events_def
  no_changes_def async_commit_def mem_commit_def commit_with_def commit_guards_def
  check_collection_versions_def version_error_def async_check_capacity_def mem_check_capacity_def
  wo_create_def work_order_init_def wo_pull_events_def order_snapshot_def mem_write_def
  demo_submission_def demo_stamp_def

text \<open>
  (C9) Refinement: a call of the asynchronous service that raises leaves the orders, the sessions
  and the outbox of the store as they were, and one that returns is a single step of the abstract
  specification or changes nothing.
\<close>

theorem async_service_refines_specification:
  assumes "async_ok s" and "async_exec async_ops c s = (r, s')"
  shows "async_ok s' \<and> (case r of Inl _ \<Rightarrow> async_abs s' = async_abs s
    | Inr _ \<Rightarrow> dispatch_step (async_abs s) (async_abs s') \<or> async_abs s' = async_abs s)"
  using assms by (rule async_svc.async_refines)

theorem async_service_refines_specification_witness:
  "\<exists>s. async_exec async_ops (CreateCall (Some ''o1'') [] demo_submission demo_stamp) empty_store
      = (Inr (), s) \<and> dispatch_step (async_abs empty_store) (async_abs s)"
proof -
  obtain s where s: "async_exec async_ops (CreateCall (Some ''o1'') [] demo_submission demo_stamp)
      empty_store = (Inr (), s)" and n: "ms_outbox s \<noteq> []"
    by (simp add: demo_store_eval wo_record_def)
  from n have "async_abs s \<noteq> async_abs empty_store"
    by (simp add: async_abs_def empty_store_def)
  with async_service_refines_specification[OF async_empty_ok s] s show ?thesis by auto
qed

text \<open>
  Refinement of the synchronous service on its own store: a raising call leaves the orders,
  the sessions and the outbox unchanged, a returning call is one step of the specification.
\<close>

lemma sync_service_refines_specification:
  assumes "mem_ok s" and "sync_exec mem_ops c s = (r, s')"
  shows "mem_ok s' \<and> (case r of Inl _ \<Rightarrow> mem_abs s' = mem_abs s
    | Inr _ \<Rightarrow> dispatch_step (mem_abs s) (mem_abs s'))"
  using assms by (rule mem_uow.sync_refines)

lemma sync_service_refines_specification_witness:
  "\<exists>s. sync_exec mem_ops (CreateCall (Some ''o1'') [] demo_submission demo_stamp) empty_store
      = (Inr (), s) \<and> dispatch_step (mem_abs empty_store) (mem_abs s)"
proof -
  obtain s where s: "sync_exec mem_ops (CreateCall (Some ''o1'') [] demo_submission demo_stamp)
      empty_store = (Inr (), s)"
    by (simp add: demo_store_eval)
  with sync_service_refines_specification[OF empty_store_ok s] show ?thesis by auto
qed

text \<open>
  (C1) After any sequence of calls of either service, no executor of an organization has two
  orders that are assigned, accepted, on the way or in progress.
\<close>

theorem executor_has_one_active_order:
  "distinct (map (\<lambda>w. (wo_organization_id w, wo_assignee_id w)) (filter busy
     (map snd (ms_orders (run_calls (async_exec async_ops) cs empty_store))))) \<and>
   distinct (map (\<lambda>w. (wo_organization_id w, wo_assignee_id w)) (filter busy
     (map snd (ms_orders (run_calls (sync_exec mem_ops) cs' empty_store)))))"
proof
  let ?s = "run_calls (async_exec async_ops) cs empty_store"
  show "distinct (map (\<lambda>w. (wo_organization_id w, wo_assignee_id w)) (filter busy
     (map snd (ms_orders ?s))))"
    using async_reachable_store[of cs] unfolding async_ok_def dispatch_inv_def capacity_ok_def async_abs_def
    by (intro distinct_vals_keyI) auto
next
  let ?s = "run_calls (sync_exec mem_ops) cs' empty_store"
  have ok: "mem_ok ?s" and cap: "capacity_ok (mem_abs ?s)"
    using mem_reachable_store[of cs'] by (simp_all add: dispatch_inv_def)
  show "distinct (map (\<lambda>w. (wo_organization_id w, wo_assignee_id w)) (filter busy
     (map snd (ms_orders ?s))))"
  proof (rule distinct_vals_keyI)
    fix k1 k2 v1 v2
    assume "dict_get k1 (ms_orders ?s) = Some v1" "dict_get k2 (ms_orders ?s) = Some v2" "busy v1" "busy v2"
      "(wo_organization_id v1, wo_assignee_id v1) = (wo_organization_id v2, wo_assignee_id v2)"
    then show "k1 = k2"
      using cap mem_abs_orders[of ?s "wo_organization_id v1"] unfolding capacity_ok_def
      by (metis prod.inject)
  qed (use ok in \<open>simp add: mem_ok_def\<close>)
qed

text \<open>
  (C7) The outbox is complete: after any sequence of calls it holds, for every stored order and
  every stored tracking session, exactly one event for each version from one to the current one,
  in that order.
\<close>

theorem outbox_holds_every_version:
  "let s = run_calls (async_exec async_ops) cs empty_store in
     list_all (\<lambda>(k, w). outbox_versions ''work_order'' k (ms_outbox s) = [1..wo_version w])
       (ms_orders s) \<and>
     list_all (\<lambda>(k, t). outbox_versions ''tracking_session'' k (ms_outbox s) = [1..ts_version t])
       (ms_sessions s)"
proof -
  define s where "s = run_calls (async_exec async_ops) cs empty_store"
  have "async_ok s" and c: "outbox_complete (async_abs s)"
    using async_reachable_store[of cs] by (simp_all add: s_def dispatch_inv_def)
  then have "dict_get k (ms_orders s) = Some w" if "(k, w) \<in> set (ms_orders s)" for k w
    using that by (simp add: async_ok_def dict_get_in)
  moreover have "dict_get k (ms_sessions s) = Some t" if "(k, t) \<in> set (ms_sessions s)" for k t
    using that \<open>async_ok s\<close> by (simp add: async_ok_def dict_get_in)
  ultimately show ?thesis
    using c unfolding Let_def s_def[symmetric]
    by (auto simp: outbox_complete_def order_versions_def session_versions_def async_abs_def
        list_all_iff)
qed

text \<open>
  (C6) Tracking follows the order: after any sequence of calls every active session belongs to
  the assigned executor of an order that is on the way or in progress, and no order has two
  active sessions; so completing or cancelling an order always ends its tracking.
\<close>

theorem tracking_follows_order:
  "let s = run_calls (async_exec async_ops) cs empty_store;
       active = filter (\<lambda>t. ts_status t = TrackActive) (map snd (ms_sessions s))
   in list_all (session_linked (async_abs s)) active \<and>
      distinct (map (\<lambda>t. (ts_organization_id t, ts_work_order_id t)) active)"
proof -
  define s where "s = run_calls (async_exec async_ops) cs empty_store"
  define active where "active = filter (\<lambda>t. ts_status t = TrackActive) (map snd (ms_sessions s))"
  have ok: "async_ok s" and l: "tracking_linked (async_abs s)" and o: "one_session (async_abs s)"
    using async_reachable_store[of cs] by (simp_all add: s_def dispatch_inv_def)
  have get: "dict_get k (ms_sessions s) = Some t \<longleftrightarrow> (k, t) \<in> set (ms_sessions s)" for k t
    using ok by (simp add: async_ok_def dict_get_in)
  have l: "list_all (session_linked (async_abs s)) active"
    using tracking_linkedD[OF l] get by (force simp: active_def list_all_iff async_abs_def)
  have "distinct (map (\<lambda>t. (ts_organization_id t, ts_work_order_id t)) active)"
    unfolding active_def
  proof (rule distinct_vals_keyI)
    fix k1 k2 t1 t2
    assume "dict_get k1 (ms_sessions s) = Some t1" "dict_get k2 (ms_sessions s) = Some t2"
      "ts_status t1 = TrackActive" "ts_status t2 = TrackActive"
      "(ts_organization_id t1, ts_work_order_id t1) = (ts_organization_id t2, ts_work_order_id t2)"
    then show "k1 = k2"
      using one_sessionD[OF o, of k1 t1 k2 t2 "ts_organization_id t1" "ts_work_order_id t1"]
      by (simp add: async_abs_def active_session_of_def)
  qed (use ok in \<open>simp add: async_ok_def\<close>)
  with l show ?thesis by (simp add: Let_def s_def active_def)
qed

lemma run_calls_append: "run_calls f (xs @ ys) s = run_calls f ys (run_calls f xs s)"
  by (induction xs arbitrary: s) auto

lemma create_once_reachable:
  assumes "create_order_once async_ops sub st (run_calls (async_exec async_ops) cs empty_store) = (Inr w, s1)"
  shows "run_calls (async_exec async_ops) cs' s1 =
    run_calls (async_exec async_ops) (cs @ CreateOnceCall sub st # cs') empty_store"
  using assms by (simp add: run_calls_append forget_def act_bind_def act_lift_def)

lemma create_new_stored:
  assumes "async_ok s" and "create_new_order async_ops sub st s = (Inr w, s1)" and "json_wf (JObj (sub_details sub))"
  shows "(\<exists>n y. wo_create sub n st = Inr y) \<and>
    ds_orders (async_abs s1) (sub_organization_id sub, sub_order_id sub) = Some w \<and> submission_of sub w"
proof -
  from async_exact.create_new_returns[OF assms(1,2)]
  obtain n y where y: "wo_create sub n st = Inr y" "w = order_snapshot y"
      "ds_orders (async_abs s1) (sub_organization_id sub, sub_order_id sub) = Some w" by auto
  moreover have "submission_of sub w"
    using y(2) wo_create_fields[OF y(1)] details_eq_refl[OF assms(3)] by (simp add: submission_of_def)
  ultimately show ?thesis by blast
qed

lemma create_once_stored:
  assumes ok: "async_ok s" and c: "create_order_once async_ops sub st s = (Inr w, s1)"
    and wf: "json_wf (JObj (sub_details sub))"
  shows "(\<exists>n y. wo_create sub n st = Inr y) \<and>
    ds_orders (async_abs s1) (sub_organization_id sub, sub_order_id sub) = Some w \<and> submission_of sub w"
proof (cases "create_new_order async_ops sub st s")
  case (Pair r s')
  show ?thesis
  proof (cases r)
    case (Inr w')
    with Pair c have "create_new_order async_ops sub st s = (Inr w, s1)"
      by (auto simp: create_order_once_def)
    then show ?thesis by (rule create_new_stored[OF ok _ wf])
  next
    case (Inl e)
    then obtain cand where e: "op_get_order async_ops (sub_organization_id sub) (sub_order_id sub) s' = Inr w"
        "wo_create sub (wo_public_number w) st = Inr cand" "same_submission w cand"
        "op_commit async_ops (op_open async_ops) s' = (Inr (), s1)"
      using Pair c by (auto simp: create_order_once_def split: if_splits)
    have s': "async_ok s'" using async_uow.create_error[OF ok] Pair Inl by auto
    then show ?thesis
      using e async_uow.commit_nothing[OF s' e(4)] same_submission_iff[OF e(2)]
      by (auto simp: async_uow.read_order)
  qed
qed

text \<open>
  (C8) Creating one logical submission again never creates a second order: after the first call
  returned, and after any other calls, repeating the submission returns the order that is stored
  under its identifiers at that moment, whatever became of it since, which has the public number of
  the first answer; and it changes neither orders nor sessions nor outbox. The details of the
  submission are JSON in which a comparison is reliable: no NaN and no repeated keys (json_wf).
\<close>

theorem create_once_is_idempotent:
  assumes "create_order_once async_ops sub st (run_calls (async_exec async_ops) cs empty_store)
      = (Inr w, s1)"
    and "json_wf (JObj (sub_details sub))"
  shows "\<exists>w' s3. create_order_once async_ops sub st' (run_calls (async_exec async_ops) cs' s1)
      = (Inr w', s3) \<and>
    ds_orders (async_abs (run_calls (async_exec async_ops) cs' s1)) (sub_organization_id sub, sub_order_id sub) = Some w' \<and>
    order_key w' = order_key w \<and> wo_public_number w' = wo_public_number w \<and>
    async_abs s3 = async_abs (run_calls (async_exec async_ops) cs' s1)"
proof -
  let ?s2 = "run_calls (async_exec async_ops) cs' s1"
  let ?k = "(sub_organization_id sub, sub_order_id sub)"
  note run = create_once_reachable[OF assms(1)]
  have ok1: "async_ok s1" using async_reachable_store(1) run[of "[]"] by simp
  from create_once_stored[OF async_reachable_store(1) assms] obtain n y where
    y: "wo_create sub n st = Inr y" and stored: "ds_orders (async_abs s1) ?k = Some w" "submission_of sub w" by blast
  obtain w2 where w2: "ds_orders (async_abs ?s2) ?k = Some w2" "evolves w w2" "async_ok ?s2"
    using async_svc.run_evolves[OF ok1, of ?k w cs'] stored by blast
  have inv2: "dispatch_inv (async_abs ?s2)" unfolding run by (rule async_reachable_store)
  have "wo_reachable w2"
    using inv2 w2(1) unfolding dispatch_inv_def aggregates_reachable_def by metis
  then have num: "wo_public_number w2 \<noteq> []"
    using wo_reachable_inv by (simp add: wo_inv_def inv_fields_def)
  have sub: "submission_of sub w2" using submission_evolves stored w2(2) by blast
  from async_exact.create_once_existing[OF w2(3) _ w2(1) num y, of st'] inv2 sub
  obtain s3 where "create_order_once async_ops sub st' ?s2 = (Inr w2, s3)" "async_abs s3 = async_abs ?s2"
    by (auto simp: dispatch_inv_def)
  then show ?thesis using w2(1,2) by (auto simp: evolves_def same_intent_def)
qed

theorem create_once_is_idempotent_witness:
  "\<exists>w s1 w' s3. create_order_once async_ops demo_submission demo_stamp empty_store = (Inr w, s1) \<and>
     create_order_once async_ops demo_submission demo_stamp s1 = (Inr w', s3) \<and>
     wo_public_number w' = wo_public_number w \<and> ms_outbox s3 = ms_outbox s1"
proof -
  obtain w s1 where s1: "create_order_once async_ops demo_submission demo_stamp
      (run_calls (async_exec async_ops) [] empty_store) = (Inr w, s1)"
    by (simp add: demo_store_eval)
  have "json_wf (JObj (sub_details demo_submission))" by (simp add: demo_submission_def)
  from create_once_is_idempotent[OF s1 this, of demo_stamp "[]"] s1 show ?thesis
    by (auto simp: async_abs_def)
qed

end
