(* ===== verification/Service_Concurrency.thy ===== *)
theory Service_Concurrency
  imports Service_Properties
begin

text \<open>
  Interleaved callers of the asynchronous service: a transition system whose state is the store
  and the changes that are waiting to commit, and the proof that optimistic versioning makes every
  committed change equal to an undisturbed call.
\<close>

section \<open>Concurrent callers\<close>

text \<open>
  Callers interleave: one opens a unit of work and reads the order, others commit, and only then
  does it change its copy and commit. \<open>finish_change\<close> is the part of \<^const>\<open>change_order\<close> after
  the read; a pending change keeps the order it has read.
\<close>

definition finish_change ::
  "('s, 'u, 'z) uow_ops_scheme \<Rightarrow> (work_order \<Rightarrow> work_order result) \<Rightarrow> work_order \<Rightarrow>
   ('s, work_order) action" where
  "finish_change ops change w0 =
     act_bind (act_lift (change w0)) (\<lambda>w.
       let u1 = op_save_order ops w (Some (wo_version w0)) (op_open ops);
           (events, w') = wo_pull_events w;
           u2 = op_add_events ops events u1
       in act_bind (op_commit ops u2) (\<lambda>_. act_lift (Inr w')))"

lemma change_order_split:
  "change_order ops org oid change =
     act_bind (act_read (op_get_order ops org oid)) (finish_change ops change)"
  by (simp add: change_order_def finish_change_def[abs_def])

type_synonym pending = "work_order \<times> wo_command \<times> stamp"

inductive world_step ::
  "async_store \<times> pending list \<Rightarrow> async_store \<times> pending list \<Rightarrow> bool" where
  read: "\<lbrakk>op_get_order async_ops org oid s = Inr w0; plain_command c\<rbrakk> \<Longrightarrow>
      world_step (s, ps) (s, (w0, c, st) # ps)"
| finish: "\<lbrakk>(w0, c, st) \<in> set ps; finish_change async_ops (wo_exec c st) w0 s = (r, s')\<rbrakk> \<Longrightarrow>
      world_step (s, ps) (s', remove1 (w0, c, st) ps)"
| call: "async_exec async_ops c s = (r, s') \<Longrightarrow> world_step (s, ps) (s', ps)"

inductive world_reachable :: "async_store \<times> pending list \<Rightarrow> bool" where
  init: "world_reachable (empty_store, [])"
| step: "world_reachable a \<Longrightarrow> world_step a b \<Longrightarrow> world_reachable b"

definition pending_ok :: "async_store \<Rightarrow> pending \<Rightarrow> bool" where
  "pending_ok s p = (case p of (w0, c, st) \<Rightarrow> plain_command c \<and>
     (\<exists>w. ds_orders (async_abs s) (order_key w0) = Some w \<and> evolves w0 w))"

definition world_ok :: "async_store \<times> pending list \<Rightarrow> bool" where
  "world_ok a = (case a of (s, ps) \<Rightarrow> async_ok s \<and> dispatch_reachable (async_abs s) \<and>
     list_all (pending_ok s) ps)"

lemma finish_as_change:
  assumes "async_ok s" and "pending_ok s (w0, c, st)"
    and "finish_change async_ops (wo_exec c st) w0 s = (Inr w', s')"
  shows "ds_orders (async_abs s) (order_key w0) = Some w0 \<and>
    change_order async_ops (wo_organization_id w0) (wo_id w0) (wo_exec c st) s = (Inr w', s')"
proof -
  obtain cur where cur: "ds_orders (async_abs s) (order_key w0) = Some cur" "evolves w0 cur"
    using assms(2) by (auto simp: pending_ok_def)
  obtain w where w: "wo_exec c st w0 = Inr w"
    and com: "op_commit async_ops (op_add_events async_ops (wo_events w)
      (op_save_order async_ops w (Some (wo_version w0)) (op_open async_ops))) s = (Inr (), s')"
    using assms(3) by (auto simp: finish_change_def Let_def pull_events_pair)
  have k: "order_key w = order_key w0"
    using wo_exec_identity[OF w] by (simp add: order_key_def)
  from async_uow.commit_order[OF assms(1) com] cur k
  have "wo_version cur = wo_version w0" by simp
  then have same: "cur = w0" using cur(2) by (simp add: evolves_def)
  then have "op_get_order async_ops (wo_organization_id w0) (wo_id w0) s = Inr w0"
    using cur async_uow.read_order[OF assms(1)] by (simp add: order_key_def)
  with assms(3) cur same show ?thesis
    by (simp add: change_order_split act_bind_def act_read_def)
qed

lemma finish_error_keeps: "finish_change async_ops f w0 s = (Inl e, s') \<Longrightarrow> s' = s"
  by (auto simp: finish_change_def act_bind_Inl Let_def pull_events_pair dest: async_uow.abort_law)

lemma pending_ok_step:
  assumes "pending_ok s p" and "async_ok s"
    and "dispatch_step (async_abs s) (async_abs s') \<or> async_abs s' = async_abs s"
  shows "pending_ok s' p"
proof -
  obtain w0 c st where p: "p = (w0, c, st)" by (cases p)
  obtain w where w: "ds_orders (async_abs s) (order_key w0) = Some w" "evolves w0 w" "plain_command c"
    using assms(1) by (auto simp: pending_ok_def p)
  have "\<exists>w'. ds_orders (async_abs s') (order_key w0) = Some w' \<and> evolves w w'"
    using assms(3) w(1) dispatch_step_evolves[OF _ async_uow.keyed_law[OF assms(2)] w(1)] by auto
  then show ?thesis using w evolves_trans by (fastforce simp: pending_ok_def p)
qed

lemma world_ok_move:
  assumes "world_ok (s, ps)" and "async_ok s'" and "set ps' \<subseteq> set ps"
    and "dispatch_step (async_abs s) (async_abs s') \<or> async_abs s' = async_abs s"
  shows "world_ok (s', ps')"
  using assms pending_ok_step[OF _ _ assms(4)]
  by (auto simp: world_ok_def list_all_iff intro: dispatch_reachable.step)

lemma world_ok_step: "world_step a b \<Longrightarrow> world_ok a \<Longrightarrow> world_ok b"
proof (induction rule: world_step.induct)
  case (read org oid s w0 c ps st)
  then have "async_ok s" by (simp add: world_ok_def)
  then have w0: "ds_orders (async_abs s) (org, oid) = Some w0"
    using read.hyps(1) async_uow.read_order by simp
  have "order_key w0 = (org, oid)"
    using keyed_order[OF async_uow.keyed_law[OF \<open>async_ok s\<close>] w0] by simp
  with read w0 show ?case by (simp add: world_ok_def pending_ok_def)
next
  case (finish w0 c st ps s r s')
  have ok: "async_ok s" and p: "pending_ok s (w0, c, st)"
    using finish by (auto simp: world_ok_def list_all_iff)
  have sub: "set (remove1 (w0, c, st) ps) \<subseteq> set ps" by (rule set_remove1_subset)
  show ?case
  proof (cases r)
    case (Inl e)
    then have "s' = s" using finish.hyps(2) finish_error_keeps by auto
    with world_ok_move[OF finish.prems ok sub] show ?thesis by simp
  next
    case (Inr w)
    from finish_as_change[OF ok p] finish.hyps(2) Inr
    have "change_order async_ops (wo_organization_id w0) (wo_id w0) (wo_exec c st) s = (Inr w, s')" by simp
    from async_uow.change_order_step[OF ok this] p
    have "dispatch_step (async_abs s) (async_abs s') \<and> async_ok s'" by (simp add: pending_ok_def)
    with world_ok_move[OF finish.prems _ sub] show ?thesis by blast
  qed
next
  case (call c s r s' ps)
  then have ok: "async_ok s" by (simp add: world_ok_def)
  from async_svc.async_refines[OF ok call.hyps] world_ok_move[OF call.prems] show ?case
    by (auto split: sum.splits)
qed

lemma world_reachable_ok: "world_reachable a \<Longrightarrow> world_ok a"
proof (induction rule: world_reachable.induct)
  case init
  then show ?case using empty_reachable by (simp add: world_ok_def)
next
  case (step a b)
  then show ?case using world_ok_step by blast
qed

section \<open>Properties\<close>

text \<open>
  (C2) No lost update: whatever other callers did between the read and the commit of a change, if
  the commit succeeds then nobody had changed the order, and the effect and the result are those
  of the whole call run alone at that moment; if the order was changed, the commit raises, and a
  raising commit changes nothing.
\<close>

theorem concurrent_changes_serialize:
  assumes "world_reachable (s, ps)" and "(w0, c, st) \<in> set ps"
    and "finish_change async_ops (wo_exec c st) w0 s = (r, s')"
  shows "(case r of
      Inl _ \<Rightarrow> s' = s
    | Inr w \<Rightarrow> change_order async_ops (wo_organization_id w0) (wo_id w0) (wo_exec c st) s = (Inr w, s')) \<and>
    (r = Inr w \<longrightarrow> dict_get (order_key w0) (ms_orders s) = Some w0)"
proof -
  have ok: "async_ok s" and p: "pending_ok s (w0, c, st)"
    using world_reachable_ok[OF assms(1)] assms(2) by (auto simp: world_ok_def list_all_iff)
  show ?thesis
    using finish_as_change[OF ok p] finish_error_keeps assms(3)
    by (auto split: sum.splits simp: async_abs_def)
qed

theorem concurrent_changes_serialize_witness:
  "\<exists>s w0 s1 s2 w e. world_reachable (s, [(w0, PublishPool CURATED None, demo_stamp), (w0, Assign ''m1'' None, demo_stamp)]) \<and>
     finish_change async_ops (wo_exec (PublishPool CURATED None) demo_stamp) w0 s = (Inr w, s1) \<and>
     change_order async_ops (wo_organization_id w0) (wo_id w0) (wo_exec (PublishPool CURATED None) demo_stamp) s = (Inr w, s1) \<and>
     finish_change async_ops (wo_exec (Assign ''m1'' None) demo_stamp) w0 s1 = (Inl e, s2)"
proof -
  obtain s where s: "async_exec async_ops (CreateCall (Some ''o1'') [] demo_submission demo_stamp)
      empty_store = (Inr (), s)" by (simp add: demo_store_eval)
  obtain w0 s1 s2 w e where w0: "op_get_order async_ops ''acme'' ''o1'' s = Inr w0"
      and f: "finish_change async_ops (wo_exec (PublishPool CURATED None) demo_stamp) w0 s = (Inr w, s1)"
      and g: "finish_change async_ops (wo_exec (Assign ''m1'' None) demo_stamp) w0 s1 = (Inl e, s2)"
    using s by (fastforce simp: demo_store_eval demo_eval finish_change_def async_get_order_def)
  have "world_reachable (s, [])"
    by (rule world_reachable.step[OF world_reachable.init world_step.call[OF s]])
  from world_reachable.step[OF this world_step.read[OF w0, of "Assign ''m1'' None" "[]" demo_stamp]]
  have "world_reachable (s, [(w0, Assign ''m1'' None, demo_stamp)])" by simp
  from world_reachable.step[OF this world_step.read[OF w0, of "PublishPool CURATED None" _ demo_stamp]]
  have r: "world_reachable (s, [(w0, PublishPool CURATED None, demo_stamp), (w0, Assign ''m1'' None, demo_stamp)])"
    by simp
  from concurrent_changes_serialize[OF r _ f] r f g show ?thesis by fastforce
qed

end
