(* ===== verification/Store_Differences.thy ===== *)
theory Store_Differences
  imports Service_Properties
begin

text \<open>
  The commit of the asynchronous store characterised exactly, and the two places where the
  synchronous implementation behaves differently: organizations that share identifiers, and late
  locations.
\<close>

section \<open>Where the two implementations differ\<close>

definition busy_order :: "string \<Rightarrow> string \<Rightarrow> string \<Rightarrow> work_order" where
  "busy_order org oid executor = demo_order\<lparr>wo_organization_id := org, wo_id := oid,
     wo_status := ASSIGNED, wo_assignee_id := Some executor, wo_version := 2, wo_events := []\<rparr>"

lemma busy_order_sel [simp]:
  "wo_organization_id (busy_order org oid x) = org" "wo_id (busy_order org oid x) = oid"
  "wo_status (busy_order org oid x) = ASSIGNED" "wo_assignee_id (busy_order org oid x) = Some x"
  "wo_version (busy_order org oid x) = 2" "wo_events (busy_order org oid x) = []"
  by (simp_all add: busy_order_def)

definition one_order :: "work_order \<Rightarrow> string mem_store" where
  "one_order w = empty_store\<lparr>ms_orders := [(wo_id w, w)]\<rparr>"

definition one_new :: "work_order \<Rightarrow> string staged" where
  "one_new w = no_changes\<lparr>sg_orders := [(wo_id w, w, None)]\<rparr>"

lemmas collision_eval = one_order_def one_new_def empty_store_def no_changes_def mem_ok_def mem_changes_def
  well_staged_def versions_match_def mem_abs_def order_key_def apply_changes_def capacity_ok_def
  mem_commit_def commit_with_def commit_guards_def check_collection_versions_def version_error_def
  mem_check_capacity_def mem_executor_key_def check_def

text \<open>
  The asynchronous store is exact: a commit succeeds if and only if every staged aggregate
  still has the version it was read at and no executor of an organization would have two active
  orders.
\<close>

lemma async_commit_exact:
  assumes "async_ok s" and "well_staged u (async_abs s)"
  shows "fst (async_commit u s) = Inr () \<longleftrightarrow>
    versions_match u (async_abs s) \<and> capacity_ok (apply_changes u (async_abs s))"
proof -
  obtain r s' where c: "op_commit async_ops u s = (r, s')" by (cases "op_commit async_ops u s")
  then show ?thesis
    using assms async_uow.commit_complete[of s u] async_uow.commit_law[of s u s']
    by (cases r) (auto simp: async_ops_def)
qed

lemma async_commit_exact_witness:
  "fst (async_commit (no_changes\<lparr>sg_orders := [((''a'', ''o2''), busy_order ''a'' ''o2'' ''b:c'', None)]\<rparr>)
     (empty_store\<lparr>ms_orders := [((''a:b'', ''o1''), busy_order ''a:b'' ''o1'' ''c'')]\<rparr>)) = Inr ()"
  by (subst async_commit_exact)
    (auto simp: async_ok_def dict_ok_def empty_store_def no_changes_def well_staged_def order_key_def
      versions_match_def async_abs_def capacity_ok_def apply_changes_def split: if_splits)

text \<open>
  Both refusals on two orders: the versions match and no executor would be overbooked, and yet the
  synchronous store refuses the order of the second organization.
\<close>

lemma sync_refusals_without_conflict:
  "(let s = one_order (busy_order ''a:b'' ''o1'' ''c''); u = one_new (busy_order ''a'' ''o2'' ''b:c'')
    in mem_ok s \<and> versions_match (mem_changes u) (mem_abs s) \<and>
       capacity_ok (apply_changes (mem_changes u) (mem_abs s)) \<and>
       mem_commit u s =
         (Inl (ConcurrencyConflict ''executor already has another active work order''), s)) \<and>
   (let s = one_order (busy_order ''b'' ''o1'' ''y''); u = one_new (busy_order ''a'' ''o1'' ''x'')
    in mem_ok s \<and> versions_match (mem_changes u) (mem_abs s) \<and>
       capacity_ok (apply_changes (mem_changes u) (mem_abs s)) \<and>
       mem_commit u s = (Inl (ConcurrencyConflict ''aggregate already exists''), s))"
  unfolding Let_def
  by (intro conjI) (auto simp: collision_eval dict_ok_def busy_def split: if_splits)

text \<open>
  The capacity check of the synchronous store compares joined texts. It is an invariant of that
  store: the laws of a unit of work hold for the store with it, too.
\<close>

definition joined_ok :: "string mem_store \<Rightarrow> bool" where
  "joined_ok s \<longleftrightarrow> mem_ok s \<and> capacity_scan mem_executor_key (map snd (ms_orders s)) [] = None"

lemma mem_commit_joined:
  assumes "joined_ok s" "well_staged (mem_changes u) (mem_abs s)" "op_commit mem_ops u s = (Inr (), s')"
  shows "versions_match (mem_changes u) (mem_abs s) \<and> mem_abs s' = apply_changes (mem_changes u) (mem_abs s) \<and>
    joined_ok s' \<and> capacity_ok (mem_abs s')"
proof -
  have "mem_check_capacity s u = None" "s' = mem_write u s"
    using assms(3) by (auto simp: mem_ops_def mem_commit_def commit_with_Inr commit_guards_def)
  then have "capacity_scan mem_executor_key (map snd (ms_orders s')) [] = None"
    by (simp add: mem_check_capacity_def mem_write_def)
  moreover have "mem_ok s" using assms(1) by (simp add: joined_ok_def)
  ultimately show ?thesis using mem_uow.commit_law[OF _ assms(2,3)] unfolding joined_ok_def by blast
qed

interpretation mem_joined: unit_of_work mem_ops mem_abs mem_changes joined_ok
proof
  show "mem_abs s' = mem_abs s \<and> joined_ok s'" if "joined_ok s" "op_allocate mem_ops org s = (n, s')" for s org n s'
    using that mem_uow.allocate_law[of s org n s']
    by (auto simp: joined_ok_def mem_ops_def mem_allocate_def Let_def)
  show "op_commit mem_ops u s = (Inl e, s') \<Longrightarrow> s' = s \<and> is_conflict e" for u s e s'
    by (rule mem_uow.abort_law)
  show "joined_ok s \<Longrightarrow> well_staged (mem_changes u) (mem_abs s) \<Longrightarrow> op_commit mem_ops u s = (Inr (), s') \<Longrightarrow>
      versions_match (mem_changes u) (mem_abs s) \<and> mem_abs s' = apply_changes (mem_changes u) (mem_abs s) \<and>
      joined_ok s' \<and> capacity_ok (mem_abs s')" for s u s'
    by (rule mem_commit_joined)
  show "joined_ok s \<Longrightarrow> op_find_active mem_ops org oid s = Inr r \<Longrightarrow>
      {x. ds_sessions (mem_abs s) (session_key x) = Some x \<and> active_session_of org oid x} = set_option r" for s org oid r
    using mem_uow.find_active_law by (simp add: joined_ok_def)
  show "joined_ok s \<Longrightarrow> op_find_active mem_ops org oid s = Inl e \<Longrightarrow>
      \<exists>x y. ds_sessions (mem_abs s) (session_key x) = Some x \<and> ds_sessions (mem_abs s) (session_key y) = Some y \<and>
        active_session_of org oid x \<and> active_session_of org oid y \<and> session_key x \<noteq> session_key y" for s org oid e
    using mem_uow.find_active_total by (simp add: joined_ok_def)
qed (simp_all add: joined_ok_def mem_uow.open_law mem_uow.save_order_law mem_uow.save_session_law mem_uow.add_events_law
    mem_uow.get_order_law mem_uow.get_session_law mem_uow.keyed_law)

lemma joined_reachable: "joined_ok (run_calls (sync_exec mem_ops) cs empty_store)"
proof -
  have "joined_ok empty_store" by (simp add: joined_ok_def empty_store_ok) (simp add: empty_store_def)
  with mem_joined.sync_reachable[OF this empty_reachable(2)] show ?thesis by blast
qed

context unit_of_work
begin

lemma sync_order_stays:
  assumes "ok s" and "ds_orders (abs s) k = Some w"
  shows "\<exists>w'. ds_orders (abs (run_calls (sync_exec ops) cs s)) k = Some w'"
  using assms
proof (induction cs arbitrary: s w)
  case (Cons c cs)
  obtain r s' where e: "sync_exec ops c s = (r, s')" by (cases "sync_exec ops c s")
  from sync_refines[OF Cons.prems(1) e] have "ok s'" "dispatch_step (abs s) (abs s') \<or> abs s' = abs s"
    by (auto split: sum.splits)
  with dispatch_step_evolves[OF _ keyed_law[OF Cons.prems(1)] Cons.prems(2)] Cons e show ?case by auto
qed simp

end

text \<open>
  (C23) The synchronous store does not keep organizations apart, whatever calls of its service came
  before. Two orders in work never have executors whose organization and name read the same once
  both are joined with a colon, be they of different organizations. And an identifier under which
  one organization has created an order is lost to every other organization for ever: it reads no
  order under it, and creating one (a number was drawn, and the domain accepts the submission) is
  refused as already existing and changes neither orders nor sessions nor outbox.
\<close>

theorem sync_store_mixes_organizations:
  assumes "dict_get oid (ms_orders (run_calls (sync_exec mem_ops) cs empty_store)) = Some w"
    and "org \<noteq> wo_organization_id w" "sub_organization_id sub = org" "sub_order_id sub = oid"
    and "s = run_calls (sync_exec mem_ops) (cs @ cs') empty_store"
    and "mem_allocate org s = (Inr n, s1)" "wo_create sub n st = Inr y"
  shows "distinct (map (\<lambda>v. wo_organization_id v @ '':'' @ the (wo_assignee_id v)) (filter busy (map snd (ms_orders s)))) \<and>
    mem_get_order org oid s = Inl (NotFound ''work order'' oid) \<and>
    create_new_order mem_ops sub st s = (Inl (ConcurrencyConflict ''aggregate already exists''), s1) \<and>
    mem_abs s1 = mem_abs s"
proof -
  let ?s0 = "run_calls (sync_exec mem_ops) cs empty_store"
  have s: "s = run_calls (sync_exec mem_ops) cs' ?s0" by (simp add: assms(5) run_calls_append)
  have "ds_orders (mem_abs ?s0) (wo_organization_id w, oid) = Some w" using assms(1) by (simp add: mem_abs_orders)
  from mem_uow.sync_order_stays[OF mem_reachable_store(1) this, of cs'] obtain w' where
    w': "dict_get oid (ms_orders s) = Some w'" "wo_organization_id w' = wo_organization_id w"
    by (auto simp: s mem_abs_orders)
  have get: "mem_get_order org oid s = Inl (NotFound ''work order'' oid)"
    using w' assms(2) by (simp add: mem_get_order_def)
  have busy: "map mem_executor_key (filter busy vs) =
      map (\<lambda>v. wo_organization_id v @ '':'' @ the (wo_assignee_id v)) (filter busy vs)" for vs
    by (auto simp: mem_executor_key_def busy_def)
  have dist: "distinct (map mem_executor_key (filter busy (map snd (ms_orders s))))"
    using joined_reachable[of "cs @ cs'"] by (simp add: joined_ok_def capacity_scan_None assms(5))
  have s1: "ms_orders s1 = ms_orders s" "mem_abs s1 = mem_abs s"
    using assms(6) by (auto simp: mem_allocate_def mem_abs_def Let_def)
  have y: "wo_id y = oid" using wo_create_fields[OF assms(7)] assms(4) by (simp add: order_key_def)
  have "create_new_order mem_ops sub st s = (Inl (ConcurrencyConflict ''aggregate already exists''), s1)"
    using assms(3,6,7) w'(1) y
    by (simp add: create_new_order_def act_bind_def act_lift_def mem_ops_def pull_events_pair mem_commit_def commit_with_def
        commit_guards_def check_collection_versions_def version_error_def mem_save_order_def mem_add_events_def check_def s1)
  with get dist s1(2) show ?thesis by (simp only: busy simp_thms)
qed


theorem sync_store_mixes_organizations_witness:
  "\<exists>s s1 n. s = run_calls (sync_exec mem_ops) [CreateCall (Some ''o1'') [] demo_submission demo_stamp] empty_store \<and>
     mem_allocate ''other'' s = (Inr n, s1) \<and>
     create_new_order mem_ops (demo_submission\<lparr>sub_organization_id := ''other'', sub_order_id := ''o1''\<rparr>) demo_stamp s =
       (Inl (ConcurrencyConflict ''aggregate already exists''), s1)"
proof -
  let ?sub = "demo_submission\<lparr>sub_organization_id := ''other'', sub_order_id := ''o1''\<rparr>"
  let ?cs = "[CreateCall (Some ''o1'') [] demo_submission demo_stamp]"
  obtain w where w: "dict_get ''o1'' (ms_orders (run_calls (sync_exec mem_ops) ?cs empty_store)) = Some w"
    "''other'' \<noteq> wo_organization_id w"
    by (simp add: demo_store_eval)
  obtain n s1 y where n: "mem_allocate ''other'' (run_calls (sync_exec mem_ops) (?cs @ []) empty_store) = (Inr n, s1)"
    "wo_create ?sub n demo_stamp = Inr y"
    by (simp add: demo_store_eval)
  from sync_store_mixes_organizations[OF w _ _ refl n] n(1) show ?thesis by auto
qed

text \<open>
  A location that was captured before the latest recorded point, while the server's clock is
  also behind that point, is recorded by the asynchronous service at the latest point's instant;
  the synchronous service raises.
\<close>

lemma late_location:
  assumes "async_ok s" and "capacity_ok (async_abs s)"
    and x: "dict_get (org, loc_session_id r) (ms_sessions s) = Some x"
    and "ts_executor_id x = loc_executor_id r" and "ts_status x = TrackActive"
    and "ts_points x \<noteq> []" and "captured_or_now r (st_now st) < tp_captured_at (last (ts_points x))"
    and "st_now st < tp_captured_at (last (ts_points x))"
    and "report_point r 0 0 = Inr p" and "loc_source_event_id r = None"
  shows "record_location async_ops org r st s =
      (Inl (ValueError ''tracking points must be ordered by capture time''), s) \<and>
    (\<exists>x' s'. async_record_location async_ops org r st s = (Inr x', s') \<and>
       length (ts_points x') = Suc (length (ts_points x)) \<and>
       tp_captured_at (last (ts_points x')) = tp_captured_at (last (ts_points x)))"
proof -
  let ?latest = "tp_captured_at (last (ts_points x))"
  have rp: "\<exists>q. report_point r t (st_now st) = Inr q \<and> tp_captured_at q = t \<and> tp_source_event_id q = None" for t
    using assms(9,10) by (auto simp: report_point_def make_point_def point_guards_def)
  have get: "op_get_session async_ops org (loc_session_id r) s = Inr x"
    using x by (simp add: async_ops_def async_get_session_def)
  obtain q where q: "report_point r (st_now st) (st_now st) = Inr q" "tp_captured_at q = st_now st"
      "tp_source_event_id q = None" using rp by blast
  have sync: "record_location async_ops org r st s =
      (Inl (ValueError ''tracking points must be ordered by capture time''), s)"
    using assms q get
    by (simp add: record_location_def act_bind_def act_read_def act_lift_def require_session_executor_def
        save_point_def observed_sync_def latest_point_def add_point_def require_active_def check_def)
  obtain q' where q': "report_point r ?latest (st_now st) = Inr q'" "tp_captured_at q' = ?latest"
      "tp_source_event_id q' = None" using rp by blast
  obtain y where y: "add_point q' (st_event_id st) x = Inr y" "ts_points y = ts_points x @ [q']"
    using assms q' by (simp add: add_point_def require_active_def)
  let ?u = "op_add_events async_ops (ts_events y) (op_save_session async_ops y (Some (ts_version x)) (op_open async_ops))"
  have u: "?u = \<lparr>sg_orders = [], sg_sessions = [(session_key y, session_snapshot y, Some (ts_version x))],
      sg_events = ts_events y\<rparr>"
    by (simp add: async_uow.add_events_law async_uow.save_session_law async_uow.open_law no_changes_def)
  have key: "session_key y = (org, loc_session_id r)"
    using ts_exec_identity[of "AddPoint q' (st_event_id st)" x y] y async_ok_entry(2)[OF assms(1) x]
    by (simp add: session_key_def)
  have "fst (op_commit async_ops ?u s) = Inr ()"
    using assms(1,2) x key unfolding u
    by (intro async_uow.commit_complete)
      (simp_all add: well_staged_def versions_match_def async_abs_def apply_changes_def capacity_ok_def)
  then obtain s' where "op_commit async_ops ?u s = (Inr (), s')"
    by (cases "op_commit async_ops ?u s") auto
  then have "async_record_location async_ops org r st s = (Inr (session_snapshot y), s')"
    using assms q' get y
    by (simp add: async_record_location_def act_bind_def act_read_def act_lift_def
        require_session_executor_def save_point_def observed_async_def latest_point_def
        pull_events_pair)
  with sync y q' show ?thesis by simp
qed

lemma late_location_witness:
  "\<exists>r s e. fst (record_location async_ops ''acme'' r \<lparr>st_now = 50, st_event_id = ''e''\<rparr> s) = Inl e \<and>
     (\<exists>x s'. async_record_location async_ops ''acme'' r \<lparr>st_now = 50, st_event_id = ''e''\<rparr> s = (Inr x, s'))"
proof -
  define r where "r = \<lparr>loc_executor_id = ''m1'', loc_session_id = ''s1'', loc_latitude = Finite 55,
    loc_longitude = Finite 37, loc_source = FromWeb, loc_captured_at = Some 40,
    loc_accuracy_m = None, loc_source_event_id = None\<rparr>"
  define x where "x = demo_session\<lparr>ts_points := [demo_point 70 ''p''], ts_point_count := 1, ts_events := []\<rparr>"
  define s :: async_store where "s = empty_store\<lparr>ms_sessions := [((''acme'', ''s1''), x)]\<rparr>"
  have ok: "async_ok s" "capacity_ok (async_abs s)"
    by (simp_all add: s_def x_def async_ok_def empty_store_def session_key_def demo_session_def
        capacity_ok_def async_abs_def dict_ok_def)
  have x: "dict_get (''acme'', loc_session_id r) (ms_sessions s) = Some x"
    "ts_executor_id x = loc_executor_id r" "ts_status x = TrackActive" "ts_points x \<noteq> []"
    by (simp_all add: s_def x_def r_def demo_session_def)
  have t: "captured_or_now r 50 < tp_captured_at (last (ts_points x))"
    "50 < tp_captured_at (last (ts_points x))" "loc_source_event_id r = None"
    by (simp_all add: x_def r_def demo_point_def captured_or_now_def)
  obtain p where p: "report_point r 0 0 = Inr p"
    by (simp add: r_def report_point_def make_point_def point_guards_def)
  from late_location[OF ok x, of "\<lparr>st_now = 50, st_event_id = ''e''\<rparr>" p] t p
  have "record_location async_ops ''acme'' r \<lparr>st_now = 50, st_event_id = ''e''\<rparr> s =
      (Inl (ValueError ''tracking points must be ordered by capture time''), s)"
    and "\<exists>x s'. async_record_location async_ops ''acme'' r \<lparr>st_now = 50, st_event_id = ''e''\<rparr> s = (Inr x, s')"
    by auto
  then show ?thesis by (metis fst_conv)
qed

end
