(* ===== verification/Api_Auth.thy ===== *)
theory Api_Auth
  imports Tokens
begin

text \<open>
  Authentication of the HTTP interface (\<open>api/app.py\<close>): the sliding window of failed attempts for
  each client address, the administrator's key, and the executor's bearer token with its lookup in
  the identity store. An answer is an HTTP status or an exception of the program.
\<close>

datatype auth_error = HttpStatus int | Raised py_error

type_synonym buckets = "(string, instant list) dict"

definition AUTH_WINDOW :: int where "AUTH_WINDOW = 60 * 1000000"
definition AUTH_MAX_ATTEMPTS :: nat where "AUTH_MAX_ATTEMPTS = 10"
definition RATE_LIMIT_BUCKET_CAP :: nat where "RATE_LIMIT_BUCKET_CAP = 10000"

definition bucket :: "string \<Rightarrow> buckets \<Rightarrow> instant list" where
  "bucket key b = (case dict_get key b of None \<Rightarrow> [] | Some ts \<Rightarrow> ts)"

definition evict :: "instant \<Rightarrow> int \<Rightarrow> buckets \<Rightarrow> buckets" where
  "evict now window b =
     (if length b > RATE_LIMIT_BUCKET_CAP
      then (let kept = filter (\<lambda>(_, ts). \<not> (ts = [] \<or> now - last ts \<ge> window)) b
            in drop (length kept - RATE_LIMIT_BUCKET_CAP) kept)
      else b)"

definition recent_attempts ::
  "buckets \<Rightarrow> string \<Rightarrow> instant \<Rightarrow> int \<Rightarrow> instant list \<times> buckets" where
  "recent_attempts b key now window =
     (let recent = filter (\<lambda>t. now - t < window) (bucket key b);
          b1 = (if recent \<noteq> [] then dict_put key recent b else dict_pop key b)
      in (recent, evict now window b1))"

definition record_attempt :: "string \<Rightarrow> instant \<Rightarrow> buckets \<Rightarrow> buckets" where
  "record_attempt key now b = dict_put key (bucket key b @ [now]) b"

definition bearer_prefix :: string where "bearer_prefix = ''Bearer ''"

definition bearer :: "string option \<Rightarrow> string option" where
  "bearer authorization =
     (case authorization of
        None \<Rightarrow> None
      | Some a \<Rightarrow> if str_starts_with bearer_prefix a then Some (drop (length bearer_prefix) a) else None)"

definition authenticate ::
  "string \<Rightarrow> string \<Rightarrow> instant \<Rightarrow> string option \<Rightarrow> buckets \<Rightarrow> (auth_error + unit) \<times> buckets" where
  "authenticate expected ip now authorization b0 =
     (let (attempts, b) = recent_attempts b0 ip now AUTH_WINDOW
      in if length attempts \<ge> AUTH_MAX_ATTEMPTS then (Inl (HttpStatus 429), b)
         else (case bearer authorization of
             None \<Rightarrow> (Inl (HttpStatus 401), record_attempt ip now b)
           | Some key \<Rightarrow> (case compare_digest key expected of
                 Inl e \<Rightarrow> (Inl (Raised e), b)
               | Inr same \<Rightarrow> if same then (Inr (), dict_pop ip b)
                   else (Inl (HttpStatus 401), record_attempt ip now b))))"

text \<open>
  The identity of an executor. The store of identities, when there is one, resolves an actor that
  is active and holds the role; it is an argument here.
\<close>

record executor_identity =
  ei_organization_id :: string
  ei_actor_id :: string
  ei_role :: string
  ei_display_name :: string
  ei_provider :: string
  ei_external_user_id :: string

definition fallback_identity :: "string \<Rightarrow> string \<Rightarrow> executor_identity" where
  "fallback_identity org actor =
     \<lparr>ei_organization_id = org, ei_actor_id = actor, ei_role = ''master'', ei_display_name = actor,
      ei_provider = ''telegram'', ei_external_user_id = actor\<rparr>"

definition authenticate_executor ::
  "string option \<Rightarrow> (string \<Rightarrow> string \<Rightarrow> executor_identity option) option \<Rightarrow> string \<Rightarrow> instant \<Rightarrow>
   instant \<Rightarrow> string option \<Rightarrow> buckets \<Rightarrow> (auth_error + executor_identity) \<times> buckets" where
  "authenticate_executor signing identities ip now clock authorization b0 =
     (let (attempts, b) = recent_attempts b0 ip now AUTH_WINDOW
      in if length attempts \<ge> AUTH_MAX_ATTEMPTS then (Inl (HttpStatus 429), b)
         else (case signing of
             None \<Rightarrow> (Inl (HttpStatus 503), b)
           | Some secret \<Rightarrow> (case bearer authorization of
               None \<Rightarrow> (Inl (HttpStatus 401), record_attempt ip now b)
             | Some token \<Rightarrow> (case decode_executor_token (JStr token) (Some secret) clock of
                 Inl e \<Rightarrow> (Inl (Raised e), b)
               | Inr None \<Rightarrow> (Inl (HttpStatus 401), record_attempt ip now b)
               | Inr (Some (org, actor)) \<Rightarrow>
                   let identity = (case identities of None \<Rightarrow> None | Some resolve \<Rightarrow> resolve org actor)
                   in (Inr (case identity of Some i \<Rightarrow> i | None \<Rightarrow> fallback_identity org actor),
                       dict_pop ip b)))))"

section \<open>Properties\<close>

lemma bucket_put [simp]: "bucket k (dict_put k v b) = v"
  by (simp add: bucket_def)

lemma recent_small:
  assumes "length b < RATE_LIMIT_BUCKET_CAP" and "recent_attempts b ip now w = (r, b')"
  shows "r = filter (\<lambda>t. now - t < w) (bucket ip b) \<and> bucket ip b' = r \<and> length b' \<le> Suc (length b)"
proof -
  have put: "length (dict_put ip v b) \<le> Suc (length b)" for v
    by (induction b) auto
  have pop: "length (dict_pop ip b) \<le> length b"
    by (induction b) (auto simp: le_SucI)
  define b1 where "b1 = (if r \<noteq> [] then dict_put ip r b else dict_pop ip b)"
  have r: "r = filter (\<lambda>t. now - t < w) (bucket ip b)" and b': "b' = evict now w b1"
    using assms(2) by (auto simp: recent_attempts_def Let_def b1_def)
  have small: "length b1 \<le> Suc (length b)"
    using put[of r] pop by (simp add: b1_def)
  then have "b' = b1" using assms(1) b' by (simp add: evict_def)
  moreover have "bucket ip b1 = r" by (auto simp: b1_def bucket_def delete_conv')
  ultimately show ?thesis using r small by simp
qed

definition recent_window :: "string \<Rightarrow> instant \<Rightarrow> buckets \<Rightarrow> instant list" where
  "recent_window ip now b = filter (\<lambda>t. now - t < AUTH_WINDOW) (bucket ip b)"

text \<open>
  (C24) While fewer than 10000 client addresses are tracked (at the cap the window of an address can
  be evicted, and its attempts are forgotten): an address with ten failed attempts in the last
  minute is refused with 429 whatever it presents, the right key included, and only such an address
  is; and a request that is refused with 401 came from an address with fewer than ten and adds one
  attempt to its window.
\<close>

theorem failed_attempts_are_limited:
  assumes "length b < RATE_LIMIT_BUCKET_CAP"
  shows "(fst (authenticate expected ip now a b) = Inl (HttpStatus 429) \<longleftrightarrow>
       10 \<le> length (recent_window ip now b)) \<and>
    (fst (authenticate expected ip now a b) = Inl (HttpStatus 401) \<longrightarrow>
       bucket ip (snd (authenticate expected ip now a b)) = recent_window ip now b @ [now] \<and>
       length (bucket ip (snd (authenticate expected ip now a b))) \<le> 10)"
proof -
  obtain r b' where r: "recent_attempts b ip now AUTH_WINDOW = (r, b')"
    by (cases "recent_attempts b ip now AUTH_WINDOW")
  have "r = recent_window ip now b" "bucket ip b' = recent_window ip now b"
    using recent_small[OF assms r] by (simp_all add: recent_window_def)
  then show ?thesis
    using r by (auto simp: authenticate_def AUTH_MAX_ATTEMPTS_def record_attempt_def
        split: option.splits sum.splits)
qed

theorem failed_attempts_are_limited_witness:
  "fst (authenticate ''key'' ''ip'' 7 (Some ''Bearer key'') [(''ip'', replicate 10 5)])
     = Inl (HttpStatus 429)"
proof -
  have "10 \<le> length (recent_window ''ip'' 7 [(''ip'', replicate 10 5)])"
    by (simp add: recent_window_def bucket_def AUTH_WINDOW_def)
  with failed_attempts_are_limited[of "[(''ip'', replicate 10 5)]" "''key''" "''ip''" 7 "Some ''Bearer key''"]
  show ?thesis by (simp add: RATE_LIMIT_BUCKET_CAP_def)
qed

text \<open>
  The identity store cannot withdraw a bearer token: while the token's signature and expiry
  are good, an actor that the store no longer resolves, because it was deactivated or lost the
  role, is still authenticated, under a made-up identity with the role of a master.
\<close>

lemma unresolved_executor_is_accepted:
  assumes "length (recent_window ip now b) < 10" and "length b < RATE_LIMIT_BUCKET_CAP"
    and "decode_executor_token (JStr token) (Some secret) clock = Inr (Some (org, actor))"
    and "resolve org actor = None"
  shows "fst (authenticate_executor (Some secret) (Some resolve) ip now clock
      (Some (bearer_prefix @ token)) b) = Inr (fallback_identity org actor)"
proof -
  obtain r b' where r: "recent_attempts b ip now AUTH_WINDOW = (r, b')"
    by (cases "recent_attempts b ip now AUTH_WINDOW")
  have "r = recent_window ip now b"
    using recent_small[OF assms(2) r] by (simp add: recent_window_def)
  then show ?thesis
    using r assms by (simp add: authenticate_executor_def bearer_def str_starts_with_def
        AUTH_MAX_ATTEMPTS_def)
qed

lemma unresolved_executor_is_accepted_witness:
  "\<exists>token. fst (authenticate_executor (Some ''key'') (Some (\<lambda>_ _. None)) ''ip'' 7 6000000
      (Some (bearer_prefix @ token)) []) = Inr (fallback_identity ''acme'' ''m1'')"
proof -
  obtain v where v: "encode_executor_token ''acme'' ''m1'' ''key'' 3600 5000000 = Inr (v, 3605)"
    by (simp add: encode_executor_token_def Let_def)
  have d: "decode_executor_token (JStr v) (Some ''key'') 6000000 = Inr (Some (''acme'', ''m1''))"
    using executor_token_decodes[OF v, of 6000000] by (simp add: nat_str.simps)
  show ?thesis
    using unresolved_executor_is_accepted[OF _ _ d, of "''ip''" 7 "[]" "\<lambda>_ _. None"]
    by (auto simp: recent_window_def bucket_def RATE_LIMIT_BUCKET_CAP_def)
qed

end
