(* ===== verification/Pack_Store.thy ===== *)
theory Pack_Store
  imports Packs Tables
begin

text \<open>
  The revisions of an organization's pack (\<open>infrastructure/pack_store.py\<close> over the table
  \<open>org_packs\<close> of \<open>migrations/0004_industry_packs.sql\<close>): drafts, publication, archived revisions and
  their restoration. Each method is one transaction; the jsonb column is taken to keep the document
  that was written.
\<close>

section \<open>The table\<close>

datatype pack_state = PackDraft | PackActive | PackArchived

record pack_row =
  pk_organization_id :: string
  pk_version :: int
  pk_state :: pack_state
  pk_definition :: json
  pk_activated_at :: "instant option"

type_synonym pack_table = "pack_row list"

definition pack_constraints :: "pack_table \<Rightarrow> bool" where
  "pack_constraints t \<longleftrightarrow>
     unique_on (\<lambda>_. True) (\<lambda>r. (pk_organization_id r, pk_version r)) t \<and>
     unique_on (\<lambda>r. pk_state r = PackActive) pk_organization_id t \<and>
     unique_on (\<lambda>r. pk_state r = PackDraft) pk_organization_id t \<and>
     list_all (\<lambda>r. pk_version r \<ge> 1) t"

definition in_state :: "string \<Rightarrow> pack_state \<Rightarrow> pack_row \<Rightarrow> bool" where
  "in_state org s r \<longleftrightarrow> pk_organization_id r = org \<and> pk_state r = s"

definition at_version :: "string \<Rightarrow> int \<Rightarrow> pack_row \<Rightarrow> bool" where
  "at_version org v r \<longleftrightarrow> pk_organization_id r = org \<and> pk_version r = v"

definition next_version :: "string \<Rightarrow> pack_table \<Rightarrow> int" where
  "next_version org t = fold max (map pk_version (filter (\<lambda>r. pk_organization_id r = org) t)) 0 + 1"

section \<open>Validation\<close>

text \<open>The messages of the code are in Russian; the error carries their subject.\<close>

definition validate_definition :: "pack_definition \<Rightarrow> py_error option" where
  "validate_definition p =
     (if str_strip (br_name (pd_branding p)) = [] then Some (PackValidationError ''brand name'')
      else if cat_categories (pd_catalog p) = [] then Some (PackValidationError ''service'')
      else if \<not> list_ex (\<lambda>f. fd_type f = FAddress) (pd_fields p)
              \<and> ''address'' \<notin> set (map fd_key (pd_fields p))
      then Some (PackValidationError ''address field'') else None)"

section \<open>Methods\<close>

record pack_revision =
  rv_version :: int
  rv_state :: pack_state
  rv_definition :: pack_definition

definition revision_from_row ::
  "(string, string) dict \<Rightarrow> pack_row \<Rightarrow> pack_revision result" where
  "revision_from_row labels r =
     result_bind (pack_from_json labels (pk_definition r))
       (\<lambda>p. Inr \<lparr>rv_version = pk_version r, rv_state = pk_state r, rv_definition = p\<rparr>)"

definition optional_revision ::
  "(string, string) dict \<Rightarrow> pack_row option \<Rightarrow> pack_revision option result" where
  "optional_revision labels row = (case row of None \<Rightarrow> Inr None
     | Some r \<Rightarrow> result_bind (revision_from_row labels r) (\<lambda>v. Inr (Some v)))"

definition active_revision ::
  "(string, string) dict \<Rightarrow> string \<Rightarrow> pack_table \<Rightarrow> pack_revision option result" where
  "active_revision labels org t = optional_revision labels (find (in_state org PackActive) t)"

definition pack_active ::
  "(string, string) dict \<Rightarrow> string \<Rightarrow> pack_table \<Rightarrow> pack_definition option result" where
  "pack_active labels org t =
     result_bind (active_revision labels org t) (\<lambda>r. Inr (map_option rv_definition r))"

definition published :: "string \<Rightarrow> int \<Rightarrow> pack_row \<Rightarrow> bool" where
  "published org v r \<longleftrightarrow> at_version org v r \<and> pk_state r \<in> {PackActive, PackArchived}"

definition pack_revision_at ::
  "(string, string) dict \<Rightarrow> string \<Rightarrow> int \<Rightarrow> pack_table \<Rightarrow> pack_revision option result" where
  "pack_revision_at labels org v t = optional_revision labels (find (published org v) t)"

definition revisions ::
  "(string, string) dict \<Rightarrow> string \<Rightarrow> pack_table \<Rightarrow> pack_revision list result" where
  "revisions labels org t =
     map_result (revision_from_row labels)
       (rev (sort_key pk_version (filter (\<lambda>r. pk_organization_id r = org) t)))"

definition pack_draft ::
  "(string, string) dict \<Rightarrow> string \<Rightarrow> pack_table \<Rightarrow> pack_definition option result" where
  "pack_draft labels org t =
     (case find (in_state org PackDraft) t of None \<Rightarrow> Inr None
      | Some r \<Rightarrow> result_bind (pack_from_json labels (pk_definition r)) (\<lambda>p. Inr (Some p)))"

definition insert_draft :: "string \<Rightarrow> json \<Rightarrow> pack_table \<Rightarrow> (int \<times> pack_table) result" where
  "insert_draft org j t =
     (let v = next_version org t
      in result_bind (constrained pack_constraints (t @
           [\<lparr>pk_organization_id = org, pk_version = v, pk_state = PackDraft, pk_definition = j,
             pk_activated_at = None\<rparr>])) (\<lambda>t'. Inr (v, t')))"

definition ensure_draft ::
  "(string, string) dict \<Rightarrow> string \<Rightarrow> pack_definition \<Rightarrow> pack_table \<Rightarrow>
   (pack_definition \<times> pack_table) result" where
  "ensure_draft labels org seed t =
     (case find (in_state org PackDraft) t of
        Some r \<Rightarrow> result_bind (pack_from_json labels (pk_definition r)) (\<lambda>p. Inr (p, t))
      | None \<Rightarrow> result_bind (insert_draft org (pack_to_json seed) t) (\<lambda>(_, t'). Inr (seed, t')))"

definition update_draft :: "string \<Rightarrow> pack_definition \<Rightarrow> pack_table \<Rightarrow> pack_table result" where
  "update_draft org p t =
     (if count_rows (in_state org PackDraft) t \<noteq> 1 then Inl (NotFound ''draft pack'' org)
      else constrained pack_constraints
        (update_rows (in_state org PackDraft) (\<lambda>r. r\<lparr>pk_definition := pack_to_json p\<rparr>) t))"

definition discard_draft :: "string \<Rightarrow> pack_table \<Rightarrow> bool \<times> pack_table" where
  "discard_draft org t =
     (count_rows (in_state org PackDraft) t = 1, delete_rows (in_state org PackDraft) t)"

definition restore_as_draft :: "string \<Rightarrow> int \<Rightarrow> pack_table \<Rightarrow> (int \<times> pack_table) result" where
  "restore_as_draft org v t =
     (case find (published org v) t of
        None \<Rightarrow> Inl (NotFound ''pack version'' (int_str v))
      | Some source \<Rightarrow>
          (case find (in_state org PackDraft) t of
             None \<Rightarrow> insert_draft org (pk_definition source) t
           | Some d \<Rightarrow>
               result_bind (constrained pack_constraints
                 (update_rows (at_version org (pk_version d))
                    (\<lambda>r. r\<lparr>pk_definition := pk_definition source\<rparr>) t))
                 (\<lambda>t'. Inr (pk_version d, t'))))"

definition publish_draft ::
  "(string, string) dict \<Rightarrow> string \<Rightarrow> instant \<Rightarrow> pack_table \<Rightarrow> (int \<times> pack_table) result" where
  "publish_draft labels org now t =
     (case find (in_state org PackDraft) t of
        None \<Rightarrow> Inl (NotFound ''draft pack'' org)
      | Some d \<Rightarrow>
          result_bind (pack_from_json labels (pk_definition d)) (\<lambda>p.
          raise_first [validate_definition p]
            (result_bind (constrained pack_constraints
               (update_rows (in_state org PackActive) (\<lambda>r. r\<lparr>pk_state := PackArchived\<rparr>) t)) (\<lambda>t1.
             result_bind (constrained pack_constraints
               (update_rows (at_version org (pk_version d))
                 (\<lambda>r. r\<lparr>pk_state := PackActive, pk_activated_at := Some now\<rparr>) t1))
               (\<lambda>t2. Inr (pk_version d, t2))))))"

definition bootstrap_active ::
  "string \<Rightarrow> pack_definition \<Rightarrow> instant \<Rightarrow> pack_table \<Rightarrow> bool \<times> pack_table" where
  "bootstrap_active org seed now t =
     (if list_ex (\<lambda>r. pk_organization_id r = org) t then (False, t)
      else (True, t @ [\<lparr>pk_organization_id = org, pk_version = 1, pk_state = PackActive,
         pk_definition = pack_to_json seed, pk_activated_at = Some now\<rparr>]))"

section \<open>The constraints hold without being tested\<close>

lemma fold_max_ge: "x \<in> set xs \<Longrightarrow> x \<le> fold max xs (a::int)" and fold_max_init: "a \<le> fold max xs (a::int)"
proof -
  have i: "a \<le> fold max xs a" for a :: int and xs
  proof (induction xs arbitrary: a)
    case (Cons y xs)
    from Cons[of "max y a"] show ?case by simp
  qed simp
  show "a \<le> fold max xs a" by (rule i)
  show "x \<in> set xs \<Longrightarrow> x \<le> fold max xs a"
  proof (induction xs arbitrary: a)
    case (Cons y xs)
    then show ?case using i[of "max y a" xs] by auto
  qed simp
qed

lemma next_version_fresh:
  "r \<in> set t \<Longrightarrow> pk_organization_id r = org \<Longrightarrow> pk_version r < next_version org t"
  using fold_max_ge[of "pk_version r" "map pk_version (filter (\<lambda>r. pk_organization_id r = org) t)" 0]
  by (auto simp: next_version_def)

lemma next_version_pos: "1 \<le> next_version org t"
  using fold_max_init[of 0] by (simp add: next_version_def)

lemma pack_constraints_Nil: "pack_constraints []"
  by (simp add: pack_constraints_def)

lemma insert_draft_ok:
  assumes "pack_constraints t" and "find (in_state org PackDraft) t = None"
  shows "insert_draft org j t = Inr (next_version org t, t @
    [\<lparr>pk_organization_id = org, pk_version = next_version org t, pk_state = PackDraft,
      pk_definition = j, pk_activated_at = None\<rparr>])"
proof -
  have "(org, next_version org t) \<noteq> (pk_organization_id r, pk_version r)" if "r \<in> set t" for r
    using next_version_fresh[OF that] by auto
  then have "pack_constraints (t @ [\<lparr>pk_organization_id = org, pk_version = next_version org t,
      pk_state = PackDraft, pk_definition = j, pk_activated_at = None\<rparr>])"
    using assms next_version_pos[of org t]
    by (force simp: pack_constraints_def unique_on_snoc find_None_all in_state_def)
  then show ?thesis by (simp add: insert_draft_def Let_def constrained_ok)
qed

lemma pack_constraints_update:
  assumes "pack_constraints t"
    and "\<And>r. r \<in> set t \<Longrightarrow> Q r \<Longrightarrow> pk_organization_id (f r) = pk_organization_id r \<and>
      pk_version (f r) = pk_version r"
    and "\<And>r. r \<in> set t \<Longrightarrow> Q r \<Longrightarrow> pk_state (f r) = PackActive \<Longrightarrow> pk_state r = PackActive"
    and "\<And>r. r \<in> set t \<Longrightarrow> Q r \<Longrightarrow> pk_state (f r) = PackDraft \<Longrightarrow> pk_state r = PackDraft"
  shows "pack_constraints (update_rows Q f t)"
proof -
  have "unique_on (\<lambda>_. True) (\<lambda>r. (pk_organization_id r, pk_version r)) (update_rows Q f t)"
    "unique_on (\<lambda>r. pk_state r = PackActive) pk_organization_id (update_rows Q f t)"
    "unique_on (\<lambda>r. pk_state r = PackDraft) pk_organization_id (update_rows Q f t)"
    using assms by (simp_all add: pack_constraints_def unique_on_update)
  moreover have "list_all (\<lambda>r. pk_version r \<ge> 1) (update_rows Q f t)"
    using assms(1,2) by (auto simp: pack_constraints_def list_all_iff set_update_rows)
  ultimately show ?thesis by (simp add: pack_constraints_def)
qed

lemma count_le_1:
  assumes "unique_on P key t" and "\<And>r. Q r \<Longrightarrow> P r \<and> key r = k"
  shows "count_rows Q t \<le> 1"
proof -
  have "filter Q t = filter Q (filter P t)"
    using assms(2) by (auto intro: filter_cong)
  then have d: "distinct (map key (filter Q t))"
    using assms(1) distinct_filter_map[of key "filter P t" Q] by (simp add: unique_on_def)
  have "set (map key (filter Q t)) \<subseteq> {k}" using assms(2) by auto
  then have "card (set (map key (filter Q t))) \<le> 1"
    by (metis card.empty card_mono finite.simps finite_insert card_insert_disjoint empty_iff One_nat_def)
  then show ?thesis using distinct_card[OF d] by (simp add: count_rows_def)
qed

lemma draft_count: "pack_constraints t \<Longrightarrow> count_rows (in_state org PackDraft) t \<le> 1"
  by (rule count_le_1[where P = "\<lambda>r. pk_state r = PackDraft" and key = pk_organization_id and k = org])
    (auto simp: pack_constraints_def in_state_def)

lemma publish_archive_ok:
  assumes "pack_constraints t"
  shows "pack_constraints (update_rows (in_state org PackActive) (\<lambda>r. r\<lparr>pk_state := PackArchived\<rparr>) t)"
  by (rule pack_constraints_update[OF assms]) (auto simp: in_state_def)

lemma unique_version:
  assumes "pack_constraints t" and "r \<in> set t" and "d \<in> set t"
    and "at_version org v r" and "at_version org v d"
  shows "r = d"
  using assms unique_on_eq[of "\<lambda>_. True" "\<lambda>r. (pk_organization_id r, pk_version r)" t r d]
  by (auto simp: pack_constraints_def at_version_def)

text \<open>Publishing as a whole: what happens to each row.\<close>

definition publish_row :: "string \<Rightarrow> int \<Rightarrow> instant \<Rightarrow> pack_row \<Rightarrow> pack_row" where
  "publish_row org v now r =
     (if at_version org v r then r\<lparr>pk_state := PackActive, pk_activated_at := Some now\<rparr>
      else if in_state org PackActive r then r\<lparr>pk_state := PackArchived\<rparr> else r)"

lemma publish_rows:
  assumes "pack_constraints t" and "d \<in> set t" and "in_state org PackDraft d"
  shows "update_rows (at_version org (pk_version d))
      (\<lambda>r. r\<lparr>pk_state := PackActive, pk_activated_at := Some now\<rparr>)
      (update_rows (in_state org PackActive) (\<lambda>r. r\<lparr>pk_state := PackArchived\<rparr>) t) =
    map (publish_row org (pk_version d) now) t"
proof -
  have "\<not> in_state org PackActive r" if "r \<in> set t" "at_version org (pk_version d) r" for r
  proof -
    have "at_version org (pk_version d) d" using assms(3) by (simp add: at_version_def in_state_def)
    then have "r = d" using unique_version[OF assms(1)] that assms(2) by blast
    then show ?thesis using assms(3) by (auto simp: in_state_def)
  qed
  then show ?thesis
    by (auto simp: update_rows_def publish_row_def at_version_def)
qed

lemma publish_constraints:
  assumes "pack_constraints t" and "d \<in> set t" and "in_state org PackDraft d"
  shows "pack_constraints (map (publish_row org (pk_version d) now) t)"
proof -
  let ?f = "publish_row org (pk_version d) now"
  have key: "pk_organization_id (?f r) = pk_organization_id r" "pk_version (?f r) = pk_version r" for r
    by (simp_all add: publish_row_def)
  have u: "unique_on P k (map ?f t)"
    if "\<And>r. k (?f r) = k r" and "distinct (map k (filter (\<lambda>r. P (?f r)) t))" for P and k :: "pack_row \<Rightarrow> 'k"
    using that by (simp add: unique_on_def filter_map comp_def)
  have a: "pk_state (?f r) = PackActive \<longleftrightarrow> (at_version org (pk_version d) r \<or>
      (pk_state r = PackActive \<and> pk_organization_id r \<noteq> org))" for r
    by (auto simp: publish_row_def in_state_def)
  have active: "unique_on (\<lambda>r. pk_state r = PackActive) pk_organization_id (map ?f t)"
  proof (rule u)
    show "distinct (map pk_organization_id (filter (\<lambda>r. pk_state (?f r) = PackActive) t))"
      unfolding a using assms(1)
    proof (induction t)
      case (Cons r t)
      have c: "pack_constraints t" using Cons.prems by (simp add: pack_constraints_def)
      have "pk_organization_id r \<noteq> pk_organization_id x"
        if "x \<in> set t" "at_version org (pk_version d) r \<or> (pk_state r = PackActive \<and> pk_organization_id r \<noteq> org)"
          "at_version org (pk_version d) x \<or> (pk_state x = PackActive \<and> pk_organization_id x \<noteq> org)" for x
        using Cons.prems that by (force simp: pack_constraints_def at_version_def)
      with Cons.IH[OF c] show ?case by auto
    qed simp
  qed (simp add: key)
  have draft: "unique_on (\<lambda>r. pk_state r = PackDraft) pk_organization_id (map ?f t)"
  proof (rule u)
    have "filter (\<lambda>r. pk_state (?f r) = PackDraft) t =
        filter (\<lambda>r. pk_state (?f r) = PackDraft) (filter (\<lambda>r. pk_state r = PackDraft) t)"
      by (auto simp: publish_row_def intro: filter_cong)
    then show "distinct (map pk_organization_id (filter (\<lambda>r. pk_state (?f r) = PackDraft) t))"
      using assms(1) distinct_filter_map by (fastforce simp: pack_constraints_def unique_on_def)
  qed (simp add: key)
  show ?thesis
    using assms(1) active draft
    by (auto simp: pack_constraints_def unique_on_def key comp_def list.pred_map)
qed

lemma publish_draft_ok:
  assumes "pack_constraints t" and "find (in_state org PackDraft) t = Some d"
    and "pack_from_json labels (pk_definition d) = Inr p" and "validate_definition p = None"
  shows "publish_draft labels org now t =
    Inr (pk_version d, map (publish_row org (pk_version d) now) t)"
  using assms find_SomeD[OF assms(2)] publish_archive_ok[OF assms(1), of org]
    publish_constraints[OF assms(1)] publish_rows[OF assms(1)]
  by (simp add: publish_draft_def constrained_ok)

section \<open>Operations as data\<close>

datatype pack_op =
    EnsureDraft string pack_definition
  | UpdateDraft string pack_definition
  | DiscardDraft string
  | RestoreDraft string int
  | PublishDraft string instant
  | BootstrapActive string pack_definition instant

fun pack_exec :: "(string, string) dict \<Rightarrow> pack_op \<Rightarrow> pack_table \<Rightarrow> pack_table result" where
  "pack_exec labels (EnsureDraft org seed) t = result_bind (ensure_draft labels org seed t) (\<lambda>(_, t'). Inr t')"
| "pack_exec labels (UpdateDraft org p) t = update_draft org p t"
| "pack_exec labels (DiscardDraft org) t = Inr (snd (discard_draft org t))"
| "pack_exec labels (RestoreDraft org v) t = result_bind (restore_as_draft org v t) (\<lambda>(_, t'). Inr t')"
| "pack_exec labels (PublishDraft org now) t = result_bind (publish_draft labels org now t) (\<lambda>(_, t'). Inr t')"
| "pack_exec labels (BootstrapActive org seed now) t = Inr (snd (bootstrap_active org seed now t))"

lemma result_bind_Inl:
  "result_bind r f = Inl e \<longleftrightarrow> r = Inl e \<or> (\<exists>x. r = Inr x \<and> f x = Inl e)"
  by (cases r) auto

lemma insert_draft_constraints:
  assumes "pack_constraints t" and "find (in_state org PackDraft) t = None"
  shows "\<exists>t'. insert_draft org j t = Inr (next_version org t, t') \<and> pack_constraints t'"
  using insert_draft_ok[OF assms, of j] by (auto simp: insert_draft_def Let_def)

lemma set_definition_ok:
  "pack_constraints t \<Longrightarrow> pack_constraints (update_rows Q (\<lambda>r. r\<lparr>pk_definition := j\<rparr>) t)"
  by (rule pack_constraints_update) simp_all

lemma delete_ok: "pack_constraints t \<Longrightarrow> pack_constraints (delete_rows Q t)"
  unfolding pack_constraints_def by (auto simp: unique_on_delete) (auto simp: delete_rows_def list_all_iff)

lemma bootstrap_ok:
  "pack_constraints t \<Longrightarrow> pack_constraints (snd (bootstrap_active org seed now t))"
  by (auto simp: bootstrap_active_def pack_constraints_def unique_on_snoc list_ex_iff image_iff)

lemma publish_cases:
  assumes "pack_constraints t"
  obtains (absent) "find (in_state org PackDraft) t = None"
      "publish_draft labels org now t = Inl (NotFound ''draft pack'' org)"
  | (unreadable) d e where "find (in_state org PackDraft) t = Some d"
      "pack_from_json labels (pk_definition d) = Inl e" "publish_draft labels org now t = Inl e"
  | (invalid) d p e where "find (in_state org PackDraft) t = Some d"
      "pack_from_json labels (pk_definition d) = Inr p" "validate_definition p = Some e"
      "publish_draft labels org now t = Inl e"
  | (ok) d p where "find (in_state org PackDraft) t = Some d"
      "pack_from_json labels (pk_definition d) = Inr p" "validate_definition p = None"
      "publish_draft labels org now t = Inr (pk_version d, map (publish_row org (pk_version d) now) t)"
proof (cases "find (in_state org PackDraft) t")
  case None
  then show ?thesis using absent by (simp add: publish_draft_def)
next
  case (Some d)
  show ?thesis
  proof (cases "pack_from_json labels (pk_definition d)")
    case (Inl e)
    then show ?thesis using unreadable Some by (simp add: publish_draft_def)
  next
    case (Inr p)
    show ?thesis
    proof (cases "validate_definition p")
      case None
      from ok[OF Some Inr None publish_draft_ok[OF assms Some Inr None]] show ?thesis .
    next
      case bad: (Some e)
      then have "publish_draft labels org now t = Inl e"
        using Some Inr by (simp add: publish_draft_def)
      from invalid[OF Some Inr bad this] show ?thesis .
    qed
  qed
qed

section \<open>Properties\<close>

definition documented_failure :: "(string, string) dict \<Rightarrow> pack_table \<Rightarrow> py_error \<Rightarrow> bool" where
  "documented_failure labels t e \<longleftrightarrow>
     (\<exists>k i. e = NotFound k i) \<or> (\<exists>m. e = PackValidationError m) \<or>
     list_ex (\<lambda>r. pack_from_json labels (pk_definition r) = Inl e) t"

lemma validate_error: "validate_definition p = Some e \<Longrightarrow> \<exists>m. e = PackValidationError m"
  by (auto simp: validate_definition_def split: if_splits)

definition respects_constraints :: "(string, string) dict \<Rightarrow> pack_table \<Rightarrow> pack_table result \<Rightarrow> bool" where
  "respects_constraints labels t r \<longleftrightarrow>
     (case r of Inr t' \<Rightarrow> pack_constraints t' | Inl e \<Rightarrow> documented_failure labels t e)"

lemma ensure_draft_respects:
  assumes "pack_constraints t"
  shows "respects_constraints labels t (pack_exec labels (EnsureDraft org seed) t)"
proof (cases "find (in_state org PackDraft) t")
  case None
  then show ?thesis
    using insert_draft_constraints[OF assms None, of "pack_to_json seed"]
    by (auto simp: ensure_draft_def respects_constraints_def)
next
  case (Some d)
  then have "d \<in> set t" by (simp add: find_SomeD)
  then show ?thesis
    using Some assms
    by (cases "pack_from_json labels (pk_definition d)")
      (auto simp: ensure_draft_def documented_failure_def list_ex_iff respects_constraints_def)
qed

lemma restore_draft_respects:
  assumes "pack_constraints t"
  shows "respects_constraints labels t (pack_exec labels (RestoreDraft org v) t)"
proof (cases "find (published org v) t")
  case None
  then show ?thesis by (simp add: restore_as_draft_def documented_failure_def respects_constraints_def)
next
  case (Some src)
  note src = this
  show ?thesis
  proof (cases "find (in_state org PackDraft) t")
    case None
    then show ?thesis
      using src insert_draft_constraints[OF assms None, of "pk_definition src"]
      by (auto simp: restore_as_draft_def respects_constraints_def)
  next
    case (Some d)
    then show ?thesis
      using src set_definition_ok[OF assms, of "at_version org (pk_version d)" "pk_definition src"]
      by (simp add: restore_as_draft_def constrained_ok respects_constraints_def)
  qed
qed

lemma publish_draft_respects:
  assumes "pack_constraints t"
  shows "respects_constraints labels t (pack_exec labels (PublishDraft org now) t)"
proof (cases rule: publish_cases[OF assms, of org labels now, case_names absent unreadable invalid ok])
  case (ok d p)
  then show ?thesis
    using publish_constraints[OF assms, of d org now] find_SomeD[OF ok(1)] by (simp add: respects_constraints_def)
next
  case (unreadable d e)
  then show ?thesis
    using find_SomeD[OF unreadable(1)] by (auto simp: documented_failure_def list_ex_iff respects_constraints_def)
next
  case (invalid d p e)
  then show ?thesis
    using validate_error[OF invalid(3)] by (auto simp: documented_failure_def respects_constraints_def)
qed (simp add: documented_failure_def respects_constraints_def)

lemma pack_exec_respects:
  assumes "pack_constraints t"
  shows "respects_constraints labels t (pack_exec labels op t)"
proof (cases op)
  case (UpdateDraft org p)
  then show ?thesis
    using assms set_definition_ok[OF assms, of "in_state org PackDraft" "pack_to_json p"]
    by (auto simp: update_draft_def documented_failure_def constrained_ok respects_constraints_def)
next
  case (DiscardDraft org)
  then show ?thesis
    using assms by (simp add: discard_draft_def delete_ok respects_constraints_def)
next
  case (BootstrapActive org seed now)
  then show ?thesis
    using assms bootstrap_ok by (simp add: respects_constraints_def)
qed (use assms in \<open>auto intro: ensure_draft_respects restore_draft_respects publish_draft_respects simp del: pack_exec.simps\<close>)

lemma pack_exec_constraints: "pack_constraints t \<Longrightarrow> pack_exec labels op t = Inr t' \<Longrightarrow> pack_constraints t'"
  using pack_exec_respects[of t labels op] by (simp add: respects_constraints_def)

text \<open>
  (C21) Whatever sequence of operations is applied to the pack table, each organization has at most
  one active and at most one draft revision and no version twice; no operation ever runs into the
  constraints of the table, it fails only because a revision is missing, the draft is not
  publishable, or the stored document cannot be read.
\<close>

theorem pack_operations_respect_constraints:
  assumes "pack_constraints t"
  shows "(case pack_exec labels op t of
      Inr t' \<Rightarrow> pack_constraints t' | Inl e \<Rightarrow> documented_failure labels t e)"
  using pack_exec_respects[OF assms, of labels op] unfolding respects_constraints_def .

lemma find_unique:
  assumes "\<And>r. r \<in> set t \<Longrightarrow> P r \<longleftrightarrow> r = d" and "d \<in> set t"
  shows "find P t = Some d"
proof (cases "find P t")
  case None
  then show ?thesis using assms by (auto simp: find_None_all)
next
  case (Some x)
  then show ?thesis using find_SomeD[OF Some] assms(1)[of x] by simp
qed

lemma published_active:
  assumes "pack_constraints t" and "find (in_state org PackDraft) t = Some d"
  shows "find (in_state org PackActive) (map (publish_row org (pk_version d) now) t) =
      Some (d\<lparr>pk_state := PackActive, pk_activated_at := Some now\<rparr>)"
    and "find (in_state org PackDraft) (map (publish_row org (pk_version d) now) t) = None"
proof -
  let ?d = "d\<lparr>pk_state := PackActive, pk_activated_at := Some now\<rparr>"
  let ?t = "map (publish_row org (pk_version d) now) t"
  have d: "d \<in> set t" "in_state org PackDraft d" using find_SomeD[OF assms(2)] by auto
  then have av: "at_version org (pk_version d) d" by (simp add: at_version_def in_state_def)
  have pd: "publish_row org (pk_version d) now d = ?d" using av by (simp add: publish_row_def)
  have u: "at_version org (pk_version d) r \<longleftrightarrow> r = d" if "r \<in> set t" for r
    using unique_version[OF assms(1) that d(1) _ av] av by auto
  have drafts: "in_state org PackDraft r \<longleftrightarrow> r = d" if "r \<in> set t" for r
    using unique_on_eq[of "\<lambda>r. pk_state r = PackDraft" pk_organization_id t r d] assms(1) that d
    by (auto simp: pack_constraints_def in_state_def)
  show "find (in_state org PackActive) ?t = Some ?d"
  proof (rule find_unique)
    show "?d \<in> set ?t" using d(1) pd by (metis image_eqI list.set_map)
    fix y assume "y \<in> set ?t"
    then obtain r where r: "r \<in> set t" "y = publish_row org (pk_version d) now r" by auto
    show "in_state org PackActive y \<longleftrightarrow> y = ?d"
    proof (cases "r = d")
      case True
      then show ?thesis using r pd d(2) by (simp add: in_state_def)
    next
      case False
      then have no: "\<not> at_version org (pk_version d) r" using u[OF r(1)] by simp
      have "pk_version y = pk_version r" "pk_organization_id y = pk_organization_id r"
        using r(2) by (simp_all add: publish_row_def)
      then have "y \<noteq> ?d" using no d(2) by (auto simp: at_version_def in_state_def)
      moreover have "\<not> in_state org PackActive y"
        using r(2) no by (auto simp: publish_row_def in_state_def)
      ultimately show ?thesis by simp
    qed
  qed
  show "find (in_state org PackDraft) ?t = None"
    using drafts u d(2) by (auto simp: find_None_all publish_row_def in_state_def)
qed

text \<open>
  Publishing makes exactly the draft the active revision: the definition that was the draft
  before is the active one afterwards, under the draft's version, no draft is left, and a revision
  that was active before can still be read under its version.
\<close>

lemma publish_activates_draft:
  assumes "pack_constraints t" and "publish_draft labels org now t = Inr (v, t')"
  shows "\<exists>p. pack_draft labels org t = Inr (Some p) \<and> validate_definition p = None \<and>
      active_revision labels org t' =
        Inr (Some \<lparr>rv_version = v, rv_state = PackActive, rv_definition = p\<rparr>) \<and>
      pack_draft labels org t' = Inr None \<and>
      (case find (in_state org PackActive) t of
         None \<Rightarrow> True
       | Some a \<Rightarrow> find (published org (pk_version a)) t' = Some (a\<lparr>pk_state := PackArchived\<rparr>))"
proof (cases rule: publish_cases[OF assms(1), of org labels now, case_names absent unreadable invalid ok])
  case (ok d p)
  then have v: "v = pk_version d" "t' = map (publish_row org (pk_version d) now) t"
    using assms(2) by auto
  have d: "d \<in> set t" "in_state org PackDraft d" using find_SomeD[OF ok(1)] by auto
  have "find (published org (pk_version a)) t' = Some (a\<lparr>pk_state := PackArchived\<rparr>)"
    if "find (in_state org PackActive) t = Some a" for a
  proof (rule find_unique)
    have a: "a \<in> set t" "in_state org PackActive a" using find_SomeD[OF that] by auto
    have ne: "a \<noteq> d" using a d by (auto simp: in_state_def)
    have ava: "at_version org (pk_version a) a" "at_version org (pk_version d) d"
      using a d by (simp_all add: at_version_def in_state_def)
    have "\<not> at_version org (pk_version d) a"
      using unique_version[OF assms(1) a(1) d(1) _ ava(2)] ne by blast
    then have pa: "publish_row org (pk_version d) now a = a\<lparr>pk_state := PackArchived\<rparr>"
      using a by (simp add: publish_row_def)
    then show "a\<lparr>pk_state := PackArchived\<rparr> \<in> set t'" using a(1) v by (metis image_eqI list.set_map)
    fix y assume "y \<in> set t'"
    then obtain r where r: "r \<in> set t" "y = publish_row org (pk_version d) now r" using v by auto
    have ver: "pk_version y = pk_version r" "pk_organization_id y = pk_organization_id r"
      using r by (simp_all add: publish_row_def)
    show "published org (pk_version a) y \<longleftrightarrow> y = a\<lparr>pk_state := PackArchived\<rparr>"
    proof
      assume "published org (pk_version a) y"
      then have "at_version org (pk_version a) r" using ver by (simp add: published_def at_version_def)
      then have "r = a" using unique_version[OF assms(1) r(1) a(1) _ ava(1)] by blast
      then show "y = a\<lparr>pk_state := PackArchived\<rparr>" using r pa by simp
    next
      assume "y = a\<lparr>pk_state := PackArchived\<rparr>"
      then show "published org (pk_version a) y"
        using ava(1) by (simp add: published_def at_version_def)
    qed
  qed
  then show ?thesis
    using ok v published_active[OF assms(1) ok(1), of now]
    by (auto simp: pack_draft_def active_revision_def optional_revision_def revision_from_row_def
        split: option.split)
qed (use assms(2) in auto)

text \<open>A table with one published revision of the sample pack, and a run on it.\<close>

definition demo_pack_table :: pack_table where
  "demo_pack_table = snd (bootstrap_active ''acme'' demo_pack 5 [])"

lemma demo_pack_valid: "validate_definition demo_pack = None"
  by (simp add: validate_definition_def demo_pack_def str_strip_def is_space_def code_point_def)

lemma demo_pack_stored: "pack_from_json demo_labels (pack_to_json demo_pack) = Inr demo_pack"
  by (simp add: pack_from_json_def pack_to_json_def demo_pack_def demo_labels_def get_default_def
      get_required_def branding_from_json_def branding_to_json_def catalog_from_json_def
      catalog_to_json_def category_from_json_def category_to_json_def make_category_def
      make_catalog_def field_from_json_def field_to_json_def field_type_of_def make_field_def
      evidence_from_json_def evidence_to_json_def make_evidence_def default_evidence_def
      labels_from_json_def pool_mode_of_def)

lemma demo_publish:
  "\<exists>t t'. restore_as_draft ''acme'' 1 demo_pack_table = Inr (2, t) \<and> pack_constraints t \<and>
     publish_draft demo_labels ''acme'' 9 t = Inr (2, t')"
  by (simp add: demo_pack_table_def bootstrap_active_def restore_as_draft_def published_def
      at_version_def in_state_def insert_draft_def next_version_def Let_def constrained_def
      pack_constraints_def unique_on_def publish_draft_def demo_pack_stored demo_pack_valid
      update_rows_def)

theorem pack_operations_respect_constraints_witness:
  "\<exists>t. pack_exec demo_labels (RestoreDraft ''acme'' 1) demo_pack_table = Inr t \<and> pack_constraints t"
proof -
  have "pack_constraints demo_pack_table"
    by (simp add: demo_pack_table_def bootstrap_active_def pack_constraints_def unique_on_def)
  from pack_operations_respect_constraints[OF this, of demo_labels "RestoreDraft ''acme'' 1"] demo_publish
  show ?thesis by auto
qed

lemma publish_activates_draft_witness:
  "\<exists>t t' p. publish_draft demo_labels ''acme'' 9 t = Inr (2, t') \<and>
     active_revision demo_labels ''acme'' t' =
       Inr (Some \<lparr>rv_version = 2, rv_state = PackActive, rv_definition = p\<rparr>)"
proof -
  obtain t t' where "pack_constraints t" "publish_draft demo_labels ''acme'' 9 t = Inr (2, t')"
    using demo_publish by blast
  with publish_activates_draft[OF this] show ?thesis by blast
qed

end
