(* ===== verification/Queue_Laws.thy ===== *)
theory Queue_Laws
  imports Queues
begin

text \<open>
  The contract of the durable queues: bounds of the backoff, and the steps of a queue with what
  holds along every sequence of them. The locale \<open>work_queue\<close> is the interface the workers use; the
  inbox, the outbox and the outbound messages interpret it.
\<close>

section \<open>Backoff\<close>

lemma be_nat_bound: "be_nat bs < 256 ^ length bs"
proof (induction bs rule: rev_induct)
  case (snoc b bs)
  have "unat b < 256" using unsigned_less[of b, where ?'a = nat] by simp
  then show ?case using snoc by (simp add: be_nat_def)
qed (simp add: be_nat_def)

lemma jitter_fraction_range: "0 \<le> jitter_fraction k n" "jitter_fraction k n \<le> 1"
proof -
  let ?bs = "take 8 (sha256 (utf8 (k @ '':'' @ int_str n)))"
  have "(256::nat) ^ length ?bs \<le> 256 ^ 8" by (rule power_increasing) auto
  then have "be_nat ?bs < 2 ^ 64" using be_nat_bound[of ?bs] by simp
  then have "(of_nat (be_nat ?bs) :: rat) \<le> of_nat (2 ^ 64 - 1)" by (subst of_nat_le_iff) simp
  then show "jitter_fraction k n \<le> 1" by (simp add: jitter_fraction_def)
qed (simp add: jitter_fraction_def)

lemma jitter_bounds:
  assumes "(0::rat) \<le> e" "0 \<le> j" "0 \<le> f" "f \<le> 1"
  shows "- (e * j) \<le> e * j * (f * 2 - 1)" "e * j * (f * 2 - 1) \<le> e * j"
proof -
  have p: "0 \<le> e * j" using assms by simp
  show "e * j * (f * 2 - 1) \<le> e * j" using mult_left_mono[OF _ p, of "f * 2 - 1" 1] assms by simp
  show "- (e * j) \<le> e * j * (f * 2 - 1)" using mult_left_mono[OF _ p, of "-1" "f * 2 - 1"] assms by simp
qed

definition backoff :: "int \<Rightarrow> rat \<Rightarrow> rat \<Rightarrow> rat" where
  "backoff attempts base_seconds maximum_seconds = min (base_seconds * 2 ^ nat (attempts - 1)) maximum_seconds"

text \<open>
  A retry delay is refused exactly for an attempt count below one, a delay that is not
  positive, a jitter ratio outside [0, 1], or an attempt count whose power of two no float holds;
  otherwise it lies within the jitter ratio of the capped exponential backoff, is at least a
  millisecond and at most the maximum.
\<close>

lemma retry_delay_bounds:
  "case retry_delay attempts stable_key base maximum ratio of
     Inl e \<Rightarrow> attempts < 1 \<or> attempts > 1024 \<or> base \<le> 0 \<or> maximum \<le> 0 \<or> ratio < 0 \<or> ratio > 1
   | Inr d \<Rightarrow> attempts \<in> {1..1024} \<and> base > 0 \<and> ratio \<in> {0..1} \<and>
       d \<in> {1 / 1000 .. max (1 / 1000) maximum} \<and>
       backoff attempts base maximum * (1 - ratio) \<le> d \<and>
       d \<le> max (1 / 1000) (backoff attempts base maximum * (1 + ratio))"
proof (cases "retry_delay attempts stable_key base maximum ratio")
  case (Inl e)
  then show ?thesis by (auto simp: retry_delay_def Let_def check_def split: if_splits)
next
  case (Inr d)
  let ?e = "backoff attempts base maximum"
  let ?j = "?e * ratio * (jitter_fraction stable_key attempts * 2 - 1)"
  have g: "attempts \<in> {1..1024}" "base > 0" "maximum > 0" "0 \<le> ratio" "ratio \<le> 1"
    and d: "d = max (1 / 1000) (min maximum (?e + ?j))"
    using Inr by (auto simp: retry_delay_def Let_def backoff_def)
  have e: "0 \<le> ?e" "?e \<le> maximum" using g by (simp_all add: backoff_def)
  have "?e * (1 - ratio) \<le> maximum" using e mult_left_mono[of "1 - ratio" 1 ?e] g by simp
  then show ?thesis
    using Inr g e d jitter_bounds[OF e(1) g(4) jitter_fraction_range, of stable_key attempts]
    by (auto simp: algebra_simps min_def max_def)
qed

section \<open>Steps of a queue\<close>

text \<open>
  What happens to the rows of a queue, with the row identifiers a claim took because they were due
  and those it took back from a worker that was silent for too long. The steps of the three stores
  are instances.
\<close>

datatype 'k queue_event =
    Claims instant "'k list" "'k list"
  | Completes 'k
  | Fails 'k int
  | Inserts 'k

inductive queue_step ::
  "(('k, 'd) queue_row \<Rightarrow> 'o::linorder) \<Rightarrow> int \<Rightarrow> int \<Rightarrow> 'k queue_event \<Rightarrow>
   ('k, 'd) queue_row list \<Rightarrow> ('k, 'd) queue_row list \<Rightarrow> bool"
  for order stale_after max_attempts
where
  claims: "claim_rows route order limit stale_after now t = (c, t') \<Longrightarrow>
    queue_step order stale_after max_attempts
      (Claims now (map q_id (filter (\<lambda>r. q_status r = Pending \<and> q_id r \<in> set (map q_id c)) t))
        (map q_id (filter (\<lambda>r. q_status r \<noteq> Pending \<and> q_id r \<in> set (map q_id c)) t))) t t'"
| completes: "queue_step order stale_after max_attempts (Completes k) t (mark_done f k now t)"
| fails: "queue_step order stale_after max_attempts (Fails k attempts) t
    (mark_retry k (attempts \<ge> max_attempts) delay err now t)"
| inserts: "queue_step order stale_after max_attempts (Inserts (q_id r)) t (snd (insert_once r t))"

inductive queue_trace ::
  "(('k, 'd) queue_row \<Rightarrow> 'o::linorder) \<Rightarrow> int \<Rightarrow> int \<Rightarrow> ('k, 'd) queue_row list \<Rightarrow>
   'k queue_event list \<Rightarrow> ('k, 'd) queue_row list \<Rightarrow> bool"
  for order stale_after max_attempts t0
where
  start: "queue_trace order stale_after max_attempts t0 [] t0"
| step: "\<lbrakk>queue_trace order stale_after max_attempts t0 es t;
    queue_step order stale_after max_attempts e t t'\<rbrakk>
    \<Longrightarrow> queue_trace order stale_after max_attempts t0 (es @ [e]) t'"

definition row_of :: "'k \<Rightarrow> ('k, 'd) queue_row list \<Rightarrow> ('k, 'd) queue_row option" where
  "row_of k t = find (\<lambda>r. q_id r = k) t"

definition row_ids :: "('k, 'd) queue_row list \<Rightarrow> 'k list" where
  "row_ids t = map q_id t"

lemma row_of_in: "distinct (row_ids t) \<Longrightarrow> row_of k t = Some r \<longleftrightarrow> r \<in> set t \<and> q_id r = k"
  by (induction t) (auto simp: row_of_def row_ids_def image_iff)

lemma row_of_update:
  assumes "\<And>r. q_id (f r) = q_id r"
  shows "row_of k (update_rows P f t) = map_option (\<lambda>r. if P r then f r else r) (row_of k t)"
  using assms by (induction t) (auto simp: row_of_def)

lemma row_ids_update: "(\<And>r. q_id (f r) = q_id r) \<Longrightarrow> row_ids (update_rows P f t) = row_ids t"
  by (induction t) (auto simp: row_ids_def)

lemma take_row_id [simp]: "q_id (take_row now r) = q_id r"
  by (simp add: take_row_def)

lemma set_take_sorted: "set (take n (sort_key f xs)) \<subseteq> set xs"
  using set_take_subset[of n "sort_key f xs"] by simp

lemma claim_rows_props:
  assumes c: "claim_rows route order limit stale now t = (c, t')"
  shows "row_ids t' = row_ids t"
    and "row_of k t' = map_option (\<lambda>r. if q_id r \<in> set (map q_id c) then take_row now r else r) (row_of k t)"
    and "distinct (row_ids t) \<Longrightarrow> r \<in> set t \<Longrightarrow> q_id r \<in> set (map q_id c) \<Longrightarrow>
      route r \<and> claimable now stale r"
    and "distinct (row_ids t) \<Longrightarrow> c' \<in> set c \<Longrightarrow> row_of (q_id c') t' = Some c'"
proof -
  define ids where "ids = map q_id (take limit (sort_key order
    (filter (\<lambda>r. route r \<and> claimable now stale r) t)))"
  have t': "t' = update_rows (\<lambda>r. q_id r \<in> set ids) (take_row now) t"
    and c: "c = filter (\<lambda>r. q_id r \<in> set ids) t'"
    using c by (auto simp: claim_rows_def Let_def ids_def)
  have ids: "x \<in> set ids \<Longrightarrow> \<exists>r \<in> set t. q_id r = x \<and> route r \<and> claimable now stale r" for x
    using set_take_sorted[of limit order "filter (\<lambda>r. route r \<and> claimable now stale r) t"]
    by (auto simp: ids_def)
  show same: "row_ids t' = row_ids t" unfolding t' by (rule row_ids_update) simp
  have mem: "q_id r \<in> set (map q_id c) \<longleftrightarrow> q_id r \<in> set ids" if "r \<in> set t" for r
  proof -
    have "q_id ` set t' = q_id ` set t" using arg_cong[OF same, of set] by (simp add: row_ids_def)
    then have "q_id r \<in> q_id ` set t'" using that by simp
    then obtain r' where "r' \<in> set t'" "q_id r' = q_id r" by (metis imageE)
    then show ?thesis unfolding c by (auto intro: rev_image_eqI)
  qed
  show "row_of k t' = map_option (\<lambda>r. if q_id r \<in> set (map q_id c) then take_row now r else r) (row_of k t)"
  proof (cases "row_of k t")
    case None
    then show ?thesis unfolding t' by (simp add: row_of_update)
  next
    case (Some r)
    then have "r \<in> set t" by (auto simp: row_of_def dest: find_SomeD)
    then show ?thesis unfolding t' using mem[of r] Some by (simp add: row_of_update)
  qed
  show "distinct (row_ids t) \<Longrightarrow> r \<in> set t \<Longrightarrow> q_id r \<in> set (map q_id c) \<Longrightarrow>
      route r \<and> claimable now stale r"
    using ids mem by (metis row_of_in option.inject)
  show "row_of (q_id c') t' = Some c'" if "distinct (row_ids t)" "c' \<in> set c"
    using that same by (simp add: row_of_in) (simp add: c)
qed

inductive_cases queue_stepE: "queue_step order stale_after max_attempts e t t'"

lemma row_of_mark_done:
  "row_of k (mark_done f j now t) = map_option (\<lambda>r. if q_id r = j \<and> q_status r = Processing then
     r\<lparr>q_status := Delivered, q_done_at := Some now, q_claimed_at := None, q_data := f (q_data r)\<rparr>
     else r) (row_of k t)"
  by (simp add: mark_done_def row_of_update)

lemma row_of_mark_retry:
  "row_of k (mark_retry j dead delay err now t) = map_option (\<lambda>r. if q_id r = j \<and> q_status r = Processing then
     r\<lparr>q_status := (if dead then Dead else Pending), q_next_attempt_at := now + interval delay,
       q_claimed_at := None, q_last_error := Some (take 2000 err)\<rparr> else r) (row_of k t)"
  by (simp add: mark_retry_def row_of_update)

lemma row_of_insert: "row_of k t = Some r \<Longrightarrow> row_of k (snd (insert_once r' t)) = Some r"
  by (induction t) (auto simp: insert_once_def row_of_def split: if_splits)

lemma row_of_id: "row_of k t = Some r \<Longrightarrow> q_id r = k"
  by (auto simp: row_of_def dest: find_SomeD)

lemma row_ids_mark [simp]:
  "row_ids (mark_done f k now t) = row_ids t"
  "row_ids (mark_retry k dead delay err now t) = row_ids t"
  by (simp_all add: mark_done_def mark_retry_def row_ids_update)

lemma insert_once_distinct: "distinct (row_ids t) \<Longrightarrow> distinct (row_ids (snd (insert_once r t)))"
  by (auto simp: row_ids_def insert_once_def)

lemma step_distinct:
  "queue_step order stale m e t t' \<Longrightarrow> distinct (row_ids t) \<Longrightarrow> distinct (row_ids t')"
proof (erule queue_stepE)
  fix route limit now c
  assume "claim_rows route order limit stale now t = (c, t')" "distinct (row_ids t)"
  then show ?thesis by (simp add: claim_rows_props(1))
qed (simp_all add: insert_once_distinct)

lemma trace_distinct:
  "queue_trace order stale m t es t' \<Longrightarrow> distinct (row_ids t) \<Longrightarrow> distinct (row_ids t')"
  by (induction rule: queue_trace.induct) (auto dest: step_distinct)

lemma row_in_filter:
  assumes "distinct (row_ids t)" "row_of k t = Some r"
  shows "k \<in> set (map q_id (filter P t)) \<longleftrightarrow> P r"
proof
  assume "k \<in> set (map q_id (filter P t))"
  then obtain x where "x \<in> set t" "P x" "q_id x = k" by auto
  moreover from this have "row_of k t = Some x" using assms(1) by (simp add: row_of_in)
  ultimately show "P r" using assms(2) by simp
qed (use assms in \<open>auto simp: row_of_in\<close>)

text \<open>The step of one row: what an event does to the row with identifier \<open>k\<close>.\<close>

lemma claim_row_step:
  assumes c: "claim_rows route order limit stale now t = (c, t')" and d: "distinct (row_ids t)"
    and r: "row_of k t = Some r"
    and fresh: "fresh = map q_id (filter (\<lambda>r. q_status r = Pending \<and> q_id r \<in> set (map q_id c)) t)"
    and expired: "expired = map q_id (filter (\<lambda>r. q_status r \<noteq> Pending \<and> q_id r \<in> set (map q_id c)) t)"
  shows "row_of k t' = Some (if k \<in> set fresh \<union> set expired then take_row now r else r)"
    and "k \<in> set fresh \<Longrightarrow> q_status r = Pending \<and> q_next_attempt_at r \<le> now"
    and "k \<in> set expired \<Longrightarrow> q_status r = Processing \<and> (\<exists>x. q_claimed_at r = Some x \<and> x + seconds stale < now)"
proof -
  have in_t: "r \<in> set t" "q_id r = k" using r d by (simp_all add: row_of_in)
  have f: "k \<in> set fresh \<longleftrightarrow> q_status r = Pending \<and> k \<in> set (map q_id c)"
    unfolding fresh using row_in_filter[OF d r] in_t(2) by simp
  have e: "k \<in> set expired \<longleftrightarrow> q_status r \<noteq> Pending \<and> k \<in> set (map q_id c)"
    unfolding expired using row_in_filter[OF d r] in_t(2) by simp
  have cl: "k \<in> set (map q_id c) \<Longrightarrow> claimable now stale r"
    using claim_rows_props(3)[OF c d in_t(1)] in_t(2) by blast
  show "row_of k t' = Some (if k \<in> set fresh \<union> set expired then take_row now r else r)"
    using claim_rows_props(2)[OF c, of k] r in_t(2) f e by auto
  show "k \<in> set fresh \<Longrightarrow> q_status r = Pending \<and> q_next_attempt_at r \<le> now"
    using f cl by (auto simp: claimable_def)
  show "k \<in> set expired \<Longrightarrow> q_status r = Processing \<and> (\<exists>x. q_claimed_at r = Some x \<and> x + seconds stale < now)"
    using e cl by (auto simp: claimable_def split: option.splits)
qed

fun fresh_claim :: "'k \<Rightarrow> 'k queue_event \<Rightarrow> bool" where
  "fresh_claim k (Claims now fresh expired) = (k \<in> set fresh)"
| "fresh_claim k _ = False"

fun expired_claim :: "'k \<Rightarrow> 'k queue_event \<Rightarrow> bool" where
  "expired_claim k (Claims now fresh expired) = (k \<in> set expired)"
| "expired_claim k _ = False"

fun claim_time :: "'k queue_event \<Rightarrow> instant option" where
  "claim_time (Claims now fresh expired) = Some now"
| "claim_time _ = None"

fun marks :: "'k \<Rightarrow> 'k queue_event \<Rightarrow> bool" where
  "marks k (Completes j) = (j = k)"
| "marks k (Fails j a) = (j = k)"
| "marks k _ = False"

fun failed_attempt :: "'k \<Rightarrow> 'k queue_event \<Rightarrow> int list" where
  "failed_attempt k (Fails j a) = (if j = k then [a] else [])"
| "failed_attempt k _ = []"

definition failed_attempts :: "'k \<Rightarrow> 'k queue_event list \<Rightarrow> int list" where
  "failed_attempts k es = concat (map (failed_attempt k) es)"

definition fresh_claims :: "'k \<Rightarrow> 'k queue_event list \<Rightarrow> nat" where
  "fresh_claims k es = length (filter (fresh_claim k) es)"

definition expired_claims :: "'k \<Rightarrow> 'k queue_event list \<Rightarrow> nat" where
  "expired_claims k es = length (filter (expired_claim k) es)"

lemma claimed_row:
  assumes c: "claim_rows route order limit stale_after now t = (c, t')" "distinct (row_ids t)" "r \<in> set c"
  shows "\<exists>r0. row_of (q_id r) t = Some r0 \<and> route r0 \<and> claimable now stale_after r0 \<and> r = take_row now r0 \<and>
    row_of (q_id r) t' = Some r"
proof -
  have t': "row_of (q_id r) t' = Some r" using claim_rows_props(4)[OF c(1,2,3)] .
  with claim_rows_props(2)[OF c(1), of "q_id r"] c(3) obtain r0 where
    r0: "row_of (q_id r) t = Some r0" "r = (if q_id r0 \<in> set (map q_id c) then take_row now r0 else r0)"
    by (cases "row_of (q_id r) t") auto
  have in_t: "r0 \<in> set t" "q_id r0 = q_id r" using r0(1) c(2) by (simp_all add: row_of_in)
  have "q_id r0 \<in> set (map q_id c)" using in_t(2) c(3) by simp
  with claim_rows_props(3)[OF c(1,2) in_t(1)] r0 t' show ?thesis by auto
qed

lemma claimed_row_stays:
  assumes "queue_trace order stale_after max_attempts t es t'" "distinct (row_ids t)"
    and "row_of k t = Some r" "q_status r = Processing" "q_claimed_at r = Some since"
    and "\<forall>e \<in> set es. \<not> marks k e"
    and "\<forall>e \<in> set es. \<forall>now. claim_time e = Some now \<longrightarrow> now \<le> since + seconds stale_after"
  shows "row_of k t' = Some r \<and> (\<forall>e \<in> set es. \<not> fresh_claim k e \<and> \<not> expired_claim k e)"
  using assms
proof (induction rule: queue_trace.induct)
  case (step es t1 e t2)
  then have IH: "row_of k t1 = Some r" and
    old: "\<forall>e \<in> set es. \<not> fresh_claim k e \<and> \<not> expired_claim k e" by auto
  have d: "distinct (row_ids t1)" using step trace_distinct by blast
  from step.hyps(2) show ?case
  proof cases
    case (claims route limit now c)
    from claim_row_step[OF claims(2) d IH refl refl] show ?thesis
      using step.prems old claims(1) by auto
  qed (use step.prems IH old row_of_id[OF IH] in
      \<open>auto simp: row_of_mark_done row_of_mark_retry row_of_insert\<close>)
qed auto

text \<open>
  (C15) A row that a worker claims was due (or held by a worker that was silent for too long), is
  handed out as being processed since the moment of the claim with one attempt more and its content
  unchanged, and from then on belongs to that worker: while nobody marks it as done or failed, and
  every later claim comes within the silence the queue tolerates, no claim takes it, and the row in
  the queue stays the one the worker was given.
\<close>

theorem claimed_rows_are_exclusive:
  assumes "claim_rows route order limit stale_after now t0 = (c, t)" "distinct (row_ids t0)" "r \<in> set c"
    and "queue_trace order stale_after max_attempts t es t'"
    and "\<forall>e \<in> set es. \<not> marks (q_id r) e"
    and "\<forall>e \<in> set es. \<forall>later. claim_time e = Some later \<longrightarrow> later \<le> now + seconds stale_after"
  shows "(\<exists>r0. row_of (q_id r) t0 = Some r0 \<and> route r0 \<and> claimable now stale_after r0 \<and>
      q_attempts r = q_attempts r0 + 1 \<and> q_data r = q_data r0) \<and>
    q_status r = Processing \<and> q_claimed_at r = Some now \<and> row_of (q_id r) t' = Some r \<and>
    (\<forall>e \<in> set es. \<not> fresh_claim (q_id r) e \<and> \<not> expired_claim (q_id r) e)"
proof -
  from claimed_row[OF assms(1-3)] obtain r0 where r0: "row_of (q_id r) t0 = Some r0" "route r0"
    "claimable now stale_after r0" "r = take_row now r0" "row_of (q_id r) t = Some r" by blast
  have taken: "q_status r = Processing" "q_claimed_at r = Some now" "q_attempts r = q_attempts r0 + 1" "q_data r = q_data r0"
    unfolding r0(4) by (simp_all add: take_row_def)
  have "distinct (row_ids t)" using assms(2) claim_rows_props(1)[OF assms(1)] by simp
  from claimed_row_stays[OF assms(4) this r0(5) taken(1,2) assms(5,6)] r0(1-3) taken show ?thesis by blast
qed

lemma claim_event:
  assumes "claim_rows route order limit stale now t = (c, t')" "distinct (row_ids t)" "row_of k t = Some r"
    and e: "e = Claims now (map q_id (filter (\<lambda>r. q_status r = Pending \<and> q_id r \<in> set (map q_id c)) t))
        (map q_id (filter (\<lambda>r. q_status r \<noteq> Pending \<and> q_id r \<in> set (map q_id c)) t))"
  shows "row_of k t' = Some (if fresh_claim k e \<or> expired_claim k e then take_row now r else r)"
    and "fresh_claim k e \<Longrightarrow> q_status r = Pending" "expired_claim k e \<Longrightarrow> q_status r = Processing"
    and "failed_attempt k e = []"
  using claim_row_step[OF assms(1-3) refl refl] unfolding e by simp_all

text \<open>A row that was delivered or given up stays as it is.\<close>

lemma settled_row_step:
  assumes "queue_step order stale m e t t'" "distinct (row_ids t)"
    and r: "row_of k t = Some r" "q_status r \<in> {Delivered, Dead}"
  shows "row_of k t' = Some r \<and> \<not> fresh_claim k e \<and> \<not> expired_claim k e"
  using assms(1)
proof cases
  case (claims route limit now c)
  from claim_event[OF claims(2) assms(2) r(1) claims(1)] show ?thesis using r by auto
qed (use r row_of_id[OF r(1)] in \<open>auto simp: row_of_mark_done row_of_mark_retry row_of_insert\<close>)

lemma settled_row_stays:
  assumes "queue_trace order stale m t es t'" "distinct (row_ids t)"
    and "row_of k t = Some r" "q_status r \<in> {Delivered, Dead}"
  shows "row_of k t' = Some r \<and> fresh_claims k es = 0 \<and> expired_claims k es = 0"
  using assms
proof (induction rule: queue_trace.induct)
  case (step es t1 e t2)
  then show ?case
    using settled_row_step[OF step.hyps(2), of k r] trace_distinct[OF step.hyps(1)]
    by (auto simp: fresh_claims_def expired_claims_def)
qed (simp add: fresh_claims_def expired_claims_def)

text \<open>Failures before the limit leave the row pending.\<close>

definition retried :: "int \<Rightarrow> 'k \<Rightarrow> 'k queue_event list \<Rightarrow> nat" where
  "retried m k es = length (filter (\<lambda>a. a < m) (failed_attempts k es))"

definition counted :: "int \<Rightarrow> 'k \<Rightarrow> 'k queue_event list \<Rightarrow> ('k, 'd) queue_row \<Rightarrow> bool" where
  "counted m k es r \<longleftrightarrow>
     q_attempts r = int (fresh_claims k es) + int (expired_claims k es) \<and>
     fresh_claims k es \<le> 1 + retried m k es \<and>
     (q_status r = Pending \<longrightarrow> fresh_claims k es \<le> retried m k es)"

lemmas count_defs = counted_def fresh_claims_def expired_claims_def retried_def failed_attempts_def

lemma counted_step:
  assumes "queue_step order stale m e t t'" and d: "distinct (row_ids t)"
    and r: "row_of k t = Some r" and c: "counted m k es r"
  shows "\<exists>r'. row_of k t' = Some r' \<and> counted m k (es @ [e]) r'"
  using assms(1)
proof cases
  case (claims route limit now ct)
  note cs = claim_event[OF claims(2) d r claims(1)]
  show ?thesis
  proof (cases "fresh_claim k e \<or> expired_claim k e")
    case True
    then have "row_of k t' = Some (take_row now r)" using cs(1) by auto
    moreover have "\<not> (fresh_claim k e \<and> expired_claim k e)" using cs(2,3) by auto
    ultimately show ?thesis using True c cs by (auto simp: count_defs take_row_def)
  next
    case False
    then have "row_of k t' = Some r" using cs(1) by auto
    then show ?thesis using False c cs(4) by (auto simp: count_defs)
  qed
next
  case (completes j f now)
  then show ?thesis using r c by (auto simp: count_defs row_of_mark_done)
next
  case (fails j a delay err now)
  then show ?thesis using r c row_of_id[OF r] by (auto simp: count_defs row_of_mark_retry)
next
  case (inserts j)
  then show ?thesis using r c by (auto simp: count_defs row_of_insert)
qed

lemma counted_trace:
  assumes "queue_trace order stale m t es t'" "distinct (row_ids t)"
    and "row_of k t = Some r" "q_status r = Pending" "q_attempts r = 0"
  shows "\<exists>r'. row_of k t' = Some r' \<and> counted m k es r'"
  using assms
proof (induction rule: queue_trace.induct)
  case (step es t1 e t2)
  then show ?case using counted_step[OF step.hyps(2)] trace_distinct[OF step.hyps(1)] by blast
qed (auto simp: count_defs)

lemma distinct_below:
  assumes "distinct (xs :: int list)" "\<forall>x \<in> set xs. 1 \<le> x"
  shows "length (filter (\<lambda>a. a < m) xs) \<le> nat (m - 1)"
proof -
  have "set (filter (\<lambda>a. a < m) xs) \<subseteq> {1..m - 1}" using assms(2) by auto
  then have "card (set (filter (\<lambda>a. a < m) xs)) \<le> card {1..m - 1}" by (intro card_mono) auto
  moreover have "card (set (filter (\<lambda>a. a < m) xs)) = length (filter (\<lambda>a. a < m) xs)"
    using assms(1) by (intro distinct_card) simp
  ultimately show ?thesis by simp
qed

text \<open>
  From its insertion on, a row counts the times it was claimed; when each worker reports a
  failure of its own attempt at most once, the row was claimed at most the limit of attempts besides
  the claims that took it back from a silent worker. Those are not bounded.
\<close>

lemma attempts_are_bounded:
  assumes "queue_trace order stale_after max_attempts t es t'" "distinct (row_ids t)"
    and "row_of k t = Some r" "q_status r = Pending" "q_attempts r = 0"
    and "distinct (failed_attempts k es)" "\<forall>a \<in> set (failed_attempts k es). 1 \<le> a" "1 \<le> max_attempts"
  shows "\<exists>r'. row_of k t' = Some r' \<and>
    q_attempts r' = int (fresh_claims k es) + int (expired_claims k es) \<and>
    int (fresh_claims k es) \<le> max_attempts"
  using counted_trace[OF assms(1-5)] distinct_below[OF assms(6,7), of max_attempts] assms(8)
  by (fastforce simp: counted_def retried_def)

lemma taken_is_claimed:
  assumes c: "claim_rows route order limit stale now t = (c, t')" and r: "r \<in> set t"
    and i: "r \<in> set (take limit (sort_key order (filter (\<lambda>r. route r \<and> claimable now stale r) t)))"
  shows "take_row now r \<in> set c"
proof -
  define ids where "ids = map q_id (take limit (sort_key order
    (filter (\<lambda>r. route r \<and> claimable now stale r) t)))"
  have "q_id r \<in> set ids" using i by (simp add: ids_def)
  then have "take_row now r \<in> set (update_rows (\<lambda>r. q_id r \<in> set ids) (take_row now) t)"
    using r by (auto simp: set_update_rows)
  moreover have "c = filter (\<lambda>r. q_id r \<in> set ids) (update_rows (\<lambda>r. q_id r \<in> set ids) (take_row now) t)"
    using c by (auto simp: claim_rows_def Let_def ids_def)
  ultimately show ?thesis using \<open>q_id r \<in> set ids\<close> by simp
qed

text \<open>
  A claim takes every due row of its route that fewer other due rows precede than its limit:
  the row is handed out with one attempt more, and is marked as claimed in the table.
\<close>

lemma due_rows_are_claimed:
  assumes c: "claim_rows route order limit stale_after now t = (c, t')" and d: "distinct (row_ids t)"
    and r: "r \<in> set t" "route r" "claimable now stale_after r"
    and before: "length (filter (\<lambda>x. route x \<and> claimable now stale_after x \<and>
      order x \<le> order r \<and> q_id x \<noteq> q_id r) t) < limit"
  shows "take_row now r \<in> set c \<and> row_of (q_id r) t' = Some (take_row now r)"
proof -
  let ?due = "filter (\<lambda>x. route x \<and> claimable now stale_after x) t"
  have in_sorted: "r \<in> set (sort_key order ?due)" using r by simp
  then obtain as bs where ab: "sort_key order ?due = as @ r # bs" by (meson split_list)
  have dist: "distinct (map q_id (as @ r # bs))"
    using d unfolding ab[symmetric] row_ids_def distinct_map by (auto simp: inj_on_def)
  have "\<forall>x \<in> set as. order x \<le> order r \<and> q_id x \<noteq> q_id r \<and> x \<in> set ?due"
  proof
    fix x assume x: "x \<in> set as"
    have "sorted (map order (as @ r # bs))" unfolding ab[symmetric] by simp
    then have "order x \<le> order r" using x by (auto simp: sorted_append)
    moreover have "q_id x \<noteq> q_id r" using dist x by (auto simp: image_iff)
    moreover have "x \<in> set ?due" using x ab by (metis Un_iff set_append set_sort)
    ultimately show "order x \<le> order r \<and> q_id x \<noteq> q_id r \<and> x \<in> set ?due" by simp
  qed
  then have "set as \<subseteq> set (filter (\<lambda>x. route x \<and> claimable now stale_after x \<and>
      order x \<le> order r \<and> q_id x \<noteq> q_id r) t)" by auto
  moreover have "distinct as" using dist by (simp add: distinct_map)
  ultimately have "length as < limit"
    using before by (metis (no_types, lifting) List.finite_set card_mono card_length distinct_card le_less_trans order.trans)
  then have "r \<in> set (take limit (sort_key order ?due))" unfolding ab by (simp add: take_Cons')
  then have "take_row now r \<in> set c" by (rule taken_is_claimed[OF c r(1)])
  then show ?thesis using claim_rows_props(4)[OF c d] by fastforce
qed

end
