(* ===== verification/Workers.thy ===== *)
theory Workers
  imports Queue_Laws
begin

text \<open>
  The workers of the queues: the pass that \<open>MessageProcessor.run_once\<close>, \<open>OutboxProjectorWorker.run_once\<close>
  and \<open>OutboundSender.run_once\<close> share, and the sender (\<open>messaging/sender.py\<close>). The locale \<open>work_queue\<close> is
  what a pass relies on; the three stores interpret it.
\<close>

section \<open>The worker loop\<close>

text \<open>
  One pass of a worker: claim, then handle each item and record how it went. Handling acts on the
  rest of the world, which also tells the time; a failure of the bookkeeping itself ends the pass.
\<close>

fun handle_items ::
  "('w \<Rightarrow> instant) \<Rightarrow> ('r \<Rightarrow> 'w \<Rightarrow> 'e option \<times> 'w) \<Rightarrow> ('r \<Rightarrow> 'w \<Rightarrow> instant \<Rightarrow> 't \<Rightarrow> 't) \<Rightarrow>
   ('r \<Rightarrow> 'e \<Rightarrow> instant \<Rightarrow> 't \<Rightarrow> 't result) \<Rightarrow> 'r list \<Rightarrow> 't \<times> 'w \<Rightarrow> nat result \<times> 't \<times> 'w"
where
  "handle_items clock handle done_op fail_op [] (t, w) = (Inr 0, t, w)"
| "handle_items clock handle done_op fail_op (r # rs) (t, w) =
     (case handle r w of
        (Some e, w') \<Rightarrow>
          (case fail_op r e (clock w') t of
             Inl err \<Rightarrow> (Inl err, t, w')
           | Inr t' \<Rightarrow> handle_items clock handle done_op fail_op rs (t', w'))
      | (None, w') \<Rightarrow>
          (case handle_items clock handle done_op fail_op rs (done_op r w' (clock w') t, w') of
             (Inr n, s) \<Rightarrow> (Inr (n + 1), s)
           | (Inl err, s) \<Rightarrow> (Inl err, s)))"

definition worker_pass ::
  "(instant \<Rightarrow> 't \<Rightarrow> ('r list \<times> 't) result) \<Rightarrow> ('w \<Rightarrow> instant) \<Rightarrow> ('r \<Rightarrow> 'w \<Rightarrow> 'e option \<times> 'w) \<Rightarrow>
   ('r \<Rightarrow> 'w \<Rightarrow> instant \<Rightarrow> 't \<Rightarrow> 't) \<Rightarrow> ('r \<Rightarrow> 'e \<Rightarrow> instant \<Rightarrow> 't \<Rightarrow> 't result) \<Rightarrow> 't \<times> 'w \<Rightarrow>
   nat result \<times> 't \<times> 'w"
where
  "worker_pass claim clock handle done_op fail_op s =
     (case claim (clock (snd s)) (fst s) of
        Inl err \<Rightarrow> (Inl err, s)
      | Inr (items, t) \<Rightarrow> handle_items clock handle done_op fail_op items (t, snd s))"

lemma claim_rows_fresh:
  assumes c: "claim_rows route order limit stale now t = (c, t')" and d: "distinct (row_ids t)"
  shows "distinct (map q_id c)"
    and "\<forall>item \<in> set c. row_of (q_id item) t' = Some item \<and> q_status item = Processing"
proof -
  have d': "distinct (map q_id t')" using claim_rows_props(1)[OF c] d by (simp add: row_ids_def)
  then show "distinct (map q_id c)" using c by (auto simp: claim_rows_def Let_def intro!: distinct_filter_map)
  have "q_status item = Processing" if "item \<in> set c" for item
    using that c by (auto simp: claim_rows_def Let_def set_update_rows take_row_def)
  then show "\<forall>item \<in> set c. row_of (q_id item) t' = Some item \<and> q_status item = Processing"
    using claim_rows_props(4)[OF c d] by blast
qed

text \<open>The interface a worker relies on: its store's operations are steps of a queue.\<close>

locale work_queue =
  fixes order :: "('k, 'd) queue_row \<Rightarrow> 'o::linorder" and stale_after max_attempts :: int
    and claim :: "instant \<Rightarrow> ('k, 'd) queue_row list \<Rightarrow>
      (('k, 'd) queue_row list \<times> ('k, 'd) queue_row list) result"
    and done_op :: "('k, 'd) queue_row \<Rightarrow> 'w \<Rightarrow> instant \<Rightarrow> ('k, 'd) queue_row list \<Rightarrow> ('k, 'd) queue_row list"
    and fail_op :: "('k, 'd) queue_row \<Rightarrow> 'e \<Rightarrow> instant \<Rightarrow> ('k, 'd) queue_row list \<Rightarrow>
      ('k, 'd) queue_row list result"
  assumes claim_step: "claim now t = Inr (c, t') \<Longrightarrow>
      \<exists>route limit. claim_rows route order limit stale_after now t = (c, t')"
    and done_step: "\<exists>f. done_op item w now t = mark_done f (q_id item) now t"
    and fail_step: "fail_op item e now t = Inr t' \<Longrightarrow>
      \<exists>delay err. t' = mark_retry (q_id item) (q_attempts item \<ge> max_attempts) delay err now t"
begin

lemma item_step:
  assumes "handle_items clock handle done_op fail_op (item # items) (t, w) = (res, t', w')"
  obtains (stop) err w1 where "fail_op item err (clock w1) t = Inl (projl res)" "isl res" "t' = t" "w' = w1"
  | (go) t1 w1 res1 where "handle_items clock handle done_op fail_op items (t1, w1) = (res1, t', w')"
      "isl res \<longleftrightarrow> isl res1"
      "(\<exists>f. t1 = mark_done f (q_id item) (clock w1) t) \<or>
       (\<exists>delay err. t1 = mark_retry (q_id item) (q_attempts item \<ge> max_attempts) delay err (clock w1) t)"
proof -
  obtain o' w1 where h: "handle item w = (o', w1)" by force
  show ?thesis
  proof (cases o')
    case None
    then show ?thesis
      using assms h go[of "done_op item w1 (clock w1) t" w1] done_step[of item w1 "clock w1" t]
      by (auto split: prod.splits sum.splits)
  next
    case (Some x)
    show ?thesis
    proof (cases "fail_op item x (clock w1) t")
      case (Inl err)
      then have "res = Inl err" "t' = t" "w' = w1" using assms h Some by auto
      then show ?thesis using Inl by (intro stop[of x w1]) auto
    next
      case (Inr t1)
      then have "handle_items clock handle done_op fail_op items (t1, w1) = (res, t', w')"
        using assms h Some by simp
      then show ?thesis by (rule go[OF _ refl]) (use fail_step[OF Inr] in blast)
    qed
  qed
qed

lemma items_trace:
  "\<lbrakk>handle_items clock handle done_op fail_op items (t, w) = (res, t', w');
    queue_trace order stale_after max_attempts t0 es t\<rbrakk>
   \<Longrightarrow> \<exists>es'. queue_trace order stale_after max_attempts t0 (es @ es') t' \<and>
         (\<forall>e \<in> set es'. \<exists>item \<in> set items. e = Completes (q_id item) \<or> e = Fails (q_id item) (q_attempts item))"
proof (induction items arbitrary: t w es res)
  case Nil
  then show ?case by (auto intro: exI[of _ "[]"])
next
  case (Cons item items)
  from Cons.prems(1) show ?case
  proof (cases rule: item_step)
    case (stop err w1)
    then show ?thesis using Cons.prems(2) by (auto intro: exI[of _ "[]"])
  next
    case (go t1 w1 res1)
    then obtain e where e: "queue_step order stale_after max_attempts e t t1"
      "e = Completes (q_id item) \<or> e = Fails (q_id item) (q_attempts item)"
      using queue_step.completes queue_step.fails by metis
    from Cons.IH[OF go(1) queue_trace.step[OF Cons.prems(2) e(1)]] obtain es' where
      "queue_trace order stale_after max_attempts t0 ((es @ [e]) @ es') t'"
      "\<forall>e \<in> set es'. \<exists>item \<in> set items. e = Completes (q_id item) \<or> e = Fails (q_id item) (q_attempts item)"
      by blast
    then show ?thesis using e(2) by (intro exI[of _ "e # es'"]) auto
  qed
qed

lemma untouched:
  "\<lbrakk>handle_items clock handle done_op fail_op items (t, w) = (res, t', w'); k \<notin> q_id ` set items\<rbrakk>
   \<Longrightarrow> row_of k t' = row_of k t"
proof (induction items arbitrary: t w res)
  case (Cons item items)
  from Cons.prems(1) show ?case
  proof (cases rule: item_step)
    case (go t1 w1 res1)
    then have "row_of k t' = row_of k t1" using Cons by auto
    also have "\<dots> = row_of k t" using go(3) Cons.prems(2) row_of_id[of k t]
      by (cases "row_of k t") (auto simp: row_of_mark_done row_of_mark_retry)
    finally show ?thesis .
  qed simp
qed simp

text \<open>After a pass whose bookkeeping did not fail, every item is delivered, given up, or waiting for
  its next attempt.\<close>

definition settled :: "('k, 'd) queue_row \<Rightarrow> ('k, 'd) queue_row list \<Rightarrow> bool" where
  "settled item t \<longleftrightarrow> (\<exists>r. row_of (q_id item) t = Some r \<and> q_attempts r = q_attempts item \<and>
     (q_status r = Delivered \<or> q_status r = (if q_attempts item \<ge> max_attempts then Dead else Pending)))"

lemma items_settled:
  assumes "handle_items clock handle done_op fail_op items (t, w) = (Inr n, t', w')"
    and "distinct (map q_id items)"
    and "\<forall>item \<in> set items. row_of (q_id item) t = Some item \<and> q_status item = Processing"
  shows "\<forall>item \<in> set items. settled item t'"
  using assms
proof (induction items arbitrary: t w n)
  case (Cons item items)
  from Cons.prems(1) show ?case
  proof (cases rule: item_step)
    case (go t1 w1 res1)
    then obtain n1 where rest: "handle_items clock handle done_op fail_op items (t1, w1) = (Inr n1, t', w')"
      by (cases res1) auto
    have "\<forall>x \<in> set items. row_of (q_id x) t1 = Some x \<and> q_status x = Processing"
    proof
      fix x assume x: "x \<in> set items"
      then have "q_id x \<noteq> q_id item" using Cons.prems(2) by (auto simp: image_iff)
      moreover have "row_of (q_id x) t = Some x \<and> q_status x = Processing" using Cons.prems(3) x by simp
      ultimately show "row_of (q_id x) t1 = Some x \<and> q_status x = Processing"
        using go(3) by (elim disjE exE) (simp_all add: row_of_mark_done row_of_mark_retry)
    qed
    then have "\<forall>x \<in> set items. settled x t'" using Cons.IH[OF rest] Cons.prems(2) by simp
    moreover have "settled item t1"
      using go(3) Cons.prems(3) by (auto simp: settled_def row_of_mark_done row_of_mark_retry)
    then have "settled item t'"
      using untouched[OF rest, of "q_id item"] Cons.prems(2) by (simp add: settled_def)
    ultimately show ?thesis by simp
  qed simp
qed simp

lemma pass_settles:
  assumes "worker_pass claim clock handle done_op fail_op (t, w) = (Inr n, t', w')" "distinct (row_ids t)"
  shows "\<exists>items t1. claim (clock w) t = Inr (items, t1) \<and> (\<forall>item \<in> set items. settled item t')"
proof -
  obtain items t1 where c: "claim (clock w) t = Inr (items, t1)"
    and h: "handle_items clock handle done_op fail_op items (t1, w) = (Inr n, t', w')"
    using assms(1) by (auto simp: worker_pass_def split: sum.splits)
  from claim_step[OF c] obtain route limit where
    cr: "claim_rows route order limit stale_after (clock w) t = (items, t1)" by blast
  have "distinct (map q_id items)" "\<forall>item \<in> set items. row_of (q_id item) t1 = Some item \<and> q_status item = Processing"
    using claim_rows_fresh[OF cr assms(2)] by simp_all
  then show ?thesis using c items_settled[OF h] by blast
qed

lemma pass_trace:
  assumes "worker_pass claim clock handle done_op fail_op (t, w) = (res, t', w')"
  shows "\<exists>es. queue_trace order stale_after max_attempts t es t'"
proof (cases "claim (clock w) t")
  case (Inl err)
  then have "t' = t" using assms by (simp add: worker_pass_def)
  then show ?thesis using queue_trace.start by blast
next
  case (Inr c)
  obtain items t1 where i: "c = (items, t1)" by force
  from claim_step[OF Inr[unfolded i]] obtain route limit where
    cr: "claim_rows route order limit stale_after (clock w) t = (items, t1)" by blast
  have h: "handle_items clock handle done_op fail_op items (t1, w) = (res, t', w')"
    using assms Inr i by (simp add: worker_pass_def)
  from items_trace[OF h queue_trace.step[OF queue_trace.start queue_step.claims[OF cr]]]
  show ?thesis by blast
qed

end

section \<open>The three workers\<close>

text \<open>What a worker sees of an exception: the name of its class, its text and, for the errors of the
  transports, the delay the service asked for.\<close>

record failure =
  failure_class :: string
  failure_text :: string
  failure_retry_after :: "pyfloat option"

definition describe :: "failure \<Rightarrow> string" where
  "describe e = failure_class e @ '': '' @ failure_text e"

definition MAX_ATTEMPTS :: int where "MAX_ATTEMPTS = 10"
definition STALE_AFTER :: int where "STALE_AFTER = 120"

definition processor_run_once ::
  "string \<Rightarrow> string \<Rightarrow> int \<Rightarrow> ('w \<Rightarrow> instant) \<Rightarrow> (inbox_row \<Rightarrow> 'w \<Rightarrow> failure option \<times> 'w) \<Rightarrow>
   inbox_row list \<times> 'w \<Rightarrow> nat result \<times> inbox_row list \<times> 'w"
where
  "processor_run_once organization_id consumer_key limit clock process =
     worker_pass (inbox_claim (if organization_id = [] then None else Some organization_id) consumer_key limit STALE_AFTER)
       clock process (\<lambda>item w. inbox_mark_processed item)
       (\<lambda>item e. inbox_mark_failed item (describe e) MAX_ATTEMPTS)"

text \<open>The projection of an event marks it in its own transaction when it succeeds.\<close>

definition projector_run_once ::
  "string \<Rightarrow> int \<Rightarrow> ('w \<Rightarrow> instant) \<Rightarrow> (outbox_row \<Rightarrow> 'w \<Rightarrow> failure option \<times> 'w) \<Rightarrow>
   outbox_row list \<times> 'w \<Rightarrow> nat result \<times> outbox_row list \<times> 'w"
where
  "projector_run_once organization_id limit clock project =
     worker_pass (claim_events (Some organization_id) limit STALE_AFTER)
       clock project (\<lambda>event w. mark_projected (q_id event))
       (\<lambda>event e. outbox_mark_failed event (describe e) MAX_ATTEMPTS)"

definition outbound_consumer_keys :: "string \<Rightarrow> string \<Rightarrow> string list" where
  "outbound_consumer_keys provider consumer_key =
     (if provider = ''max'' \<and> consumer_key = ''staff''
      then [''staff'', ''admin'', ''operator'', ''master''] else [consumer_key])"

definition retry_after_seconds :: "failure \<Rightarrow> rat option" where
  "retry_after_seconds e = (case failure_retry_after e of
       Some (Finite s) \<Rightarrow> if 0 < s then Some s else None
     | _ \<Rightarrow> None)"

text \<open>The message identifier that the service returned is read back from the world after the send.\<close>

definition sender_run_once ::
  "string list \<Rightarrow> string \<Rightarrow> string \<Rightarrow> string \<Rightarrow> int \<Rightarrow> ('w \<Rightarrow> instant) \<Rightarrow> ('w \<Rightarrow> string option) \<Rightarrow>
   (outbound_row \<Rightarrow> 'w \<Rightarrow> failure option \<times> 'w) \<Rightarrow>
   outbound_row list \<times> 'w \<Rightarrow> nat result \<times> outbound_row list \<times> 'w"
where
  "sender_run_once transports provider organization_id consumer_key limit clock sent_id send s =
     (if provider \<notin> set transports then (Inr 0, s)
      else worker_pass
        (outbound_claim provider (Some organization_id) []
           (Some (outbound_consumer_keys provider consumer_key)) limit STALE_AFTER)
        clock send (\<lambda>message w. mark_delivered (q_id message) (sent_id w))
        (\<lambda>message e. outbound_mark_failed message (describe e) MAX_ATTEMPTS (retry_after_seconds e)) s)"

lemma store_claims:
  "inbox_claim org consumer limit stale now t = Inr (c, t') \<Longrightarrow>
     \<exists>route n. claim_rows route inbox_order n stale now t = (c, t')"
  "claim_events org limit stale now v = Inr (e, v') \<Longrightarrow>
     \<exists>route n. claim_rows route outbox_order n stale now v = (e, v')"
  "outbound_claim provider org consumer consumers limit stale now u = Inr (d, u') \<Longrightarrow>
     \<exists>route n. claim_rows route (\<lambda>r. (q_created_at r, msg_number (q_data r))) n stale now u = (d, u')"
  by (auto simp: inbox_claim_def claim_events_def outbound_claim_def Let_def)

interpretation inbox: work_queue inbox_order STALE_AFTER MAX_ATTEMPTS
    "inbox_claim org consumer limit STALE_AFTER" "\<lambda>item w. inbox_mark_processed item"
    "\<lambda>item e. inbox_mark_failed item (describe e) MAX_ATTEMPTS" for org consumer limit
  by unfold_locales (auto simp: inbox_mark_processed_def inbox_mark_failed_def dest!: store_claims)

interpretation outbox: work_queue outbox_order STALE_AFTER MAX_ATTEMPTS
    "claim_events org limit STALE_AFTER" "\<lambda>event w. mark_projected (q_id event)"
    "\<lambda>event e. outbox_mark_failed event (describe e) MAX_ATTEMPTS" for org limit
  by unfold_locales (auto simp: mark_projected_def outbox_mark_failed_def dest!: store_claims)

interpretation outbound: work_queue "\<lambda>r. (q_created_at r, msg_number (q_data r))" STALE_AFTER MAX_ATTEMPTS
    "outbound_claim provider org consumer consumers limit STALE_AFTER"
    "\<lambda>message w. mark_delivered (q_id message) (sent_id w)"
    "\<lambda>message e. outbound_mark_failed message (describe e) MAX_ATTEMPTS (retry_after_seconds e)"
  for provider org consumer consumers limit sent_id
  by unfold_locales (auto simp: mark_delivered_def outbound_mark_failed_def dest!: store_claims)

text \<open>
  A pass of the sender leaves every message it claimed delivered, waiting for another attempt
  below the limit, or dead at the limit; a pass is a run of the queue, so that the bound on attempts
  and the exclusive claims hold across passes.
\<close>

lemma sender_settles_messages:
  assumes "sender_run_once transports provider org consumer_key limit clock sent_id send (t, w) = (Inr n, t', w')"
    and "provider \<in> set transports" "distinct (row_ids t)"
  shows "(\<exists>es. queue_trace (\<lambda>r. (q_created_at r, msg_number (q_data r))) STALE_AFTER MAX_ATTEMPTS t es t') \<and>
    (\<exists>messages t1. outbound_claim provider (Some org) [] (Some (outbound_consumer_keys provider consumer_key))
        limit STALE_AFTER (clock w) t = Inr (messages, t1) \<and>
      (\<forall>m \<in> set messages. \<exists>r. row_of (q_id m) t' = Some r \<and> q_attempts r = q_attempts m \<and>
         (q_status r = Delivered \<or> q_status r = (if q_attempts m \<ge> 10 then Dead else Pending))))"
proof -
  have p: "worker_pass (outbound_claim provider (Some org) []
      (Some (outbound_consumer_keys provider consumer_key)) limit STALE_AFTER)
      clock send (\<lambda>message w. mark_delivered (q_id message) (sent_id w))
      (\<lambda>message e. outbound_mark_failed message (describe e) MAX_ATTEMPTS (retry_after_seconds e))
      (t, w) = (Inr n, t', w')"
    using assms(1,2) by (simp add: sender_run_once_def)
  from outbound.pass_trace[OF p] outbound.pass_settles[OF p assms(3), unfolded outbound.settled_def]
  show ?thesis unfolding MAX_ATTEMPTS_def by blast
qed

text \<open>Witnesses: a queue with one message.\<close>

definition demo_outbox :: "outbound_row list" where
  "demo_outbox = snd (enqueue ''k'' ''org'' ''max'' ''7'' (JStr ''hi'') (JList []) '''' 0 [])"

definition demo_sent :: "outbound_row list" where
  "demo_sent = fst (snd (sender_run_once [''max''] ''max'' ''org'' '''' 50 (\<lambda>w. 5) (\<lambda>w. Some ''m'')
     (\<lambda>m w. (None, w)) (demo_outbox, ())))"

lemma demo_send: "sender_run_once [''max''] ''max'' ''org'' '''' 50 (\<lambda>w. 5) (\<lambda>w. Some ''m'')
    (\<lambda>m w. (None, w)) (demo_outbox, ()) = (Inr 1, demo_sent, ())"
  by (simp add: demo_sent_def sender_run_once_def worker_pass_def outbound_claim_def Let_def claim_limit_def
    check_def outbound_consumer_keys_def demo_outbox_def enqueue_def insert_once_def claim_rows_def
    for_organization_def claimable_def take_row_def)

lemma sender_settles_messages_witness:
  "\<exists>messages t1. outbound_claim ''max'' (Some ''org'') [] (Some (outbound_consumer_keys ''max'' ''''))
     50 STALE_AFTER 5 demo_outbox = Inr (messages, t1)"
  using sender_settles_messages[OF demo_send]
  by (force simp: demo_outbox_def enqueue_def insert_once_def row_ids_def)

section \<open>Instances of the laws of a queue\<close>

lemmas queue_eval = demo_outbox_def enqueue_def insert_once_def claim_rows_def Let_def claimable_def
  take_row_def mark_retry_def row_of_def row_ids_def

abbreviation demo_order :: "outbound_row \<Rightarrow> instant \<times> nat" where
  "demo_order r \<equiv> (q_created_at r, msg_number (q_data r))"

definition demo_claimed :: "outbound_row list" where
  "demo_claimed = snd (claim_rows (\<lambda>r. True) demo_order 1 120 5 demo_outbox)"

lemma demo_claimed: "claim_rows (\<lambda>r. True) demo_order 1 120 5 demo_outbox = (demo_claimed, demo_claimed)"
  by (simp add: demo_claimed_def queue_eval)

lemma demo_second_claim: "claim_rows (\<lambda>r. True) demo_order 1 120 6 demo_claimed = ([], demo_claimed)"
  by (simp add: demo_claimed_def queue_eval)

lemma demo_trace:
  "queue_trace demo_order 120 10 demo_outbox [Claims 5 [''k''] [], Fails ''k'' 1]
     (mark_retry ''k'' False 1 ''timeout'' 6 demo_claimed)"
  using queue_trace.step[OF queue_trace.step[OF queue_trace.start queue_step.claims[OF demo_claimed]]
    queue_step.fails[of demo_order 120 10 "''k''" 1 _ 1 "''timeout''" 6]]
  by (simp add: demo_claimed_def queue_eval)

theorem claimed_rows_are_exclusive_witness:
  "row_of ''k'' demo_claimed = Some (hd demo_claimed) \<and> q_claimed_at (hd demo_claimed) = Some 5 \<and>
   \<not> fresh_claim ''k'' (Claims 6 [] [])"
proof -
  have t: "queue_trace demo_order 120 10 demo_claimed [Claims 6 [] []] demo_claimed"
    using queue_trace.step[OF queue_trace.start queue_step.claims[OF demo_second_claim]]
    by (simp add: demo_claimed_def queue_eval)
  have d: "distinct (row_ids demo_outbox)" "hd demo_claimed \<in> set demo_claimed" "q_id (hd demo_claimed) = ''k''"
    by (simp_all add: demo_claimed_def queue_eval)
  from claimed_rows_are_exclusive[OF demo_claimed d(1,2) t] d(3) show ?thesis by simp
qed

lemma attempts_are_bounded_witness:
  "\<exists>r. row_of ''k'' (mark_retry ''k'' False 1 ''timeout'' 6 demo_claimed) = Some r \<and> q_attempts r = 1"
  using attempts_are_bounded[OF demo_trace, of "''k''" "hd demo_outbox"]
  by (force simp: queue_eval failed_attempts_def fresh_claims_def expired_claims_def)

lemma due_rows_are_claimed_witness:
  "take_row 5 (hd demo_outbox) \<in> set demo_claimed"
  using due_rows_are_claimed[OF demo_claimed, of "hd demo_outbox"] by (simp add: queue_eval)

text \<open>
  A worker that dies while it handles a message never reports a failure, and the row is taken back
  each time without a look at its attempts: the limit does not apply to it.
\<close>

fun crash :: "nat \<Rightarrow> outbound_row list" where
  "crash 0 = demo_outbox"
| "crash (Suc n) = snd (claim_rows (\<lambda>r. True) demo_order 1 120 (int n * seconds 121) (crash n))"

lemma crash_row:
  "crash (Suc n) = [(hd demo_outbox)\<lparr>q_status := Processing, q_attempts := int (Suc n),
     q_claimed_at := Some (int n * seconds 121)\<rparr>]"
  by (induction n) (simp_all add: queue_eval algebra_simps)

lemma crashing_worker_escapes_limit:
  "\<exists>r. row_of ''k'' (crash 1000) = Some r \<and> q_status r = Processing \<and> q_attempts r = 1000"
  using crash_row[of 999] by (simp add: row_of_def) (simp add: queue_eval)

end
