(* ===== verification/Identity_Store.thy ===== *)
theory Identity_Store
  imports Tables Packs
begin

text \<open>
  Actors, their roles and their messenger accounts (\<open>PostgresIdentityStore\<close> in
  \<open>infrastructure/workflow_store.py\<close>). The database holds the three tables; an operation is one
  transaction, so an error leaves it as it was. Random tokens and codes are arguments. The role set of
  an identity is the sorted list that the query returns; text is ordered by code points.
\<close>

section \<open>Tables\<close>

record actor_row =
  a_org :: string
  a_id :: string
  a_role :: string
  a_name :: string
  a_phone :: "string option"
  a_bind_code :: "string option"
  a_bind_expires :: "instant option"
  a_active :: bool
  a_creation_key :: "string option"

record role_row =
  r_org :: string
  r_actor :: string
  r_role :: string
  r_active :: bool
  r_granted :: instant
  r_revoked :: "instant option"

record external_row =
  e_org :: string
  e_provider :: string
  e_user :: string
  e_actor :: string

record identity_db =
  actors :: "actor_row list"
  memberships :: "role_row list"
  externals :: "external_row list"

record actor_identity =
  ai_organization_id :: string
  ai_actor_id :: string
  ai_role :: string
  ai_display_name :: string
  ai_provider :: string
  ai_external_user_id :: string
  ai_roles :: "string list"

definition has_role :: "actor_identity \<Rightarrow> string \<Rightarrow> bool" where
  "has_role i role \<longleftrightarrow> role = ai_role i \<or> role \<in> set (ai_roles i)"

definition ROLES :: "string list" where
  "ROLES = [''admin'', ''operator'', ''master'', ''client'']"

definition STAFF_ROLES :: "string list" where
  "STAFF_ROLES = [''admin'', ''operator'', ''master'']"

definition is_actor :: "string \<Rightarrow> string \<Rightarrow> actor_row \<Rightarrow> bool" where
  "is_actor org actor a \<longleftrightarrow> a_org a = org \<and> a_id a = actor"

definition is_membership :: "string \<Rightarrow> string \<Rightarrow> string \<Rightarrow> role_row \<Rightarrow> bool" where
  "is_membership org actor role m \<longleftrightarrow> r_org m = org \<and> r_actor m = actor \<and> r_role m = role"

definition is_external :: "string \<Rightarrow> string \<Rightarrow> string \<Rightarrow> external_row \<Rightarrow> bool" where
  "is_external org provider user e \<longleftrightarrow> e_org e = org \<and> e_provider e = provider \<and> e_user e = user"

text \<open>The primary keys, the unique indexes and the checks of the migrations.\<close>

definition identity_constraints :: "identity_db \<Rightarrow> bool" where
  "identity_constraints db \<longleftrightarrow>
     unique_on (\<lambda>a. True) (\<lambda>a. (a_org a, a_id a)) (actors db) \<and>
     unique_on (\<lambda>a. a_bind_code a \<noteq> None) (\<lambda>a. (a_org a, a_bind_code a)) (actors db) \<and>
     unique_on (\<lambda>a. a_creation_key a \<noteq> None) (\<lambda>a. (a_org a, a_creation_key a)) (actors db) \<and>
     unique_on (\<lambda>m. True) (\<lambda>m. (r_org m, r_actor m, r_role m)) (memberships db) \<and>
     unique_on (\<lambda>m. r_role m = ''admin'' \<and> r_active m) r_org (memberships db) \<and>
     unique_on (\<lambda>e. True) (\<lambda>e. (e_org e, e_provider e, e_user e)) (externals db) \<and>
     list_all (\<lambda>a. a_role a \<in> set ROLES) (actors db) \<and>
     list_all (\<lambda>m. r_role m \<in> set ROLES \<and> (r_active m \<longleftrightarrow> r_revoked m = None) \<and>
       list_ex (is_actor (r_org m) (r_actor m)) (actors db)) (memberships db) \<and>
     list_all (\<lambda>e. list_ex (is_actor (e_org e) (e_actor e)) (actors db)) (externals db)"

definition commit_identity :: "'a \<Rightarrow> identity_db \<Rightarrow> ('a \<times> identity_db) result" where
  "commit_identity x db = (if identity_constraints db then Inr (x, db)
     else Inl (RuntimeError ''constraint violation''))"

definition upsert_membership :: "string \<Rightarrow> string \<Rightarrow> string \<Rightarrow> instant \<Rightarrow> identity_db \<Rightarrow> identity_db" where
  "upsert_membership org actor role now db =
     db\<lparr>memberships :=
       (if list_ex (is_membership org actor role) (memberships db)
        then update_rows (is_membership org actor role)
          (\<lambda>m. m\<lparr>r_active := True, r_granted := now, r_revoked := None\<rparr>) (memberships db)
        else memberships db @ [\<lparr>r_org = org, r_actor = actor, r_role = role, r_active = True,
          r_granted = now, r_revoked = None\<rparr>])\<rparr>"

definition active_roles :: "string \<Rightarrow> string \<Rightarrow> identity_db \<Rightarrow> string list" where
  "active_roles org actor db =
     sort (map r_role (filter (\<lambda>m. r_org m = org \<and> r_actor m = actor \<and> r_active m) (memberships db)))"

definition bound_actor :: "string \<Rightarrow> string \<Rightarrow> string \<Rightarrow> identity_db \<Rightarrow> string option" where
  "bound_actor org provider user db = map_option e_actor (find (is_external org provider user) (externals db))"

definition add_external :: "string \<Rightarrow> string \<Rightarrow> string \<Rightarrow> string \<Rightarrow> identity_db \<Rightarrow> identity_db" where
  "add_external org provider user actor db =
     (if list_ex (is_external org provider user) (externals db) then db
      else db\<lparr>externals := externals db @ [\<lparr>e_org = org, e_provider = provider, e_user = user, e_actor = actor\<rparr>]\<rparr>)"

section \<open>Roles\<close>

definition validate_role :: "string \<Rightarrow> py_error option" where
  "validate_role role = check (role \<in> set ROLES) (ValueError ''unsupported actor role'')"

definition requested_role :: "string \<Rightarrow> string option" where
  "requested_role consumer_key =
     (if consumer_key \<in> set ROLES then Some consumer_key
      else if str_starts_with ''staff:'' consumer_key then
        (let candidate = drop 6 consumer_key in if candidate \<in> set ROLES then Some candidate else None)
      else None)"

text \<open>The roles are given sorted and without duplicates.\<close>

definition effective_role :: "string \<Rightarrow> string list \<Rightarrow> string \<Rightarrow> string option" where
  "effective_role primary_role roles consumer_key =
     (case requested_role consumer_key of
        Some requested \<Rightarrow> if requested \<in> set roles then Some requested else None
      | None \<Rightarrow>
          if consumer_key = ''staff'' then
            (case filter (\<lambda>r. r \<in> set STAFF_ROLES) roles of [r] \<Rightarrow> Some r | _ \<Rightarrow> None)
          else if primary_role \<in> set roles then Some primary_role
          else (case roles of [] \<Rightarrow> None | r # _ \<Rightarrow> Some r))"

section \<open>Reading\<close>

definition identity_resolve ::
  "string \<Rightarrow> string \<Rightarrow> string \<Rightarrow> string \<Rightarrow> identity_db \<Rightarrow> actor_identity option" where
  "identity_resolve org provider user consumer_key db =
     (case bound_actor org provider user db of
        None \<Rightarrow> None
      | Some actor \<Rightarrow>
          (case find (\<lambda>a. is_actor org actor a \<and> a_active a) (actors db) of
             None \<Rightarrow> None
           | Some a \<Rightarrow>
               map_option (\<lambda>role. \<lparr>ai_organization_id = org, ai_actor_id = actor, ai_role = role,
                   ai_display_name = a_name a, ai_provider = provider, ai_external_user_id = user,
                   ai_roles = active_roles org actor db\<rparr>)
                 (effective_role (a_role a) (active_roles org actor db) consumer_key)))"

definition external_order :: "external_row \<Rightarrow> bool \<times> string \<times> string" where
  "external_order e = (e_provider e \<noteq> ''telegram'', e_provider e, e_user e)"

definition resolve_actor_id ::
  "string \<Rightarrow> string \<Rightarrow> string \<Rightarrow> identity_db \<Rightarrow> actor_identity option result" where
  "resolve_actor_id org actor required db =
     raise_first [validate_role required]
       (Inr (case find (\<lambda>a. is_actor org actor a \<and> a_active a) (actors db) of
          None \<Rightarrow> None
        | Some a \<Rightarrow>
            if \<not> list_ex (\<lambda>m. is_membership org actor required m \<and> r_active m) (memberships db) then None
            else
              (let accounts = sort_key external_order
                     (filter (\<lambda>e. e_org e = org \<and> e_actor e = actor) (externals db));
                   (provider, user) = (case accounts of
                        [] \<Rightarrow> (''telegram'', actor)
                      | e # _ \<Rightarrow> (e_provider e, if e_user e = [] then actor else e_user e))
               in Some \<lparr>ai_organization_id = org, ai_actor_id = actor, ai_role = required,
                    ai_display_name = a_name a, ai_provider = provider, ai_external_user_id = user,
                    ai_roles = active_roles org actor db\<rparr>)))"

definition external_ids_for_role ::
  "string \<Rightarrow> string \<Rightarrow> string \<Rightarrow> identity_db \<Rightarrow> string list result" where
  "external_ids_for_role org provider role db =
     raise_first [validate_role role]
       (Inr (sort (map e_user (filter (\<lambda>e. e_org e = org \<and> e_provider e = provider \<and>
          list_ex (\<lambda>a. is_actor org (e_actor e) a \<and> a_active a) (actors db) \<and>
          list_ex (\<lambda>m. is_membership org (e_actor e) role m \<and> r_active m) (memberships db))
          (externals db)))))"

record actor_summary =
  as_id :: string
  as_role :: string
  as_name :: string
  as_phone :: "string option"
  as_active :: bool
  as_has_bind_code :: bool
  as_roles :: "string list"
  as_channels :: "string list"

definition summarize :: "string \<Rightarrow> identity_db \<Rightarrow> actor_row \<Rightarrow> actor_summary" where
  "summarize role db a = \<lparr>as_id = a_id a, as_role = role, as_name = a_name a, as_phone = a_phone a,
     as_active = a_active a, as_has_bind_code = (a_bind_code a \<noteq> None),
     as_roles = active_roles (a_org a) (a_id a) db,
     as_channels = sort (remdups (map e_provider (filter (\<lambda>e. e_org e = a_org a \<and> e_actor e = a_id a)
       (externals db))))\<rparr>"

definition list_actors :: "string \<Rightarrow> string \<Rightarrow> identity_db \<Rightarrow> actor_summary list result" where
  "list_actors org role db =
     raise_first [validate_role role]
       (Inr (map (summarize role db) (sort_key (\<lambda>a. (a_name a, a_id a))
          (filter (\<lambda>a. a_org a = org \<and> a_active a \<and>
             list_ex (\<lambda>m. is_membership org (a_id a) role m \<and> r_active m) (memberships db)) (actors db)))))"

definition get_actor :: "string \<Rightarrow> string \<Rightarrow> identity_db \<Rightarrow> (actor_row \<times> string list) option" where
  "get_actor org actor db =
     map_option (\<lambda>a. (a, active_roles org actor db)) (find (is_actor org actor) (actors db))"

section \<open>Changing\<close>

definition together :: "'a option \<Rightarrow> 'b option \<Rightarrow> py_error option" where
  "together a b = check ((a = None) = (b = None))
     (ValueError ''provider and external_user_id must be specified together'')"

definition upsert_actor_row :: "string \<Rightarrow> string \<Rightarrow> string \<Rightarrow> string \<Rightarrow> identity_db \<Rightarrow> identity_db" where
  "upsert_actor_row org actor role name db =
     db\<lparr>actors :=
       (if list_ex (is_actor org actor) (actors db)
        then update_rows (is_actor org actor) (\<lambda>a. a\<lparr>a_name := name, a_active := True\<rparr>) (actors db)
        else actors db @ [\<lparr>a_org = org, a_id = actor, a_role = role, a_name = name, a_phone = None,
          a_bind_code = None, a_bind_expires = None, a_active = True, a_creation_key = None\<rparr>])\<rparr>"

definition upsert_actor ::
  "string \<Rightarrow> string \<Rightarrow> string \<Rightarrow> string \<Rightarrow> string option \<Rightarrow> string option \<Rightarrow> instant \<Rightarrow>
   identity_db \<Rightarrow> (unit \<times> identity_db) result"
where
  "upsert_actor org actor role name provider user now db =
     raise_first [validate_role role, together provider user]
       (let db1 = upsert_membership org actor role now (upsert_actor_row org actor role name db)
        in case (provider, user) of
             (Some p, Some u) \<Rightarrow>
               (case bound_actor org p u db of
                  Some other \<Rightarrow>
                    if other \<noteq> actor
                    then Inl (ValueError ''external account is already bound to another actor'')
                    else commit_identity () (add_external org p u actor db1)
                | None \<Rightarrow> commit_identity () (add_external org p u actor db1))
           | _ \<Rightarrow> commit_identity () db1)"

definition code_taken :: "string \<Rightarrow> string \<Rightarrow> identity_db \<Rightarrow> bool" where
  "code_taken org code db \<longleftrightarrow> list_ex (\<lambda>a. a_org a = org \<and> a_bind_code a = Some code) (actors db)"

text \<open>\<open>draws\<close> are the random numbers below 10000, in the order they are drawn.\<close>

definition unused_bind_code :: "string \<Rightarrow> nat list \<Rightarrow> identity_db \<Rightarrow> string result" where
  "unused_bind_code org draws db =
     (case find (\<lambda>code. \<not> code_taken org code db) (map (\<lambda>n. pad_int 4 (int n)) (take 100 draws)) of
        Some code \<Rightarrow> Inr code
      | None \<Rightarrow> Inl (RuntimeError ''could not allocate a unique staff bind code''))"

definition CODE_LIFETIME :: int where "CODE_LIFETIME = 7 * 86400 * 1000000"

record staff_actor =
  sa_actor_id :: string
  sa_role :: string
  sa_name :: string
  sa_phone :: "string option"
  sa_bind_code :: "string option"

definition add_staff ::
  "string \<Rightarrow> string \<Rightarrow> string \<Rightarrow> string \<Rightarrow> string option \<Rightarrow> string \<Rightarrow> string option \<Rightarrow> instant \<Rightarrow>
   identity_db \<Rightarrow> identity_db"
where
  "add_staff org actor role name phone code request_key now db =
     db\<lparr>actors := actors db @ [\<lparr>a_org = org, a_id = actor, a_role = role, a_name = name,
          a_phone = phone, a_bind_code = Some code, a_bind_expires = Some (now + CODE_LIFETIME),
          a_active = True, a_creation_key = request_key\<rparr>],
        memberships := memberships db @ [\<lparr>r_org = org, r_actor = actor, r_role = role,
          r_active = True, r_granted = now, r_revoked = None\<rparr>]\<rparr>"

definition create_staff_actor ::
  "string \<Rightarrow> string \<Rightarrow> string \<Rightarrow> string option \<Rightarrow> string option \<Rightarrow> string option \<Rightarrow> string option \<Rightarrow>
   string \<Rightarrow> nat list \<Rightarrow> instant \<Rightarrow> identity_db \<Rightarrow> (staff_actor \<times> identity_db) result"
where
  "create_staff_actor org role name phone provider user request_key hex_token draws now db =
     raise_first
       [check (role = ''operator'' \<or> role = ''master'') (ValueError ''staff role must be operator or master''),
        together provider user,
        check (case request_key of None \<Rightarrow> True | Some k \<Rightarrow> \<not> str_blank k)
          (ValueError ''staff creation request key cannot be blank'')]
       (let actor = role @ '':'' @ hex_token;
            existing = (case request_key of None \<Rightarrow> None
              | Some k \<Rightarrow> find (\<lambda>a. a_org a = org \<and> a_creation_key a = Some k) (actors db))
        in case existing of
          Some a \<Rightarrow>
            if a_role a \<noteq> role \<or> a_name a \<noteq> name \<or> a_phone a \<noteq> phone
            then Inl (ValueError ''staff creation request key was reused with different actor data'')
            else Inr (\<lparr>sa_actor_id = a_id a, sa_role = a_role a, sa_name = a_name a, sa_phone = a_phone a,
              sa_bind_code = a_bind_code a\<rparr>, db)
        | None \<Rightarrow>
            result_bind (unused_bind_code org draws db) (\<lambda>code.
              let db1 = add_staff org actor role name phone code request_key now db;
                  staff = \<lparr>sa_actor_id = actor, sa_role = role, sa_name = name, sa_phone = phone,
                    sa_bind_code = Some code\<rparr>
              in case (provider, user) of
                   (Some p, Some u) \<Rightarrow>
                     if bound_actor org p u db \<noteq> None
                     then Inl (ValueError ''external account is already bound to another actor'')
                     else commit_identity staff (add_external org p u actor db1)
                 | _ \<Rightarrow> commit_identity staff db1))"

definition update_actor_phone :: "string \<Rightarrow> string \<Rightarrow> string \<Rightarrow> identity_db \<Rightarrow> bool \<times> identity_db" where
  "update_actor_phone org actor phone db =
     (let hit = (\<lambda>a. is_actor org actor a \<and> a_active a)
      in (list_ex hit (actors db),
          db\<lparr>actors := update_rows hit (\<lambda>a. a\<lparr>a_phone := Some phone\<rparr>) (actors db)\<rparr>))"

definition deactivate :: "actor_row \<Rightarrow> actor_row" where
  "deactivate a = a\<lparr>a_active := False, a_bind_code := None, a_bind_expires := None\<rparr>"

definition revoke_memberships :: "(role_row \<Rightarrow> bool) \<Rightarrow> instant \<Rightarrow> identity_db \<Rightarrow> identity_db" where
  "revoke_memberships P now db =
     db\<lparr>memberships := update_rows (\<lambda>m. P m \<and> r_active m)
       (\<lambda>m. m\<lparr>r_active := False, r_revoked := Some now\<rparr>) (memberships db)\<rparr>"

definition delete_actor :: "string \<Rightarrow> string \<Rightarrow> instant \<Rightarrow> identity_db \<Rightarrow> bool \<times> identity_db" where
  "delete_actor org actor now db =
     (if list_ex (\<lambda>m. is_membership org actor ''admin'' m \<and> r_active m) (memberships db) then (False, db)
      else
        (let hit = (\<lambda>a. is_actor org actor a \<and> a_active a)
         in (list_ex hit (actors db),
             revoke_memberships (\<lambda>m. r_org m = org \<and> r_actor m = actor) now
               (db\<lparr>actors := update_rows hit deactivate (actors db)\<rparr>))))"

definition grant_role :: "string \<Rightarrow> string \<Rightarrow> string \<Rightarrow> instant \<Rightarrow> identity_db \<Rightarrow> (bool \<times> identity_db) result" where
  "grant_role org actor role now db =
     raise_first [validate_role role]
       (if \<not> list_ex (\<lambda>a. is_actor org actor a \<and> a_active a) (actors db) then Inr (False, db)
        else commit_identity True (upsert_membership org actor role now db))"

definition role_rank :: "string \<Rightarrow> nat" where
  "role_rank role = (if role = ''admin'' then 1 else if role = ''operator'' then 2
     else if role = ''master'' then 3 else 4)"

definition revoke_role :: "string \<Rightarrow> string \<Rightarrow> string \<Rightarrow> instant \<Rightarrow> identity_db \<Rightarrow> (bool \<times> identity_db) result" where
  "revoke_role org actor role now db =
     raise_first [validate_role role]
       (if \<not> list_ex (\<lambda>m. is_membership org actor role m \<and> r_active m) (memberships db) then Inr (False, db)
        else
          (let db1 = revoke_memberships (is_membership org actor role) now db;
               remaining = sort_key role_rank (active_roles org actor db1)
           in Inr (True, case remaining of
                [] \<Rightarrow> db1\<lparr>actors := update_rows (is_actor org actor) deactivate (actors db1)\<rparr>
              | r # _ \<Rightarrow> db1\<lparr>actors := update_rows (\<lambda>a. is_actor org actor a \<and> a_role a = role)
                  (\<lambda>a. a\<lparr>a_role := r\<rparr>) (actors db1)\<rparr>)))"

definition issue_bind_code ::
  "string \<Rightarrow> string \<Rightarrow> nat list \<Rightarrow> instant \<Rightarrow> identity_db \<Rightarrow> (string option \<times> identity_db) result" where
  "issue_bind_code org actor draws now db =
     result_bind (unused_bind_code org draws db) (\<lambda>code.
       let hit = (\<lambda>a. is_actor org actor a \<and> a_active a)
       in commit_identity (if list_ex hit (actors db) then Some code else None)
            (db\<lparr>actors := update_rows hit
              (\<lambda>a. a\<lparr>a_bind_code := Some code, a_bind_expires := Some (now + CODE_LIFETIME)\<rparr>) (actors db)\<rparr>))"

section \<open>Binding an account by code\<close>

text \<open>Deleting an actor deletes its memberships and accounts with it.\<close>

definition delete_actor_rows :: "(actor_row \<Rightarrow> bool) \<Rightarrow> identity_db \<Rightarrow> identity_db" where
  "delete_actor_rows P db =
     (let gone = (\<lambda>org actor. list_ex (\<lambda>a. P a \<and> is_actor org actor a) (actors db))
      in \<lparr>actors = delete_rows P (actors db),
          memberships = delete_rows (\<lambda>m. gone (r_org m) (r_actor m)) (memberships db),
          externals = delete_rows (\<lambda>e. gone (e_org e) (e_actor e)) (externals db)\<rparr>)"

definition admits :: "string \<Rightarrow> string list \<Rightarrow> bool" where
  "admits consumer_key roles \<longleftrightarrow>
     \<not> (consumer_key \<noteq> [] \<and> consumer_key \<noteq> ''staff'' \<and> requested_role consumer_key = None) \<and>
     \<not> (roles = [] \<or> (case requested_role consumer_key of None \<Rightarrow> False | Some r \<Rightarrow> r \<notin> set roles)) \<and>
     \<not> (consumer_key = ''staff'' \<and> filter (\<lambda>r. r \<in> set STAFF_ROLES) roles = [])"

text \<open>The constraints are checked after the memberships are copied, while the other actor still has
  its own.\<close>

definition merge_actor ::
  "string \<Rightarrow> string \<Rightarrow> string \<Rightarrow> string \<Rightarrow> instant \<Rightarrow> identity_db \<Rightarrow> (unit \<times> identity_db) result" where
  "merge_actor org pending actor code now db =
     result_bind (commit_identity ()
         (fold (\<lambda>role. upsert_membership org actor role now) (active_roles org pending db) db))
       (\<lambda>(u, db1).
         let db2 = db1\<lparr>actors := update_rows (is_actor org actor) (\<lambda>a. a\<lparr>a_active := True\<rparr>) (actors db1)\<rparr>
         in commit_identity () (delete_actor_rows (\<lambda>a. is_actor org pending a \<and> a_bind_code a = Some code) db2))"

definition attach_account ::
  "string \<Rightarrow> string \<Rightarrow> string \<Rightarrow> string \<Rightarrow> identity_db \<Rightarrow> (unit \<times> identity_db) result" where
  "attach_account org provider user actor db =
     (let db1 = add_external org provider user actor db
      in commit_identity () (db1\<lparr>actors := update_rows (is_actor org actor)
           (\<lambda>a. a\<lparr>a_bind_code := None, a_bind_expires := None\<rparr>) (actors db1)\<rparr>))"

definition bound_identity ::
  "string \<Rightarrow> string \<Rightarrow> string \<Rightarrow> string \<Rightarrow> string \<Rightarrow> actor_row \<Rightarrow> string list \<Rightarrow> identity_db \<Rightarrow> actor_identity option" where
  "bound_identity org provider user consumer_key actor pending pending_roles db =
     (case find (\<lambda>a. is_actor org actor a \<and> a_active a) (actors db) of
        None \<Rightarrow> None
      | Some a \<Rightarrow>
          (let pending_role = (if a_role pending \<in> set pending_roles then a_role pending
                 else (case pending_roles of [] \<Rightarrow> [] | r # _ \<Rightarrow> r));
               key = (if consumer_key = ''staff'' then pending_role
                 else if consumer_key = [] then pending_role else consumer_key)
           in map_option (\<lambda>role. \<lparr>ai_organization_id = org, ai_actor_id = actor, ai_role = role,
                ai_display_name = a_name a, ai_provider = provider, ai_external_user_id = user,
                ai_roles = active_roles org actor db\<rparr>)
              (effective_role (a_role a) (active_roles org actor db) key)))"

definition bind_actor_by_code ::
  "string \<Rightarrow> string \<Rightarrow> string \<Rightarrow> string \<Rightarrow> string \<Rightarrow> instant \<Rightarrow> identity_db \<Rightarrow>
   (actor_identity option \<times> identity_db) result"
where
  "bind_actor_by_code org code provider user consumer_key now db =
     (case find (\<lambda>a. a_org a = org \<and> a_bind_code a = Some code \<and> a_active a \<and>
         (case a_bind_expires a of None \<Rightarrow> False | Some e \<Rightarrow> e > now)) (actors db) of
        None \<Rightarrow> Inr (None, db)
      | Some pending \<Rightarrow>
          (let pending_roles = active_roles org (a_id pending) db;
               existing = bound_actor org provider user db;
               actor = (case existing of None \<Rightarrow> a_id pending | Some x \<Rightarrow> if x = [] then a_id pending else x);
               finish = (\<lambda>step. result_bind step (\<lambda>(u, db1).
                 Inr (bound_identity org provider user consumer_key actor pending pending_roles db1, db1)))
           in if \<not> admits consumer_key pending_roles then Inr (None, db)
              else if actor \<noteq> a_id pending then
                if list_ex (\<lambda>e. e_org e = org \<and> e_actor e = a_id pending) (externals db) then Inr (None, db)
                else finish (merge_actor org (a_id pending) actor code now db)
              else finish (attach_account org provider user actor db)))"

end
