(* ===== verification/Identity_Laws.thy ===== *)
theory Identity_Laws
  imports Identity_Store
begin

text \<open>
  What holds of the actors, roles and accounts along every sequence of operations of the identity
  store, and what a bind code gives.
\<close>

section \<open>Active memberships\<close>

lemma bex_update_rows [simp]:
  "(\<exists>x \<in> set (update_rows P f t). Q x) \<longleftrightarrow> (\<exists>x \<in> set t. Q (if P x then f x else x))"
  by (induction t) auto

lemma ball_update_rows [simp]:
  "(\<forall>x \<in> set (update_rows P f t). Q x) \<longleftrightarrow> (\<forall>x \<in> set t. Q (if P x then f x else x))"
  by (induction t) auto

definition has_active :: "string \<Rightarrow> string \<Rightarrow> identity_db \<Rightarrow> bool" where
  "has_active org actor db \<longleftrightarrow> (\<exists>m \<in> set (memberships db). r_org m = org \<and> r_actor m = actor \<and> r_active m)"

definition actor_ok :: "identity_db \<Rightarrow> actor_row \<Rightarrow> bool" where
  "actor_ok db a \<longleftrightarrow> (a_active a \<longleftrightarrow> has_active (a_org a) (a_id a) db) \<and> (a_bind_code a \<noteq> None \<longrightarrow> a_active a)"

text \<open>An actor is active exactly when it has an active role, and only an active actor has a code.\<close>

definition identity_inv :: "identity_db \<Rightarrow> bool" where
  "identity_inv db \<longleftrightarrow> identity_constraints db \<and> (\<forall>a \<in> set (actors db). actor_ok db a)"

lemma commit_identity_Inr [simp]:
  "commit_identity x db = Inr (y, db') \<longleftrightarrow> identity_constraints db \<and> y = x \<and> db' = db"
  by (auto simp: commit_identity_def)

lemma set_active_roles:
  "set (active_roles org actor db) =
     r_role ` {m \<in> set (memberships db). r_org m = org \<and> r_actor m = actor \<and> r_active m}"
  by (auto simp: active_roles_def)

lemma active_roles_Nil: "active_roles org actor db = [] \<longleftrightarrow> \<not> has_active org actor db"
  unfolding set_empty[symmetric] set_active_roles by (auto simp: has_active_def)

text \<open>An update may also take rows out of an index.\<close>

lemma unique_on_update_index:
  assumes "unique_on P key t" and "\<And>r. r \<in> set t \<Longrightarrow> Q r \<Longrightarrow> P (f r) \<Longrightarrow> P r \<and> key (f r) = key r"
  shows "unique_on P key (update_rows Q f t)"
  using assms
proof (induction t)
  case (Cons r t)
  have k: "key ` {x \<in> set (update_rows Q f t). P x} \<subseteq> key ` {x \<in> set t. P x}"
  proof
    fix y assume "y \<in> key ` {x \<in> set (update_rows Q f t). P x}"
    then obtain x where x: "y = key x" "P x" "x \<in> set (update_rows Q f t)" by auto
    then show "y \<in> key ` {x \<in> set t. P x}"
      using Cons.prems(2) by (auto simp: set_update_rows)
  qed
  have "unique_on P key (update_rows Q f t)" using Cons by auto
  then show ?case using Cons.prems(1) Cons.prems(2)[of r] k by auto
qed simp

lemma actors_upsert_membership [simp]: "actors (upsert_membership org actor role now db) = actors db"
  by (simp add: upsert_membership_def)

lemma externals_upsert_membership [simp]: "externals (upsert_membership org actor role now db) = externals db"
  by (simp add: upsert_membership_def)

lemma has_active_upsert [simp]:
  "has_active o' x (upsert_membership org actor role now db) \<longleftrightarrow> (o' = org \<and> x = actor) \<or> has_active o' x db"
proof (cases "list_ex (is_membership org actor role) (memberships db)")
  case True
  then obtain m where m: "m \<in> set (memberships db)" "is_membership org actor role m" by (auto simp: list_ex_iff)
  let ?f = "\<lambda>m. if is_membership org actor role m then m\<lparr>r_active := True, r_granted := now, r_revoked := None\<rparr> else m"
  have "has_active o' x (upsert_membership org actor role now db) \<longleftrightarrow>
      (\<exists>m \<in> set (memberships db). r_org (?f m) = o' \<and> r_actor (?f m) = x \<and> r_active (?f m))"
    using True unfolding has_active_def upsert_membership_def by simp
  also have "\<dots> \<longleftrightarrow> (o' = org \<and> x = actor) \<or> has_active o' x db"
  proof
    assume "\<exists>m \<in> set (memberships db). r_org (?f m) = o' \<and> r_actor (?f m) = x \<and> r_active (?f m)"
    then obtain m' where "m' \<in> set (memberships db)" "r_org (?f m') = o'" "r_actor (?f m') = x" "r_active (?f m')" by blast
    then show "(o' = org \<and> x = actor) \<or> has_active o' x db"
      by (auto simp: has_active_def is_membership_def split: if_splits)
  next
    assume "(o' = org \<and> x = actor) \<or> has_active o' x db"
    then show "\<exists>m \<in> set (memberships db). r_org (?f m) = o' \<and> r_actor (?f m) = x \<and> r_active (?f m)"
    proof
      assume "has_active o' x db"
      then obtain m' where "m' \<in> set (memberships db)" "r_org m' = o'" "r_actor m' = x" "r_active m'"
        by (auto simp: has_active_def)
      then show ?thesis by (intro bexI[of _ m']) auto
    qed (use m in \<open>intro bexI[of _ m], auto simp: is_membership_def\<close>)
  qed
  finally show ?thesis .
next
  case False
  then show ?thesis by (auto simp: has_active_def upsert_membership_def)
qed

lemma has_active_actors [simp]: "has_active o' x (db\<lparr>actors := t\<rparr>) = has_active o' x db"
  "has_active o' x (db\<lparr>externals := e\<rparr>) = has_active o' x db"
  by (simp_all add: has_active_def)

lemma has_active_add_external [simp]: "has_active o' x (add_external org p u actor db) = has_active o' x db"
  by (simp add: add_external_def)

lemma actors_add_external [simp]: "actors (add_external org p u actor db) = actors db"
  "memberships (add_external org p u actor db) = memberships db"
  by (simp_all add: add_external_def)

lemma has_active_revoke:
  "has_active o' x (revoke_memberships P now db) \<longleftrightarrow>
     (\<exists>m \<in> set (memberships db). r_org m = o' \<and> r_actor m = x \<and> r_active m \<and> \<not> P m)"
  by (simp add: has_active_def revoke_memberships_def) (auto split: if_splits)

lemma actors_revoke [simp]: "actors (revoke_memberships P now db) = actors db"
  "externals (revoke_memberships P now db) = externals db"
  by (simp_all add: revoke_memberships_def)

lemma fold_upsert:
  "actors (fold (\<lambda>role. upsert_membership org actor role now) rs db) = actors db"
  "externals (fold (\<lambda>role. upsert_membership org actor role now) rs db) = externals db"
  "has_active o' x (fold (\<lambda>role. upsert_membership org actor role now) rs db) \<longleftrightarrow>
     (rs \<noteq> [] \<and> o' = org \<and> x = actor) \<or> has_active o' x db"
  by (induction rs arbitrary: db) auto

section \<open>Constraints\<close>

text \<open>Rewriting rows of one table without touching its keys keeps the constraints.\<close>

lemma actor_key_unique:
  "\<lbrakk>identity_constraints db; a \<in> set (actors db); b \<in> set (actors db); a_org a = a_org b; a_id a = a_id b\<rbrakk>
   \<Longrightarrow> a = b"
  unfolding identity_constraints_def by (auto elim!: unique_on_eq)

lemma list_ex_actor_update:
  assumes "\<And>a. a_org (f a) = a_org a \<and> a_id (f a) = a_id a"
  shows "list_ex (is_actor org actor) (update_rows P f t) = list_ex (is_actor org actor) t"
  using assms by (induction t) (auto simp: is_actor_def)

lemma constraints_update_actors:
  assumes "identity_constraints db"
    and f: "\<And>a. a_org (f a) = a_org a \<and> a_id (f a) = a_id a \<and> a_creation_key (f a) = a_creation_key a"
    and c: "\<And>a. P a \<Longrightarrow> a_bind_code (f a) = None \<or> a_bind_code (f a) = a_bind_code a"
    and r: "\<And>a. P a \<Longrightarrow> a_role a \<in> set ROLES \<Longrightarrow> a_role (f a) \<in> set ROLES"
  shows "identity_constraints (db\<lparr>actors := update_rows P f (actors db)\<rparr>)"
  unfolding identity_constraints_def
proof (intro conjI)
  let ?t = "update_rows P f (actors db)"
  note i = assms(1)[unfolded identity_constraints_def]
  show "unique_on (\<lambda>a. True) (\<lambda>a. (a_org a, a_id a)) (actors (db\<lparr>actors := ?t\<rparr>))"
    using i f by (auto intro!: unique_on_update)
  show "unique_on (\<lambda>a. a_bind_code a \<noteq> None) (\<lambda>a. (a_org a, a_bind_code a)) (actors (db\<lparr>actors := ?t\<rparr>))"
    using i f by (auto intro!: unique_on_update_index dest!: c)
  show "unique_on (\<lambda>a. a_creation_key a \<noteq> None) (\<lambda>a. (a_org a, a_creation_key a)) (actors (db\<lparr>actors := ?t\<rparr>))"
    using i f by (auto intro!: unique_on_update)
  show "list_all (\<lambda>a. a_role a \<in> set ROLES) (actors (db\<lparr>actors := ?t\<rparr>))"
    using i r by (auto simp: list_all_iff set_update_rows)
qed (use assms(1) f in \<open>simp_all add: identity_constraints_def list_ex_actor_update\<close>)

lemma constraints_revoke:
  assumes "identity_constraints db"
  shows "identity_constraints (revoke_memberships P now db)"
  unfolding identity_constraints_def
proof (intro conjI)
  note i = assms(1)[unfolded identity_constraints_def]
  let ?t = "update_rows (\<lambda>m. P m \<and> r_active m) (\<lambda>m. m\<lparr>r_active := False, r_revoked := Some now\<rparr>) (memberships db)"
  have t: "memberships (revoke_memberships P now db) = ?t" by (simp add: revoke_memberships_def)
  show "unique_on (\<lambda>m. True) (\<lambda>m. (r_org m, r_actor m, r_role m)) (memberships (revoke_memberships P now db))"
    unfolding t using i by (auto intro!: unique_on_update)
  show "unique_on (\<lambda>m. r_role m = ''admin'' \<and> r_active m) r_org (memberships (revoke_memberships P now db))"
    unfolding t using i by (auto intro!: unique_on_update_index)
  show "list_all (\<lambda>m. r_role m \<in> set ROLES \<and> (r_active m \<longleftrightarrow> r_revoked m = None) \<and>
       list_ex (is_actor (r_org m) (r_actor m)) (actors (revoke_memberships P now db)))
     (memberships (revoke_memberships P now db))"
    unfolding t using i by (simp add: list_all_iff)
qed (use assms(1) in \<open>simp_all add: identity_constraints_def\<close>)

section \<open>Every operation keeps the invariant\<close>

lemma actor_okD: "\<lbrakk>identity_inv db; a \<in> set (actors db)\<rbrakk> \<Longrightarrow> actor_ok db a"
  by (simp add: identity_inv_def)

lemma inv_constraints: "identity_inv db \<Longrightarrow> identity_constraints db"
  by (simp add: identity_inv_def)

lemma same_actor:
  "\<lbrakk>identity_constraints db; a \<in> set (actors db); b \<in> set (actors db); is_actor org x a; is_actor org x b\<rbrakk> \<Longrightarrow> a = b"
  using actor_key_unique[of db a b] by (simp add: is_actor_def)

lemma upsert_actor_inv:
  assumes "identity_inv db" "upsert_actor org actor role name provider user now db = Inr (u, db')"
  shows "identity_inv db'"
proof -
  let ?db = "upsert_membership org actor role now (upsert_actor_row org actor role name db)"
  have c: "identity_constraints db'" and d: "actors db' = actors ?db" "memberships db' = memberships ?db"
    using assms(2) by (auto simp: upsert_actor_def Let_def split: option.splits if_splits)
  have h: "has_active o' x db' \<longleftrightarrow> has_active o' x ?db" for o' x
    by (simp add: has_active_def d(2))
  have ok: "\<forall>a \<in> set (actors db). actor_ok db a" using assms(1) by (simp add: identity_inv_def)
  have "\<forall>a \<in> set (actors ?db). actor_ok ?db a"
    using ok by (auto simp: upsert_actor_row_def actor_ok_def is_actor_def list_ex_iff split: if_splits)
  then have "\<forall>a \<in> set (actors ?db). actor_ok db' a" unfolding actor_ok_def h .
  then show ?thesis using c d(1) unfolding identity_inv_def by metis
qed

lemma actor_ok_actors [simp]: "actor_ok (db\<lparr>actors := t\<rparr>) a = actor_ok db a"
  by (simp add: actor_ok_def)

lemma update_actors_inv:
  assumes "identity_inv db"
    and "\<And>a. a_org (f a) = a_org a \<and> a_id (f a) = a_id a \<and> a_creation_key (f a) = a_creation_key a"
    and "\<And>a. P a \<Longrightarrow> a_bind_code (f a) = None \<or> a_bind_code (f a) = a_bind_code a"
    and "\<And>a. P a \<Longrightarrow> a_role a \<in> set ROLES \<Longrightarrow> a_role (f a) \<in> set ROLES"
    and "\<And>a. a \<in> set (actors db) \<Longrightarrow> P a \<Longrightarrow> actor_ok db a \<Longrightarrow> actor_ok db (f a)"
  shows "identity_inv (db\<lparr>actors := update_rows P f (actors db)\<rparr>)"
proof -
  have "identity_constraints (db\<lparr>actors := update_rows P f (actors db)\<rparr>)"
    using assms(1-4) by (intro constraints_update_actors) (auto simp: identity_inv_def)
  moreover have "\<forall>a \<in> set (actors db). actor_ok db (if P a then f a else a)"
    using assms(1,5) by (simp add: identity_inv_def)
  ultimately show ?thesis by (simp add: identity_inv_def)
qed

lemma update_phone_inv: "identity_inv db \<Longrightarrow> identity_inv (snd (update_actor_phone org actor phone db))"
  by (auto simp: update_actor_phone_def Let_def actor_ok_def intro!: update_actors_inv)

lemma delete_actor_inv:
  assumes "identity_inv db"
  shows "identity_inv (snd (delete_actor org actor now db))"
proof (cases "list_ex (\<lambda>m. is_membership org actor ''admin'' m \<and> r_active m) (memberships db)")
  case True
  then show ?thesis using assms by (simp add: delete_actor_def)
next
  case False
  let ?hit = "\<lambda>a. is_actor org actor a \<and> a_active a"
  let ?db = "db\<lparr>actors := update_rows ?hit deactivate (actors db)\<rparr>"
  let ?db' = "revoke_memberships (\<lambda>m. r_org m = org \<and> r_actor m = actor) now ?db"
  have d: "snd (delete_actor org actor now db) = ?db'" using False by (simp add: delete_actor_def Let_def)
  have "identity_constraints ?db'"
    by (intro constraints_revoke constraints_update_actors inv_constraints[OF assms]) (auto simp: deactivate_def)
  moreover have h: "has_active o' x ?db' \<longleftrightarrow> (o', x) \<noteq> (org, actor) \<and> has_active o' x db" for o' x
    unfolding has_active_revoke by (auto simp: has_active_def[of _ _ db])
  have "actor_ok ?db' (if ?hit a then deactivate a else a)" if a: "a \<in> set (actors db)" for a
    using actor_okD[OF assms a] unfolding actor_ok_def h by (auto simp: deactivate_def is_actor_def)
  ultimately show ?thesis unfolding d by (simp add: identity_inv_def)
qed

lemma revoke_role_inv:
  assumes "identity_inv db" "revoke_role org actor role now db = Inr (b, db')"
  shows "identity_inv db'"
proof (cases "list_ex (\<lambda>m. is_membership org actor role m \<and> r_active m) (memberships db)")
  case False
  then show ?thesis using assms by (simp add: revoke_role_def)
next
  case True
  let ?db = "revoke_memberships (is_membership org actor role) now db"
  have c: "identity_constraints ?db" by (rule constraints_revoke[OF inv_constraints[OF assms(1)]])
  have other: "has_active o' x ?db \<longleftrightarrow> has_active o' x db" if "(o', x) \<noteq> (org, actor)" for o' x
    using that unfolding has_active_revoke by (auto simp: has_active_def[of _ _ db] is_membership_def)
  have here: "has_active org actor db"
    using True by (auto simp: list_ex_iff has_active_def is_membership_def)
  show ?thesis
  proof (cases "sort_key role_rank (active_roles org actor ?db)")
    case Nil
    then have none: "\<not> has_active org actor ?db"
      using active_roles_Nil[of org actor ?db] by (metis set_empty set_sort)
    have db': "db' = ?db\<lparr>actors := update_rows (is_actor org actor) deactivate (actors db)\<rparr>"
      using assms(2) True Nil by (simp add: revoke_role_def Let_def)
    have "actor_ok db' (if is_actor org actor a then deactivate a else a)" if a: "a \<in> set (actors db)" for a
      using actor_okD[OF assms(1) a] none other[of "a_org a" "a_id a"]
      by (auto simp: db' actor_ok_def deactivate_def is_actor_def)
    moreover have "identity_constraints db'"
      unfolding db' actors_revoke(1)[symmetric, of db "is_membership org actor role" now]
      by (rule constraints_update_actors[OF c]) (auto simp: deactivate_def)
    ultimately show ?thesis by (simp add: identity_inv_def db')
  next
    case (Cons r rs)
    then have some: "has_active org actor ?db"
      using active_roles_Nil[of org actor ?db] by (metis list.distinct(1) set_empty set_sort)
    have db': "db' = ?db\<lparr>actors := update_rows (\<lambda>a. is_actor org actor a \<and> a_role a = role)
        (\<lambda>a. a\<lparr>a_role := r\<rparr>) (actors db)\<rparr>"
      using assms(2) True Cons by (simp add: revoke_role_def Let_def)
    have "r \<in> set (active_roles org actor ?db)"
      using arg_cong[OF Cons, of set] by auto
    then have "r \<in> set ROLES"
      using c by (auto simp: set_active_roles identity_constraints_def list_all_iff)
    then have "identity_constraints db'"
      unfolding db' actors_revoke(1)[symmetric, of db "is_membership org actor role" now]
      by (intro constraints_update_actors[OF c]) auto
    moreover have "actor_ok db' (if is_actor org actor a \<and> a_role a = role then a\<lparr>a_role := r\<rparr> else a)"
      if a: "a \<in> set (actors db)" for a
      using actor_okD[OF assms(1) a] some here other[of "a_org a" "a_id a"]
      by (auto simp: db' actor_ok_def is_actor_def)
    ultimately show ?thesis by (simp add: identity_inv_def db')
  qed
qed

lemma grant_role_inv:
  assumes "identity_inv db" "grant_role org actor role now db = Inr (b, db')"
  shows "identity_inv db'"
proof (cases "list_ex (\<lambda>a. is_actor org actor a \<and> a_active a) (actors db)")
  case True
  then have db': "db' = upsert_membership org actor role now db" "identity_constraints db'"
    using assms(2) by (auto simp: grant_role_def)
  obtain x where "x \<in> set (actors db)" "is_actor org actor x" "a_active x" using True by (auto simp: list_ex_iff)
  then have "a_active a" if "a \<in> set (actors db)" "is_actor org actor a" for a
    using that same_actor[OF inv_constraints[OF assms(1)]] by blast
  then show ?thesis
    using assms(1) db' by (auto simp: identity_inv_def actor_ok_def is_actor_def)
qed (use assms in \<open>simp add: grant_role_def\<close>)

lemma issue_bind_code_inv:
  assumes "identity_inv db" "issue_bind_code org actor draws now db = Inr (b, db')"
  shows "identity_inv db'"
proof -
  obtain code where db': "identity_constraints db'"
    "db' = db\<lparr>actors := update_rows (\<lambda>a. is_actor org actor a \<and> a_active a)
      (\<lambda>a. a\<lparr>a_bind_code := Some code, a_bind_expires := Some (now + CODE_LIFETIME)\<rparr>) (actors db)\<rparr>"
    using assms(2) by (auto simp: issue_bind_code_def Let_def)
  have "actor_ok db (if is_actor org actor a \<and> a_active a then a\<lparr>a_bind_code := Some code,
      a_bind_expires := Some (now + CODE_LIFETIME)\<rparr> else a)" if "a \<in> set (actors db)" for a
    using actor_okD[OF assms(1) that] by (auto simp: actor_ok_def)
  then show ?thesis using db' by (simp add: identity_inv_def)
qed

lemma create_staff_inv:
  assumes "identity_inv db"
    and "create_staff_actor org role name phone provider user key rnd draws now db = Inr (staff, db')"
  shows "identity_inv db'"
proof -
  consider (old) "db' = db"
    | (new) actor code where "identity_constraints db'"
        "actors db' = actors (add_staff org actor role name phone code key now db)"
        "memberships db' = memberships (add_staff org actor role name phone code key now db)"
    using assms(2) unfolding create_staff_actor_def Let_def
    by (cases provider; cases user; auto split: option.splits if_splits)
  then show ?thesis
  proof cases
    case new
    have "\<forall>x \<in> set (actors db). (a_org x, a_id x) \<noteq> (org, actor)"
      using new(1,2) by (auto simp: identity_constraints_def unique_on_snoc add_staff_def)
    then show ?thesis using assms(1) new by (auto simp: identity_inv_def actor_ok_def has_active_def add_staff_def)
  qed (use assms in simp)
qed

section \<open>Binding\<close>

lemma attach_inv:
  assumes "identity_inv db" "attach_account org provider user actor db = Inr (u, db')"
  shows "identity_inv db'"
proof -
  let ?f = "\<lambda>a. a\<lparr>a_bind_code := None, a_bind_expires := None\<rparr>"
  have c: "identity_constraints db'" and d: "actors db' = update_rows (is_actor org actor) ?f (actors db)"
      "memberships db' = memberships db"
    using assms(2) by (auto simp: attach_account_def Let_def)
  have "has_active o' x db' = has_active o' x db" for o' x by (simp add: has_active_def d(2))
  then have "actor_ok db' (if is_actor org actor a then ?f a else a)" if "a \<in> set (actors db)" for a
    using actor_okD[OF assms(1) that] by (auto simp: actor_ok_def)
  then show ?thesis using c by (simp add: identity_inv_def d(1))
qed

lemma has_active_delete:
  "has_active o' x (delete_actor_rows P db) \<longleftrightarrow>
     has_active o' x db \<and> \<not> (\<exists>a \<in> set (actors db). P a \<and> is_actor o' x a)"
  by (auto simp: has_active_def delete_actor_rows_def Let_def delete_rows_def list_ex_iff)

lemma merge_inv:
  assumes "identity_inv db" "merge_actor org pending actor code now db = Inr (u, db')"
    and roles: "active_roles org pending db \<noteq> []"
  shows "identity_inv db'"
proof -
  let ?roles = "active_roles org pending db"
  define db1 where "db1 = fold (\<lambda>role. upsert_membership org actor role now) ?roles db"
  let ?f = "\<lambda>a. a\<lparr>a_active := True\<rparr>"
  let ?P = "\<lambda>a. is_actor org pending a \<and> a_bind_code a = Some code"
  define db2 where "db2 = db1\<lparr>actors := update_rows (is_actor org actor) ?f (actors db1)\<rparr>"
  have c: "identity_constraints db1" "identity_constraints db'" "db' = delete_actor_rows ?P db2"
    using assms(2) by (auto simp: merge_actor_def db1_def db2_def Let_def)
  have a1: "actors db1 = actors db" by (simp add: db1_def fold_upsert)
  have h: "has_active o' x db2 \<longleftrightarrow> (o' = org \<and> x = actor) \<or> has_active o' x db" for o' x
    using roles by (simp add: db2_def db1_def fold_upsert)
  have ok: "\<forall>a \<in> set (actors db2). actor_ok db2 a"
  proof -
    have "actor_ok db2 (if is_actor org actor a then ?f a else a)" if "a \<in> set (actors db)" for a
      using actor_okD[OF assms(1) that] unfolding actor_ok_def h by (auto simp: is_actor_def)
    then show ?thesis by (simp add: db2_def a1)
  qed
  have u: "unique_on (\<lambda>a. True) (\<lambda>a. (a_org a, a_id a)) (actors db2)"
    unfolding db2_def using c(1) by (auto simp: identity_constraints_def intro!: unique_on_update)
  have "actor_ok db' a" if a: "a \<in> set (actors db')" for a
  proof -
    have a2: "a \<in> set (actors db2)" "\<not> ?P a"
      using a unfolding c(3) by (auto simp: delete_actor_rows_def Let_def delete_rows_def)
    have "\<not> (\<exists>b \<in> set (actors db2). ?P b \<and> is_actor (a_org a) (a_id a) b)"
    proof
      assume "\<exists>b \<in> set (actors db2). ?P b \<and> is_actor (a_org a) (a_id a) b"
      then obtain b where b: "b \<in> set (actors db2)" "?P b" "is_actor (a_org a) (a_id a) b" by blast
      then have "b = a" using unique_on_eq[OF u b(1) a2(1)] by (simp add: is_actor_def)
      then show False using b(2) a2(2) by simp
    qed
    then have "has_active (a_org a) (a_id a) db' = has_active (a_org a) (a_id a) db2"
      unfolding c(3) has_active_delete by blast
    then show ?thesis using ok a2(1) by (auto simp: actor_ok_def)
  qed
  then show ?thesis using c(2) by (simp add: identity_inv_def)
qed

lemma admits_roles: "admits key roles \<Longrightarrow> roles \<noteq> []"
  by (auto simp: admits_def)

text \<open>What a binding did: nothing, or it used up the code of an active actor.\<close>

lemma bind_cases:
  assumes "bind_actor_by_code org code provider user key now db = Inr (res, db')"
  obtains (refused) "res = None" "db' = db"
  | (bound) pending actor u where
      "find (\<lambda>a. a_org a = org \<and> a_bind_code a = Some code \<and> a_active a \<and>
         (case a_bind_expires a of None \<Rightarrow> False | Some e \<Rightarrow> e > now)) (actors db) = Some pending"
      "admits key (active_roles org (a_id pending) db)"
      "res = bound_identity org provider user key actor pending (active_roles org (a_id pending) db) db'"
      "(actor \<noteq> a_id pending \<and> bound_actor org provider user db = Some actor \<and>
          \<not> list_ex (\<lambda>e. e_org e = org \<and> e_actor e = a_id pending) (externals db) \<and>
          merge_actor org (a_id pending) actor code now db = Inr (u, db')) \<or>
       (actor = a_id pending \<and> bound_actor org provider user db \<in> {None, Some [], Some (a_id pending)} \<and>
          attach_account org provider user actor db = Inr (u, db'))"
proof (cases "find (\<lambda>a. a_org a = org \<and> a_bind_code a = Some code \<and> a_active a \<and>
         (case a_bind_expires a of None \<Rightarrow> False | Some e \<Rightarrow> e > now)) (actors db)")
  case None
  then show ?thesis using assms refused by (simp add: bind_actor_by_code_def)
next
  case (Some pending)
  define actor where "actor = (case bound_actor org provider user db of None \<Rightarrow> a_id pending
    | Some x \<Rightarrow> if x = [] then a_id pending else x)"
  have b: "actor \<noteq> a_id pending \<Longrightarrow> bound_actor org provider user db = Some actor"
    and b': "actor = a_id pending \<Longrightarrow> bound_actor org provider user db \<in> {None, Some [], Some (a_id pending)}"
    by (auto simp: actor_def split: option.splits if_splits)
  show ?thesis
  proof (cases "admits key (active_roles org (a_id pending) db)")
    case True
    show ?thesis
    proof (cases "actor \<noteq> a_id pending")
      case neq: True
      show ?thesis
      proof (cases "list_ex (\<lambda>e. e_org e = org \<and> e_actor e = a_id pending) (externals db)")
        case has: True
        then have "res = None" "db' = db"
          using assms Some True neq by (simp_all add: bind_actor_by_code_def Let_def actor_def)
        then show ?thesis by (rule refused)
      next
        case free: False
        have "result_bind (merge_actor org (a_id pending) actor code now db) (\<lambda>(u, db1). Inr
            (bound_identity org provider user key actor pending (active_roles org (a_id pending) db) db1, db1)) =
            Inr (res, db')"
          using assms Some True neq free by (simp add: bind_actor_by_code_def Let_def actor_def)
        then obtain u where "merge_actor org (a_id pending) actor code now db = Inr (u, db')"
          "res = bound_identity org provider user key actor pending (active_roles org (a_id pending) db) db'"
          by auto
        then show ?thesis using bound[OF Some True, of actor u] neq free b[OF neq] by simp
      qed
    next
      case same: False
      have "result_bind (attach_account org provider user actor db) (\<lambda>(u, db1). Inr
          (bound_identity org provider user key actor pending (active_roles org (a_id pending) db) db1, db1)) =
          Inr (res, db')"
        using assms Some True same by (simp add: bind_actor_by_code_def Let_def actor_def)
      then obtain u where "attach_account org provider user actor db = Inr (u, db')"
        "res = bound_identity org provider user key actor pending (active_roles org (a_id pending) db) db'"
        by auto
      then show ?thesis using bound[OF Some True, of actor u] same b' by simp
    qed
  next
    case False
    then show ?thesis using assms Some refused by (simp add: bind_actor_by_code_def Let_def)
  qed
qed

lemma bind_inv:
  assumes "identity_inv db" "bind_actor_by_code org code provider user key now db = Inr (res, db')"
  shows "identity_inv db'"
  using assms(2)
proof (cases rule: bind_cases)
  case (bound pending actor u)
  then show ?thesis using merge_inv[OF assms(1)] attach_inv[OF assms(1)] admits_roles by metis
qed (use assms in simp)

section \<open>Runs\<close>

datatype identity_op =
    UpsertActor string string string string "string option" "string option" instant
  | CreateStaff string string string "string option" "string option" "string option" "string option" string "nat list" instant
  | UpdatePhone string string string
  | DeleteActor string string instant
  | GrantRole string string string instant
  | RevokeRole string string string instant
  | BindByCode string string string string string instant
  | IssueCode string string "nat list" instant

text \<open>A transaction that raises leaves the database as it was.\<close>

definition committed :: "('a \<times> identity_db) result \<Rightarrow> identity_db \<Rightarrow> identity_db" where
  "committed r db = (case r of Inl e \<Rightarrow> db | Inr (x, db') \<Rightarrow> db')"

fun identity_exec :: "identity_op \<Rightarrow> identity_db \<Rightarrow> identity_db" where
  "identity_exec (UpsertActor org actor role name provider user now) db =
     committed (upsert_actor org actor role name provider user now db) db"
| "identity_exec (CreateStaff org role name phone provider user key rnd draws now) db =
     committed (create_staff_actor org role name phone provider user key rnd draws now db) db"
| "identity_exec (UpdatePhone org actor phone) db = snd (update_actor_phone org actor phone db)"
| "identity_exec (DeleteActor org actor now) db = snd (delete_actor org actor now db)"
| "identity_exec (GrantRole org actor role now) db = committed (grant_role org actor role now db) db"
| "identity_exec (RevokeRole org actor role now) db = committed (revoke_role org actor role now db) db"
| "identity_exec (BindByCode org code provider user key now) db =
     committed (bind_actor_by_code org code provider user key now db) db"
| "identity_exec (IssueCode org actor draws now) db = committed (issue_bind_code org actor draws now db) db"

definition empty_identity_db :: identity_db where
  "empty_identity_db = \<lparr>actors = [], memberships = [], externals = []\<rparr>"

definition identity_run :: "identity_op list \<Rightarrow> identity_db" where
  "identity_run ops = fold identity_exec ops empty_identity_db"

lemma committed_inv: "\<lbrakk>identity_inv db; \<And>x db'. r = Inr (x, db') \<Longrightarrow> identity_inv db'\<rbrakk> \<Longrightarrow> identity_inv (committed r db)"
  by (auto simp: committed_def split: sum.splits)

lemma identity_exec_inv: "identity_inv db \<Longrightarrow> identity_inv (identity_exec op db)"
  by (cases op) (auto intro: committed_inv upsert_actor_inv create_staff_inv grant_role_inv
    revoke_role_inv bind_inv issue_bind_code_inv update_phone_inv delete_actor_inv)

lemma identity_run_inv: "identity_inv (identity_run ops)"
proof -
  have "identity_inv db \<Longrightarrow> identity_inv (fold identity_exec ops db)" for db
    by (induction ops arbitrary: db) (auto simp: identity_exec_inv)
  moreover have "identity_inv empty_identity_db"
    by (simp add: identity_inv_def identity_constraints_def empty_identity_db_def)
  ultimately show ?thesis by (simp add: identity_run_def)
qed

lemma effective_role_granted: "effective_role primary roles key = Some r \<Longrightarrow> r \<in> set roles"
proof -
  have "filter P roles = [r] \<Longrightarrow> r \<in> set roles" for P
    by (metis filter_is_subset list.set_intros(1) subsetD)
  then show "effective_role primary roles key = Some r \<Longrightarrow> r \<in> set roles"
    by (auto simp: effective_role_def split: option.splits if_splits list.splits)
qed

text \<open>
  (C19) Whatever operations ran, the keys and references of the tables hold, an organization has at
  most one active administrator and no two actors the same code, an actor is active exactly when it
  has an active role, only active actors have a code, and an account resolves only to an active actor
  in a role that is active for it.
\<close>

theorem identity_stays_consistent:
  "let db = identity_run ops in identity_constraints db \<and>
    (\<forall>a \<in> set (actors db). (a_active a \<longleftrightarrow> active_roles (a_org a) (a_id a) db \<noteq> []) \<and>
       (a_bind_code a \<noteq> None \<longrightarrow> a_active a)) \<and>
    (\<forall>org provider user key i. identity_resolve org provider user key db = Some i \<longrightarrow>
       ai_role i \<in> set (active_roles org (ai_actor_id i) db) \<and>
       (\<exists>a \<in> set (actors db). is_actor org (ai_actor_id i) a \<and> a_active a))"
proof -
  have "identity_inv (identity_run ops)" by (rule identity_run_inv)
  moreover have "ai_role i \<in> set (active_roles org (ai_actor_id i) db) \<and>
      (\<exists>a \<in> set (actors db). is_actor org (ai_actor_id i) a \<and> a_active a)"
    if "identity_resolve org provider user key db = Some i" for org provider user key i db
    using that by (auto simp: identity_resolve_def effective_role_granted split: option.splits dest!: find_SomeD)
  ultimately show ?thesis
    unfolding Let_def identity_inv_def actor_ok_def active_roles_Nil by blast
qed

section \<open>What a code gives\<close>

definition role_held :: "string \<Rightarrow> string \<Rightarrow> string \<Rightarrow> identity_db \<Rightarrow> bool" where
  "role_held org actor role db \<longleftrightarrow> (\<exists>m \<in> set (memberships db). is_membership org actor role m \<and> r_active m)"

lemma in_active_roles: "role \<in> set (active_roles org actor db) \<longleftrightarrow> role_held org actor role db"
  by (auto simp: set_active_roles role_held_def is_membership_def)

lemma role_held_upsert_self: "role_held org actor role (upsert_membership org actor role now db)"
proof (cases "list_ex (is_membership org actor role) (memberships db)")
  case True
  then obtain m where m: "m \<in> set (memberships db)" "is_membership org actor role m" by (auto simp: list_ex_iff)
  then show ?thesis using True unfolding role_held_def upsert_membership_def
    by (simp add: is_membership_def) (intro bexI[of _ m], auto)
qed (simp add: role_held_def upsert_membership_def is_membership_def)

lemma role_held_upsert_mono:
  "role_held o' x r db \<Longrightarrow> role_held o' x r (upsert_membership org actor role now db)"
  unfolding role_held_def upsert_membership_def by (auto simp: is_membership_def)

lemma role_held_fold:
  "r \<in> set rs \<or> role_held org actor r db \<Longrightarrow>
   role_held org actor r (fold (\<lambda>role. upsert_membership org actor role now) rs db)"
  by (induction rs arbitrary: db) (auto intro: role_held_upsert_self role_held_upsert_mono)

lemma role_held_delete:
  "\<lbrakk>role_held org actor role db; \<not> (\<exists>a \<in> set (actors db). P a \<and> is_actor org actor a)\<rbrakk>
   \<Longrightarrow> role_held org actor role (delete_actor_rows P db)"
  by (auto simp: role_held_def delete_actor_rows_def Let_def delete_rows_def list_ex_iff is_membership_def)

lemma find_delete_rows:
  "\<lbrakk>find P t = Some x; \<not> Q x\<rbrakk> \<Longrightarrow> find P (delete_rows Q t) = Some x"
  by (induction t) (auto simp: delete_rows_def split: if_splits)

lemma find_snoc: "find P t = None \<Longrightarrow> find P (t @ [x]) = (if P x then Some x else None)"
  by (induction t) (auto split: if_splits)

lemma code_holder:
  assumes "identity_constraints db" "a \<in> set (actors db)" "b \<in> set (actors db)"
    and "a_org a = a_org b" "a_bind_code a = Some code" "a_bind_code b = Some code"
  shows "a = b"
  using unique_on_eq[of "\<lambda>a. a_bind_code a \<noteq> None" "\<lambda>a. (a_org a, a_bind_code a)" "actors db" a b] assms
  by (simp add: identity_constraints_def)

text \<open>The outcome of a binding, for the two ways it can go.\<close>

definition binds :: "string \<Rightarrow> string \<Rightarrow> string \<Rightarrow> string \<Rightarrow> string \<Rightarrow> string list \<Rightarrow> identity_db \<Rightarrow> bool" where
  "binds org code provider user actor roles db \<longleftrightarrow>
     \<not> code_taken org code db \<and> bound_actor org provider user db = Some actor \<and>
     (\<forall>r \<in> set roles. role_held org actor r db)"

lemma attach_binds:
  assumes c: "identity_constraints db" and p: "p \<in> set (actors db)" "a_org p = org" "a_bind_code p = Some code"
    and m: "attach_account org provider user (a_id p) db = Inr (u, db')"
    and b: "bound_actor org provider user db \<in> {None, Some (a_id p)}"
  shows "binds org code provider user (a_id p) (active_roles org (a_id p) db) db'"
proof -
  let ?f = "\<lambda>a. a\<lparr>a_bind_code := None, a_bind_expires := None\<rparr>"
  have d: "actors db' = update_rows (is_actor org (a_id p)) ?f (actors db)" "memberships db' = memberships db"
    "externals db' = externals (add_external org provider user (a_id p) db)"
    using m by (auto simp: attach_account_def Let_def)
  have "\<not> code_taken org code db'"
  proof
    assume "code_taken org code db'"
    then obtain a where a: "a \<in> set (actors db)" "\<not> is_actor org (a_id p) a" "a_org a = org" "a_bind_code a = Some code"
      by (auto simp: code_taken_def d(1) list_ex_iff split: if_splits)
    then have "a = p" using code_holder[OF c a(1) p(1)] p a by simp
    then show False using a p by (simp add: is_actor_def)
  qed
  moreover have "bound_actor org provider user db' = Some (a_id p)"
  proof (cases "find (is_external org provider user) (externals db)")
    case None
    then have "\<not> list_ex (is_external org provider user) (externals db)" by (auto simp: find_None_all list_ex_iff)
    then show ?thesis using None
      by (simp add: bound_actor_def d(3) add_external_def find_snoc is_external_def)
  next
    case (Some e)
    then have "list_ex (is_external org provider user) (externals db)" by (auto simp: list_ex_iff dest: find_SomeD)
    then show ?thesis using Some b by (simp add: bound_actor_def d(3) add_external_def)
  qed
  ultimately show ?thesis by (simp add: binds_def in_active_roles role_held_def d(2))
qed

lemma merge_binds:
  assumes i: "identity_constraints db" and p: "p \<in> set (actors db)" "a_org p = org" "a_bind_code p = Some code"
    and m: "merge_actor org (a_id p) actor code now db = Inr (u, db')"
    and b: "bound_actor org provider user db = Some actor" "actor \<noteq> a_id p"
  shows "binds org code provider user actor (active_roles org (a_id p) db) db'"
proof -
  let ?roles = "active_roles org (a_id p) db"
  define db1 where "db1 = fold (\<lambda>role. upsert_membership org actor role now) ?roles db"
  let ?P = "\<lambda>a. is_actor org (a_id p) a \<and> a_bind_code a = Some code"
  define db2 where "db2 = db1\<lparr>actors := update_rows (is_actor org actor) (\<lambda>a. a\<lparr>a_active := True\<rparr>) (actors db1)\<rparr>"
  have db': "db' = delete_actor_rows ?P db2"
    using m by (auto simp: merge_actor_def db1_def db2_def Let_def)
  have d1: "actors db1 = actors db" "externals db2 = externals db" by (simp_all add: db1_def db2_def fold_upsert)
  have "\<not> code_taken org code db'"
  proof
    assume "code_taken org code db'"
    then obtain a' where a': "a' \<in> set (actors db2)" "\<not> ?P a'" "a_org a' = org" "a_bind_code a' = Some code"
      by (auto simp: code_taken_def db' delete_actor_rows_def Let_def delete_rows_def list_ex_iff)
    have "a' \<in> set (update_rows (is_actor org actor) (\<lambda>a. a\<lparr>a_active := True\<rparr>) (actors db))"
      using a'(1) by (simp add: db2_def d1)
    then obtain a where m: "a \<in> set (actors db)" and e: "a' = a \<or> a' = a\<lparr>a_active := True\<rparr>"
      unfolding set_update_rows by auto
    from e have "a_org a' = a_org a" "a_id a' = a_id a" "a_bind_code a' = a_bind_code a" by auto
    with m a' have a: "a \<in> set (actors db)" "\<not> is_actor org (a_id p) a" "a_org a = org" "a_bind_code a = Some code"
      by (simp_all add: is_actor_def)
    then have "a = p" using code_holder[OF i a(1) p(1)] p a by simp
    then show False using a p by (simp add: is_actor_def)
  qed
  moreover have other: "\<not> (\<exists>a \<in> set (actors db2). ?P a \<and> is_actor org actor a)"
    using b(2) by (auto simp: is_actor_def)
  have "bound_actor org provider user db' = Some actor"
  proof -
    obtain e where e: "find (is_external org provider user) (externals db) = Some e" "e_actor e = actor"
      using b(1) by (auto simp: bound_actor_def)
    have "e_org e = org" using find_SomeD[OF e(1)] by (simp add: is_external_def)
    then have "find (is_external org provider user) (externals db') = Some e"
      unfolding db' delete_actor_rows_def Let_def using e other
      by (simp add: d1 find_delete_rows list_ex_iff)
    then show ?thesis using e(2) by (simp add: bound_actor_def)
  qed
  moreover have "role_held org actor r db'" if "r \<in> set ?roles" for r
  proof -
    have "role_held org actor r db1" unfolding db1_def using that by (intro role_held_fold) simp
    then have "role_held org actor r db2" by (simp add: db2_def role_held_def)
    then show ?thesis unfolding db' using other by (rule role_held_delete)
  qed
  ultimately show ?thesis by (simp add: binds_def)
qed

lemma bound_identity_Some:
  assumes "bound_identity org provider user key actor p roles db = Some i"
  shows "ai_actor_id i = actor \<and> ai_roles i = active_roles org actor db \<and>
    ai_role i \<in> set (active_roles org actor db)"
  using assms by (auto simp: bound_identity_def Let_def split: option.splits dest: effective_role_granted)

text \<open>
  (C26) A binding that returns an identity used the unexpired code of an active actor of the
  organization; the code is gone afterwards, the account belongs to the identity's actor, that actor
  holds every role the code stood for, and the identity acts in one of its roles.
\<close>

theorem bind_code_works_once:
  assumes "bind_actor_by_code org code provider user key now (identity_run ops) = Inr (Some i, db')"
    and "bound_actor org provider user (identity_run ops) \<noteq> Some []"
  shows "\<exists>p \<in> set (actors (identity_run ops)).
    a_org p = org \<and> a_bind_code p = Some code \<and> a_active p \<and> (\<exists>e. a_bind_expires p = Some e \<and> e > now) \<and>
    \<not> code_taken org code db' \<and> bound_actor org provider user db' = Some (ai_actor_id i) \<and>
    set (active_roles org (a_id p) (identity_run ops)) \<subseteq> set (ai_roles i) \<and> ai_role i \<in> set (ai_roles i)"
  using assms(1)
proof (cases rule: bind_cases)
  case (bound p actor u)
  let ?db = "identity_run ops"
  have c: "identity_constraints ?db" using identity_run_inv inv_constraints by blast
  have p: "p \<in> set (actors ?db)" "a_org p = org" "a_bind_code p = Some code" "a_active p"
    "\<exists>e. a_bind_expires p = Some e \<and> e > now"
    using find_SomeD[OF bound(1)] by (auto split: option.splits)
  have i: "ai_actor_id i = actor" "ai_roles i = active_roles org actor db'" "ai_role i \<in> set (active_roles org actor db')"
    using bound_identity_Some[OF bound(3)[symmetric]] by simp_all
  have "binds org code provider user actor (active_roles org (a_id p) ?db) db'"
    using bound(4)
  proof
    assume "actor = a_id p \<and> bound_actor org provider user ?db \<in> {None, Some [], Some (a_id p)} \<and> attach_account org provider user actor ?db = Inr (u, db')"
    then show ?thesis using attach_binds[OF c p(1-3)] assms(2) by blast
  qed (use merge_binds[OF c p(1-3)] in blast)
  then show ?thesis using p i by (auto simp: binds_def in_active_roles)
qed simp

definition demo_staff :: "identity_op list" where
  "demo_staff = [CreateStaff ''org'' ''master'' ''Ann'' None None None None ''ab'' [7] 0]"

lemmas identity_eval = demo_staff_def identity_run_def empty_identity_db_def committed_def create_staff_actor_def
  together_def unused_bind_code_def code_taken_def add_staff_def commit_identity_def identity_constraints_def
  CODE_LIFETIME_def ROLES_def is_actor_def Let_def

lemma demo_code: "pad_int 4 7 = ''0007''"
  by code_simp

definition demo_identity_db :: identity_db where
  "demo_identity_db = \<lparr>actors = [\<lparr>a_org = ''org'', a_id = ''master:ab'', a_role = ''master'', a_name = ''Ann'',
      a_phone = None, a_bind_code = Some ''0007'', a_bind_expires = Some CODE_LIFETIME, a_active = True,
      a_creation_key = None\<rparr>],
    memberships = [\<lparr>r_org = ''org'', r_actor = ''master:ab'', r_role = ''master'', r_active = True,
      r_granted = 0, r_revoked = None\<rparr>], externals = []\<rparr>"

lemma demo_staff_run: "identity_run demo_staff = demo_identity_db"
  by (simp add: identity_eval demo_identity_db_def demo_code)

lemma demo_bind: "\<exists>i db'. bind_actor_by_code ''org'' ''0007'' ''max'' ''42'' '''' 5 (identity_run demo_staff) = Inr (Some i, db')"
  unfolding demo_staff_run
  by (simp add: demo_identity_db_def bind_actor_by_code_def CODE_LIFETIME_def Let_def active_roles_def
    bound_actor_def admits_def requested_role_def ROLES_def str_starts_with_def attach_account_def
    add_external_def commit_identity_def identity_constraints_def is_actor_def bound_identity_def effective_role_def)

theorem bind_code_works_once_witness:
  "\<exists>i db'. bind_actor_by_code ''org'' ''0007'' ''max'' ''42'' '''' 5 (identity_run demo_staff) = Inr (Some i, db') \<and>
     \<not> code_taken ''org'' ''0007'' db'"
proof -
  obtain i db' where b: "bind_actor_by_code ''org'' ''0007'' ''max'' ''42'' '''' 5 (identity_run demo_staff) = Inr (Some i, db')"
    using demo_bind by blast
  moreover have "bound_actor ''org'' ''max'' ''42'' (identity_run demo_staff) \<noteq> Some []"
    unfolding demo_staff_run by (simp add: demo_identity_db_def bound_actor_def)
  ultimately show ?thesis using bind_code_works_once[OF b] by blast
qed

theorem identity_stays_consistent_witness:
  "identity_constraints (identity_run demo_staff) \<and>
   active_roles ''org'' ''master:ab'' (identity_run demo_staff) \<noteq> []"
  using identity_stays_consistent[of demo_staff] unfolding demo_staff_run
  by (simp add: Let_def demo_identity_db_def)

section \<open>Organizations are apart\<close>

text \<open>The people of one organization, and the operations of another one that leave them as they are.\<close>

definition people_of :: "string \<Rightarrow> identity_db \<Rightarrow> identity_db" where
  "people_of org p = \<lparr>actors = filter (\<lambda>a. a_org a = org) (actors p), memberships = filter (\<lambda>m. r_org m = org) (memberships p),
     externals = filter (\<lambda>e. e_org e = org) (externals p)\<rparr>"

lemma filter_untouched:
  "(\<And>x. P x \<Longrightarrow> \<not> hit x) \<Longrightarrow> (\<And>x. P (f x) = P x) \<Longrightarrow> filter P (update_rows hit f t) = filter P t"
  by (induction t) auto

lemma people_of_grant: "org \<noteq> org' \<Longrightarrow> grant_role org' actor role now t = Inr (x, t') \<Longrightarrow> people_of org t' = people_of org t"
  by (auto simp: grant_role_def commit_identity_def upsert_membership_def people_of_def is_membership_def
      intro!: filter_untouched split: if_splits)

lemma people_of_revoke: "org \<noteq> org' \<Longrightarrow> revoke_role org' actor role now t = Inr (x, t') \<Longrightarrow> people_of org t' = people_of org t"
  by (auto simp: revoke_role_def revoke_memberships_def deactivate_def people_of_def is_membership_def is_actor_def Let_def
      intro!: filter_untouched split: if_splits list.splits)

lemma people_of_phone: "org \<noteq> org' \<Longrightarrow> people_of org (snd (update_actor_phone org' actor phone t)) = people_of org t"
  by (auto simp: update_actor_phone_def people_of_def is_actor_def Let_def intro!: filter_untouched)

lemma people_of_added:
  "org \<noteq> org' \<Longrightarrow> people_of org (add_staff org' actor role name phone code key now t) = people_of org t"
  "org \<noteq> org' \<Longrightarrow> people_of org (add_external org' provider user actor t) = people_of org t"
  by (simp_all add: add_staff_def add_external_def people_of_def)

lemma people_of_commit: "commit_identity x t = Inr (y, t') \<Longrightarrow> t' = t"
  by (simp add: commit_identity_def split: if_splits)

lemma people_of_staff:
  assumes "org \<noteq> org'" "create_staff_actor org' role name phone provider user key hx draws now t = Inr (x, t')"
  shows "people_of org t' = people_of org t"
proof -
  have "t' = t \<or> (\<exists>code. t' = add_staff org' (role @ '':'' @ hx) role name phone code key now t) \<or>
    (\<exists>code p u. t' = add_external org' p u (role @ '':'' @ hx) (add_staff org' (role @ '':'' @ hx) role name phone code key now t))"
    using assms(2) unfolding create_staff_actor_def Let_def raise_first_Inr
    by (cases "unused_bind_code org' draws t"; cases provider; cases user)
      (auto dest: people_of_commit split: option.splits if_splits)
  then show ?thesis using assms(1) by (auto simp: people_of_added)
qed

end
