(* ===== verification/Staff_Binding.thy ===== *)
theory Staff_Binding
  imports Ingress Identity_Laws
begin

text \<open>
  Binding staff accounts: the sessions that limit the attempts (\<open>PostgresStaffBindingSessionStore\<close>),
  the role a shared staff bot acts in (\<open>PostgresStaffRoleSelectionStore\<close>, \<open>messaging/staff.py\<close>) and the
  handling of an account that is not bound yet (\<open>InboundProcessor._maybe_bind_staff\<close> and
  \<open>_maybe_register_requester\<close>). Texts of replies are constructors.
\<close>

section \<open>Binding sessions\<close>

record binding_session =
  bs_attempts :: int
  bs_expires_at :: instant

type_synonym session_key = "string \<times> string \<times> string \<times> string"
type_synonym binding_table = "(session_key, binding_session) dict"

definition BINDING_MAX_ATTEMPTS :: int where "BINDING_MAX_ATTEMPTS = 5"

definition binding_live :: "instant \<Rightarrow> binding_session \<Rightarrow> bool" where
  "binding_live now s \<longleftrightarrow> bs_expires_at s > now \<and> bs_attempts s < BINDING_MAX_ATTEMPTS"

definition binding_begin :: "session_key \<Rightarrow> int \<Rightarrow> instant \<Rightarrow> binding_table \<Rightarrow> (bool \<times> binding_table) result" where
  "binding_begin k ttl_minutes now t =
     raise_first
       [check (snd (snd (snd k)) \<in> set [''operator'', ''master'', ''staff''])
          (ValueError ''staff binding requires an operator, master or shared frontend''),
        check (0 < ttl_minutes) (ValueError ''binding session TTL must be positive'')]
       (let fresh = \<lparr>bs_attempts = 0, bs_expires_at = now + seconds (60 * ttl_minutes)\<rparr>;
            s = (case dict_get k t of None \<Rightarrow> fresh
              | Some old \<Rightarrow> if bs_expires_at old \<le> now then fresh else old)
        in Inr (binding_live now s, dict_put k s t))"

definition take_attempt :: "session_key \<Rightarrow> instant \<Rightarrow> binding_table \<Rightarrow> int option \<times> binding_table" where
  "take_attempt k now t =
     (case dict_get k t of
        None \<Rightarrow> (None, t)
      | Some s \<Rightarrow>
          if binding_live now s then
            (let s' = s\<lparr>bs_attempts := bs_attempts s + 1\<rparr> in (Some (bs_attempts s'), dict_put k s' t))
          else (None, t))"

definition binding_active :: "session_key \<Rightarrow> instant \<Rightarrow> binding_table \<Rightarrow> bool" where
  "binding_active k now t = (case dict_get k t of None \<Rightarrow> False | Some s \<Rightarrow> binding_live now s)"

definition binding_clear :: "session_key \<Rightarrow> binding_table \<Rightarrow> binding_table" where
  "binding_clear k t = dict_pop k t"

definition cleanup_expired :: "instant \<Rightarrow> binding_table \<Rightarrow> nat \<times> binding_table" where
  "cleanup_expired now t =
     (length (filter (\<lambda>(k, s). bs_expires_at s \<le> now) t), filter (\<lambda>(k, s). \<not> bs_expires_at s \<le> now) t)"

section \<open>The selected role of a shared staff account\<close>

type_synonym selection_table = "(string \<times> string \<times> string, string) dict"

definition selection_put ::
  "string \<Rightarrow> string \<Rightarrow> string \<Rightarrow> string \<Rightarrow> identity_db \<Rightarrow> selection_table \<Rightarrow> selection_table result" where
  "selection_put org provider user role db t =
     raise_first
       [check (provider = ''max'') (ValueError ''shared staff role selection is supported only for MAX''),
        check (role \<in> set STAFF_ROLES) (ValueError ''unsupported shared staff role''),
        check (bound_actor org provider user db \<noteq> None) (RuntimeError ''constraint violation'')]
       (Inr (dict_put (org, provider, user) role t))"

definition selection_get :: "string \<Rightarrow> string \<Rightarrow> string \<Rightarrow> selection_table \<Rightarrow> string option" where
  "selection_get org provider user t = dict_get (org, provider, user) t"

definition selection_clear :: "string \<Rightarrow> string \<Rightarrow> string \<Rightarrow> selection_table \<Rightarrow> selection_table" where
  "selection_clear org provider user t = dict_pop (org, provider, user) t"

definition ROLE_ORDER :: "string list" where
  "ROLE_ORDER = [''admin'', ''operator'', ''master'']"

definition available_roles :: "actor_identity \<Rightarrow> string list" where
  "available_roles i =
     (let roles = (if ai_roles i = [] then [ai_role i] else ai_roles i) in filter (\<lambda>r. r \<in> set roles) ROLE_ORDER)"

datatype reply_text =
    NoStaffRoles
  | ChooseRole "reply_text option" string
  | RoleNoLongerAvailable
  | SelectedRoleGone
  | RoleButtonStale
  | RoleModeOn string
  | BindingLimitReached
  | EnterBindCode string
  | BindingNotStarted
  | BindingDone
  | BoundAs string string
  | BindingExpired
  | NoAttemptsLeft
  | WrongCode int

datatype reply = Reply reply_text "reply_button list"

definition role_button :: "nat \<Rightarrow> string \<Rightarrow> reply_button" where
  "role_button index role = \<lparr>rb_text = role, rb_action = ''staff_select_role'',
     rb_payload = [(''role'', JStr role)], rb_allowed_role = None, rb_row = int index, rb_url = None,
     rb_request_location = False\<rparr>"

definition role_menu :: "actor_identity \<Rightarrow> reply_text option \<Rightarrow> reply" where
  "role_menu i note =
     (if available_roles i = [] then Reply NoStaffRoles []
      else Reply (ChooseRole note (ai_display_name i))
        (map (\<lambda>(index, role). role_button index role) (enumerate 0 (available_roles i))))"

definition staff_start :: "actor_identity \<Rightarrow> selection_table \<Rightarrow> reply \<times> selection_table" where
  "staff_start i t = (role_menu i None,
     selection_clear (ai_organization_id i) (ai_provider i) (ai_external_user_id i) t)"

definition staff_selected :: "actor_identity \<Rightarrow> selection_table \<Rightarrow> string option" where
  "staff_selected i t = selection_get (ai_organization_id i) (ai_provider i) (ai_external_user_id i) t"

text \<open>\<open>str(payload.get("role") or "")\<close>; the payloads that the program writes hold a text.\<close>

definition payload_text :: "string \<Rightarrow> (string, json) dict \<Rightarrow> string" where
  "payload_text k d = (case dict_get k d of Some (JStr s) \<Rightarrow> s | _ \<Rightarrow> [])"

definition staff_select ::
  "actor_identity \<Rightarrow> (string, json) dict \<Rightarrow> identity_db \<Rightarrow> selection_table \<Rightarrow>
   (string option \<times> reply \<times> selection_table) result"
where
  "staff_select i payload db t =
     (let role = payload_text ''role'' payload;
          org = ai_organization_id i; provider = ai_provider i; user = ai_external_user_id i
      in if role \<notin> set (available_roles i) then
           Inr (None, role_menu i (Some RoleNoLongerAvailable), selection_clear org provider user t)
         else result_bind (selection_put org provider user role db t)
           (\<lambda>t'. Inr (Some role, Reply (RoleModeOn role) [], t')))"

section \<open>An account that is not bound\<close>

definition staff_frontend_role :: "string \<Rightarrow> string option" where
  "staff_frontend_role consumer_key =
     (if consumer_key \<in> set [''operator'', ''master'', ''staff''] then Some consumer_key
      else if str_starts_with ''staff:'' consumer_key then
        (let role = drop 6 consumer_key in if role \<in> set [''operator'', ''master''] then Some role else None)
      else None)"

text \<open>A code has four ASCII digits; \<open>landing\<close> is the reply of the role's workspace.\<close>

definition is_bind_code :: "string \<Rightarrow> bool" where
  "is_bind_code code \<longleftrightarrow> length code = 4 \<and> is_ascii code \<and> list_all is_digit code"

definition bound_reply :: "string \<Rightarrow> bool \<Rightarrow> (actor_identity \<Rightarrow> reply_text \<Rightarrow> reply) \<Rightarrow> actor_identity \<Rightarrow> reply" where
  "bound_reply role shared landing i =
     (if role = ''staff'' \<and> shared then role_menu i (Some BindingDone)
      else if ai_role i \<in> set [''operator'', ''master''] then landing i BindingDone
      else Reply (BoundAs (ai_display_name i) (ai_role i)) [])"

definition maybe_bind_staff ::
  "string \<Rightarrow> bool \<Rightarrow> (actor_identity \<Rightarrow> reply_text \<Rightarrow> reply) \<Rightarrow> string \<Rightarrow> inbound_event \<Rightarrow> instant \<Rightarrow>
   identity_db \<times> binding_table \<Rightarrow>
   ((actor_identity option \<times> reply option) \<times> (identity_db \<times> binding_table)) result"
where
  "maybe_bind_staff consumer_key shared landing org ev now st =
     (case staff_frontend_role consumer_key of
        None \<Rightarrow> Inr ((None, None), st)
      | Some role \<Rightarrow>
          (let (db, t) = st; k = (org, ev_provider ev, ev_external_user_id ev, role)
           in if ev_kind ev = EStart then
                result_bind (binding_begin k 15 now t) (\<lambda>(active, t').
                  Inr ((None, Some (Reply (if active then EnterBindCode role else BindingLimitReached) [])), (db, t')))
              else if ev_kind ev \<noteq> EMessage \<or> falsy (ev_text ev) then Inr ((None, None), st)
              else if \<not> binding_active k now t then Inr ((None, Some (Reply BindingNotStarted [])), st)
              else
                (let code = str_strip (the (ev_text ev))
                 in result_bind
                     (if is_bind_code code
                      then bind_actor_by_code org code (ev_provider ev) (ev_external_user_id ev) role now db
                      else Inr (None, db))
                     (\<lambda>(found, db').
                        case found of
                          Some i \<Rightarrow> Inr ((Some i, Some (bound_reply role shared landing i)), (db', binding_clear k t))
                        | None \<Rightarrow>
                            (let (attempts, t') = take_attempt k now t
                             in Inr ((None, Some (Reply (case attempts of
                                    None \<Rightarrow> BindingExpired
                                  | Some n \<Rightarrow> if n \<ge> BINDING_MAX_ATTEMPTS then NoAttemptsLeft
                                      else WrongCode (BINDING_MAX_ATTEMPTS - n)) [])), (db', t')))))))"

definition maybe_register_requester ::
  "bool \<Rightarrow> string \<Rightarrow> string \<Rightarrow> inbound_event \<Rightarrow> instant \<Rightarrow> identity_db \<Rightarrow>
   (actor_identity option \<times> identity_db) result"
where
  "maybe_register_requester intake consumer_key org ev now db =
     (if \<not> intake \<or> (consumer_key \<noteq> [] \<and> consumer_key \<noteq> ''client'') \<or> ev_kind ev \<notin> {EMessage, EStart} then Inr (None, db)
      else
        (let provider = ev_provider ev; user = ev_external_user_id ev
         in case identity_resolve org provider user [] db of
              Some e \<Rightarrow>
                result_bind (grant_role org (ai_actor_id e) ''client'' now db) (\<lambda>(granted, db').
                  Inr (Some (e\<lparr>ai_role := ''client'',
                    ai_roles := sort (remdups (''client'' # ai_roles e))\<rparr>), db'))
            | None \<Rightarrow>
                (let actor = provider @ '':'' @ user
                 in result_bind (upsert_actor org actor ''client'' user (Some provider) (Some user) now db)
                     (\<lambda>(u, db'). Inr (Some \<lparr>ai_organization_id = org, ai_actor_id = actor, ai_role = ''client'',
                       ai_display_name = user, ai_provider = provider, ai_external_user_id = user,
                       ai_roles = [''client'']\<rparr>, db')))))"

section \<open>Guessing codes is limited\<close>

text \<open>The codes an account tries in a row of events, up to the one that binds it.\<close>

fun codes_tried ::
  "string \<Rightarrow> bool \<Rightarrow> (actor_identity \<Rightarrow> reply_text \<Rightarrow> reply) \<Rightarrow> string \<Rightarrow> (inbound_event \<times> instant) list \<Rightarrow>
   identity_db \<times> binding_table \<Rightarrow> nat"
where
  "codes_tried consumer shared landing org [] st = 0"
| "codes_tried consumer shared landing org ((ev, now) # evs) st =
     (case maybe_bind_staff consumer shared landing org ev now st of
        Inl e \<Rightarrow> codes_tried consumer shared landing org evs st
      | Inr ((Some i, r), st') \<Rightarrow> 1
      | Inr ((None, r), st') \<Rightarrow>
          (case r of
             Some (Reply (WrongCode n) bs) \<Rightarrow> Suc (codes_tried consumer shared landing org evs st')
           | Some (Reply NoAttemptsLeft bs) \<Rightarrow> Suc (codes_tried consumer shared landing org evs st')
           | _ \<Rightarrow> codes_tried consumer shared landing org evs st'))"

definition session_at :: "session_key \<Rightarrow> int \<Rightarrow> instant \<Rightarrow> binding_table \<Rightarrow> bool" where
  "session_at k attempts expires t \<longleftrightarrow>
     dict_get k t = Some \<lparr>bs_attempts = attempts, bs_expires_at = expires\<rparr>"

text \<open>While a session lasts, an event either leaves it as it is or spends one attempt.\<close>

lemma bind_step:
  assumes k: "staff_frontend_role consumer = Some role" "k = (org, ev_provider ev, ev_external_user_id ev, role)"
    and s: "session_at k a expires t" and now: "now < expires"
    and m: "maybe_bind_staff consumer shared landing org ev now (db, t) = Inr ((found, r), (db', t'))"
  shows "(session_at k a expires t' \<and> found = None \<and>
      (\<forall>n bs. r \<noteq> Some (Reply (WrongCode n) bs)) \<and> (\<forall>bs. r \<noteq> Some (Reply NoAttemptsLeft bs))) \<or>
    (a < 5 \<and> found \<noteq> None) \<or> (a < 5 \<and> found = None \<and> session_at k (a + 1) expires t')"
proof -
  have live: "binding_active k now t \<longleftrightarrow> a < 5"
    using s now by (simp add: session_at_def binding_active_def binding_live_def BINDING_MAX_ATTEMPTS_def)
  consider (start) "ev_kind ev = EStart" | (other) "ev_kind ev \<noteq> EStart" "ev_kind ev \<noteq> EMessage \<or> falsy (ev_text ev)"
    | (closed) "ev_kind ev = EMessage" "\<not> falsy (ev_text ev)" "\<not> binding_active k now t"
    | (code) "ev_kind ev = EMessage" "\<not> falsy (ev_text ev)" "binding_active k now t"
    by blast
  then show ?thesis
  proof cases
    case start
    have role: "role \<in> set [''operator'', ''master'', ''staff'']"
      using k(1) by (auto simp: staff_frontend_role_def Let_def split: if_splits)
    have "binding_begin k 15 now t = Inr (binding_live now \<lparr>bs_attempts = a, bs_expires_at = expires\<rparr>,
        dict_put k \<lparr>bs_attempts = a, bs_expires_at = expires\<rparr> t)"
      using s now role k(2) by (simp add: binding_begin_def session_at_def Let_def)
    then have "found = None" "t' = dict_put k \<lparr>bs_attempts = a, bs_expires_at = expires\<rparr> t"
      "\<exists>x. r = Some (Reply x []) \<and> x \<in> {EnterBindCode role, BindingLimitReached}"
      using m k start by (auto simp: maybe_bind_staff_def Let_def)
    then show ?thesis by (auto simp: session_at_def)
  next
    case other
    then show ?thesis using m k s by (auto simp: maybe_bind_staff_def Let_def)
  next
    case closed
    then show ?thesis using m k s by (auto simp: maybe_bind_staff_def Let_def)
  next
    case code
    have taken: "take_attempt k now t = (Some (a + 1), dict_put k \<lparr>bs_attempts = a + 1, bs_expires_at = expires\<rparr> t)"
      using s now code(3) live
      by (simp add: take_attempt_def session_at_def binding_live_def BINDING_MAX_ATTEMPTS_def Let_def)
    show ?thesis
    proof (cases found)
      case (Some i)
      then show ?thesis using live code(3) by simp
    next
      case None
      then have "t' = dict_put k \<lparr>bs_attempts = a + 1, bs_expires_at = expires\<rparr> t"
        using m k code taken
        by (auto simp: maybe_bind_staff_def Let_def split: if_splits option.splits)
      then show ?thesis using None live code(3) by (simp add: session_at_def)
    qed
  qed
qed

text \<open>
  (C18) Within one binding session an account can try at most five codes, counting the attempts the
  session has already seen, whatever it sends and however often it starts again.
\<close>

theorem code_guessing_is_limited:
  assumes "staff_frontend_role consumer = Some role"
    and "session_at (org, provider, user, role) attempts expires t" "0 \<le> attempts" "attempts \<le> 5"
    and "\<forall>(ev, now) \<in> set evs. ev_provider ev = provider \<and> ev_external_user_id ev = user \<and> now < expires"
  shows "int (codes_tried consumer shared landing org evs (db, t)) + attempts \<le> 5"
  using assms(2-5)
proof (induction evs arbitrary: attempts db t)
  case (Cons e evs)
  obtain ev now where e: "e = (ev, now)" by force
  let ?k = "(org, provider, user, role)"
  have ev: "ev_provider ev = provider" "ev_external_user_id ev = user" "now < expires" using Cons.prems e by auto
  show ?case
  proof (cases "maybe_bind_staff consumer shared landing org ev now (db, t)")
    case (Inl err)
    then show ?thesis using Cons e by simp
  next
    case (Inr res)
    obtain found r db' t' where res: "res = ((found, r), (db', t'))" by (metis prod.exhaust)
    note step = bind_step[OF assms(1) refl, of org ev attempts expires t now shared landing db found r db' t']
    have s: "(session_at ?k attempts expires t' \<and> found = None \<and>
      (\<forall>n bs. r \<noteq> Some (Reply (WrongCode n) bs)) \<and> (\<forall>bs. r \<noteq> Some (Reply NoAttemptsLeft bs))) \<or>
      (attempts < 5 \<and> found \<noteq> None) \<or> (attempts < 5 \<and> found = None \<and> session_at ?k (attempts + 1) expires t')"
      using step ev Cons.prems(1) Inr res by simp
    then show ?thesis
    proof (elim disjE)
      assume "session_at ?k attempts expires t' \<and> found = None \<and>
        (\<forall>n bs. r \<noteq> Some (Reply (WrongCode n) bs)) \<and> (\<forall>bs. r \<noteq> Some (Reply NoAttemptsLeft bs))"
      then show ?thesis
        using Cons.IH[of attempts t' db'] Cons.prems(2-4) e Inr res
        by (auto split: option.splits reply.splits reply_text.splits)
    next
      assume "attempts < 5 \<and> found \<noteq> None"
      then show ?thesis using e Inr res by auto
    next
      assume a: "attempts < 5 \<and> found = None \<and> session_at ?k (attempts + 1) expires t'"
      then have "int (codes_tried consumer shared landing org evs (db', t')) + (attempts + 1) \<le> 5"
        using Cons.IH[of "attempts + 1" t' db'] Cons.prems(2-4) by auto
      then show ?thesis using a e Inr res
        by (auto split: option.splits reply.splits reply_text.splits)
    qed
  qed
qed simp

definition guess :: inbound_event where
  "guess = \<lparr>ev_provider = ''max'', ev_external_event_id = ''e'', ev_external_user_id = ''42'', ev_chat_id = ''42'',
     ev_kind = EMessage, ev_text = Some ''0000'', ev_callback_token = None, ev_callback_id = None,
     ev_media_id = None, ev_latitude = None, ev_longitude = None\<rparr>"

definition demo_session :: binding_table where
  "demo_session = [((''org'', ''max'', ''42'', ''master''), \<lparr>bs_attempts = 0, bs_expires_at = 900\<rparr>)]"

theorem code_guessing_is_limited_witness:
  "codes_tried ''master'' False (\<lambda>i t. Reply t []) ''org'' (replicate 7 (guess, 3)) (empty_identity_db, demo_session) \<le> 5"
  using code_guessing_is_limited[of "''master''" "''master''" "''org''" "''max''" "''42''" 0 900 demo_session
    "replicate 7 (guess, 3)" False "\<lambda>i t. Reply t []" empty_identity_db]
  by (simp add: staff_frontend_role_def session_at_def demo_session_def guess_def)

section \<open>Accounts of deactivated actors\<close>

text \<open>
  An account stays bound to its actor when the actor is deactivated. The client bot then finds no
  active actor, tries to register a new one and raises an error that is not a domain error, so the
  event is retried until it is given up and the sender gets no answer.
\<close>

lemma deactivated_account_cannot_register:
  assumes "bound_actor org (ev_provider ev) (ev_external_user_id ev) db = Some actor"
    and "actor \<noteq> ev_provider ev @ '':'' @ ev_external_user_id ev"
    and "\<forall>a \<in> set (actors db). is_actor org actor a \<longrightarrow> \<not> a_active a"
    and "ev_kind ev \<in> {EMessage, EStart}"
  shows "maybe_register_requester True ''client'' org ev now db =
    Inl (ValueError ''external account is already bound to another actor'')"
proof -
  have "find (\<lambda>a. is_actor org actor a \<and> a_active a) (actors db) = None"
    using assms(3) by (auto simp: find_None_all)
  then have "identity_resolve org (ev_provider ev) (ev_external_user_id ev) [] db = None"
    using assms(1) by (simp add: identity_resolve_def)
  then show ?thesis
    using assms(1,2,4)
    by (simp add: maybe_register_requester_def Let_def upsert_actor_def validate_role_def ROLES_def together_def)
qed

text \<open>A role that the shared bot records is one the account holds.\<close>

lemma staff_select_holds_role:
  "staff_select i payload db t = Inr (Some role, r, t') \<Longrightarrow>
     role \<in> set (available_roles i) \<and> staff_selected i t' = Some role"
  by (auto simp: staff_select_def Let_def staff_selected_def selection_get_def selection_put_def split: if_splits)

end
