(* ===== verification/Session_Stores.thy ===== *)
theory Session_Stores
  imports Packs Tables
begin

text \<open>
  The messenger sessions and report drafts (\<open>infrastructure/workflow_store.py\<close> and
  \<open>infrastructure/staff_workflows.py\<close>). The state of a conversation is a JSON object under a key: the
  actor for orders, the actor and provider for the configuration, the actor, role and provider for
  staff. A saved state carries the event that wrote it, so that a replayed event is recognised. The
  references of the tables to actors and orders are not modelled.
\<close>

section \<open>States and events\<close>

type_synonym state = "(string, json) dict"

definition SESSION_EVENT_KEY :: string where "SESSION_EVENT_KEY = ''_dispatch_last_event_id''"

definition state_with_session_event :: "string option \<Rightarrow> state \<Rightarrow> state" where
  "state_with_session_event ev st =
     (case ev of
        None \<Rightarrow> st
      | Some e \<Rightarrow> if e = [] then st else dict_put SESSION_EVENT_KEY (JStr e) st)"

definition state_handled_event :: "state option \<Rightarrow> string \<Rightarrow> bool" where
  "state_handled_event st ev \<longleftrightarrow>
     (case st of
        None \<Rightarrow> False
      | Some d \<Rightarrow> d \<noteq> [] \<and> dict_get SESSION_EVENT_KEY d = Some (JStr ev))"

record session_row =
  ss_provider :: string
  ss_state :: state
  ss_updated_at :: instant

type_synonym 'k sessions = "('k, session_row) dict"

definition session_get :: "'k \<Rightarrow> 'k sessions \<Rightarrow> state option" where
  "session_get k t = map_option ss_state (dict_get k t)"

definition session_put ::
  "string option \<Rightarrow> 'k \<Rightarrow> string \<Rightarrow> state \<Rightarrow> instant \<Rightarrow> 'k sessions \<Rightarrow> 'k sessions" where
  "session_put ev k provider st now t =
     dict_put k \<lparr>ss_provider = provider, ss_state = state_with_session_event ev st, ss_updated_at = now\<rparr> t"

definition session_handled :: "'k \<Rightarrow> string \<Rightarrow> 'k sessions \<Rightarrow> bool" where
  "session_handled k ev t = state_handled_event (session_get k t) ev"

definition session_clear :: "'k \<Rightarrow> 'k sessions \<Rightarrow> 'k sessions" where
  "session_clear k t = dict_pop k t"

definition cleanup_stale :: "('k \<Rightarrow> bool) \<Rightarrow> int \<Rightarrow> instant \<Rightarrow> 'k sessions \<Rightarrow> nat \<times> 'k sessions" where
  "cleanup_stale scope max_age_hours now t =
     (let stale = (\<lambda>(k, s). scope k \<and> ss_updated_at s < now - seconds (3600 * max_age_hours))
      in (length (filter stale t), filter (\<lambda>e. \<not> stale e) t))"

section \<open>The three stores\<close>

type_synonym intake_key = "string \<times> string"
type_synonym config_key = "string \<times> string \<times> string"
type_synonym staff_key = "string \<times> string \<times> string \<times> string"

definition intake_get :: "string \<Rightarrow> string \<Rightarrow> intake_key sessions \<Rightarrow> state option" where
  "intake_get org actor t = session_get (org, actor) t"

definition intake_cleanup :: "int \<Rightarrow> string option \<Rightarrow> instant \<Rightarrow> intake_key sessions \<Rightarrow> nat \<times> intake_key sessions" where
  "intake_cleanup max_age_hours org now t =
     cleanup_stale (\<lambda>k. case org of None \<Rightarrow> True | Some x \<Rightarrow> x = [] \<or> fst k = x) max_age_hours now t"

definition staff_role_check :: "string \<Rightarrow> py_error option" where
  "staff_role_check role = check (role \<in> set [''operator'', ''master''])
     (ValueError ''unsupported staff workflow role'')"

definition staff_get :: "staff_key \<Rightarrow> staff_key sessions \<Rightarrow> state option result" where
  "staff_get k t = raise_first [staff_role_check (fst (snd (snd k)))] (Inr (session_get k t))"

definition staff_put ::
  "string option \<Rightarrow> staff_key \<Rightarrow> state \<Rightarrow> instant \<Rightarrow> staff_key sessions \<Rightarrow> staff_key sessions result" where
  "staff_put ev k st now t =
     raise_first [staff_role_check (fst (snd (snd k)))] (Inr (session_put ev k (snd (snd (snd k))) st now t))"

definition staff_clear :: "staff_key \<Rightarrow> staff_key sessions \<Rightarrow> staff_key sessions result" where
  "staff_clear k t = raise_first [staff_role_check (fst (snd (snd k)))] (Inr (session_clear k t))"

definition staff_handled :: "staff_key \<Rightarrow> string \<Rightarrow> staff_key sessions \<Rightarrow> bool result" where
  "staff_handled k ev t =
     result_bind (staff_get k t) (\<lambda>st. Inr (state_handled_event st ev))"

section \<open>The contract of a session store\<close>

locale session_store =
  fixes get :: "'k \<Rightarrow> 't \<Rightarrow> state option"
    and put :: "string option \<Rightarrow> 'k \<Rightarrow> state \<Rightarrow> 't \<Rightarrow> 't"
    and clear :: "'k \<Rightarrow> 't \<Rightarrow> 't"
  assumes get_put: "get j (put e k st t) = (if j = k then Some (state_with_session_event e st) else get j t)"
    and get_clear: "get j (clear k t) = (if j = k then None else get j t)"
begin

definition handled :: "'k \<Rightarrow> string \<Rightarrow> 't \<Rightarrow> bool" where
  "handled k e t = state_handled_event (get k t) e"

text \<open>Whatever an event saved last is recognised when the event comes again, and only then.\<close>

lemma saved_is_handled:
  assumes "e \<noteq> []"
  shows "handled k e (put (Some e) k st t)"
proof -
  have "dict_get SESSION_EVENT_KEY (dict_put SESSION_EVENT_KEY (JStr e) st) = Some (JStr e)" by simp
  then have "dict_put SESSION_EVENT_KEY (JStr e) st \<noteq> []" by (metis map_of.simps(1) option.distinct(1))
  then show ?thesis
    using assms by (simp add: handled_def get_put state_handled_event_def state_with_session_event_def)
qed

lemma other_event_not_handled: "e' \<noteq> e \<Longrightarrow> e \<noteq> [] \<Longrightarrow> \<not> handled k e' (put (Some e) k st t)"
  by (simp add: handled_def get_put state_handled_event_def state_with_session_event_def)

lemma cleared_is_not_handled: "\<not> handled k e (clear k t)"
  by (simp add: handled_def get_clear state_handled_event_def)

end

lemma session_laws:
  "session_get j (session_put e k p st now t) =
     (if j = k then Some (state_with_session_event e st) else session_get j t)"
  "session_get j (session_clear k t) = (if j = k then None else session_get j t)"
  by (simp_all add: session_get_def session_put_def session_clear_def update_conv' delete_conv')

interpretation sessions: session_store session_get "\<lambda>e k st t. session_put e k p st now t" session_clear
  for p now
  by unfold_locales (simp_all add: session_laws)

text \<open>The staff store refuses other roles; on the roles it knows it is a session store.\<close>

lemma staff_store_total:
  assumes "fst (snd (snd k)) = ''operator'' \<or> fst (snd (snd k)) = ''master''" "e \<noteq> []"
  shows "\<exists>t'. staff_put (Some e) k st now t = Inr t' \<and> staff_handled k e t' = Inr True"
  using assms sessions.saved_is_handled[where e = e and k = k and st = st and t = t and p = "snd (snd (snd k))" and now = now]
  by (auto simp: staff_put_def staff_role_check_def staff_handled_def staff_get_def sessions.handled_def)

section \<open>Choosing an address by its capability\<close>

record address_selection =
  as_organization_id :: string
  as_actor_id :: string
  as_provider :: string
  as_address :: string
  as_latitude :: pyfloat
  as_longitude :: pyfloat

text \<open>\<open>state ->> key\<close> of a state whose value is a text.\<close>

definition state_text :: "string \<Rightarrow> state \<Rightarrow> string option" where
  "state_text k st = (case dict_get k st of Some (JStr s) \<Rightarrow> Some s | _ \<Rightarrow> None)"

definition awaits_address :: "string \<Rightarrow> state \<Rightarrow> bool" where
  "awaits_address token st \<longleftrightarrow>
     state_text ''address_token'' st = Some token \<and> state_text ''step'' st = Some ''address''"

definition setdefault :: "string \<Rightarrow> json \<Rightarrow> state \<Rightarrow> state" where
  "setdefault k v st = (case dict_get k st of None \<Rightarrow> dict_put k v st | Some _ \<Rightarrow> st)"

definition field_values :: "state \<Rightarrow> state" where
  "field_values st = (case dict_get ''field_values'' st of Some (JObj d) \<Rightarrow> d | _ \<Rightarrow> [])"

definition address_chosen :: "string \<Rightarrow> pyfloat \<Rightarrow> pyfloat \<Rightarrow> state \<Rightarrow> state" where
  "address_chosen label latitude longitude st =
     dict_pop ''address_mode'' (dict_pop ''address_token'' (setdefault ''selected'' (JList [])
       (dict_put ''step'' (JStr ''services'')
         (dict_put ''service_location'' (JObj [(''latitude'', JFloat latitude),
             (''longitude'', JFloat longitude), (''method'', JStr ''map'')])
           (dict_put ''field_values'' (JObj (dict_put ''address'' (JStr label) (field_values st))) st)))))"

text \<open>\<open>point_label\<close> is the text for a point without an address. The index on the token makes the row
  unique.\<close>

definition select_address_by_token ::
  "(pyfloat \<Rightarrow> pyfloat \<Rightarrow> string) \<Rightarrow> string \<Rightarrow> pyfloat \<Rightarrow> pyfloat \<Rightarrow> string option \<Rightarrow> instant \<Rightarrow>
   intake_key sessions \<Rightarrow> address_selection option \<times> intake_key sessions"
where
  "select_address_by_token point_label token latitude longitude address now t =
     (let given = take 500 (str_strip (case address of None \<Rightarrow> [] | Some a \<Rightarrow> a));
          label = (if given = [] then point_label latitude longitude else given)
      in case find (\<lambda>(k, s). awaits_address token (ss_state s)) t of
           None \<Rightarrow> (None, t)
         | Some ((org, actor), s) \<Rightarrow>
             (Some \<lparr>as_organization_id = org, as_actor_id = actor, as_provider = ss_provider s,
                as_address = label, as_latitude = latitude, as_longitude = longitude\<rparr>,
              dict_put (org, actor)
                (s\<lparr>ss_state := address_chosen label latitude longitude (ss_state s), ss_updated_at := now\<rparr>) t))"

definition address_tokens_unique :: "intake_key sessions \<Rightarrow> bool" where
  "address_tokens_unique t \<longleftrightarrow> dict_ok t \<and>
     (\<forall>(k, s) \<in> set t. \<forall>(k', s') \<in> set t. \<forall>token.
        state_text ''address_token'' (ss_state s) = Some token \<longrightarrow>
        state_text ''address_token'' (ss_state s') = Some token \<longrightarrow> k = k')"

lemma address_chosen_closes: "state_text ''address_token'' (address_chosen label lat lon st) = None"
  by (simp add: address_chosen_def state_text_def delete_conv' split: option.splits)

lemma address_chosen_next: "state_text ''step'' (address_chosen label lat lon st) = Some ''services''"
  by (simp add: address_chosen_def state_text_def delete_conv' setdefault_def update_conv' split: option.splits)

text \<open>
  An address link works once: the selection moves exactly the session that waited for it to the
  next step with the chosen address, leaves every other session, and the token selects nothing afterwards.
\<close>

lemma address_link_works_once:
  assumes "select_address_by_token point_label token lat lon address now t = (Some sel, t')"
    and "address_tokens_unique t"
  shows "(\<exists>st. session_get (as_organization_id sel, as_actor_id sel) t = Some st \<and> awaits_address token st \<and>
      session_get (as_organization_id sel, as_actor_id sel) t' = Some (address_chosen (as_address sel) lat lon st)) \<and>
    (\<forall>k. k \<noteq> (as_organization_id sel, as_actor_id sel) \<longrightarrow> session_get k t' = session_get k t) \<and>
    (\<forall>lat' lon' address' now'. fst (select_address_by_token point_label token lat' lon' address' now' t') = None)"
proof -
  obtain k s where f: "find (\<lambda>(k, s). awaits_address token (ss_state s)) t = Some (k, s)"
    using assms(1) by (auto simp: select_address_by_token_def Let_def split: option.splits)
  let ?s = "s\<lparr>ss_state := address_chosen (as_address sel) lat lon (ss_state s), ss_updated_at := now\<rparr>"
  obtain org actor where k: "k = (org, actor)" by force
  have sel: "k = (as_organization_id sel, as_actor_id sel)" and t': "t' = dict_put k ?s t"
    using assms(1) f k by (auto simp: select_address_by_token_def Let_def)
  have ks: "(k, s) \<in> set t" "awaits_address token (ss_state s)"
    using find_SomeD[OF f] by auto
  then have get: "dict_get k t = Some s" using assms(2) by (simp add: address_tokens_unique_def dict_get_in)
  have "find (\<lambda>(k, s). awaits_address token (ss_state s)) t' = None"
  proof (clarsimp simp: find_None_all)
    fix a b s' assume in': "((a, b), s') \<in> set t'" and w: "awaits_address token (ss_state s')"
    have ok: "dict_ok t'" using assms(2) by (simp add: t' address_tokens_unique_def)
    show False
    proof (cases "(a, b) = k")
      case True
      then have "s' = ?s" using in' ok by (simp add: dict_get_in[symmetric] t')
      then show False using w address_chosen_closes by (simp add: awaits_address_def)
    next
      case False
      then have "dict_get (a, b) t = Some s'" using in' ok by (simp add: dict_get_in[symmetric] t' update_conv')
      then have "((a, b), s') \<in> set t" by (rule map_of_SomeD)
      then have "(a, b) = k" using assms(2) ks w unfolding address_tokens_unique_def awaits_address_def by blast
      then show False using False by simp
    qed
  qed
  then have "fst (select_address_by_token point_label token lat' lon' address' now' t') = None"
    for lat' lon' address' now' by (simp add: select_address_by_token_def Let_def)
  then show ?thesis using get ks sel t' by (auto simp: session_get_def update_conv')
qed

definition demo_intake :: "intake_key sessions" where
  "demo_intake = [((''org'', ''a''), \<lparr>ss_provider = ''max'', ss_state = [(''step'', JStr ''address''),
     (''address_token'', JStr ''tok'')], ss_updated_at = 0\<rparr>)]"

lemma address_link_works_once_witness:
  "\<exists>sel t'. select_address_by_token (\<lambda>a b. []) ''tok'' (Finite 1) (Finite 2) (Some ''Main st 1'') 5 demo_intake = (Some sel, t') \<and>
     fst (select_address_by_token (\<lambda>a b. []) ''tok'' (Finite 1) (Finite 2) None 6 t') = None"
proof -
  have u: "address_tokens_unique demo_intake"
    by (simp add: address_tokens_unique_def demo_intake_def dict_ok_def)
  obtain sel t' where "select_address_by_token (\<lambda>a b. []) ''tok'' (Finite 1) (Finite 2) (Some ''Main st 1'') 5 demo_intake = (Some sel, t')"
    by (simp add: select_address_by_token_def Let_def demo_intake_def awaits_address_def state_text_def)
  then show ?thesis using address_link_works_once[OF _ u] by blast
qed

section \<open>Report drafts\<close>

type_synonym draft_key = "string \<times> string \<times> string"
type_synonym drafts = "(draft_key, completion_report) dict"

definition draft_get :: "draft_key \<Rightarrow> drafts \<Rightarrow> completion_report" where
  "draft_get k t = (case dict_get k t of None \<Rightarrow> empty_report | Some r \<Rightarrow> r)"

definition append_photo :: "draft_key \<Rightarrow> string \<Rightarrow> drafts \<Rightarrow> nat \<times> drafts" where
  "append_photo k photo t =
     (let r = draft_get k t;
          photos = (if photo \<in> set (photo_refs r) then photo_refs r else photo_refs r @ [photo])
      in (length photos, dict_put k (r\<lparr>photo_refs := photos\<rparr>) t))"

definition set_comment :: "draft_key \<Rightarrow> string \<Rightarrow> drafts \<Rightarrow> drafts" where
  "set_comment k c t = dict_put k ((draft_get k t)\<lparr>rep_comment := Some c\<rparr>) t"

definition draft_clear :: "draft_key \<Rightarrow> drafts \<Rightarrow> drafts" where
  "draft_clear k t = dict_pop k t"

lemma append_photo_idempotent:
  "append_photo k p (snd (append_photo k p t)) = append_photo k p t"
  by (simp add: append_photo_def Let_def draft_get_def update_Some_unfold dict_put_idem split: option.splits)

end
