(* ===== verification/Callbacks.thy ===== *)
theory Callbacks
  imports Tables Packs
begin

text \<open>
  Callback actions (\<open>PostgresCallbackStore\<close> in \<open>infrastructure/messaging.py\<close>): the buttons of sent
  messages. A callback is claimed under a key, can be resumed under the same key until it is
  completed, and is refused to everyone else. Random tokens are arguments.
\<close>

record callback_action =
  ca_token :: string
  ca_organization_id :: string
  ca_action :: string
  ca_payload :: "(string, json) dict"
  ca_allowed_role :: "string option"
  ca_expires_at :: instant

record callback_row = callback_action +
  cb_revoked_at :: "instant option"
  cb_claim_key :: "string option"
  cb_completed_at :: "instant option"

type_synonym callback_table = "callback_row list"

definition action_of :: "callback_row \<Rightarrow> callback_action" where
  "action_of r = callback_action.truncate r"

definition DEFAULT_LIFETIME :: int where "DEFAULT_LIFETIME = 7 * 86400 * 1000000"

definition callback_create ::
  "string \<Rightarrow> string \<Rightarrow> string \<Rightarrow> (string, json) dict \<Rightarrow> string option \<Rightarrow> int \<Rightarrow> instant \<Rightarrow>
   callback_table \<Rightarrow> (callback_action \<times> callback_table) result"
where
  "callback_create token org act payload role lifetime now t =
     (let a = \<lparr>ca_token = token, ca_organization_id = org, ca_action = act, ca_payload = payload,
                ca_allowed_role = role, ca_expires_at = now + lifetime\<rparr>;
          r = callback_action.extend a (callback_row.fields None None None)
      in result_bind (constrained (unique_on (\<lambda>r. True) ca_token) (t @ [r])) (\<lambda>t'. Inr (a, t')))"

definition callback_open :: "string \<Rightarrow> string \<Rightarrow> string option \<Rightarrow> instant \<Rightarrow> callback_row \<Rightarrow> bool" where
  "callback_open token org key now r \<longleftrightarrow>
     ca_token r = token \<and> ca_organization_id r = org \<and> ca_expires_at r > now \<and>
     (cb_revoked_at r = None \<or>
      (key \<noteq> None \<and> cb_claim_key r = key \<and> cb_completed_at r = None))"

definition callback_allowed :: "string \<Rightarrow> callback_row \<Rightarrow> bool" where
  "callback_allowed role r \<longleftrightarrow>
     ca_allowed_role r = None \<or> ca_allowed_role r = Some role \<or> role = ''admin''"

definition coalesce :: "'a option \<Rightarrow> 'a \<Rightarrow> 'a option" where
  "coalesce x y = (case x of None \<Rightarrow> Some y | Some v \<Rightarrow> Some v)"

definition callback_resolve ::
  "string \<Rightarrow> string \<Rightarrow> string \<Rightarrow> string option \<Rightarrow> string \<Rightarrow> instant \<Rightarrow> callback_table \<Rightarrow>
   callback_action option \<times> callback_table"
where
  "callback_resolve token org role claim_key fresh_key now t =
     (let key = (case claim_key of None \<Rightarrow> fresh_key | Some k \<Rightarrow> if k = [] then fresh_key else k);
          hit = (\<lambda>r. callback_open token org (Some key) now r \<and> callback_allowed role r)
      in (map_option action_of (find hit t),
          update_rows hit (\<lambda>r. r\<lparr>cb_revoked_at := coalesce (cb_revoked_at r) now,
            cb_claim_key := coalesce (cb_claim_key r) key\<rparr>) t))"

definition callback_complete :: "string \<Rightarrow> string \<Rightarrow> string \<Rightarrow> instant \<Rightarrow> callback_table \<Rightarrow> bool \<times> callback_table" where
  "callback_complete token org key now t =
     (let hit = (\<lambda>r. ca_token r = token \<and> ca_organization_id r = org \<and>
            cb_claim_key r = Some key \<and> cb_completed_at r = None)
      in (count_rows hit t = 1, update_rows hit (\<lambda>r. r\<lparr>cb_completed_at := Some now\<rparr>) t))"

definition peek_action :: "string \<Rightarrow> string \<Rightarrow> string option \<Rightarrow> instant \<Rightarrow> callback_table \<Rightarrow> string option" where
  "peek_action token org key now t = map_option ca_action (find (callback_open token org key now) t)"

section \<open>Who owns a callback\<close>

datatype callback_op =
    CbCreate string string string "(string, json) dict" "string option" int instant
  | CbResolve string string string "string option" string instant
  | CbComplete string string string instant

fun callback_exec :: "callback_op \<Rightarrow> callback_table \<Rightarrow> callback_table" where
  "callback_exec (CbCreate token org act payload role lifetime now) t =
     (case callback_create token org act payload role lifetime now t of Inl e \<Rightarrow> t | Inr (a, t') \<Rightarrow> t')"
| "callback_exec (CbResolve token org role key fresh now) t = snd (callback_resolve token org role key fresh now t)"
| "callback_exec (CbComplete token org key now) t = snd (callback_complete token org key now t)"

definition callback_run :: "callback_op list \<Rightarrow> callback_table \<Rightarrow> callback_table" where
  "callback_run ops t = fold callback_exec ops t"

definition callback_inv :: "callback_table \<Rightarrow> bool" where
  "callback_inv t \<longleftrightarrow> unique_on (\<lambda>r. True) ca_token t \<and>
     (\<forall>r \<in> set t. (cb_revoked_at r = None \<longleftrightarrow> cb_claim_key r = None) \<and>
        (cb_completed_at r \<noteq> None \<longrightarrow> cb_claim_key r \<noteq> None))"

definition callback_row_of :: "string \<Rightarrow> callback_table \<Rightarrow> callback_row option" where
  "callback_row_of token t = find (\<lambda>r. ca_token r = token) t"

lemma callback_row_of_mem: "callback_row_of token t = Some r \<Longrightarrow> r \<in> set t \<and> ca_token r = token"
  by (auto simp: callback_row_of_def dest: find_SomeD)

lemma callback_row_of_update:
  "(\<And>r. ca_token (f r) = ca_token r) \<Longrightarrow>
   callback_row_of token (update_rows P f t) = map_option (\<lambda>r. if P r then f r else r) (callback_row_of token t)"
  by (induction t) (auto simp: callback_row_of_def)

lemma callback_inv_update:
  assumes "callback_inv t" and "\<And>r. ca_token (f r) = ca_token r"
    and "\<And>r. (cb_revoked_at r = None \<longleftrightarrow> cb_claim_key r = None) \<and>
        (cb_completed_at r \<noteq> None \<longrightarrow> cb_claim_key r \<noteq> None) \<Longrightarrow> P r \<Longrightarrow>
      (cb_revoked_at (f r) = None \<longleftrightarrow> cb_claim_key (f r) = None) \<and>
        (cb_completed_at (f r) \<noteq> None \<longrightarrow> cb_claim_key (f r) \<noteq> None)"
  shows "callback_inv (update_rows P f t)"
  using assms by (auto simp: callback_inv_def set_update_rows intro!: unique_on_update)

lemma coalesce_simps [simp]: "coalesce None y = Some y" "coalesce (Some v) y = Some v" "coalesce x y \<noteq> None"
  by (auto simp: coalesce_def split: option.splits)

lemma coalesce_ex [simp]: "\<exists>z. coalesce x y = Some z"
  by (cases x) auto

lemma callback_create_Inr:
  "callback_create token org act payload role lifetime now t = Inr (a, t') \<Longrightarrow>
   \<exists>r. t' = t @ [r] \<and> cb_revoked_at r = None \<and> cb_claim_key r = None \<and> cb_completed_at r = None \<and> unique_on (\<lambda>r. True) ca_token t'"
  by (auto simp: callback_create_def Let_def callback_action.defs callback_row.defs)

lemma callback_exec_inv: "callback_inv t \<Longrightarrow> callback_inv (callback_exec op t)"
proof (cases op)
  case (CbCreate token org act payload role lifetime now)
  then show "callback_inv t \<Longrightarrow> ?thesis"
    by (auto simp: callback_inv_def split: sum.splits dest!: callback_create_Inr)
qed (auto simp: callback_resolve_def callback_complete_def Let_def intro!: callback_inv_update)

lemma callback_run_inv: "callback_inv t \<Longrightarrow> callback_inv (callback_run ops t)"
  by (induction ops arbitrary: t) (auto simp: callback_run_def callback_exec_inv)

lemma callback_inv_Nil: "callback_inv []"
  by (simp add: callback_inv_def)

text \<open>A row that is claimed under a key stays so, and only that key completes it.\<close>

definition owned_by :: "string \<Rightarrow> callback_row \<Rightarrow> callback_row \<Rightarrow> bool" where
  "owned_by key r r' \<longleftrightarrow> action_of r' = action_of r \<and> cb_revoked_at r' \<noteq> None \<and> cb_claim_key r' = Some key"

lemma owned_step:
  assumes "callback_row_of token t = Some r" "owned_by key r0 r"
  shows "\<exists>r'. callback_row_of token (callback_exec op t) = Some r' \<and> owned_by key r0 r' \<and>
    (cb_completed_at r \<noteq> None \<longrightarrow> cb_completed_at r' \<noteq> None) \<and>
    (\<forall>now. op = CbComplete token (ca_organization_id r) key now \<longrightarrow> cb_completed_at r' \<noteq> None)"
proof (cases op)
  case (CbCreate tok org act payload role lifetime now)
  then show ?thesis
  proof (cases "callback_create tok org act payload role lifetime now t")
    case (Inr p)
    then obtain a x where "p = (a, t @ [x])" by (cases p) (auto dest: callback_create_Inr)
    moreover have "callback_row_of token (t @ [x]) = Some r"
      using assms(1) by (induction t) (auto simp: callback_row_of_def split: if_splits)
    ultimately show ?thesis using Inr CbCreate assms by auto
  qed (use assms in auto)
next
  case (CbResolve tok org role k fresh now)
  then show ?thesis using assms
    by (auto simp: callback_resolve_def Let_def callback_row_of_update owned_by_def action_of_def
      callback_action.defs)
next
  case (CbComplete tok org k now)
  then show ?thesis using assms callback_row_of_mem[OF assms(1)]
    by (auto simp: callback_complete_def Let_def callback_row_of_update owned_by_def action_of_def
      callback_action.defs)
qed

lemma owned_run:
  assumes "callback_row_of token t = Some r" "owned_by key r0 r"
  shows "\<exists>r'. callback_row_of token (callback_run ops t) = Some r' \<and> owned_by key r0 r' \<and>
    (cb_completed_at r \<noteq> None \<or> (\<exists>now. CbComplete token (ca_organization_id r0) key now \<in> set ops)
       \<longrightarrow> cb_completed_at r' \<noteq> None)"
  using assms
proof (induction ops arbitrary: t r)
  case (Cons op ops)
  have org: "ca_organization_id r = ca_organization_id r0"
    using Cons.prems(2) by (auto simp: owned_by_def action_of_def callback_action.defs)
  from owned_step[OF Cons.prems, of op] obtain r1 where
    "callback_row_of token (callback_exec op t) = Some r1" "owned_by key r0 r1"
    "cb_completed_at r \<noteq> None \<longrightarrow> cb_completed_at r1 \<noteq> None"
    "\<forall>now. op = CbComplete token (ca_organization_id r) key now \<longrightarrow> cb_completed_at r1 \<noteq> None" by blast
  with Cons.IH[of "callback_exec op t" r1] org show ?case by (auto simp: callback_run_def)
qed (auto simp: callback_run_def)

definition effective_key :: "string option \<Rightarrow> string \<Rightarrow> string" where
  "effective_key claim_key fresh_key =
     (case claim_key of None \<Rightarrow> fresh_key | Some k \<Rightarrow> if k = [] then fresh_key else k)"

lemma resolve_Some:
  assumes "callback_inv t" "callback_resolve token org role ck fresh now t = (Some a, t')"
  shows "\<exists>r r'. callback_row_of token t = Some r \<and> a = action_of r \<and>
    callback_open token org (Some (effective_key ck fresh)) now r \<and> callback_allowed role r \<and>
    callback_row_of token t' = Some r' \<and> owned_by (effective_key ck fresh) r r' \<and>
    cb_completed_at r' = cb_completed_at r"
proof -
  let ?key = "effective_key ck fresh"
  let ?hit = "\<lambda>r. callback_open token org (Some ?key) now r \<and> callback_allowed role r"
  from assms(2) obtain r where f: "find ?hit t = Some r" and a: "a = action_of r"
    by (auto simp: callback_resolve_def Let_def effective_key_def)
  have r: "?hit r" "r \<in> set t" using find_SomeD[OF f] by auto
  have u: "unique_on (\<lambda>r. True) ca_token t" and i: "cb_revoked_at r = None \<longleftrightarrow> cb_claim_key r = None"
    using assms(1) r(2) by (auto simp: callback_inv_def)
  have tok: "ca_token r = token" using r(1) by (simp add: callback_open_def)
  have row: "callback_row_of token t = Some r"
  proof (cases "callback_row_of token t")
    case None
    then show ?thesis using r(2) tok by (auto simp: callback_row_of_def find_None_all)
  next
    case (Some x)
    then show ?thesis using unique_on_eq[OF u, of x r] callback_row_of_mem[OF Some] r(2) tok by simp
  qed
  have "callback_row_of token t' = Some (r\<lparr>cb_revoked_at := coalesce (cb_revoked_at r) now,
      cb_claim_key := coalesce (cb_claim_key r) ?key\<rparr>)"
    using assms(2) row r(1)
    by (auto simp: callback_resolve_def Let_def effective_key_def callback_row_of_update)
  moreover have "coalesce (cb_claim_key r) ?key = Some ?key"
    using r(1) i by (auto simp: callback_open_def)
  ultimately show ?thesis using row a r(1)
    by (auto simp: owned_by_def action_of_def callback_action.defs)
qed

text \<open>
  (C14) Along every run from an empty table, a callback that was resolved once is resolved again
  only under the claim key of the first time, in its own organization, by an allowed role or an
  administrator, before it expires and before it is completed, and it stands for the same action.
\<close>

theorem callback_has_one_owner:
  assumes "callback_resolve token org role ck fresh now (callback_run before []) = (Some a, t)"
    and "callback_resolve token org' role' ck' fresh' now' (callback_run between t) = (Some b, t')"
  shows "effective_key ck' fresh' = effective_key ck fresh \<and> b = a \<and> org' = org \<and>
    ca_allowed_role b \<in> {None, Some role'} \<union> (if role' = ''admin'' then UNIV else {}) \<and>
    now' < ca_expires_at b \<and>
    (\<forall>moment. CbComplete token org (effective_key ck fresh) moment \<notin> set between)"
proof -
  have i0: "callback_inv (callback_run before [])" by (intro callback_run_inv callback_inv_Nil)
  from resolve_Some[OF i0 assms(1)] obtain r r1 where
    r: "a = action_of r" "ca_organization_id r = org" and
    r1: "callback_row_of token t = Some r1" "owned_by (effective_key ck fresh) r r1"
    by (auto simp: callback_open_def)
  have "t = callback_exec (CbResolve token org role ck fresh now) (callback_run before [])"
    using assms(1) by simp
  then have i1: "callback_inv (callback_run between t)" using i0 callback_exec_inv callback_run_inv by metis
  from owned_run[OF r1, of between] obtain r2 where
    r2: "callback_row_of token (callback_run between t) = Some r2" "owned_by (effective_key ck fresh) r r2"
    and completed: "(\<exists>moment. CbComplete token org (effective_key ck fresh) moment \<in> set between) \<longrightarrow> cb_completed_at r2 \<noteq> None"
    using r(2) by auto
  from resolve_Some[OF i1 assms(2)] r2(1) have
    "b = action_of r2" "callback_open token org' (Some (effective_key ck' fresh')) now' r2" "callback_allowed role' r2"
    by auto
  then show ?thesis using r r2(2) completed
    by (auto simp: owned_by_def callback_open_def callback_allowed_def action_of_def callback_action.defs)
qed

definition demo_callbacks :: "callback_op list" where
  "demo_callbacks = [CbCreate ''tok'' ''org'' ''accept'' [] (Some ''master'') DEFAULT_LIFETIME 0]"

lemmas callback_eval = demo_callbacks_def DEFAULT_LIFETIME_def callback_run_def callback_create_def
  callback_resolve_def Let_def callback_open_def callback_allowed_def callback_action.defs callback_row.defs
  action_of_def effective_key_def constrained_def

theorem callback_has_one_owner_witness:
  "fst (callback_resolve ''tok'' ''org'' ''master'' (Some ''u1'') '''' 5 (callback_run demo_callbacks [])) \<noteq> None \<and>
   effective_key (Some ''u1'') '''' = effective_key (Some ''u1'') ''x''"
proof -
  let ?t0 = "callback_run demo_callbacks []"
  obtain a t where 1: "callback_resolve ''tok'' ''org'' ''master'' (Some ''u1'') '''' 5 ?t0 = (Some a, t)"
    by (simp add: callback_eval)
  moreover obtain b t' where "callback_resolve ''tok'' ''org'' ''admin'' (Some ''u1'') ''x'' 9 (callback_run [] t) = (Some b, t')"
    using 1 by (force simp: callback_eval)
  ultimately show ?thesis using callback_has_one_owner by fastforce
qed

end
