(* ===== verification/Callback_Commands.thy ===== *)
theory Callback_Commands
  imports Service_Properties Staff_Binding Session_Stores Callbacks
begin

text \<open>
  What the processor does for an actor it knows (\<open>InboundProcessor._dispatch\<close>, \<open>_callback\<close>,
  \<open>_execute_callback\<close> and \<open>_publish_pool\<close> in \<open>messaging/processor.py\<close>): the buttons under an order,
  locations, photos and comments of a master. The store of the service is the parameter it is there;
  the coordinators of the role workspaces are arguments, and so is the name-based identifier of a
  tracking session, which only has to be a function of the order.
\<close>

section \<open>The order a master works on\<close>

record active_execution =
  ex_order_id :: string
  ex_status :: wo_status_t
  ex_session_id :: "string option"

definition async_execution :: "string \<Rightarrow> string \<Rightarrow> async_store \<Rightarrow> active_execution option" where
  "async_execution org executor s =
     (case find (\<lambda>w. wo_organization_id w = org \<and> wo_assignee_id w = Some executor \<and> active_status (wo_status w))
          (map snd (ms_orders s)) of
        None \<Rightarrow> None
      | Some w \<Rightarrow> Some \<lparr>ex_order_id = wo_id w, ex_status = wo_status w,
          ex_session_id = map_option ts_id (find (active_session_of org (wo_id w)) (map snd (ms_sessions s)))\<rparr>)"

section \<open>Buttons under an order\<close>

datatype answer =
    InterestSent
  | PoolClaimed
  | MasterChosen string
  | OrderAccepted
  | OrderAlreadyCompleted
  | OrderReturned
  | TravelAlreadyStarted
  | TravelStarted
  | WorkStarted
  | ReportAccepted
  | PoolPublished
  | NoActiveRoute
  | LocationSaved
  | PhotosOnlyAtWork
  | PhotoAdded nat
  | CommentSaved
  | UseButtons
  | RegisteredAs string string
  | EventTaken

definition require_role :: "actor_identity \<Rightarrow> string list \<Rightarrow> py_error option" where
  "require_role i roles = check (ai_role i \<in> set roles) (InvalidTransition ''action is not available for this role'')"

text \<open>
  A command that the order refuses is tolerated when the order shows that it was carried out before:
  \<open>seen\<close> says which answer such an order gets.
\<close>

definition tolerant ::
  "('s, 'u, 'z) uow_ops_scheme \<Rightarrow> string \<Rightarrow> string \<Rightarrow> ('s, 'a) action \<Rightarrow> answer \<Rightarrow> (work_order \<Rightarrow> answer option) \<Rightarrow>
   ('s, answer) action"
where
  "tolerant ops org oid command reply seen s =
     (case command s of
        (Inr x, s') \<Rightarrow> (Inr reply, s')
      | (Inl (InvalidTransition m), s') \<Rightarrow>
          (case op_get_order ops org oid s' of
             Inl e \<Rightarrow> (Inl e, s')
           | Inr w \<Rightarrow> (case seen w of Some r \<Rightarrow> (Inr r, s') | None \<Rightarrow> (Inl (InvalidTransition m), s')))
      | (Inl e, s') \<Rightarrow> (Inl e, s'))"

definition seen_if :: "(work_order \<Rightarrow> bool) \<Rightarrow> answer \<Rightarrow> work_order \<Rightarrow> answer option" where
  "seen_if P reply w = (if P w then Some reply else None)"

definition seen_interest :: "string \<Rightarrow> work_order \<Rightarrow> answer option" where
  "seen_interest me = seen_if (\<lambda>w. response_of me w \<in> {Some INTERESTED, Some SELECTED}) InterestSent"

definition seen_accepted :: "string \<Rightarrow> work_order \<Rightarrow> answer option" where
  "seen_accepted me w =
     (if wo_assignee_id w \<noteq> Some me \<or> wo_status w \<notin> {ACCEPTED, EN_ROUTE, IN_PROGRESS, COMPLETED} then None
      else if wo_status w = COMPLETED then Some OrderAlreadyCompleted else Some OrderAccepted)"

definition seen_started :: "string \<Rightarrow> work_order \<Rightarrow> answer option" where
  "seen_started me w =
     (if wo_assignee_id w \<noteq> Some me \<or> wo_status w \<notin> {IN_PROGRESS, COMPLETED} then None
      else if wo_status w = COMPLETED then Some OrderAlreadyCompleted else Some WorkStarted)"

text \<open>What a command draws when it runs: stamps, tokens and an identifier.\<close>

record draw =
  dr_stamp :: stamp
  dr_session_stamp :: stamp
  dr_tokens :: "string \<times> string"
  dr_fresh :: string

definition guarded :: "py_error option list \<Rightarrow> ('s, 'a) action \<Rightarrow> ('s, 'a) action" where
  "guarded gs f s = (case raise_first gs (Inr ()) of Inl e \<Rightarrow> (Inl e, s) | Inr u \<Rightarrow> f s)"

definition submit_report ::
  "('s, 'u, 'z) uow_ops_scheme \<Rightarrow> string \<Rightarrow> string \<Rightarrow> string \<Rightarrow> draw \<Rightarrow> ('s \<times> drafts, answer) action" where
  "submit_report ops org oid me d sd =
     (let (s, drafts) = sd; k = (org, oid, me)
      in case tolerant ops org oid
           (complete_order ops org oid me (draft_get k drafts) (dr_stamp d) (dr_session_stamp d))
           ReportAccepted (seen_if (\<lambda>w. wo_status w = COMPLETED) ReportAccepted) s of
           (Inl e, s') \<Rightarrow> (Inl e, (s', drafts))
         | (Inr r, s') \<Rightarrow> (Inr r, (s', draft_clear k drafts)))"

definition on_store :: "('s, 'a) action \<Rightarrow> ('s \<times> drafts, 'a) action" where
  "on_store f sd = (let (r, s') = f (fst sd) in (r, (s', snd sd)))"

text \<open>\<open>mode\<close> is the default pool mode of the organization's active pack, where it has one.\<close>

definition publish_pool_command ::
  "('s, 'u, 'z) uow_ops_scheme \<Rightarrow> pool_mode option \<Rightarrow> actor_identity \<Rightarrow> (string, json) dict \<Rightarrow> draw \<Rightarrow> ('s, answer) action" where
  "publish_pool_command ops mode i payload d =
     (let org = ai_organization_id i; oid = payload_text ''order_id'' payload
      in guarded
          [require_role i [''operator'', ''admin''],
           check (oid \<noteq> []) (InvalidTransition ''callback does not reference a work order'')]
          (tolerant ops org oid
            (svc_publish_pool ops org oid (case mode of None \<Rightarrow> CURATED | Some m \<Rightarrow> m) (Some (ai_actor_id i)) (dr_stamp d))
            PoolPublished (seen_if (\<lambda>w. wo_status w \<noteq> SUBMITTED) PoolPublished)))"

definition travel_command ::
  "('s, 'u, 'z) uow_ops_scheme \<Rightarrow> (string \<Rightarrow> string \<Rightarrow> 's \<Rightarrow> active_execution option) \<Rightarrow> (string \<Rightarrow> string) \<Rightarrow>
   string \<Rightarrow> string \<Rightarrow> string \<Rightarrow> draw \<Rightarrow> ('s, answer) action"
where
  "travel_command ops execution uuid_of org oid me d s =
     (case execution org me s of
        Some e \<Rightarrow>
          if ex_status e \<in> {EN_ROUTE, IN_PROGRESS} then (Inr TravelAlreadyStarted, s)
          else act_bind (start_travel ops org oid me (Some (uuid_of (''dispatch:tracking:'' @ org @ '':'' @ oid)))
            (dr_fresh d) (dr_tokens d) (dr_stamp d) (dr_session_stamp d)) (\<lambda>x. act_lift (Inr TravelStarted)) s
      | None \<Rightarrow> act_bind (start_travel ops org oid me (Some (uuid_of (''dispatch:tracking:'' @ org @ '':'' @ oid)))
            (dr_fresh d) (dr_tokens d) (dr_stamp d) (dr_session_stamp d)) (\<lambda>x. act_lift (Inr TravelStarted)) s)"

definition order_command ::
  "('s, 'u, 'z) uow_ops_scheme \<Rightarrow> (string \<Rightarrow> string \<Rightarrow> 's \<Rightarrow> active_execution option) \<Rightarrow> (string \<Rightarrow> string) \<Rightarrow>
   pool_mode option \<Rightarrow> actor_identity \<Rightarrow> string \<Rightarrow> (string, json) dict \<Rightarrow> draw \<Rightarrow> ('s \<times> drafts, answer) action"
where
  "order_command ops execution uuid_of mode i action_name payload d =
     (let org = ai_organization_id i; me = ai_actor_id i; oid = payload_text ''order_id'' payload; st = dr_stamp d;
          master = require_role i [''master'']
      in if action_name = ''pool_publish'' then on_store (publish_pool_command ops mode i payload d)
         else guarded [check (oid \<noteq> []) (InvalidTransition ''callback does not reference a work order'')]
          (if action_name = ''pool_interest'' then
             guarded [master] (on_store (tolerant ops org oid (svc_express_interest ops org oid me st) InterestSent (seen_interest me)))
           else if action_name = ''pool_claim'' then
             guarded [master] (on_store (tolerant ops org oid (svc_claim_first ops org oid me st) PoolClaimed
               (seen_if (\<lambda>w. wo_assignee_id w = Some me) PoolClaimed)))
           else if action_name = ''assign'' then
             guarded [require_role i [''operator'', ''admin'']]
              (let executor = payload_text ''executor_id'' payload
               in on_store (tolerant ops org oid (assign_order ops org oid executor (Some me) st) (MasterChosen executor)
                 (seen_if (\<lambda>w. wo_assignee_id w = Some executor) (MasterChosen executor))))
           else if action_name = ''accept'' then
             guarded [master] (on_store (tolerant ops org oid (accept_order ops org oid me st) OrderAccepted (seen_accepted me)))
           else if action_name = ''reject'' then
             guarded [master] (on_store (tolerant ops org oid (svc_reject_assignment ops org oid me st) OrderReturned
               (seen_if (\<lambda>w. wo_assignee_id w = None) OrderReturned)))
           else if action_name = ''start_travel'' then
             guarded [master] (on_store (travel_command ops execution uuid_of org oid me d))
           else if action_name = ''start_work'' then
             guarded [master] (on_store (tolerant ops org oid (svc_start_work ops org oid me st) WorkStarted (seen_started me)))
           else if action_name = ''submit_report'' then guarded [master] (submit_report ops org oid me d)
           else act_lift (Inl (InvalidTransition ''unknown callback action''))))"

section \<open>Commands that run again\<close>

definition refused :: "'a result \<Rightarrow> bool" where
  "refused r \<longleftrightarrow> (\<exists>m. r = Inl (InvalidTransition m))"

lemma refused_simps [simp]: "refused (Inl (InvalidTransition m))" "\<not> refused (Inr x)"
  by (simp_all add: refused_def)

lemma refused_by_status:
  "wo_status w \<noteq> SUBMITTED \<Longrightarrow> refused (publish_pool m a st w)"
  "wo_status w \<noteq> POOL_OPEN \<Longrightarrow> refused (claim_first x st w)"
  "wo_status w \<notin> {SUBMITTED, POOL_OPEN} \<Longrightarrow> refused (wo_assign x a st w)"
  "wo_status w \<noteq> ASSIGNED \<Longrightarrow> refused (wo_accept x st w)"
  "wo_status w \<noteq> ASSIGNED \<Longrightarrow> refused (reject_assignment x st w)"
  "wo_status w \<notin> {ACCEPTED, EN_ROUTE} \<Longrightarrow> refused (wo_start_work x st w)"
  "wo_status w \<noteq> IN_PROGRESS \<Longrightarrow> refused (wo_complete x rep st w)"
  by (auto simp: op_defs require_pool_mode_def require_status_def require_assignee_def check_def)

lemma status_after:
  "publish_pool m a st w0 = Inr w \<Longrightarrow> wo_status w = POOL_OPEN"
  "claim_first x st w0 = Inr w \<Longrightarrow> wo_status w = ASSIGNED \<and> wo_assignee_id w = Some x"
  "wo_assign x a st w0 = Inr w \<Longrightarrow> wo_status w = ASSIGNED \<and> wo_assignee_id w = Some x"
  "wo_accept x st w0 = Inr w \<Longrightarrow> wo_status w = ACCEPTED \<and> wo_assignee_id w = Some x"
  "reject_assignment x st w0 = Inr w \<Longrightarrow> wo_status w \<noteq> ASSIGNED \<and> wo_assignee_id w = None"
  "wo_start_work x st w0 = Inr w \<Longrightarrow> wo_status w = IN_PROGRESS \<and> wo_assignee_id w = Some x"
  "wo_complete x rep st w0 = Inr w \<Longrightarrow> wo_status w = COMPLETED \<and> wo_assignee_id w = Some x"
  by (simp_all add: op_defs guard_simps Let_def) (auto split: if_splits)

lemma snapshot_pool [simp]:
  "wo_pool_mode (order_snapshot w) = wo_pool_mode w"
  "response_of x (order_snapshot w) = response_of x w"
  by (simp_all add: order_snapshot_def wo_pull_events_def response_of_def)

lemma interest_after:
  assumes "express_interest x st w0 = Inr w"
  shows "response_of x w = Some INTERESTED \<and> express_interest x st' (order_snapshot w) = Inr (order_snapshot w)"
proof -
  from assms have r: "response_of x w = Some INTERESTED" and "wo_status w = POOL_OPEN"
    "wo_pool_mode w = Some CURATED" "x \<noteq> []"
    by (auto simp: express_interest_def guard_simps response_of_put split: if_splits)
  then have "list_all (\<lambda>g. g = None) [require_pool_mode CURATED (order_snapshot w), require_executor_id x]"
    by (simp add: guard_simps)
  with r show ?thesis by (simp add: express_interest_def)
qed

lemma raise_first_same:
  "raise_first gs r = Inl e \<Longrightarrow> (r = Inl e \<Longrightarrow> r' = Inl e) \<Longrightarrow> raise_first gs r' = Inl e"
  by (induction gs r rule: raise_first.induct) auto

lemma exec_error_stamp: "wo_exec c st w = Inl e \<Longrightarrow> wo_exec c st' w = Inl e"
  by (cases c; simp only: wo_exec.simps op_defs Let_def; erule raise_first_same; simp split: if_splits)

lemma tolerant_Inr:
  "tolerant ops org oid cmd reply seen s = (Inr r, s1) \<longleftrightarrow>
     (\<exists>x. cmd s = (Inr x, s1) \<and> r = reply) \<or>
     (\<exists>m w. cmd s = (Inl (InvalidTransition m), s1) \<and> op_get_order ops org oid s1 = Inr w \<and> seen w = Some r)"
  by (auto simp: tolerant_def split: prod.splits sum.splits py_error.splits option.splits)

lemma tolerant_again:
  assumes "tolerant ops org oid cmd reply seen s = (Inr r, s1)"
    and "\<And>x. cmd s = (Inr x, s1) \<Longrightarrow>
      (\<exists>m w. cmd' s1 = (Inl (InvalidTransition m), s1) \<and> op_get_order ops org oid s1 = Inr w \<and> seen w = Some reply) \<or>
      (\<exists>y s2. cmd' s1 = (Inr y, s2) \<and> view s2 = view s1)"
    and "\<And>m w. cmd s = (Inl (InvalidTransition m), s1) \<Longrightarrow> op_get_order ops org oid s1 = Inr w \<Longrightarrow>
      seen w = Some r \<Longrightarrow> \<exists>m'. cmd' s1 = (Inl (InvalidTransition m'), s1)"
  shows "\<exists>s2. tolerant ops org oid cmd' reply seen s1 = (Inr r, s2) \<and> view s2 = view s1"
  using assms unfolding tolerant_Inr by metis

lemma change_order_refused:
  "op_get_order ops org oid s = Inr w \<Longrightarrow> refused (f w) \<Longrightarrow>
     \<exists>m. change_order ops org oid f s = (Inl (InvalidTransition m), s)"
  by (auto simp: change_order_def act_bind_def act_read_def act_lift_def refused_def)

lemma change_order_was_refused:
  assumes "change_order async_ops org oid f s = (Inl (InvalidTransition m), s1)"
    and "op_get_order async_ops org oid s1 = Inr w"
  shows "f w = Inl (InvalidTransition m) \<and> s1 = s"
proof -
  have s1: "s1 = s" using assms(1) by (rule async_uow.change_order_error)
  with assms show ?thesis
    by (auto simp: change_order_def act_bind_Inl Let_def pull_events_pair dest: async_uow.abort_law)
qed

text \<open>What a change that was stored leaves for the next one to read.\<close>

lemma change_order_stored:
  assumes "async_ok s" and "change_order async_ops org oid (wo_exec c st) s = (Inr x, s1)"
  shows "\<exists>w0 w. wo_exec c st w0 = Inr w \<and> op_get_order async_ops org oid s1 = Inr (order_snapshot w) \<and> async_ok s1 \<and>
    capacity_ok (async_abs s1)"
proof -
  obtain w0 w where w0: "ds_orders (async_abs s) (org, oid) = Some w0" and w: "wo_exec c st w0 = Inr w"
    and c: "op_commit async_ops (op_add_events async_ops (wo_events w)
      (op_save_order async_ops w (Some (wo_version w0)) (op_open async_ops))) s = (Inr (), s1)"
    using assms(1,2) by (auto simp: change_order_def Let_def pull_events_pair async_uow.read_order)
  have k: "order_key w = (org, oid)" using async_uow.stored_key[OF assms(1) w0 w] .
  from async_uow.commit_order[OF assms(1) c] w0 k
  have "async_abs s1 = put_order w (async_abs s)" "async_ok s1" "capacity_ok (async_abs s1)" by auto
  with w k async_uow.read_order[of s1 org oid] show ?thesis by auto
qed

lemma change_order_idle:
  assumes "async_ok s" and "capacity_ok (async_abs s)" and "op_get_order async_ops org oid s = Inr w" and "f w = Inr w"
  shows "\<exists>y s2. change_order async_ops org oid f s = (Inr y, s2) \<and> async_abs s2 = async_abs s"
proof -
  let ?u = "op_add_events async_ops (wo_events w) (op_save_order async_ops w (Some (wo_version w)) (op_open async_ops))"
  have w: "ds_orders (async_abs s) (org, oid) = Some w" using assms by (simp add: async_uow.read_order)
  from keyed_order[OF async_uow.keyed_law[OF assms(1)] w]
  have k: "order_key w = (org, oid)" "wo_events w = []" by auto
  then have same: "put_order w (async_abs s) = async_abs s"
    using w by (auto simp: put_order_def order_snapshot_def wo_pull_events_def fun_eq_iff)
  have u: "?u = \<lparr>sg_orders = [(order_key w, order_snapshot w, Some (wo_version w))], sg_sessions = [],
      sg_events = wo_events w\<rparr>"
    by (simp add: async_uow.add_events_law async_uow.save_order_law async_uow.open_law no_changes_def)
  have "fst (op_commit async_ops ?u s) = Inr ()"
  proof (rule async_uow.commit_complete[OF assms(1)])
    show "well_staged ?u (async_abs s)" unfolding u using w k by (simp add: well_staged_def)
    show "versions_match ?u (async_abs s)" unfolding u using w k by (simp add: versions_match_def)
    show "capacity_ok (apply_changes ?u (async_abs s))" unfolding u apply_changes_put same by (rule assms(2))
  qed
  then obtain s2 where c: "op_commit async_ops ?u s = (Inr (), s2)"
    by (cases "op_commit async_ops ?u s") auto
  from async_uow.commit_order[OF assms(1) c] w k same have "async_abs s2 = async_abs s" by simp
  with c assms show ?thesis
    by (auto simp: change_order_def act_bind_def act_read_def act_lift_def Let_def pull_events_pair)
qed

text \<open>Giving one of these commands a second time is refused by the status that the first has left.\<close>

lemma change_again:
  assumes "async_ok s" and "change_order async_ops org oid (wo_exec c st) s = (Inr x, s1)"
    and "\<And>w0 w. wo_exec c st w0 = Inr w \<Longrightarrow> refused (f (order_snapshot w)) \<and> seen (order_snapshot w) = Some reply"
  shows "\<exists>m w. change_order async_ops org oid f s1 = (Inl (InvalidTransition m), s1) \<and>
    op_get_order async_ops org oid s1 = Inr w \<and> seen w = Some reply"
  using change_order_stored[OF assms(1,2)] assms(3) change_order_refused[of async_ops org oid s1] by metis

lemma tolerant_change_again:
  assumes "async_ok s"
    and "tolerant async_ops org oid (change_order async_ops org oid (wo_exec c st)) reply seen s = (Inr r, s1)"
    and "\<And>w0 w. wo_exec c st w0 = Inr w \<Longrightarrow> refused (f (order_snapshot w)) \<and> seen (order_snapshot w) = Some reply"
    and "\<And>w m. seen w = Some r \<Longrightarrow> wo_exec c st w = Inl (InvalidTransition m) \<Longrightarrow> refused (f w)"
  shows "\<exists>s2. tolerant async_ops org oid (change_order async_ops org oid f) reply seen s1 = (Inr r, s2) \<and>
    async_abs s2 = async_abs s1"
  using assms(2)
proof (rule tolerant_again)
  fix x
  assume "change_order async_ops org oid (wo_exec c st) s = (Inr x, s1)"
  with change_again[OF assms(1) this, of f seen reply] assms(3)
  show "(\<exists>m w. change_order async_ops org oid f s1 = (Inl (InvalidTransition m), s1) \<and>
      op_get_order async_ops org oid s1 = Inr w \<and> seen w = Some reply) \<or>
    (\<exists>y s2. change_order async_ops org oid f s1 = (Inr y, s2) \<and> async_abs s2 = async_abs s1)" by blast
next
  fix m w
  assume "change_order async_ops org oid (wo_exec c st) s = (Inl (InvalidTransition m), s1)"
    and w: "op_get_order async_ops org oid s1 = Inr w" "seen w = Some r"
  then have "wo_exec c st w = Inl (InvalidTransition m)" using change_order_was_refused by blast
  with w assms(4) change_order_refused[of async_ops org oid s1 w f]
  show "\<exists>m'. change_order async_ops org oid f s1 = (Inl (InvalidTransition m'), s1)" by blast
qed

lemma interest_again:
  assumes "async_ok s"
    and "tolerant async_ops org oid (svc_express_interest async_ops org oid x st) reply (seen_interest x) s = (Inr r, s1)"
  shows "\<exists>s2. tolerant async_ops org oid (svc_express_interest async_ops org oid x st') reply (seen_interest x) s1 =
    (Inr r, s2) \<and> async_abs s2 = async_abs s1"
  using assms(2)
proof (rule tolerant_again)
  fix y
  assume "svc_express_interest async_ops org oid x st s = (Inr y, s1)"
  then have "change_order async_ops org oid (wo_exec (ExpressInterest x) st) s = (Inr y, s1)"
    by (simp add: svc_express_interest_def wo_exec_funs)
  from change_order_stored[OF assms(1) this] obtain w0 w where
    "express_interest x st w0 = Inr w" "op_get_order async_ops org oid s1 = Inr (order_snapshot w)"
    "async_ok s1" "capacity_ok (async_abs s1)" by auto
  with interest_after[of x st w0 w st'] change_order_idle[of s1 org oid "order_snapshot w" "express_interest x st'"]
  show "(\<exists>m w. svc_express_interest async_ops org oid x st' s1 = (Inl (InvalidTransition m), s1) \<and>
      op_get_order async_ops org oid s1 = Inr w \<and> seen_interest x w = Some reply) \<or>
    (\<exists>y s2. svc_express_interest async_ops org oid x st' s1 = (Inr y, s2) \<and> async_abs s2 = async_abs s1)"
    by (auto simp: svc_express_interest_def)
next
  fix m w
  assume "svc_express_interest async_ops org oid x st s = (Inl (InvalidTransition m), s1)"
    and w: "op_get_order async_ops org oid s1 = Inr w"
  then have "express_interest x st w = Inl (InvalidTransition m)"
    using change_order_was_refused by (auto simp: svc_express_interest_def)
  with exec_error_stamp[of "ExpressInterest x" st w _ st'] w
    change_order_refused[of async_ops org oid s1 w "express_interest x st'"]
  show "\<exists>m'. svc_express_interest async_ops org oid x st' s1 = (Inl (InvalidTransition m'), s1)"
    by (auto simp: svc_express_interest_def refused_def)
qed

lemmas seen_defs = seen_if_def seen_accepted_def seen_started_def

lemma complete_order_stored:
  assumes "async_ok s" and c: "complete_order async_ops org oid x rep st st1 s = (Inr y, s1)"
  shows "\<exists>w. op_get_order async_ops org oid s1 = Inr w \<and> wo_status w = COMPLETED"
proof -
  obtain w0 w v where w0: "ds_orders (async_abs s) (org, oid) = Some w0"
    and w: "wo_complete x rep st w0 = Inr w" and v: "op_find_active async_ops org oid s = Inr v"
    using assms by (auto simp: complete_order_def Let_def pull_events_pair async_uow.read_order)
  have k: "order_key w = (org, oid)"
    using async_uow.stored_key[OF assms(1) w0, of "Complete x rep" st w] w by simp
  have "ds_orders (async_abs s1) (org, oid) = Some (order_snapshot w) \<and> async_ok s1"
  proof (cases v)
    case None
    then have "op_commit async_ops (op_add_events async_ops (wo_events w)
      (op_save_order async_ops w (Some (wo_version w0)) (op_open async_ops))) s = (Inr (), s1)"
      using c w0 w v assms(1) by (auto simp: complete_order_def Let_def pull_events_pair async_uow.read_order)
    from async_uow.commit_order[OF assms(1) this] w0 k show ?thesis by simp
  next
    case (Some t0)
    then obtain t where "op_commit async_ops (op_add_events async_ops (wo_events w @ ts_events t)
      (op_save_session async_ops t (Some (ts_version t0)) (op_save_order async_ops w (Some (wo_version w0))
        (op_open async_ops)))) s = (Inr (), s1)"
      using c w0 w v assms(1) by (auto simp: complete_order_def Let_def pull_events_pair async_uow.read_order)
    from async_uow.commit_both[OF assms(1) this] w0 k show ?thesis by simp
  qed
  with status_after(7)[OF w] async_uow.read_order[of s1 org oid] show ?thesis by auto
qed

lemma complete_again:
  assumes "async_ok s"
    and "tolerant async_ops org oid (complete_order async_ops org oid x rep st st1)
      reply (seen_if (\<lambda>w. wo_status w = COMPLETED) reply) s = (Inr r, s1)"
  shows "\<exists>s2. tolerant async_ops org oid (complete_order async_ops org oid x rep' st' st1')
      reply (seen_if (\<lambda>w. wo_status w = COMPLETED) reply) s1 = (Inr r, s2) \<and> async_abs s2 = async_abs s1"
proof -
  have r: "r = reply" using assms(2) by (auto simp: tolerant_Inr seen_if_def split: if_splits)
  have "\<exists>w. op_get_order async_ops org oid s1 = Inr w \<and> wo_status w = COMPLETED"
    using assms(2) unfolding tolerant_Inr
  proof (elim disjE exE conjE)
    fix y
    assume c: "complete_order async_ops org oid x rep st st1 s = (Inr y, s1)"
    from complete_order_stored[OF assms(1) c] show ?thesis by auto
  qed (auto simp: seen_if_def split: if_splits)
  then obtain w where w: "op_get_order async_ops org oid s1 = Inr w" "wo_status w = COMPLETED" by blast
  with refused_by_status(7)[of w x rep' st'] obtain m where
    "complete_order async_ops org oid x rep' st' st1' s1 = (Inl (InvalidTransition m), s1)"
    by (auto simp: complete_order_def act_bind_def act_read_def act_lift_def refused_def)
  with w r show ?thesis unfolding tolerant_Inr by (auto simp: seen_if_def)
qed

lemma start_travel_stored:
  assumes "async_ok s" and c: "start_travel async_ops org oid x sid fresh tokens st st' s = (Inr y, s1)"
  shows "\<exists>w. ds_orders (async_abs s1) (org, oid) = Some w \<and> wo_status w = EN_ROUTE \<and> wo_assignee_id w = Some x \<and>
    async_ok s1 \<and> capacity_ok (async_abs s1)"
proof -
  obtain w0 w t where w0: "ds_orders (async_abs s) (org, oid) = Some w0" and w: "wo_start_travel x st w0 = Inr w"
    and c: "op_commit async_ops (op_add_events async_ops (wo_events w @ ts_events t)
      (op_save_session async_ops t None (op_save_order async_ops w (Some (wo_version w0)) (op_open async_ops)))) s
      = (Inr (), s1)"
    using assms by (auto simp: start_travel_def Let_def pull_events_pair async_uow.read_order)
  have k: "order_key w = (org, oid)"
    using async_uow.stored_key[OF assms(1) w0, of "StartTravel x" st w] w by simp
  have "wo_status w = EN_ROUTE \<and> wo_assignee_id w = Some x"
    using w by (auto simp: wo_start_travel_def guard_simps)
  with async_uow.commit_both[OF assms(1) c] w0 k show ?thesis by auto
qed

text \<open>A master's active order is the one order of the executor that the capacity rule allows.\<close>

lemma find_the_one:
  "x \<in> set t \<Longrightarrow> P x \<Longrightarrow> (\<And>y. y \<in> set t \<Longrightarrow> P y \<Longrightarrow> y = x) \<Longrightarrow> find P t = Some x"
  by (cases "find P t") (blast dest: find_None_iff[THEN iffD1] find_SomeD)+

lemma execution_of:
  assumes "async_ok s" and "capacity_ok (async_abs s)" and "ds_orders (async_abs s) (org, oid) = Some w"
    and "wo_assignee_id w = Some x" and "active_status (wo_status w)"
  shows "\<exists>e. async_execution org x s = Some e \<and> ex_status e = wo_status w"
proof -
  let ?P = "\<lambda>w. wo_organization_id w = org \<and> wo_assignee_id w = Some x \<and> active_status (wo_status w)"
  have k: "wo_organization_id w = org" using assms(1,3) async_ok_entry(1)[of s "(org, oid)" w]
    by (auto simp: async_abs_def order_key_def)
  have in_d: "w \<in> set (map snd (ms_orders s))"
    using assms(3) by (force simp: async_abs_def dest: map_of_SomeD)
  have "v = w" if v: "v \<in> set (map snd (ms_orders s))" "?P v" for v
  proof -
    obtain kv where kv: "ds_orders (async_abs s) kv = Some v"
      using v(1) assms(1) dict_get_in[of "ms_orders s"] by (auto simp: async_abs_def async_ok_def)
    have "busy v" "busy w" using v(2) assms(4,5) by (auto simp: busy_def)
    with assms(2,3,4) kv v(2) k have "kv = (org, oid)" unfolding capacity_ok_def by metis
    with kv assms(3) show ?thesis by simp
  qed
  moreover have "?P w" using k assms(4,5) by blast
  ultimately have "find ?P (map snd (ms_orders s)) = Some w" by (rule find_the_one[OF in_d, rotated])
  then show ?thesis by (simp add: async_execution_def)
qed

section \<open>A button that is pressed twice\<close>

fun same_answer :: "answer \<Rightarrow> answer \<Rightarrow> bool" where
  "same_answer TravelStarted r = (r = TravelAlreadyStarted)"
| "same_answer r r' = (r' = r)"

definition again :: "(async_store \<times> drafts, answer) action \<Rightarrow> (async_store \<times> drafts, answer) action \<Rightarrow> bool" where
  "again f g \<longleftrightarrow> (\<forall>s t r s1 t1. async_ok s \<longrightarrow> f (s, t) = (Inr r, (s1, t1)) \<longrightarrow>
     (\<exists>r' s2. g (s1, t1) = (Inr r', (s2, t1)) \<and> async_abs s2 = async_abs s1 \<and> same_answer r r'))"

lemma again_guarded: "again f g \<Longrightarrow> again (guarded gs f) (guarded gs g)"
  unfolding again_def guarded_def by (cases "raise_first gs (Inr ())") (auto simp: raise_first_all_None)

lemma again_if: "again f g \<Longrightarrow> again f' g' \<Longrightarrow> again (if P then f else f') (if P then g else g')"
  by simp

lemma again_fail: "again (act_lift (Inl e)) g"
  by (simp add: again_def act_lift_def)

lemma on_store_guarded: "on_store (guarded gs f) = guarded gs (on_store f)"
  by (cases "raise_first gs (Inr ())") (auto simp: fun_eq_iff on_store_def guarded_def raise_first_all_None)

lemma same_answer_refl: "r \<noteq> TravelStarted \<Longrightarrow> same_answer r r"
  by (cases r) auto

lemma again_on_store:
  assumes "\<And>s r s1. async_ok s \<Longrightarrow> f s = (Inr r, s1) \<Longrightarrow>
    \<exists>r' s2. g s1 = (Inr r', s2) \<and> async_abs s2 = async_abs s1 \<and> same_answer r r'"
  shows "again (on_store f) (on_store g)"
  unfolding again_def on_store_def
proof (intro allI impI)
  fix s t r s1 t1
  assume ok: "async_ok s" and e: "(let (r, s') = f (fst (s, t)) in (r, s', snd (s, t))) = (Inr r, s1, t1)"
  then have "f s = (Inr r, s1)" "t1 = t" by (auto split: prod.splits)
  with assms[OF ok] show "\<exists>r' s2. (let (r, s') = g (fst (s1, t1)) in (r, s', snd (s1, t1))) = (Inr r', s2, t1) \<and>
      async_abs s2 = async_abs s1 \<and> same_answer r r'" by fastforce
qed

lemma again_tolerant:
  assumes "\<And>w0 w. wo_exec c st w0 = Inr w \<Longrightarrow> refused (f (order_snapshot w)) \<and> seen (order_snapshot w) = Some reply"
    and "\<And>w m r. seen w = Some r \<Longrightarrow> wo_exec c st w = Inl (InvalidTransition m) \<Longrightarrow> refused (f w) \<and> r \<noteq> TravelStarted"
    and "reply \<noteq> TravelStarted"
  shows "again (on_store (tolerant async_ops org oid (change_order async_ops org oid (wo_exec c st)) reply seen))
    (on_store (tolerant async_ops org oid (change_order async_ops org oid f) reply seen))"
proof (rule again_on_store)
  fix s r s1
  assume ok: "async_ok s"
    and t: "tolerant async_ops org oid (change_order async_ops org oid (wo_exec c st)) reply seen s = (Inr r, s1)"
  have "r \<noteq> TravelStarted"
    using t assms(2,3) change_order_was_refused unfolding tolerant_Inr by blast
  moreover have "\<exists>s2. tolerant async_ops org oid (change_order async_ops org oid f) reply seen s1 = (Inr r, s2) \<and>
      async_abs s2 = async_abs s1"
    using ok t by (rule tolerant_change_again) (use assms(1,2) in blast)+
  ultimately show "\<exists>r' s2. tolerant async_ops org oid (change_order async_ops org oid f) reply seen s1 = (Inr r', s2) \<and>
      async_abs s2 = async_abs s1 \<and> same_answer r r'" using same_answer_refl by blast
qed

lemma again_interest:
  "again (on_store (tolerant async_ops org oid (svc_express_interest async_ops org oid x st) InterestSent (seen_interest x)))
    (on_store (tolerant async_ops org oid (svc_express_interest async_ops org oid x st') InterestSent (seen_interest x)))"
proof (rule again_on_store)
  fix s r s1
  assume ok: "async_ok s" and t: "tolerant async_ops org oid (svc_express_interest async_ops org oid x st)
    InterestSent (seen_interest x) s = (Inr r, s1)"
  then have "r = InterestSent" by (auto simp: tolerant_Inr seen_interest_def seen_if_def split: if_splits)
  with interest_again[OF ok t, of st'] show "\<exists>r' s2. tolerant async_ops org oid
      (svc_express_interest async_ops org oid x st') InterestSent (seen_interest x) s1 = (Inr r', s2) \<and>
      async_abs s2 = async_abs s1 \<and> same_answer r r'" by auto
qed

lemma dict_pop_twice: "dict_pop k (dict_pop k d) = dict_pop k d"
  by (induction d) auto

lemma again_report: "again (submit_report async_ops org oid x d) (submit_report async_ops org oid x d')"
  unfolding again_def
proof (intro allI impI)
  fix s t r s1 t1
  assume ok: "async_ok s" and e: "submit_report async_ops org oid x d (s, t) = (Inr r, s1, t1)"
  then have t1: "t1 = draft_clear (org, oid, x) t" and
    c: "tolerant async_ops org oid (complete_order async_ops org oid x (draft_get (org, oid, x) t) (dr_stamp d)
      (dr_session_stamp d)) ReportAccepted (seen_if (\<lambda>w. wo_status w = COMPLETED) ReportAccepted) s = (Inr r, s1)"
    by (auto simp: submit_report_def Let_def split: prod.splits sum.splits)
  have "r = ReportAccepted" using c by (auto simp: tolerant_Inr seen_if_def split: if_splits)
  with complete_again[OF ok c, of "draft_get (org, oid, x) t1" "dr_stamp d'" "dr_session_stamp d'"] t1
  show "\<exists>r' s2. submit_report async_ops org oid x d' (s1, t1) = (Inr r', s2, t1) \<and>
      async_abs s2 = async_abs s1 \<and> same_answer r r'"
    by (auto simp: submit_report_def Let_def draft_clear_def dict_pop_twice)
qed

lemma again_travel:
  "again (on_store (travel_command async_ops async_execution uuid_of org oid x d))
    (on_store (travel_command async_ops async_execution uuid_of org oid x d'))"
proof (rule again_on_store)
  fix s r s1
  assume ok: "async_ok s" and t: "travel_command async_ops async_execution uuid_of org oid x d s = (Inr r, s1)"
  have "\<exists>e. async_execution org x s1 = Some e \<and> ex_status e \<in> {EN_ROUTE, IN_PROGRESS} \<and>
      same_answer r TravelAlreadyStarted"
  proof (cases "\<exists>y. start_travel async_ops org oid x (Some (uuid_of (''dispatch:tracking:'' @ org @ '':'' @ oid)))
      (dr_fresh d) (dr_tokens d) (dr_stamp d) (dr_session_stamp d) s = (Inr y, s1) \<and> r = TravelStarted")
    case True
    then obtain w where "ds_orders (async_abs s1) (org, oid) = Some w" "wo_status w = EN_ROUTE"
      "wo_assignee_id w = Some x" "async_ok s1" "capacity_ok (async_abs s1)"
      using start_travel_stored[OF ok] by blast
    with execution_of[of s1 org oid w x] True show ?thesis by auto
  next
    case False
    with t show ?thesis
      by (auto simp: travel_command_def split: option.splits if_splits)
  qed
  then show "\<exists>r' s2. travel_command async_ops async_execution uuid_of org oid x d' s1 = (Inr r', s2) \<and>
      async_abs s2 = async_abs s1 \<and> same_answer r r'"
    by (auto simp: travel_command_def)
qed

lemmas again_intros = again_if again_guarded again_fail again_interest again_report again_travel again_tolerant

lemma again_publish:
  "again (on_store (publish_pool_command async_ops mode i p d)) (on_store (publish_pool_command async_ops mode' i p d'))"
  unfolding publish_pool_command_def Let_def on_store_guarded svc_defs wo_exec_funs
  by (intro again_intros) (auto simp: seen_if_def refused_by_status dest: status_after(1) split: if_splits)

lemma again_tolerant_same:
  assumes "\<And>w0 w. wo_exec c st w0 = Inr w \<Longrightarrow>
      refused (wo_exec c st' (order_snapshot w)) \<and> seen (order_snapshot w) = Some reply"
    and "\<And>w. seen w \<noteq> Some TravelStarted" and "reply \<noteq> TravelStarted"
  shows "again (on_store (tolerant async_ops org oid (change_order async_ops org oid (wo_exec c st)) reply seen))
    (on_store (tolerant async_ops org oid (change_order async_ops org oid (wo_exec c st')) reply seen))"
  using assms by (intro again_tolerant) (auto simp: refused_def dest: exec_error_stamp)

lemma again_master:
  "again (on_store (tolerant async_ops org oid (svc_claim_first async_ops org oid x st) PoolClaimed
      (seen_if (\<lambda>w. wo_assignee_id w = Some x) PoolClaimed)))
    (on_store (tolerant async_ops org oid (svc_claim_first async_ops org oid x st') PoolClaimed
      (seen_if (\<lambda>w. wo_assignee_id w = Some x) PoolClaimed)))"
  "again (on_store (tolerant async_ops org oid (assign_order async_ops org oid y a st) (MasterChosen y)
      (seen_if (\<lambda>w. wo_assignee_id w = Some y) (MasterChosen y))))
    (on_store (tolerant async_ops org oid (assign_order async_ops org oid y a st') (MasterChosen y)
      (seen_if (\<lambda>w. wo_assignee_id w = Some y) (MasterChosen y))))"
  "again (on_store (tolerant async_ops org oid (accept_order async_ops org oid x st) OrderAccepted (seen_accepted x)))
    (on_store (tolerant async_ops org oid (accept_order async_ops org oid x st') OrderAccepted (seen_accepted x)))"
  "again (on_store (tolerant async_ops org oid (svc_reject_assignment async_ops org oid x st) OrderReturned
      (seen_if (\<lambda>w. wo_assignee_id w = None) OrderReturned)))
    (on_store (tolerant async_ops org oid (svc_reject_assignment async_ops org oid x st') OrderReturned
      (seen_if (\<lambda>w. wo_assignee_id w = None) OrderReturned)))"
  "again (on_store (tolerant async_ops org oid (svc_start_work async_ops org oid x st) WorkStarted (seen_started x)))
    (on_store (tolerant async_ops org oid (svc_start_work async_ops org oid x st') WorkStarted (seen_started x)))"
  unfolding svc_defs wo_exec_funs
  by (rule again_tolerant_same; auto simp: seen_if_def seen_accepted_def seen_started_def refused_by_status
      dest: status_after split: if_splits)+

lemma again_order_command:
  "again (order_command async_ops async_execution uuid_of mode i a p d)
    (order_command async_ops async_execution uuid_of mode' i a p d')"
  unfolding order_command_def Let_def
  by (intro again_if again_guarded again_fail again_interest again_report again_travel again_publish again_master)

text \<open>
  (C13) The command behind a button under an order (publication to the pool, interest, claim,
  assignment, acceptance, rejection, travel, work, report; the claim of the callback and the
  coordinators are not part of it) can be executed again: if it succeeded after some history of
  calls, then executing it a second time right after, for the same person with the same payload, at
  any reading of the clock and with any default pool mode, succeeds in the same words (only the
  start of a trip is then reported as already started), and the orders, sessions, events and drafts
  stay as the first execution left them. This is what happens when an update is delivered again
  before its callback was completed.
\<close>

theorem retried_command_succeeds:
  assumes "order_command async_ops async_execution uuid_of mode i a p d
      (run_calls (async_exec async_ops) cs empty_store, drafts) = (Inr r, (s1, drafts1))"
  shows "\<exists>r' s2. order_command async_ops async_execution uuid_of mode' i a p d' (s1, drafts1) = (Inr r', (s2, drafts1)) \<and>
    async_abs s2 = async_abs s1 \<and> same_answer r r'"
  using again_order_command assms async_reachable_store(1) unfolding again_def by blast

definition demo_operator :: actor_identity where
  "demo_operator = \<lparr>ai_organization_id = ''acme'', ai_actor_id = ''op'', ai_role = ''operator'', ai_display_name = ''Op'',
     ai_provider = ''telegram'', ai_external_user_id = ''7'', ai_roles = [''operator'']\<rparr>"

definition demo_draw :: draw where
  "demo_draw = \<lparr>dr_stamp = demo_stamp, dr_session_stamp = demo_stamp, dr_tokens = (''t'', ''u''), dr_fresh = ''s1''\<rparr>"

lemma demo_published:
  "\<exists>s1. order_command async_ops async_execution id None demo_operator ''pool_publish''
      [(''order_id'', JStr ''o1'')] demo_draw
      (run_calls (async_exec async_ops) [CreateCall (Some ''o1'') [] demo_submission demo_stamp] empty_store, []) =
      (Inr PoolPublished, (s1, []))"
  by (simp add: demo_store_eval order_command_def publish_pool_command_def on_store_def guarded_def
      demo_operator_def demo_draw_def require_role_def payload_text_def tolerant_def svc_publish_pool_def change_order_def
      async_get_order_def demo_eval)

theorem retried_command_succeeds_witness:
  "\<exists>s1 r' s2. order_command async_ops async_execution id None demo_operator ''pool_publish'' [(''order_id'', JStr ''o1'')]
      demo_draw (run_calls (async_exec async_ops) [CreateCall (Some ''o1'') [] demo_submission demo_stamp] empty_store, []) =
      (Inr PoolPublished, (s1, [])) \<and>
    order_command async_ops async_execution id (Some FIRST_CLAIM) demo_operator ''pool_publish'' [(''order_id'', JStr ''o1'')]
      demo_draw (s1, []) = (Inr r', (s2, [])) \<and> same_answer PoolPublished r'"
proof -
  obtain s1 where f: "order_command async_ops async_execution id None demo_operator ''pool_publish''
      [(''order_id'', JStr ''o1'')] demo_draw
      (run_calls (async_exec async_ops) [CreateCall (Some ''o1'') [] demo_submission demo_stamp] empty_store, []) =
      (Inr PoolPublished, (s1, []))"
    using demo_published by blast
  from retried_command_succeeds[OF f, of "Some FIRST_CLAIM" demo_draw] f show ?thesis by blast
qed

end
