(* ===== verification/Processor.thy ===== *)
theory Processor
  imports Callback_Commands Ingress
begin

text \<open>
  How the processor answers one event of a known account (\<open>InboundProcessor._dispatch\<close>, \<open>_callback\<close>,
  \<open>_execute_callback\<close> and \<open>_complete_callback_claim\<close> in \<open>messaging/processor.py\<close>): which coordinator
  an event or a button goes to, what the processor does with the others itself, and the claim of a
  button around its command. The coordinators are an argument.
\<close>

section \<open>Routing\<close>

definition INTAKE_ACTIONS :: "string list" where
  "INTAKE_ACTIONS =
    [''intake_pick_service'', ''intake_services_done'', ''intake_confirm'', ''intake_cancel'',
     ''intake_request_location'', ''intake_type_address'', ''intake_continue_after_map'',
     ''intake_field_choice'']"

definition CONFIG_ACTIONS :: "string list" where
  "CONFIG_ACTIONS =
    [''config_menu'', ''config_brand'', ''config_services'', ''config_service_add'',
     ''config_service_delete'', ''config_service_move'', ''config_service_multi_select'',
     ''config_fields'', ''config_field_add'', ''config_field_delete'', ''config_field_move'',
     ''config_field_prompt'', ''config_field_type'', ''config_field_required'', ''config_evidence'',
     ''config_evidence_photo_inc'', ''config_evidence_photo_dec'', ''config_evidence_comment'',
     ''config_evidence_signature'', ''config_evidence_code'', ''config_allocation'',
     ''config_pool_mode'', ''config_role_labels'', ''config_role_label_edit'', ''config_versions'',
     ''config_discard_draft'', ''config_discard_draft_confirm'', ''config_restore_version'',
     ''config_restore_version_confirm'', ''config_preview'', ''config_publish'', ''config_cancel'',
     ''config_add_operator'', ''config_list_operators'', ''config_operator_info'',
     ''config_call_operator'', ''config_edit_operator_phone'', ''config_del_operator'',
     ''config_del_operator_confirm'', ''config_owner_roles'', ''config_owner_add_operator'',
     ''config_owner_add_master'', ''config_owner_nano'']"

definition OPERATOR_ACTIONS :: "string list" where
  "OPERATOR_ACTIONS =
    [''operator_menu'', ''operator_list_orders'', ''operator_open_order'', ''operator_list_masters'',
     ''operator_add_master'', ''operator_master_info'', ''operator_call_master'',
     ''operator_call_client'', ''operator_delete_master'', ''operator_delete_master_confirm'',
     ''operator_stats'', ''operator_cancel'']"

definition MASTER_ACTIONS :: "string list" where
  "MASTER_ACTIONS =
    [''master_menu'', ''master_list_orders'', ''master_open_order'']"

datatype coordinator_call =
    ConfigStart | ConfigText string | ConfigButton string "(string, json) dict"
  | OperatorStart | OperatorText string | OperatorButton string "(string, json) dict"
  | IntakeStart | IntakeText string | IntakeLocation "pyfloat option" "pyfloat option" string
  | IntakeButton string "(string, json) dict"
  | MasterStart | MasterText string | MasterButton string "(string, json) dict"

text \<open>The coordinators that a processor was built with.\<close>

record wiring =
  with_config :: bool
  with_operator :: bool
  with_intake :: bool
  with_master :: bool

definition has_text :: "inbound_event \<Rightarrow> bool" where
  "has_text e \<longleftrightarrow> ev_kind e = EMessage \<and> \<not> falsy (ev_text e)"

definition is_command :: "string \<Rightarrow> bool" where
  "is_command s \<longleftrightarrow> str_starts_with ''/'' (dropWhile is_space s)"

definition route_event :: "wiring \<Rightarrow> actor_identity \<Rightarrow> inbound_event \<Rightarrow> coordinator_call option" where
  "route_event c i e =
     (let role = ai_role i; text = text_of (ev_text e)
      in if role = ''admin'' \<and> with_config c \<and> ev_kind e = EStart then Some ConfigStart
         else if role = ''admin'' \<and> with_config c \<and> has_text e then Some (ConfigText text)
         else if role = ''operator'' \<and> with_operator c \<and> ev_kind e = EStart then Some OperatorStart
         else if role = ''operator'' \<and> with_operator c \<and> has_text e then Some (OperatorText text)
         else if role = ''client'' \<and> with_intake c \<and> ev_kind e = EStart then Some IntakeStart
         else if role = ''client'' \<and> with_intake c \<and> has_text e then Some (IntakeText text)
         else if role = ''client'' \<and> with_intake c \<and> ev_kind e = ELocation
         then Some (IntakeLocation (ev_latitude e) (ev_longitude e) (ev_provider e))
         else if role = ''master'' \<and> with_master c \<and> ev_kind e = EStart then Some MasterStart
         else if role = ''master'' \<and> with_master c \<and> has_text e \<and> is_command text then Some (MasterText text)
         else None)"

definition route_button ::
  "wiring \<Rightarrow> string \<Rightarrow> (string, json) dict \<Rightarrow> (string \<times> coordinator_call) option" where
  "route_button c act payload =
     (if with_intake c \<and> act \<in> set INTAKE_ACTIONS then Some (''client'', IntakeButton act payload)
      else if with_config c \<and> act \<in> set CONFIG_ACTIONS then Some (''admin'', ConfigButton act payload)
      else if with_operator c \<and> act \<in> set OPERATOR_ACTIONS then Some (''operator'', OperatorButton act payload)
      else if with_master c \<and> act \<in> set MASTER_ACTIONS then Some (''master'', MasterButton act payload)
      else None)"

text \<open>An answer is one of the processor's own or comes from a coordinator.\<close>

datatype 'r response = Own answer | Coordinated 'r

definition own :: "('s, answer) action \<Rightarrow> ('s, 'r response) action" where
  "own f = act_bind f (\<lambda>r. act_lift (Inr (Own r)))"

definition coordinated :: "('s, 'r) action \<Rightarrow> ('s, 'r response) action" where
  "coordinated f = act_bind f (\<lambda>r. act_lift (Inr (Coordinated r)))"

section \<open>Events that are not buttons\<close>

definition event_source :: "string \<Rightarrow> location_source" where
  "event_source provider = (if provider = ''telegram'' then FromTelegram else FromMax)"

text \<open>The checks of \<^const>\<open>make_event\<close> make the coordinates of a location event present.\<close>

definition coordinate :: "pyfloat option \<Rightarrow> pyfloat result" where
  "coordinate x = (case x of None \<Rightarrow> Inl (TypeError ''must be real number'') | Some v \<Rightarrow> Inr v)"

definition location_event ::
  "('s, 'u, 'z) async_uow_ops_scheme \<Rightarrow> actor_identity \<Rightarrow> inbound_event \<Rightarrow> string \<Rightarrow> draw \<Rightarrow> ('s, answer) action" where
  "location_event ops i e session d =
     act_bind (act_lift (coordinate (ev_latitude e))) (\<lambda>lat.
     act_bind (act_lift (coordinate (ev_longitude e))) (\<lambda>lon.
     act_bind (async_record_location ops (ai_organization_id i)
         \<lparr>loc_executor_id = ai_actor_id i, loc_session_id = session, loc_latitude = lat, loc_longitude = lon,
          loc_source = event_source (ev_provider e), loc_captured_at = None, loc_accuracy_m = None,
          loc_source_event_id = Some (ev_external_event_id e)\<rparr> (dr_stamp d))
       (\<lambda>x. act_lift (Inr LocationSaved))))"

definition own_event ::
  "('s, 'u, 'z) async_uow_ops_scheme \<Rightarrow> (string \<Rightarrow> string \<Rightarrow> 's \<Rightarrow> active_execution option) \<Rightarrow> wiring \<Rightarrow>
   (coordinator_call \<Rightarrow> ('s \<times> drafts, 'r) action) \<Rightarrow> actor_identity \<Rightarrow> inbound_event \<Rightarrow> draw \<Rightarrow>
   ('s \<times> drafts, 'r response) action"
where
  "own_event ops execution c coordinators i e d sd =
     (let org = ai_organization_id i; me = ai_actor_id i;
          work = (if ai_role i = ''master'' then execution org me (fst sd) else None);
          at_work = (case work of None \<Rightarrow> None | Some x \<Rightarrow> if ex_status x = IN_PROGRESS then Some (org, ex_order_id x, me) else None)
      in if ev_kind e = ELocation then
           (case work of
              Some x \<Rightarrow> (case ex_session_id x of
                  Some session \<Rightarrow> own (on_store (location_event ops i e session d)) sd
                | None \<Rightarrow> (Inr (Own NoActiveRoute), sd))
            | None \<Rightarrow> (Inr (Own NoActiveRoute), sd))
         else if ev_kind e = EPhoto then
           (case at_work of
              None \<Rightarrow> (Inr (Own PhotosOnlyAtWork), sd)
            | Some k \<Rightarrow>
                let (n, t) = append_photo k (ev_provider e @ '':'' @ text_of (ev_media_id e)) (snd sd)
                in (Inr (Own (PhotoAdded n)), (fst sd, t)))
         else if has_text e then
           (case at_work of
              Some k \<Rightarrow> (Inr (Own CommentSaved), (fst sd, set_comment k (text_of (ev_text e)) (snd sd)))
            | None \<Rightarrow>
                if ai_role i = ''master'' \<and> with_master c then coordinated (coordinators (MasterText (text_of (ev_text e)))) sd
                else (Inr (Own UseButtons), sd))
         else if ev_kind e = EStart then (Inr (Own (RegisteredAs (ai_display_name i) (ai_role i))), sd)
         else (Inr (Own EventTaken), sd))"

section \<open>Buttons\<close>

definition claim_key :: "inbound_event \<Rightarrow> string" where
  "claim_key e = ev_provider e @ '':'' @ ev_external_event_id e"

definition execute_button ::
  "('s, 'u, 'z) uow_ops_scheme \<Rightarrow> (string \<Rightarrow> string \<Rightarrow> 's \<Rightarrow> active_execution option) \<Rightarrow> (string \<Rightarrow> string) \<Rightarrow>
   pool_mode option \<Rightarrow> wiring \<Rightarrow> (coordinator_call \<Rightarrow> ('s \<times> drafts, 'r) action) \<Rightarrow> actor_identity \<Rightarrow>
   callback_action \<Rightarrow> draw \<Rightarrow> ('s \<times> drafts, 'r response) action"
where
  "execute_button ops execution uuid_of mode c coordinators i a d =
     (case route_button c (ca_action a) (ca_payload a) of
        Some (role, call) \<Rightarrow> guarded [require_role i [role]] (coordinated (coordinators call))
      | None \<Rightarrow> own (order_command ops execution uuid_of mode i (ca_action a) (ca_payload a) d))"

text \<open>The clock is read when the callback is resolved and again when its claim is completed.\<close>

definition complete_claim ::
  "callback_action \<Rightarrow> inbound_event \<Rightarrow> instant \<Rightarrow> 'x result \<Rightarrow> callback_table \<Rightarrow> 'x result \<times> callback_table" where
  "complete_claim a e now r t =
     (case callback_complete (ca_token a) (ca_organization_id a) (claim_key e) now t of
        (True, t') \<Rightarrow> (r, t')
      | (False, t') \<Rightarrow> (Inl (RuntimeError ''callback claim ownership was lost''), t'))"

definition press ::
  "(callback_action \<Rightarrow> ('w, 'x) action) \<Rightarrow> actor_identity \<Rightarrow> inbound_event \<Rightarrow> string \<Rightarrow> instant \<Rightarrow> instant \<Rightarrow>
   ('w \<times> callback_table, 'x) action"
where
  "press execute i e fresh now later wt =
     (let (w, t) = wt
      in case ev_callback_token e of
           None \<Rightarrow> (Inl (InvalidTransition ''callback token is missing''), wt)
         | Some token \<Rightarrow>
             (case callback_resolve token (ai_organization_id i) (ai_role i) (Some (claim_key e)) fresh now t of
                (None, t') \<Rightarrow> (Inl (InvalidTransition ''button is stale or not for this role''), (w, t'))
              | (Some a, t') \<Rightarrow>
                  (let (r, w') = execute a w
                   in if (case r of Inl err \<Rightarrow> is_domain_error err | Inr x \<Rightarrow> True)
                      then let (r', t2) = complete_claim a e later r t' in (r', (w', t2))
                      else (r, (w', t')))))"

definition dispatch_event ::
  "('s, 'u, 'z) async_uow_ops_scheme \<Rightarrow> (string \<Rightarrow> string \<Rightarrow> 's \<Rightarrow> active_execution option) \<Rightarrow> (string \<Rightarrow> string) \<Rightarrow>
   pool_mode option \<Rightarrow> wiring \<Rightarrow> (actor_identity \<Rightarrow> coordinator_call \<Rightarrow> ('s \<times> drafts, 'r) action) \<Rightarrow>
   actor_identity \<Rightarrow> inbound_event \<Rightarrow> draw \<Rightarrow> instant \<Rightarrow> instant \<Rightarrow>
   (('s \<times> drafts) \<times> callback_table, 'r response) action"
where
  "dispatch_event ops execution uuid_of mode c coordinators i e d now later wt =
     (if ev_kind e = ECallback
      then press (\<lambda>a. execute_button ops execution uuid_of mode c (coordinators i) i a d) i e (dr_fresh d) now later wt
      else let (w, t) = wt;
               (r, w') = (case route_event c i e of
                  Some call \<Rightarrow> coordinated (coordinators i call) w
                | None \<Rightarrow> own_event ops execution c (coordinators i) i e d w)
           in (r, (w', t)))"

section \<open>One update, one effect\<close>

lemma callback_row_of_Cons: "callback_row_of token (r # t) = (if ca_token r = token then Some r else callback_row_of token t)"
  by (simp add: callback_row_of_def)

lemma row_of_None: "callback_row_of token t = None \<longleftrightarrow> (\<forall>r \<in> set t. ca_token r \<noteq> token)"
  by (auto simp: callback_row_of_def find_None_all)

lemma filter_by_token:
  assumes "unique_on (\<lambda>r. True) ca_token t" and "\<And>r. hit r \<Longrightarrow> ca_token r = token"
  shows "filter hit t = (case callback_row_of token t of Some r \<Rightarrow> if hit r then [r] else [] | None \<Rightarrow> [])"
  using assms(1)
proof (induction t)
  case (Cons r t)
  then have "ca_token r = token \<Longrightarrow> callback_row_of token t = None"
    by (auto simp: row_of_None image_iff)
  with Cons assms(2) show ?case by (auto simp: callback_row_of_Cons split: option.splits)
qed (simp add: callback_row_of_def)

lemma find_filter: "find P t = (case filter P t of [] \<Rightarrow> None | x # xs \<Rightarrow> Some x)"
  by (induction t) auto

lemma find_by_token:
  assumes "unique_on (\<lambda>r. True) ca_token t" and "\<And>r. hit r \<Longrightarrow> ca_token r = token"
  shows "find hit t = (case callback_row_of token t of Some r \<Rightarrow> if hit r then Some r else None | None \<Rightarrow> None)"
  using filter_by_token[of t hit token] assms by (simp add: find_filter split: option.splits)

lemma resolve_by_row:
  assumes "unique_on (\<lambda>r. True) ca_token t"
  shows "fst (callback_resolve token org role ck fresh now t) =
    (case callback_row_of token t of
       Some r \<Rightarrow> if callback_open token org (Some (effective_key ck fresh)) now r \<and> callback_allowed role r
         then Some (action_of r) else None
     | None \<Rightarrow> None)"
proof -
  let ?hit = "\<lambda>r. callback_open token org (Some (effective_key ck fresh)) now r \<and> callback_allowed role r"
  have "fst (callback_resolve token org role ck fresh now t) = map_option action_of (find ?hit t)"
    by (simp add: callback_resolve_def Let_def effective_key_def)
  also have "find ?hit t = (case callback_row_of token t of Some r \<Rightarrow> if ?hit r then Some r else None | None \<Rightarrow> None)"
    by (rule find_by_token[OF assms]) (simp add: callback_open_def)
  finally show ?thesis by (simp split: option.splits)
qed

lemma complete_by_row:
  assumes "unique_on (\<lambda>r. True) ca_token t"
  shows "fst (callback_complete token org key now t) =
    (case callback_row_of token t of
       Some r \<Rightarrow> ca_organization_id r = org \<and> cb_claim_key r = Some key \<and> cb_completed_at r = None | None \<Rightarrow> False)"
proof -
  let ?hit = "\<lambda>r. ca_token r = token \<and> ca_organization_id r = org \<and> cb_claim_key r = Some key \<and> cb_completed_at r = None"
  have "filter ?hit t = (case callback_row_of token t of Some r \<Rightarrow> if ?hit r then [r] else [] | None \<Rightarrow> [])"
    by (rule filter_by_token[OF assms]) simp
  then show ?thesis
    by (auto simp: callback_complete_def Let_def count_rows_def dest: callback_row_of_mem split: option.splits)
qed

lemma claim_key_nonempty [simp]: "claim_key e \<noteq> []" "effective_key (Some (claim_key e)) fresh = claim_key e"
  by (simp_all add: claim_key_def effective_key_def)

lemma resolve_None:
  assumes "fst (callback_resolve token org role ck fresh now t) = None"
  shows "callback_resolve token org role ck fresh now t = (None, t)"
proof -
  have "update_rows P f t = t" if "find P t = None" for P f
    using that by (induction t) (auto split: if_splits)
  then show ?thesis using assms by (simp add: callback_resolve_def Let_def)
qed

text \<open>A claimed callback that was not completed is resolved again under its key, and then completed.\<close>

lemma resolved_again:
  assumes inv: "callback_inv t" and first: "callback_resolve token org role (Some (claim_key e)) fresh now t = (Some a, t1)"
    and later: "now' < ca_expires_at a"
  shows "\<exists>t2 t3. callback_resolve token org role (Some (claim_key e)) fresh' now' t1 = (Some a, t2) \<and>
    callback_complete (ca_token a) (ca_organization_id a) (claim_key e) moment t2 = (True, t3) \<and>
    (\<forall>org' role' ck fresh'' now''. callback_resolve token org' role' ck fresh'' now'' t3 = (None, t3))"
proof -
  let ?key = "claim_key e"
  have inv1: "callback_inv t1" using callback_exec_inv[OF inv, of "CbResolve token org role (Some ?key) fresh now"] first by simp
  from resolve_Some[OF inv first] obtain r r1 where r: "callback_row_of token t = Some r" "a = action_of r"
    "callback_open token org (Some ?key) now r" "callback_allowed role r"
    and r1: "callback_row_of token t1 = Some r1" "owned_by ?key r r1" "cb_completed_at r1 = cb_completed_at r" by auto
  have open1: "cb_completed_at r = None"
    using r(1,3) inv callback_row_of_mem[OF r(1)] by (auto simp: callback_open_def callback_inv_def)
  have "callback_open token org (Some ?key) now' r1" "callback_allowed role r1" "action_of r1 = a"
    using r r1 later open1
    by (auto simp: callback_open_def callback_allowed_def owned_by_def action_of_def callback_action.defs)
  then obtain t2 where t2: "callback_resolve token org role (Some ?key) fresh' now' t1 = (Some a, t2)"
    using resolve_by_row[of t1 token org role "Some ?key" fresh' now'] r1(1) inv1
    by (cases "callback_resolve token org role (Some ?key) fresh' now' t1") (auto simp: callback_inv_def)
  have inv2: "callback_inv t2" using callback_exec_inv[OF inv1, of "CbResolve token org role (Some ?key) fresh' now'"] t2 by simp
  from resolve_Some[OF inv1 t2] r1 open1 obtain r2 where r2: "callback_row_of token t2 = Some r2"
    "owned_by ?key r1 r2" "cb_completed_at r2 = None" by auto
  obtain b t3 where t3: "callback_complete (ca_token a) (ca_organization_id a) ?key moment t2 = (b, t3)"
    by (cases "callback_complete (ca_token a) (ca_organization_id a) ?key moment t2")
  have tok: "ca_token a = token" "ca_organization_id r2 = ca_organization_id a"
    using r r1(2) r2(2) by (auto simp: callback_open_def owned_by_def action_of_def callback_action.defs)
  have b: "b" using complete_by_row[of t2 "ca_token a" "ca_organization_id a" ?key moment] inv2 r2 t3 tok
    by (auto simp: callback_inv_def owned_by_def)
  have inv3: "callback_inv t3"
    using callback_exec_inv[OF inv2, of "CbComplete (ca_token a) (ca_organization_id a) ?key moment"] t3 by simp
  have "\<exists>r3. callback_row_of token t3 = Some r3 \<and> cb_revoked_at r3 \<noteq> None \<and> cb_completed_at r3 \<noteq> None"
    using t3 r2 tok callback_row_of_mem[OF r2(1)]
    by (auto simp: callback_complete_def Let_def callback_row_of_update owned_by_def)
  then have "callback_resolve token org' role' ck fresh'' now'' t3 = (None, t3)" for org' role' ck fresh'' now''
    using inv3 by (intro resolve_None) (auto simp: resolve_by_row callback_inv_def callback_open_def)
  with t2 t3 b show ?thesis by simp
qed

text \<open>
  (C3) One update has one effect, for a button under an order that the processor answers by a
  command of its own (the wiring routes it to no coordinator). Suppose the processor stopped after
  that command had succeeded, and before the callback was completed and the update marked as
  processed. When the update is delivered again to the same account in the same role, with the
  callback still alive, the button is answered as the first time would have been (only the start of
  a trip is then reported as already started), the orders, sessions, events and drafts stay as the
  first time left them, and the callback is completed; every further delivery, and every other press
  of the button by anybody, is refused as stale and changes neither orders nor drafts nor callbacks.
\<close>

theorem interrupted_button_is_finished:
  assumes "ev_callback_token e = Some token" and "route_button c (ca_action a) (ca_payload a) = None"
    and "callback_resolve token (ai_organization_id i) (ai_role i) (Some (claim_key e)) fresh now (callback_run before []) =
      (Some a, t1)"
    and "order_command async_ops async_execution uuid_of mode i (ca_action a) (ca_payload a) d
      (run_calls (async_exec async_ops) cs empty_store, drafts) = (Inr r, (s1, drafts1))"
    and "now' < ca_expires_at a"
  shows "\<exists>r' s2 t2. press (\<lambda>a. execute_button async_ops async_execution uuid_of mode' c coordinators i a d') i e fresh' now' later
      ((s1, drafts1), t1) = (Inr (Own r'), ((s2, drafts1), t2)) \<and> same_answer r r' \<and> async_abs s2 = async_abs s1 \<and>
    (\<forall>execute i' e' fresh'' now'' later'. ev_callback_token e' = Some token \<longrightarrow>
      press execute i' e' fresh'' now'' later' ((s2, drafts1), t2) =
        (Inl (InvalidTransition ''button is stale or not for this role'') :: 'r response result, ((s2, drafts1), t2)))"
proof -
  from again_order_command assms(4) async_reachable_store(1) obtain r' s2 where
    c: "order_command async_ops async_execution uuid_of mode' i (ca_action a) (ca_payload a) d' (s1, drafts1) =
      (Inr r', (s2, drafts1))" "async_abs s2 = async_abs s1" "same_answer r r'"
    unfolding again_def by blast
  from resolved_again[OF callback_run_inv[OF callback_inv_Nil] assms(3,5), of fresh' later] obtain t2 t3 where
    t: "callback_resolve token (ai_organization_id i) (ai_role i) (Some (claim_key e)) fresh' now' t1 = (Some a, t2)"
    "callback_complete (ca_token a) (ca_organization_id a) (claim_key e) later t2 = (True, t3)"
    "\<And>org' role' ck fresh'' now''. callback_resolve token org' role' ck fresh'' now'' t3 = (None, t3)"
    by blast
  have "press (\<lambda>a. execute_button async_ops async_execution uuid_of mode' c coordinators i a d') i e fresh' now' later
      ((s1, drafts1), t1) = (Inr (Own r'), ((s2, drafts1), t3))"
    using assms(1,2) c(1) t(1,2)
    by (simp add: press_def execute_button_def own_def act_bind_def act_lift_def complete_claim_def)
  moreover have "press execute i' e' fresh'' now'' later' ((s2, drafts1), t3) =
      (Inl (InvalidTransition ''button is stale or not for this role'') :: 'r response result, ((s2, drafts1), t3))"
    if "ev_callback_token e' = Some token" for execute i' e' fresh'' now'' later'
    using t(3) that by (simp add: press_def)
  ultimately show ?thesis using c(2,3) by blast
qed

definition demo_press :: inbound_event where
  "demo_press = \<lparr>ev_provider = ''telegram'', ev_external_event_id = ''u1'', ev_external_user_id = ''7'', ev_chat_id = ''7'',
     ev_kind = ECallback, ev_text = None, ev_callback_token = Some ''tok'', ev_callback_id = None, ev_media_id = None,
     ev_latitude = None, ev_longitude = None\<rparr>"

definition demo_wiring :: wiring where
  "demo_wiring = \<lparr>with_config = True, with_operator = True, with_intake = True, with_master = True\<rparr>"

theorem interrupted_button_is_finished_witness:
  "\<exists>a t1 s1 r' s2 t2. callback_resolve ''tok'' ''acme'' ''operator'' (Some (claim_key demo_press)) ''f'' 5
      (callback_run [CbCreate ''tok'' ''acme'' ''pool_publish'' [(''order_id'', JStr ''o1'')] (Some ''operator'')
        DEFAULT_LIFETIME 0] []) = (Some a, t1) \<and>
    press (\<lambda>a. execute_button async_ops async_execution id None demo_wiring
        (\<lambda>call. act_lift (Inl (RuntimeError ''none'') :: unit result)) demo_operator a demo_draw)
      demo_operator demo_press ''f'' 9 10 ((s1, []), t1) = (Inr (Own r'), ((s2, []), t2)) \<and> same_answer PoolPublished r'"
proof -
  let ?t = "callback_run [CbCreate ''tok'' ''acme'' ''pool_publish'' [(''order_id'', JStr ''o1'')] (Some ''operator'')
        DEFAULT_LIFETIME 0] []"
  obtain a t1 where a: "callback_resolve ''tok'' ''acme'' ''operator'' (Some (claim_key demo_press)) ''f'' 5 ?t = (Some a, t1)"
    "ca_action a = ''pool_publish''" "ca_payload a = [(''order_id'', JStr ''o1'')]" "9 < ca_expires_at a"
    by (simp add: callback_eval claim_key_def demo_press_def)
  obtain s1 where f: "order_command async_ops async_execution id None demo_operator (ca_action a) (ca_payload a) demo_draw
      (run_calls (async_exec async_ops) [CreateCall (Some ''o1'') [] demo_submission demo_stamp] empty_store, []) =
      (Inr PoolPublished, (s1, []))"
    using demo_published a by auto
  have o: "ai_organization_id demo_operator = ''acme''" "ai_role demo_operator = ''operator''"
    "ev_callback_token demo_press = Some ''tok''" "route_button demo_wiring (ca_action a) (ca_payload a) = None"
    by (simp_all add: demo_operator_def demo_press_def demo_wiring_def a route_button_def INTAKE_ACTIONS_def CONFIG_ACTIONS_def
        OPERATOR_ACTIONS_def MASTER_ACTIONS_def)
  from interrupted_button_is_finished[OF o(3,4) _ f a(4), of "''f''" 5 _ t1 None "\<lambda>call. act_lift (Inl (RuntimeError ''none'') :: unit result)"
      demo_draw "''f''" 10] a(1) o(1,2)
  show ?thesis by fastforce
qed

end
