(* ===== verification/Intake.thy ===== *)
theory Intake
  imports Pack_Store Dispatch_Service Ingress Session_Stores Staff_Binding
begin

text \<open>
  The guided conversation of a client that ends in a work order (\<open>IntakeCoordinator\<close> in
  \<open>messaging/intake.py\<close>): phone, place, services, the fields of the pack, confirmation. A state is the
  JSON object that the session store keeps. The texts of the replies are constructors, case folding and
  the notation of coordinates are arguments, and an identifier, a token, the clock and the stamp are
  drawn by each call.
\<close>

section \<open>Replies\<close>

datatype intake_text =
    NotConfigured
  | AskPhone
  | PhoneInvalid
  | AskPlace
  | PlaceTooShort
  | PlaceUnreadable
  | PlaceNotAsked
  | AskDeviceLocation
  | AskAddress
  | AddressKnown
  | MapNotAsked
  | OpenMapFirst
  | Greeting branding
  | ChooseByButton
  | StartFirst
  | ServiceUnavailable
  | MarkServices
  | ChooseOne
  | ChooseServicesFirst
  | PreviousStepsFirst
  | AskField string
  | FieldRequired string
  | IntegerWanted
  | ChoiceWanted
  | AskConfirmation "string option" "string option" "string list" "(string \<times> string) list"
  | PressConfirm
  | FieldsFirst
  | Submitted string string
  | IntakeCancelled
  | UnknownAction

type_synonym intake_reply = "intake_text \<times> reply_button list"

definition client_button :: "string \<Rightarrow> string \<Rightarrow> (string, json) dict \<Rightarrow> nat \<Rightarrow> reply_button" where
  "client_button text act payload row = \<lparr>rb_text = text, rb_action = act, rb_payload = payload,
     rb_allowed_role = Some ''client'', rb_row = int row, rb_url = None, rb_request_location = False\<rparr>"

definition CANCEL_BUTTON :: reply_button where
  "CANCEL_BUTTON = client_button ''Cancel'' ''intake_cancel'' [] 0"

definition confirm_buttons :: "reply_button list" where
  "confirm_buttons = [client_button ''Send'' ''intake_confirm'' [] 0, client_button ''Cancel'' ''intake_cancel'' [] 1]"

definition service_buttons :: "pack_definition \<Rightarrow> string list \<Rightarrow> reply_button list" where
  "service_buttons p selected =
     (let cats = cat_categories (pd_catalog p)
      in map (\<lambda>(row, c). client_button ((if sc_key c \<in> set selected then ''x '' else []) @ sc_label c)
             ''intake_pick_service'' [(''service'', JStr (sc_key c))] row) (enumerate 0 cats) @
         (if cat_multi_select (pd_catalog p)
          then [client_button ''Done'' ''intake_services_done'' [] (length cats)] else []))"

text \<open>\<open>FieldDefinition.ask\<close>\<close>

definition field_ask :: "field_def \<Rightarrow> string" where
  "field_ask f = (if fd_prompt f \<noteq> [] then fd_prompt f else ''Enter: '' @ fd_label f)"

definition ask_field :: "field_def \<Rightarrow> intake_reply" where
  "ask_field f =
     (AskField (field_ask f @ (if fd_required f then [] else '' (or - to skip)'')),
      if fd_type f = FEnum
      then map (\<lambda>(row, choice). client_button choice ''intake_field_choice'' [(''value'', JStr choice)] row)
             (enumerate 0 (fd_choices f)) @
           [client_button ''Cancel'' ''intake_cancel'' [] (length (fd_choices f))]
      else [CANCEL_BUTTON])"

definition services_reply :: "pack_definition \<Rightarrow> intake_reply" where
  "services_reply p = (Greeting (pd_branding p), service_buttons p [])"

section \<open>One call\<close>

record intake_call =
  ic_identity :: actor_identity
  ic_event :: "string option"
  ic_now :: instant
  ic_packs :: pack_table
  ic_labels :: "(string, string) dict"
  ic_base_url :: "string option"
  ic_uuid :: string
  ic_token :: string
  ic_stamp :: stamp
  ic_fold :: "string \<Rightarrow> string"
  ic_point :: "pyfloat \<Rightarrow> pyfloat \<Rightarrow> string"

definition intake_key_of :: "intake_call \<Rightarrow> intake_key" where
  "intake_key_of c = (ai_organization_id (ic_identity c), ai_actor_id (ic_identity c))"

type_synonym ('s, 'a) conversation = "(intake_key sessions \<times> 's, 'a) action"

definition intake_save :: "intake_call \<Rightarrow> state \<Rightarrow> ('s, unit) conversation" where
  "intake_save c st w =
     (Inr (), (session_put (ic_event c) (intake_key_of c) (ai_provider (ic_identity c)) st (ic_now c) (fst w), snd w))"

definition intake_forget :: "intake_call \<Rightarrow> ('s, unit) conversation" where
  "intake_forget c w = (Inr (), (session_clear (intake_key_of c) (fst w), snd w))"

definition intake_state :: "intake_call \<Rightarrow> ('s, state option) conversation" where
  "intake_state c = act_read (\<lambda>w. Inr (session_get (intake_key_of c) (fst w)))"

definition save_reply :: "intake_call \<Rightarrow> state \<Rightarrow> intake_reply \<Rightarrow> ('s, intake_reply) conversation" where
  "save_reply c st r = act_bind (intake_save c st) (\<lambda>_. act_lift (Inr r))"

definition intake_start :: "intake_call \<Rightarrow> ('s, intake_reply) conversation" where
  "intake_start c =
     act_bind (act_lift (active_revision (ic_labels c) (ai_organization_id (ic_identity c)) (ic_packs c))) (\<lambda>r.
       case r of
         None \<Rightarrow> act_lift (Inr (NotConfigured, []))
       | Some rv \<Rightarrow> save_reply c [(''step'', JStr ''phone''), (''field_values'', JObj []),
           (''submission_id'', JStr (ic_uuid c)), (''pack_version'', JInt (rv_version rv))] (AskPhone, [CANCEL_BUTTON]))"

text \<open>\<open>_pack_for_state\<close>, with the state that it may have changed.\<close>

definition state_version :: "state \<Rightarrow> int result" where
  "state_version st =
     (case as_int (get_default ''pack_version'' (JInt 0) st) of
        Inl (TypeError m) \<Rightarrow> Inr 0 | Inl (ValueError m) \<Rightarrow> Inr 0 | r \<Rightarrow> r)"

definition pack_for_state :: "intake_call \<Rightarrow> state \<Rightarrow> ('s, (pack_definition \<times> state) option) conversation" where
  "pack_for_state c st =
     (let org = ai_organization_id (ic_identity c)
      in act_bind (act_lift (state_version st)) (\<lambda>version.
           if version > 0
           then act_lift (result_bind (pack_revision_at (ic_labels c) org version (ic_packs c))
             (\<lambda>r. Inr (map_option (\<lambda>rv. (rv_definition rv, st)) r)))
           else act_bind (act_lift (active_revision (ic_labels c) org (ic_packs c))) (\<lambda>r.
             case r of
               None \<Rightarrow> act_lift (Inr None)
             | Some rv \<Rightarrow>
                 let st' = dict_put ''pack_version'' (JInt (rv_version rv)) st
                 in act_bind (intake_save c st') (\<lambda>_. act_lift (Inr (Some (rv_definition rv, st')))))))"

section \<open>Phone and place\<close>

text \<open>\<open>state.setdefault("field_values", {})[key] = value\<close>\<close>

definition put_field :: "string \<Rightarrow> string \<Rightarrow> state \<Rightarrow> state result" where
  "put_field k v st =
     (case dict_get ''field_values'' st of
        None \<Rightarrow> Inr (dict_put ''field_values'' (JObj [(k, JStr v)]) st)
      | Some (JObj d) \<Rightarrow> Inr (dict_put ''field_values'' (JObj (dict_put k (JStr v) d)) st)
      | Some _ \<Rightarrow> Inl (TypeError ''item assignment''))"

definition selected_keys :: "state \<Rightarrow> string list" where
  "selected_keys st = (case dict_get ''selected'' st of
     Some (JList xs) \<Rightarrow> concat (map (\<lambda>x. case x of JStr s \<Rightarrow> [s] | _ \<Rightarrow> []) xs) | _ \<Rightarrow> [])"

definition address_buttons :: "intake_call \<Rightarrow> state \<Rightarrow> reply_button list result" where
  "address_buttons c st =
     (let token = text_of (state_text ''address_token'' st)
      in result_bind
        (case ic_base_url c of
           Some base \<Rightarrow> if base \<noteq> [] \<and> 43 \<le> length token
             then result_bind (intake_address_url base token) (\<lambda>url. Inr
               [\<lparr>rb_text = ''Choose on the map'', rb_action = [], rb_payload = [], rb_allowed_role = None, rb_row = 1,
                  rb_url = Some url, rb_request_location = False\<rparr>,
                client_button ''Continue after the map'' ''intake_continue_after_map'' [] 2])
             else Inr []
         | None \<Rightarrow> Inr [])
        (\<lambda>map_buttons. Inr ([client_button ''Send location'' ''intake_request_location'' [] 0] @ map_buttons @
           [client_button ''Type the address'' ''intake_type_address'' [] 3, client_button ''Cancel'' ''intake_cancel'' [] 4])))"

definition phone_length :: "string \<Rightarrow> nat" where
  "phone_length v = length (filter (\<lambda>ch. ch \<noteq> CHR '' '' \<and> ch \<noteq> CHR ''-'') v)"

definition fill_phone :: "intake_call \<Rightarrow> state \<Rightarrow> string \<Rightarrow> ('s, intake_reply) conversation" where
  "fill_phone c st text =
     (let v = take 500 (str_strip text)
      in if v = [] \<or> phone_length v < 7 then act_lift (Inr (PhoneInvalid, [CANCEL_BUTTON]))
         else act_bind (act_lift (put_field ''phone'' v st)) (\<lambda>st1.
           let st2 = dict_pop ''service_location'' (dict_pop ''address_mode''
                 (dict_put ''address_token'' (JStr (ic_token c)) (dict_put ''step'' (JStr ''address'') st1)))
           in act_bind (intake_save c st2) (\<lambda>_.
              act_bind (act_lift (address_buttons c st2)) (\<lambda>bs. act_lift (Inr (AskPlace, bs))))))"

definition fill_address :: "intake_call \<Rightarrow> pack_definition \<Rightarrow> state \<Rightarrow> string \<Rightarrow> ('s, intake_reply) conversation" where
  "fill_address c p st text =
     (let v = take 500 (str_strip text)
      in if v = [] \<or> length v < 5 then act_lift (Inr (PlaceTooShort, [CANCEL_BUTTON]))
         else act_bind (act_lift (put_field ''address'' v st)) (\<lambda>st1.
           save_reply c (setdefault ''selected'' (JList []) (dict_put ''step'' (JStr ''services'')
             (dict_pop ''address_mode'' (dict_pop ''address_token'' (dict_pop ''service_location'' st1)))))
             (services_reply p)))"

section \<open>Services, fields and the confirmation\<close>

definition confirmation :: "pack_definition \<Rightarrow> state \<Rightarrow> intake_reply" where
  "confirmation p st =
     (let texts = concat (map (\<lambda>(k, v). case v of JStr s \<Rightarrow> [(k, s)] | _ \<Rightarrow> []) (field_values st));
          shown = (\<lambda>k. case dict_get k texts of None \<Rightarrow> None | Some s \<Rightarrow> if s = [] then None else Some s)
      in (AskConfirmation (shown ''phone'') (shown ''address'') (map (label_for (pd_catalog p)) (selected_keys st))
            (filter (\<lambda>(k, v). k \<noteq> ''phone'' \<and> k \<noteq> ''address'') texts), confirm_buttons))"

definition to_confirmation :: "intake_call \<Rightarrow> pack_definition \<Rightarrow> state \<Rightarrow> ('s, intake_reply) conversation" where
  "to_confirmation c p st =
     (let st' = dict_put ''step'' (JStr ''confirm'') st in save_reply c st' (confirmation p st'))"

text \<open>The first field at or after \<open>n\<close> that has no value yet; the length when there is none.\<close>

fun next_open :: "field_def list \<Rightarrow> state \<Rightarrow> nat \<Rightarrow> nat" where
  "next_open [] values n = n"
| "next_open (f # fs) values n = (if dict_get (fd_key f) values = None then n else next_open fs values (Suc n))"

definition finish_services :: "intake_call \<Rightarrow> pack_definition \<Rightarrow> state \<Rightarrow> ('s, intake_reply) conversation" where
  "finish_services c p st =
     (if selected_keys st = [] then act_lift (Inr (ChooseOne, service_buttons p []))
      else let st1 = setdefault ''field_values'' (JObj []) (dict_put ''step'' (JStr ''fields'') st);
               fields = ordered_fields p;
               start = next_open fields (field_values st1) 0
           in if start \<ge> length fields then to_confirmation c p st1
              else save_reply c (dict_put ''field_index'' (JInt (int start)) st1) (ask_field (fields ! start)))"

definition pick_service ::
  "intake_call \<Rightarrow> pack_definition \<Rightarrow> state \<Rightarrow> (string, json) dict \<Rightarrow> ('s, intake_reply) conversation" where
  "pick_service c p st payload =
     (let key = payload_text ''service'' payload; selected = selected_keys st
      in if key \<notin> set (map sc_key (cat_categories (pd_catalog p))) then act_lift (Inr (ServiceUnavailable, []))
         else if \<not> cat_multi_select (pd_catalog p)
         then finish_services c p (dict_put ''selected'' (JList [JStr key]) st)
         else let selected' = (if key \<in> set selected then remove1 key selected else selected @ [key])
              in save_reply c (dict_put ''selected'' (JList (map JStr selected')) st)
                   (MarkServices, service_buttons p selected'))"

definition normalize_field_value :: "(string \<Rightarrow> string) \<Rightarrow> field_def \<Rightarrow> string \<Rightarrow> string option" where
  "normalize_field_value casefold f v =
     (case fd_type f of
        FInteger \<Rightarrow> map_option int_str (parse_int v)
      | FEnum \<Rightarrow> find (\<lambda>choice. casefold choice = casefold v) (fd_choices f)
      | _ \<Rightarrow> Some v)"

definition field_answered :: "intake_call \<Rightarrow> pack_definition \<Rightarrow> state \<Rightarrow> nat \<Rightarrow> ('s, intake_reply) conversation" where
  "field_answered c p st index =
     (let fields = ordered_fields p;
          n = next_open (drop (Suc index) fields) (field_values st) (Suc index);
          st' = dict_put ''field_index'' (JInt (int n)) st
      in if n \<ge> length fields then to_confirmation c p st' else save_reply c st' (ask_field (fields ! n)))"

definition fill_field :: "intake_call \<Rightarrow> pack_definition \<Rightarrow> state \<Rightarrow> string \<Rightarrow> ('s, intake_reply) conversation" where
  "fill_field c p st text =
     (let fields = ordered_fields p
      in case as_int (get_default ''field_index'' (JInt 0) st) of
           Inl (ValueError m) \<Rightarrow> to_confirmation c p st
         | Inl (TypeError m) \<Rightarrow> to_confirmation c p st
         | Inl e \<Rightarrow> act_lift (Inl e)
         | Inr i \<Rightarrow>
             if i < 0 \<or> i \<ge> int (length fields) then to_confirmation c p st
             else let f = fields ! nat i; v = take 500 (str_strip text)
                  in if v = [] \<or> v = ''-''
                     then if fd_required f then act_lift (Inr (FieldRequired (field_ask f), [CANCEL_BUTTON]))
                          else field_answered c p st (nat i)
                     else case normalize_field_value (ic_fold c) f v of
                        None \<Rightarrow> if fd_type f = FInteger then act_lift (Inr (IntegerWanted, [CANCEL_BUTTON]))
                          else act_lift (Inr (ChoiceWanted, snd (ask_field f)))
                      | Some x \<Rightarrow> act_bind (act_lift (put_field (fd_key f) x st)) (\<lambda>st'. field_answered c p st' (nat i)))"

text \<open>The order that a confirmed conversation submits.\<close>

definition intake_details :: "pack_definition \<Rightarrow> state \<Rightarrow> (string, json) dict" where
  "intake_details p st =
     (let selected = selected_keys st;
          base = [(''services'', JList (map (\<lambda>k. JStr (label_for (pd_catalog p) k)) selected)),
             (''service_keys'', JList (map JStr selected)), (''pack_version'', get_default ''pack_version'' JNull st)];
          d = update_dict base (field_values st)
      in case dict_get ''service_location'' st of Some (JObj l) \<Rightarrow> dict_put ''service_location'' (JObj l) d | _ \<Rightarrow> d)"

definition intake_submission :: "intake_call \<Rightarrow> pack_definition \<Rightarrow> state \<Rightarrow> string \<Rightarrow> submission" where
  "intake_submission c p st submission_id =
     \<lparr>sub_order_id = submission_id, sub_organization_id = ai_organization_id (ic_identity c),
      sub_work_type = str_join '','' (selected_keys st),
      sub_source = ai_provider (ic_identity c) @ '':'' @ ai_external_user_id (ic_identity c),
      sub_details = intake_details p st, sub_requester_id = Some (ai_actor_id (ic_identity c)),
      sub_evidence = Some (pd_evidence p)\<rparr>"

definition on_orders :: "('s, 'a) action \<Rightarrow> ('s, 'a) conversation" where
  "on_orders f w = (let (r, s') = f (snd w) in (r, (fst w, s')))"

definition submit_intake ::
  "('s, 'u, 'z) uow_ops_scheme \<Rightarrow> intake_call \<Rightarrow> pack_definition \<Rightarrow> state \<Rightarrow> string \<Rightarrow> ('s, intake_reply) conversation" where
  "submit_intake ops c p st submission_id =
     act_bind (on_orders (create_order_once ops (intake_submission c p st submission_id) (ic_stamp c))) (\<lambda>w.
     act_bind (intake_forget c) (\<lambda>_. act_lift (Inr (Submitted (wo_public_number w)
       (case dict_get ''operator'' (pd_role_labels p) of None \<Rightarrow> ''Operator'' | Some l \<Rightarrow> if l = [] then ''Operator'' else l), []))))"

definition intake_confirm ::
  "('s, 'u, 'z) uow_ops_scheme \<Rightarrow> intake_call \<Rightarrow> pack_definition \<Rightarrow> state \<Rightarrow> ('s, intake_reply) conversation" where
  "intake_confirm ops c p st =
     (if selected_keys st = [] then intake_start c
      else case state_text ''submission_id'' st of
          Some sid \<Rightarrow>
            if sid \<noteq> [] then submit_intake ops c p st sid
            else act_bind (intake_save c (dict_put ''submission_id'' (JStr (ic_uuid c)) st))
              (\<lambda>_. submit_intake ops c p (dict_put ''submission_id'' (JStr (ic_uuid c)) st) (ic_uuid c))
        | None \<Rightarrow> act_bind (intake_save c (dict_put ''submission_id'' (JStr (ic_uuid c)) st))
              (\<lambda>_. submit_intake ops c p (dict_put ''submission_id'' (JStr (ic_uuid c)) st) (ic_uuid c)))"

section \<open>What the client sends\<close>

datatype intake_input =
    InStart
  | InText string
  | InButton string "(string, json) dict"
  | InPoint pyfloat pyfloat string "string option"

definition with_pack ::
  "intake_call \<Rightarrow> (pack_definition \<Rightarrow> state \<Rightarrow> ('s, intake_reply) conversation) \<Rightarrow> ('s, intake_reply) conversation" where
  "with_pack c f =
     act_bind (intake_state c) (\<lambda>st.
       case st of
         None \<Rightarrow> intake_start c
       | Some st \<Rightarrow> act_bind (pack_for_state c st) (\<lambda>r.
           case r of None \<Rightarrow> act_lift (Inr (NotConfigured, [])) | Some (p, st') \<Rightarrow> f p st'))"

definition at_step :: "state \<Rightarrow> string list \<Rightarrow> bool" where
  "at_step st steps \<longleftrightarrow> (\<exists>s \<in> set steps. state_text ''step'' st = Some s)"

definition intake_text_step ::
  "intake_call \<Rightarrow> string \<Rightarrow> pack_definition \<Rightarrow> state \<Rightarrow> ('s, intake_reply) conversation" where
  "intake_text_step c text p st =
     (if at_step st [''phone''] then fill_phone c st text
      else if at_step st [''address''] then fill_address c p st text
      else if at_step st [''fields''] then fill_field c p st text
      else if at_step st [''confirm''] then act_lift (Inr (PressConfirm, confirm_buttons))
      else act_lift (Inr (ChooseByButton, service_buttons p (selected_keys st))))"

definition intake_button_step ::
  "('s, 'u, 'z) uow_ops_scheme \<Rightarrow> intake_call \<Rightarrow> string \<Rightarrow> (string, json) dict \<Rightarrow> pack_definition \<Rightarrow> state \<Rightarrow>
   ('s, intake_reply) conversation" where
  "intake_button_step ops c act payload p st =
     (if act = ''intake_request_location'' then
        if \<not> at_step st [''address''] then act_lift (Inr (PlaceNotAsked, []))
        else save_reply c (dict_put ''address_mode'' (JStr ''native'') st) (AskDeviceLocation,
          [\<lparr>rb_text = ''Send location'', rb_action = [], rb_payload = [], rb_allowed_role = None, rb_row = 0, rb_url = None,
            rb_request_location = True\<rparr>])
      else if act = ''intake_type_address'' then
        if \<not> at_step st [''address''] then act_lift (Inr (AddressKnown, []))
        else save_reply c (dict_put ''address_mode'' (JStr ''text'') st) (AskAddress, [CANCEL_BUTTON])
      else if act = ''intake_continue_after_map'' then
        if at_step st [''services''] then act_lift (Inr (services_reply p))
        else if \<not> at_step st [''address''] then act_lift (Inr (MapNotAsked, []))
        else act_bind (act_lift (address_buttons c st)) (\<lambda>bs. act_lift (Inr (OpenMapFirst, bs)))
      else if act = ''intake_pick_service'' then
        if \<not> at_step st [''services'', ''fields'', ''confirm'']
        then act_lift (Inr (StartFirst, service_buttons p (selected_keys st)))
        else pick_service c p st payload
      else if act = ''intake_field_choice'' then
        if \<not> at_step st [''fields''] then act_lift (Inr (PreviousStepsFirst, []))
        else fill_field c p st (payload_text ''value'' payload)
      else if act = ''intake_services_done'' then
        if \<not> at_step st [''services''] then act_lift (Inr (ChooseServicesFirst, service_buttons p (selected_keys st)))
        else finish_services c p st
      else if act = ''intake_confirm'' then
        if \<not> at_step st [''confirm''] then act_lift (Inr (FieldsFirst, [])) else intake_confirm ops c p st
      else act_lift (Inr (UnknownAction, [])))"

definition point_ok :: "pyfloat \<Rightarrow> pyfloat \<Rightarrow> bool" where
  "point_ok lat lon \<longleftrightarrow> fl_isfinite lat \<and> fl_isfinite lon \<and> fl_between (-90) lat 90 \<and> fl_between (-180) lon 180"

definition point_label :: "intake_call \<Rightarrow> pyfloat \<Rightarrow> pyfloat \<Rightarrow> string" where
  "point_label c lat lon = ''Point on the map: '' @ ic_point c lat lon"

definition intake_point_step ::
  "intake_call \<Rightarrow> pyfloat \<Rightarrow> pyfloat \<Rightarrow> string \<Rightarrow> string option \<Rightarrow> pack_definition \<Rightarrow> state \<Rightarrow>
   ('s, intake_reply) conversation" where
  "intake_point_step c lat lon method address p st =
     (if \<not> at_step st [''address''] then act_lift (Inr (PlaceNotAsked, []))
      else let given = take 500 (str_strip (text_of address));
               label = (if given = [] then point_label c lat lon else given)
           in act_bind (act_lift (put_field ''address'' label st)) (\<lambda>st1.
             save_reply c (dict_pop ''address_mode'' (dict_pop ''address_token'' (setdefault ''selected'' (JList [])
               (dict_put ''step'' (JStr ''services'') (dict_put ''service_location''
                 (JObj [(''latitude'', JFloat lat), (''longitude'', JFloat lon), (''method'', JStr method)]) st1)))))
               (services_reply p)))"

fun intake_handle ::
  "('s, 'u, 'z) uow_ops_scheme \<Rightarrow> intake_call \<Rightarrow> intake_input \<Rightarrow> ('s, intake_reply) conversation" where
  "intake_handle ops c InStart = intake_start c"
| "intake_handle ops c (InText text) = with_pack c (intake_text_step c text)"
| "intake_handle ops c (InButton act payload) =
     (if act = ''intake_cancel'' then act_bind (intake_forget c) (\<lambda>_. act_lift (Inr (IntakeCancelled, [])))
      else with_pack c (intake_button_step ops c act payload))"
| "intake_handle ops c (InPoint lat lon method address) =
     (if \<not> point_ok lat lon then act_lift (Inr (PlaceUnreadable, []))
      else with_pack c (intake_point_step c lat lon method address))"

end
