(* ===== verification/Intake_Laws.thy ===== *)
theory Intake_Laws
  imports Intake Service_Properties
begin

text \<open>
  What the conversation of a client gathers: an invariant of the stored states that every step of
  \<open>Intake\<close> keeps, the pack versions that stay published while a conversation runs, and the order that
  is submitted in the end.
\<close>

section \<open>What a conversation has gathered\<close>

definition accepts :: "field_def \<Rightarrow> string \<Rightarrow> bool" where
  "accepts f s \<longleftrightarrow>
     (case fd_type f of
        FInteger \<Rightarrow> (\<exists>n. s = int_str n)
      | FEnum \<Rightarrow> s \<in> set (fd_choices f)
      | _ \<Rightarrow> s \<noteq> [] \<and> s \<noteq> ''-'')"

definition value_ok :: "pack_definition \<Rightarrow> string \<Rightarrow> string \<Rightarrow> bool" where
  "value_ok p k s \<longleftrightarrow>
     (if k = ''phone'' then 7 \<le> phone_length s else if k = ''address'' then s \<noteq> []
      else \<exists>f \<in> set (pd_fields p). fd_key f = k \<and> accepts f s)"

definition values_ok :: "pack_definition \<Rightarrow> (string, json) dict \<Rightarrow> bool" where
  "values_ok p d \<longleftrightarrow> dict_ok d \<and> (\<forall>k x. dict_get k d = Some x \<longrightarrow> (\<exists>s. x = JStr s \<and> value_ok p k s))"

definition services_chosen :: "pack_definition \<Rightarrow> state \<Rightarrow> bool" where
  "services_chosen p st \<longleftrightarrow> (\<exists>ks. dict_get ''selected'' st = Some (JList (map JStr ks)) \<and>
     set ks \<subseteq> set (map sc_key (cat_categories (pd_catalog p))))"

definition answered_before :: "field_def list \<Rightarrow> (string, json) dict \<Rightarrow> nat \<Rightarrow> bool" where
  "answered_before fs d n \<longleftrightarrow> (\<forall>j < n. fd_required (fs ! j) \<longrightarrow> dict_get (fd_key (fs ! j)) d \<noteq> None)"

definition step_ok :: "pack_definition \<Rightarrow> string \<Rightarrow> (string, json) dict \<Rightarrow> state \<Rightarrow> bool" where
  "step_ok p step d st \<longleftrightarrow> step = ''phone'' \<or>
     dict_get ''phone'' d \<noteq> None \<and>
       (step = ''address'' \<and> (\<exists>tok. dict_get ''address_token'' st = Some (JStr tok)) \<or>
        dict_get ''address'' d \<noteq> None \<and> services_chosen p st \<and>
          (step = ''services'' \<or>
           step = ''fields'' \<and> (\<exists>i. dict_get ''field_index'' st = Some (JInt (int i)) \<and> i < length (ordered_fields p) \<and>
             dict_get (fd_key (ordered_fields p ! i)) d = None \<and> answered_before (ordered_fields p) d i) \<or>
           step = ''confirm'' \<and> answered_before (ordered_fields p) d (length (ordered_fields p))))"

definition conversation_ok :: "pack_definition \<Rightarrow> int \<Rightarrow> state \<Rightarrow> bool" where
  "conversation_ok p v st \<longleftrightarrow> dict_get ''pack_version'' st = Some (JInt v) \<and>
     (dict_get ''selected'' st = None \<or> services_chosen p st) \<and>
     (\<exists>d step. dict_get ''field_values'' st = Some (JObj d) \<and> dict_get ''step'' st = Some (JStr step) \<and>
        values_ok p d \<and> step_ok p step d st)"

definition keeps :: "intake_call \<Rightarrow> pack_definition \<Rightarrow> int \<Rightarrow> intake_key sessions \<times> 's \<Rightarrow> intake_key sessions \<times> 's \<Rightarrow> bool" where
  "keeps c p v w w' \<longleftrightarrow> snd w' = snd w \<and> (fst w' = fst w \<or>
     (\<exists>st. conversation_ok p v st \<and>
        fst w' = session_put (ic_event c) (intake_key_of c) (ai_provider (ic_identity c)) st (ic_now c) (fst w)))"

lemma keeps_refl [simp]: "keeps c p v w w"
  by (simp add: keeps_def)

lemma save_keeps: "conversation_ok p v st \<Longrightarrow> keeps c p v w (snd (save_reply c st r w))"
  by (auto simp: keeps_def save_reply_def intake_save_def act_bind_def act_lift_def)

lemma dict_get_pop: "dict_get k (dict_pop j d) = (if k = j then None else dict_get k d)"
  by (simp add: delete_conv')

lemma dict_get_setdefault: "dict_get k (setdefault j v d) = (if k = j \<and> dict_get j d = None then Some v else dict_get k d)"
  by (auto simp: setdefault_def split: option.splits)

lemma at_step_iff [simp]: "dict_get ''step'' st = Some (JStr s) \<Longrightarrow> at_step st steps \<longleftrightarrow> s \<in> set steps"
  by (auto simp: at_step_def state_text_def)

lemmas conversation_defs = conversation_ok_def step_ok_def services_chosen_def dict_get_pop dict_get_setdefault

lemma values_ok_put: "values_ok p d \<Longrightarrow> value_ok p k s \<Longrightarrow> values_ok p (dict_put k (JStr s) d)"
  by (auto simp: values_ok_def dict_get_put split: if_splits)

lemma put_field_values: "dict_get ''field_values'' st = Some (JObj d) \<Longrightarrow>
    put_field k s st = Inr (dict_put ''field_values'' (JObj (dict_put k (JStr s) d)) st)"
  by (simp add: put_field_def)

lemma fill_phone_keeps:
  assumes "conversation_ok p v st"
  shows "keeps c p v w (snd (fill_phone c st text w))"
proof -
  obtain d step where d: "dict_get ''pack_version'' st = Some (JInt v)" "dict_get ''field_values'' st = Some (JObj d)"
    "values_ok p d" using assms by (auto simp: conversation_ok_def)
  let ?x = "take 500 (str_strip text)"
  let ?st = "dict_pop ''service_location'' (dict_pop ''address_mode'' (dict_put ''address_token'' (JStr (ic_token c))
    (dict_put ''step'' (JStr ''address'') (dict_put ''field_values'' (JObj (dict_put ''phone'' (JStr ?x) d)) st))))"
  have ok: "conversation_ok p v ?st" if "7 \<le> phone_length ?x"
    using d that values_ok_put[OF d(3), of "''phone''" ?x] assms by (auto simp: conversation_defs value_ok_def)
  show ?thesis
  proof (cases "?x = [] \<or> phone_length ?x < 7")
    case True
    then show ?thesis by (simp add: fill_phone_def Let_def act_lift_def)
  next
    case False
    then have "snd (fill_phone c st text w) = snd (intake_save c ?st w)"
      by (auto simp: fill_phone_def Let_def put_field_values[OF d(2)] act_bind_def act_lift_def intake_save_def split: sum.splits)
    then show ?thesis using ok False by (auto simp: keeps_def intake_save_def)
  qed
qed


lemma save_reply_snd [simp]: "snd (save_reply c st r w) =
    (session_put (ic_event c) (intake_key_of c) (ai_provider (ic_identity c)) st (ic_now c) (fst w), snd w)"
  by (simp add: save_reply_def intake_save_def act_bind_def act_lift_def)

lemma keeps_save: "conversation_ok p v st \<Longrightarrow> keeps c p v w
    (session_put (ic_event c) (intake_key_of c) (ai_provider (ic_identity c)) st (ic_now c) (fst w), snd w)"
  by (auto simp: keeps_def)

lemma fill_address_keeps:
  assumes ok: "conversation_ok p v st" and step: "at_step st [''address'']"
  shows "keeps c p v w (snd (fill_address c p st text w))"
proof -
  obtain d where d: "dict_get ''pack_version'' st = Some (JInt v)" "dict_get ''field_values'' st = Some (JObj d)"
    "values_ok p d" "dict_get ''phone'' d \<noteq> None"
    using ok step by (auto simp: conversation_ok_def step_ok_def)
  let ?x = "take 500 (str_strip text)"
  let ?st = "setdefault ''selected'' (JList []) (dict_put ''step'' (JStr ''services'')
    (dict_pop ''address_mode'' (dict_pop ''address_token'' (dict_pop ''service_location''
      (dict_put ''field_values'' (JObj (dict_put ''address'' (JStr ?x) d)) st)))))"
  show ?thesis
  proof (cases "?x = [] \<or> length ?x < 5")
    case True
    then show ?thesis by (simp add: fill_address_def Let_def act_lift_def)
  next
    case False
    have "conversation_ok p v ?st"
      using d values_ok_put[OF d(3), of "''address''" ?x] False ok
      by (auto simp: conversation_defs value_ok_def)
    then show ?thesis using False
      by (auto simp: fill_address_def Let_def put_field_values[OF d(2)] act_bind_def act_lift_def intro!: keeps_save)
  qed
qed


lemma to_confirmation_keeps:
  "conversation_ok p v (dict_put ''step'' (JStr ''confirm'') st) \<Longrightarrow> keeps c p v w (snd (to_confirmation c p st w))"
  by (auto simp: to_confirmation_def Let_def intro!: keeps_save)

lemma next_open_le: "n \<le> next_open fs d n \<and> next_open fs d n \<le> n + length fs"
  by (induction fs d n rule: next_open.induct) auto

lemma next_open_stops:
  "next_open fs d n < n + length fs \<Longrightarrow> dict_get (fd_key (fs ! (next_open fs d n - n))) d = None"
proof (induction fs d n rule: next_open.induct)
  case (2 f fs d n)
  then show ?case using next_open_le[of "Suc n" fs d] by (auto simp: nth_Cons' split: if_splits)
qed simp

lemma next_open_skips:
  "j < next_open fs d n - n \<Longrightarrow> dict_get (fd_key (fs ! j)) d \<noteq> None"
proof (induction fs d n arbitrary: j rule: next_open.induct)
  case (2 f fs d n)
  then show ?case using next_open_le[of "Suc n" fs d] by (cases j) (auto split: if_splits)
qed simp

lemma finish_services_keeps:
  assumes ok: "conversation_ok p v st" and step: "at_step st [''services'', ''fields'', ''confirm'']"
  shows "keeps c p v w (snd (finish_services c p st w))"
proof -
  let ?st1 = "setdefault ''field_values'' (JObj []) (dict_put ''step'' (JStr ''fields'') st)"
  obtain d where d: "dict_get ''pack_version'' st = Some (JInt v)" "dict_get ''field_values'' st = Some (JObj d)"
    "values_ok p d" "dict_get ''phone'' d \<noteq> None" "dict_get ''address'' d \<noteq> None" "services_chosen p st"
    using ok step by (auto simp: conversation_ok_def step_ok_def)
  let ?n = "next_open (ordered_fields p) d 0"
  have fv: "field_values ?st1 = d" using d(2) by (simp add: field_values_def dict_get_setdefault)
  have before: "answered_before (ordered_fields p) d ?n"
    using next_open_skips[where n = 0] by (simp add: answered_before_def)
  have conf: "conversation_ok p v (dict_put ''step'' (JStr ''confirm'') ?st1)" if "length (ordered_fields p) \<le> ?n"
    using d before that next_open_le[of 0 "ordered_fields p" d] by (auto simp: conversation_defs)
  have fields: "conversation_ok p v (dict_put ''field_index'' (JInt (int ?n)) ?st1)" if "?n < length (ordered_fields p)"
    using d before that next_open_stops[of "ordered_fields p" d 0] by (auto simp: conversation_defs)
  show ?thesis using conf fields
    by (auto simp: finish_services_def Let_def fv act_lift_def intro!: keeps_save to_confirmation_keeps)
qed

lemma selected_keys_JStr [simp]:
  "selected_keys (dict_put ''selected'' (JList (map JStr ks)) st) = ks"
  "dict_get ''selected'' st = Some (JList (map JStr ks)) \<Longrightarrow> selected_keys st = ks"
proof -
  have "concat (map (\<lambda>x. case x of JStr s \<Rightarrow> [s] | _ \<Rightarrow> []) (map JStr ks)) = ks" by (induction ks) auto
  then show "selected_keys (dict_put ''selected'' (JList (map JStr ks)) st) = ks"
    "dict_get ''selected'' st = Some (JList (map JStr ks)) \<Longrightarrow> selected_keys st = ks"
    by (simp_all add: selected_keys_def)
qed

lemma conversation_ok_other:
  assumes "conversation_ok p v st" and "services_chosen p st' \<or> dict_get ''selected'' st' = dict_get ''selected'' st"
    and "\<And>k. k \<in> {''pack_version'', ''field_values'', ''step'', ''address_token'', ''field_index''} \<Longrightarrow>
      dict_get k st' = dict_get k st"
  shows "conversation_ok p v st'"
proof -
  have sel: "services_chosen p st \<longrightarrow> services_chosen p st'" using assms(2) by (auto simp: services_chosen_def)
  note eqs = assms(3)[of "''pack_version''"] assms(3)[of "''field_values''"] assms(3)[of "''step''"]
    assms(3)[of "''address_token''"] assms(3)[of "''field_index''"]
  have eq: "dict_get ''pack_version'' st' = dict_get ''pack_version'' st" "dict_get ''field_values'' st' = dict_get ''field_values'' st"
    "dict_get ''step'' st' = dict_get ''step'' st" "dict_get ''address_token'' st' = dict_get ''address_token'' st"
    "dict_get ''field_index'' st' = dict_get ''field_index'' st"
    by (rule eqs; simp)+
  have "step_ok p s d st \<longrightarrow> step_ok p s d st'" for s d
    unfolding step_ok_def eq by (intro impI, elim disjE conjE; use sel in \<open>simp; fail\<close>)
  moreover have "dict_get ''selected'' st' = None \<or> services_chosen p st'"
    using assms(1,2) sel unfolding conversation_ok_def by auto
  ultimately show ?thesis using assms(1) unfolding conversation_ok_def eq by blast
qed

lemma conversation_ok_selected:
  assumes "conversation_ok p v st" and "set ks \<subseteq> set (map sc_key (cat_categories (pd_catalog p)))"
  shows "conversation_ok p v (dict_put ''selected'' (JList (map JStr ks)) st)"
  by (rule conversation_ok_other[OF assms(1)]) (use assms(2) in \<open>auto simp: services_chosen_def\<close>)

lemma pick_service_keeps:
  assumes ok: "conversation_ok p v st" and step: "at_step st [''services'', ''fields'', ''confirm'']"
  shows "keeps c p v w (snd (pick_service c p st payload w))"
proof -
  let ?key = "payload_text ''service'' payload"
  obtain ks where ks: "dict_get ''selected'' st = Some (JList (map JStr ks))"
    "set ks \<subseteq> set (map sc_key (cat_categories (pd_catalog p)))"
    using ok step by (auto simp: conversation_ok_def step_ok_def services_chosen_def)
  let ?ks = "if ?key \<in> set ks then remove1 ?key ks else ks @ [?key]"
  have one: "keeps c p v w (snd (finish_services c p (dict_put ''selected'' (JList [JStr ?key]) st) w))"
    if "?key \<in> set (map sc_key (cat_categories (pd_catalog p)))"
    using conversation_ok_selected[OF ok, of "[?key]"] that step
    by (intro finish_services_keeps) (auto simp: at_step_def state_text_def)
  have many: "conversation_ok p v (dict_put ''selected'' (JList (map JStr ?ks)) st)"
    if "?key \<in> set (map sc_key (cat_categories (pd_catalog p)))"
    using ks that by (intro conversation_ok_selected[OF ok]) (auto dest: set_mp[OF set_remove1_subset])
  show ?thesis using one many ks(1)
    by (auto simp: pick_service_def Let_def act_lift_def intro!: keeps_save)
qed




lemma in_ordered_fields: "f \<in> set (ordered_fields p) \<longleftrightarrow> f \<in> set (pd_fields p)"
  by (simp add: ordered_fields_def)

lemma normalized_is_accepted:
  "normalize_field_value casefold f x = Some y \<Longrightarrow> x \<noteq> [] \<Longrightarrow> x \<noteq> ''-'' \<Longrightarrow> accepts f y"
  by (auto simp: normalize_field_value_def accepts_def dest: find_SomeD split: field_type.splits)

lemma answered_before_mono:
  "answered_before fs d n \<Longrightarrow> (\<And>k. dict_get k d \<noteq> None \<Longrightarrow> dict_get k d' \<noteq> None) \<Longrightarrow> answered_before fs d' n"
  by (auto simp: answered_before_def)

text \<open>Going on from an answered field; the values are those of \<open>d\<close>.\<close>

lemma field_answered_keeps:
  assumes st: "dict_get ''pack_version'' st = Some (JInt v)" "dict_get ''field_values'' st = Some (JObj d)"
      "services_chosen p st" "dict_get ''step'' st = Some (JStr ''fields'')"
    and d: "values_ok p d" "dict_get ''phone'' d \<noteq> None" "dict_get ''address'' d \<noteq> None"
    and before: "answered_before (ordered_fields p) d i" "i < length (ordered_fields p)"
      "fd_required (ordered_fields p ! i) \<longrightarrow> dict_get (fd_key (ordered_fields p ! i)) d \<noteq> None"
  shows "keeps c p v w (snd (field_answered c p st i w))"
proof -
  let ?fs = "ordered_fields p"
  let ?n = "next_open (drop (Suc i) ?fs) d (Suc i)"
  have fv: "field_values st = d" using st(2) by (simp add: field_values_def)
  have "answered_before ?fs d ?n"
    unfolding answered_before_def
  proof (intro allI impI)
    fix j assume j: "j < ?n" "fd_required (?fs ! j)"
    show "dict_get (fd_key (?fs ! j)) d \<noteq> None"
    proof (cases "j \<le> i")
      case True
      then show ?thesis using before j(2) by (cases "j = i") (auto simp: answered_before_def)
    next
      case False
      then have "dict_get (fd_key (drop (Suc i) ?fs ! (j - Suc i))) d \<noteq> None"
        using j(1) by (intro next_open_skips[where n = "Suc i"]) simp
      then show ?thesis using False before(2) j(1) next_open_le[of "Suc i" "drop (Suc i) ?fs" d] by simp
    qed
  qed
  note n = this next_open_le[of "Suc i" "drop (Suc i) ?fs" d]
  let ?st = "dict_put ''field_index'' (JInt (int ?n)) st"
  have conf: "conversation_ok p v (dict_put ''step'' (JStr ''confirm'') ?st)" if "length ?fs \<le> ?n"
  proof -
    have "?n = length ?fs" using n(2) that before(2) by simp
    with n(1) have "answered_before ?fs d (length ?fs)" by simp
    with st d show ?thesis by (auto simp: conversation_defs)
  qed
  have more: "conversation_ok p v ?st" if "?n < length ?fs"
  proof -
    have "dict_get (fd_key (drop (Suc i) ?fs ! (?n - Suc i))) d = None"
      using that before(2) by (intro next_open_stops) simp
    with that n(2) have "dict_get (fd_key (?fs ! ?n)) d = None" by simp
    with st d n(1) that show ?thesis by (auto simp: conversation_defs)
  qed
  show ?thesis using conf more
    by (auto simp: field_answered_def Let_def fv act_lift_def intro!: keeps_save to_confirmation_keeps)
qed

lemma fill_field_keeps:
  assumes ok: "conversation_ok p v st" and step: "at_step st [''fields'']"
  shows "keeps c p v w (snd (fill_field c p st text w))"
proof -
  obtain d i where d: "dict_get ''pack_version'' st = Some (JInt v)" "dict_get ''field_values'' st = Some (JObj d)"
    "values_ok p d" "dict_get ''phone'' d \<noteq> None" "dict_get ''address'' d \<noteq> None" "services_chosen p st"
    "dict_get ''step'' st = Some (JStr ''fields'')"
    and i: "dict_get ''field_index'' st = Some (JInt (int i))" "i < length (ordered_fields p)"
    "dict_get (fd_key (ordered_fields p ! i)) d = None" "answered_before (ordered_fields p) d i"
    using ok step by (auto simp: conversation_ok_def step_ok_def)
  let ?f = "ordered_fields p ! i" and ?x = "take 500 (str_strip text)"
  have index: "as_int (get_default ''field_index'' (JInt 0) st) = Inr (int i)" using i(1) by (simp add: get_default_def)
  show ?thesis
  proof (cases "?x = [] \<or> ?x = ''-''")
    case True
    then show ?thesis using i(2) d(1-7) i(4)
      by (auto simp: fill_field_def Let_def index act_lift_def intro!: field_answered_keeps)
  next
    case False
    show ?thesis
    proof (cases "normalize_field_value (ic_fold c) ?f ?x")
      case None
      then show ?thesis using False i(2) by (auto simp: fill_field_def Let_def index act_lift_def)
    next
      case (Some y)
      have "accepts ?f y" using normalized_is_accepted[OF Some] False by auto
      moreover have "fd_key ?f \<noteq> ''phone''" "fd_key ?f \<noteq> ''address''" using d i(3) by auto
      moreover have "?f \<in> set (pd_fields p)" using i(2) by (simp add: in_ordered_fields[symmetric])
      ultimately have "value_ok p (fd_key ?f) y" by (auto simp: value_ok_def)
      then have vals: "values_ok p (dict_put (fd_key ?f) (JStr y) d)" using values_ok_put[OF d(3)] by simp
      let ?d = "dict_put (fd_key ?f) (JStr y) d" and ?st = "dict_put ''field_values'' (JObj (dict_put (fd_key ?f) (JStr y) d)) st"
      have "keeps c p v w (snd (field_answered c p ?st i w))"
      proof (rule field_answered_keeps[OF _ _ _ _ vals])
        show "answered_before (ordered_fields p) ?d i"
          by (rule answered_before_mono[OF i(4)]) (simp add: dict_get_put)
        show "services_chosen p ?st" using d(6) by (simp add: services_chosen_def)
      qed (use d i in \<open>simp_all add: dict_get_put\<close>)
      then show ?thesis using False Some i(2)
        by (auto simp: fill_field_def Let_def index put_field_values[OF d(2)] act_bind_def act_lift_def)
    qed
  qed
qed

lemma point_step_keeps:
  assumes ok: "conversation_ok p v st"
  shows "keeps c p v w (snd (intake_point_step c lat lon method address p st w))"
proof (cases "at_step st [''address'']")
  case True
  then obtain d where d: "dict_get ''pack_version'' st = Some (JInt v)" "dict_get ''field_values'' st = Some (JObj d)"
    "values_ok p d" "dict_get ''phone'' d \<noteq> None" "dict_get ''selected'' st = None \<or> services_chosen p st"
    using ok by (auto simp: conversation_ok_def step_ok_def)
  define label where "label = (if take 500 (str_strip (text_of address)) = [] then point_label c lat lon
    else take 500 (str_strip (text_of address)))"
  have l: "label \<noteq> []" by (simp add: label_def point_label_def)
  define st' where "st' = dict_pop ''address_mode'' (dict_pop ''address_token'' (setdefault ''selected'' (JList [])
    (dict_put ''step'' (JStr ''services'') (dict_put ''service_location''
      (JObj [(''latitude'', JFloat lat), (''longitude'', JFloat lon), (''method'', JStr method)])
      (dict_put ''field_values'' (JObj (dict_put ''address'' (JStr label) d)) st)))))"
  have "values_ok p (dict_put ''address'' (JStr label) d)"
    using d(3) l by (auto intro: values_ok_put simp: value_ok_def)
  then have "conversation_ok p v st'"
    using d unfolding st'_def by (auto simp: conversation_defs)
  from keeps_save[OF this, of c w] True show ?thesis
    by (simp add: intake_point_step_def Let_def put_field_values[OF d(2)] act_bind_def act_lift_def st'_def label_def)
qed (simp add: intake_point_step_def act_lift_def)

lemma text_step_keeps:
  "conversation_ok p v st \<Longrightarrow> keeps c p v w (snd (intake_text_step c text p st w))"
  by (auto simp: intake_text_step_def act_lift_def intro: fill_phone_keeps fill_address_keeps fill_field_keeps)

lemma address_mode_keeps:
  "conversation_ok p v st \<Longrightarrow> conversation_ok p v (dict_put ''address_mode'' x st)"
  by (erule conversation_ok_other) (auto simp: services_chosen_def)

lemma button_step_keeps:
  assumes "conversation_ok p v st" and "act \<noteq> ''intake_confirm'' \<or> \<not> at_step st [''confirm'']"
  shows "keeps c p v w (snd (intake_button_step ops c act payload p st w))"
proof -
  have bs: "snd (act_bind (act_lift (address_buttons c st)) (\<lambda>bs. act_lift (Inr (OpenMapFirst, bs))) w) = w"
    by (cases "address_buttons c st") (auto simp: act_bind_def act_lift_def)
  have sel: "at_step st [''services''] \<Longrightarrow> at_step st [''services'', ''fields'', ''confirm'']" by (auto simp: at_step_def)
  show ?thesis
    unfolding intake_button_step_def
    using assms bs sel
    by (simp add: act_lift_def address_mode_keeps pick_service_keeps fill_field_keeps finish_services_keeps keeps_save
        del: at_step_iff)
qed

definition session_moves ::
  "intake_call \<Rightarrow> (state \<Rightarrow> bool) \<Rightarrow> intake_key sessions \<Rightarrow> intake_key sessions \<Rightarrow> bool" where
  "session_moves c Q t t' \<longleftrightarrow> (dict_ok t \<longrightarrow> dict_ok t') \<and>
     (\<forall>k. k \<noteq> intake_key_of c \<longrightarrow> session_get k t' = session_get k t) \<and>
     (session_get (intake_key_of c) t' = session_get (intake_key_of c) t \<or> session_get (intake_key_of c) t' = None \<or>
      (\<exists>st. Q st \<and> session_get (intake_key_of c) t' = Some (state_with_session_event (ic_event c) st)))"

lemma session_dict_ok [simp]:
  "dict_ok t \<Longrightarrow> dict_ok (session_put e k pr st now t)" "dict_ok t \<Longrightarrow> dict_ok (session_clear k t)"
  by (simp_all add: session_put_def session_clear_def)

lemma session_moves_refl [simp]: "session_moves c Q t t"
  by (simp add: session_moves_def)

lemma session_moves_put:
  "Q st \<Longrightarrow> session_moves c Q t (session_put (ic_event c) (intake_key_of c) pr st now t)"
  by (auto simp: session_moves_def session_laws)

lemma session_moves_clear: "session_moves c Q t (session_clear (intake_key_of c) t)"
  by (auto simp: session_moves_def session_laws)

lemma session_moves_put_clear:
  "session_moves c Q t (session_clear (intake_key_of c) (session_put e (intake_key_of c) pr st now t))"
  by (auto simp: session_moves_def session_laws)

lemma keeps_moves:
  "keeps c p v w w' \<Longrightarrow> (\<And>st. conversation_ok p v st \<Longrightarrow> Q st) \<Longrightarrow> session_moves c Q (fst w) (fst w') \<and> snd w' = snd w"
  unfolding keeps_def by (elim conjE disjE exE; simp) (rule session_moves_put; simp)

section \<open>Packs that stay published\<close>

definition pinned :: "(string, string) dict \<Rightarrow> pack_table \<Rightarrow> string \<Rightarrow> int \<Rightarrow> pack_definition \<Rightarrow> bool" where
  "pinned labels pk org v p \<longleftrightarrow> 0 < v \<and>
     (\<exists>rv. pack_revision_at labels org v pk = Inr (Some rv) \<and> rv_definition rv = p)"

lemma published_row:
  assumes "pack_constraints pk"
  shows "find (published org v) pk = Some r \<longleftrightarrow> r \<in> set pk \<and> published org v r"
proof -
  have u: "unique_on (\<lambda>_. True) (\<lambda>r. (pk_organization_id r, pk_version r)) pk"
    using assms by (simp add: pack_constraints_def)
  have same: "a = b" if "a \<in> set pk" "b \<in> set pk" "published org v a" "published org v b" for a b
    using unique_on_eq[OF u that(1,2)] that(3,4) by (simp add: published_def at_version_def)
  show ?thesis
  proof (cases "find (published org v) pk")
    case None
    then have "\<forall>r\<in>set pk. \<not> published org v r" by (simp add: find_None_all)
    with None show ?thesis by auto
  next
    case (Some x)
    then show ?thesis using find_SomeD[OF Some] same by fastforce
  qed
qed

lemma pinned_row:
  assumes "pack_constraints pk"
  shows "pinned labels pk org v p \<longleftrightarrow>
    0 < v \<and> (\<exists>r \<in> set pk. published org v r \<and> pack_from_json labels (pk_definition r) = Inr p)"
proof -
  have "(\<exists>rv. pack_revision_at labels org v pk = Inr (Some rv) \<and> rv_definition rv = p) \<longleftrightarrow>
    (\<exists>r. find (published org v) pk = Some r \<and> pack_from_json labels (pk_definition r) = Inr p)"
    by (cases "find (published org v) pk")
      (auto simp: pack_revision_at_def optional_revision_def revision_from_row_def result_bind_Inr split: option.splits sum.splits)
  then show ?thesis unfolding pinned_def using published_row[OF assms] by auto
qed

lemma active_is_pinned:
  assumes "pack_constraints pk" and "active_revision labels org pk = Inr (Some rv)"
  shows "pinned labels pk org (rv_version rv) (rv_definition rv)"
proof -
  obtain r where f: "find (in_state org PackActive) pk = Some r" and
    p: "pack_from_json labels (pk_definition r) = Inr (rv_definition rv)" "rv_version rv = pk_version r"
    using assms(2)
    by (auto simp: active_revision_def optional_revision_def revision_from_row_def split: option.splits)
  have r: "r \<in> set pk" "in_state org PackActive r" using find_SomeD[OF f] by auto
  moreover have "1 \<le> pk_version r" using assms(1) r(1) by (auto simp: pack_constraints_def list_all_iff)
  ultimately show ?thesis using p
    by (auto simp: pinned_row[OF assms(1)] published_def at_version_def in_state_def)
qed

text \<open>What is published is never changed again: only drafts are written or deleted.\<close>

lemma published_row_stays:
  assumes "pack_constraints pk" and "pack_exec labels op pk = Inr pk'" and "r \<in> set pk" and "published org v r"
  shows "\<exists>r' \<in> set pk'. published org v r' \<and> pk_definition r' = pk_definition r"
proof -
  have nd: "pk_state r \<noteq> PackDraft" using assms(4) by (auto simp: published_def)
  have other: "\<not> at_version o' (pk_version d) r" if "d \<in> set pk" "in_state o' PackDraft d" for o' d
  proof
    assume "at_version o' (pk_version d) r"
    then have "d = r" using that assms(1,3) unique_on_eq[of "\<lambda>_. True" "\<lambda>r. (pk_organization_id r, pk_version r)" pk d r]
      by (auto simp: pack_constraints_def at_version_def in_state_def)
    then show False using that nd by (simp add: in_state_def)
  qed
  show ?thesis
  proof (cases op)
    case (EnsureDraft o' seed)
    then have "set pk \<subseteq> set pk'" using assms(2)
      by (auto simp: ensure_draft_def insert_draft_def Let_def split: option.splits)
    then show ?thesis using assms by blast
  next
    case (UpdateDraft o' q)
    then have "r \<in> set pk'" using assms nd
      by (auto simp: update_draft_def set_update_rows in_state_def split: if_splits)
    then show ?thesis using assms by blast
  next
    case (DiscardDraft o')
    then have "r \<in> set pk'" using assms nd by (auto simp: discard_draft_def delete_rows_def in_state_def)
    then show ?thesis using assms by blast
  next
    case (RestoreDraft o' u)
    then have "r \<in> set pk'" using assms nd
      by (auto simp: restore_as_draft_def insert_draft_def Let_def set_update_rows other dest!: find_SomeD split: option.splits)
    then show ?thesis using assms by blast
  next
    case (BootstrapActive o' seed now)
    then have "set pk \<subseteq> set pk'" using assms(2) by (auto simp: bootstrap_active_def split: if_splits)
    then show ?thesis using assms by blast
  next
    case (PublishDraft o' now)
    then obtain d where d: "d \<in> set pk" "in_state o' PackDraft d" and
      pk': "pk' = update_rows (at_version o' (pk_version d)) (\<lambda>r. r\<lparr>pk_state := PackActive, pk_activated_at := Some now\<rparr>)
        (update_rows (in_state o' PackActive) (\<lambda>r. r\<lparr>pk_state := PackArchived\<rparr>) pk)"
      using assms(2) by (auto simp: publish_draft_def dest!: find_SomeD split: option.splits)
    let ?r = "if in_state o' PackActive r then r\<lparr>pk_state := PackArchived\<rparr> else r"
    have "?r \<in> set (update_rows (in_state o' PackActive) (\<lambda>r. r\<lparr>pk_state := PackArchived\<rparr>) pk)"
      using assms(3) by (auto simp: set_update_rows)
    moreover have "\<not> at_version o' (pk_version d) ?r" using other[OF d] by (simp add: at_version_def)
    ultimately have "?r \<in> set pk'" unfolding pk' set_update_rows by blast
    moreover have "published org v ?r" "pk_definition ?r = pk_definition r"
      using assms(4) by (auto simp: published_def at_version_def)
    ultimately show ?thesis by blast
  qed
qed

section \<open>Every session of a table\<close>

definition session_ok :: "(string, string) dict \<Rightarrow> pack_table \<Rightarrow> string \<Rightarrow> state \<Rightarrow> bool" where
  "session_ok labels pk org st \<longleftrightarrow> (\<exists>p v. pinned labels pk org v p \<and> conversation_ok p v st)"

definition sessions_ok :: "(string, string) dict \<Rightarrow> pack_table \<Rightarrow> intake_key sessions \<Rightarrow> bool" where
  "sessions_ok labels pk t \<longleftrightarrow> pack_constraints pk \<and> dict_ok t \<and>
     (\<forall>org actor st. session_get (org, actor) t = Some st \<longrightarrow> session_ok labels pk org st)"

lemma conversation_ok_event: "conversation_ok p v st \<Longrightarrow> conversation_ok p v (state_with_session_event e st)"
  by (erule conversation_ok_other)
    (auto simp: state_with_session_event_def SESSION_EVENT_KEY_def services_chosen_def split: option.splits)

lemma session_ok_event: "session_ok labels pk org st \<Longrightarrow> session_ok labels pk org (state_with_session_event e st)"
  unfolding session_ok_def using conversation_ok_event by blast

lemma sessions_ok_moves:
  assumes "sessions_ok labels pk t" and "session_moves c (session_ok labels pk (ai_organization_id (ic_identity c))) t t'"
  shows "sessions_ok labels pk t'"
  unfolding sessions_ok_def
proof (intro conjI allI impI)
  show "pack_constraints pk" "dict_ok t'" using assms by (auto simp: sessions_ok_def session_moves_def)
  fix org actor st
  assume st: "session_get (org, actor) t' = Some st"
  show "session_ok labels pk org st"
  proof (cases "(org, actor) = intake_key_of c")
    case True
    then have "org = ai_organization_id (ic_identity c)" by (simp add: intake_key_of_def)
    with st assms True session_ok_event show ?thesis
      unfolding session_moves_def sessions_ok_def
      by (metis option.distinct(1) option.inject)
  next
    case False
    then show ?thesis using st assms unfolding session_moves_def sessions_ok_def by metis
  qed
qed

lemma start_moves:
  assumes "pack_constraints (ic_packs c)"
  shows "session_moves c (session_ok (ic_labels c) (ic_packs c) (ai_organization_id (ic_identity c))) (fst w)
    (fst (snd (intake_start c w))) \<and> snd (snd (intake_start c w)) = snd w"
proof (cases "active_revision (ic_labels c) (ai_organization_id (ic_identity c)) (ic_packs c)")
  case (Inr r)
  show ?thesis
  proof (cases r)
    case (Some rv)
    let ?st = "[(''step'', JStr ''phone''), (''field_values'', JObj []), (''submission_id'', JStr (ic_uuid c)),
      (''pack_version'', JInt (rv_version rv))]"
    have "pinned (ic_labels c) (ic_packs c) (ai_organization_id (ic_identity c)) (rv_version rv) (rv_definition rv)"
      using active_is_pinned[OF assms] Inr Some by simp
    moreover have "conversation_ok (rv_definition rv) (rv_version rv) ?st"
      by (simp add: conversation_ok_def step_ok_def values_ok_def)
    ultimately have "session_ok (ic_labels c) (ic_packs c) (ai_organization_id (ic_identity c)) ?st"
      unfolding session_ok_def by blast
    then show ?thesis using Inr Some
      by (auto simp: intake_start_def act_bind_def act_lift_def intro: session_moves_put)
  qed (use Inr in \<open>simp add: intake_start_def act_bind_def act_lift_def\<close>)
qed (simp add: intake_start_def act_bind_def act_lift_def)

lemma with_pack_cases:
  assumes "session_get (intake_key_of c) (fst w) = Some st" and "conversation_ok p v st"
    and "pinned (ic_labels c) (ic_packs c) (ai_organization_id (ic_identity c)) v p"
  shows "with_pack c f w = f p st w"
  using assms
  by (auto simp: with_pack_def intake_state_def act_bind_def act_read_def act_lift_def pack_for_state_def Let_def
      state_version_def get_default_def conversation_ok_def pinned_def)

lemma with_pack_none:
  "session_get (intake_key_of c) (fst w) = None \<Longrightarrow> with_pack c f w = intake_start c w"
  by (simp add: with_pack_def intake_state_def act_bind_def act_read_def)

lemma intake_submission_id: "intake_submission c p (dict_put ''submission_id'' x st) sid = intake_submission c p st sid"
  by (simp add: intake_submission_def intake_details_def selected_keys_def field_values_def get_default_def)

text \<open>The only step that touches the orders.\<close>

definition submits ::
  "('s, 'u, 'z) uow_ops_scheme \<Rightarrow> intake_call \<Rightarrow> intake_key sessions \<times> 's \<Rightarrow> 's \<Rightarrow> bool" where
  "submits ops c w s' \<longleftrightarrow> (\<exists>p v st sid. session_get (intake_key_of c) (fst w) = Some st \<and>
     pinned (ic_labels c) (ic_packs c) (ai_organization_id (ic_identity c)) v p \<and> conversation_ok p v st \<and>
     at_step st [''confirm''] \<and> selected_keys st \<noteq> [] \<and>
     s' = snd (create_order_once ops (intake_submission c p st sid) (ic_stamp c) (snd w)))"

lemma submit_intake_effect:
  "snd (snd (submit_intake ops c p st sid w)) =
     snd (create_order_once ops (intake_submission c p st sid) (ic_stamp c) (snd w)) \<and>
   (fst (snd (submit_intake ops c p st sid w)) = fst w \<or>
    fst (snd (submit_intake ops c p st sid w)) = session_clear (intake_key_of c) (fst w))"
  by (cases "create_order_once ops (intake_submission c p st sid) (ic_stamp c) (snd w)"; cases "fst (create_order_once ops (intake_submission c p st sid) (ic_stamp c) (snd w))")
    (auto simp: submit_intake_def on_orders_def act_bind_def act_lift_def intake_forget_def)

lemma submission_id_keeps: "conversation_ok p v st \<Longrightarrow> conversation_ok p v (dict_put ''submission_id'' x st)"
  by (erule conversation_ok_other) (auto simp: services_chosen_def)

lemma confirm_moves:
  assumes pk: "pack_constraints (ic_packs c)" and get: "session_get (intake_key_of c) (fst w) = Some st"
    and ok: "conversation_ok p v st" and pin: "pinned (ic_labels c) (ic_packs c) (ai_organization_id (ic_identity c)) v p"
    and step: "at_step st [''confirm'']"
  shows "session_moves c (session_ok (ic_labels c) (ic_packs c) (ai_organization_id (ic_identity c))) (fst w)
      (fst (snd (intake_confirm ops c p st w))) \<and>
    (snd (snd (intake_confirm ops c p st w)) = snd w \<or> submits ops c w (snd (snd (intake_confirm ops c p st w))))"
proof (cases "selected_keys st = []")
  case True
  then show ?thesis using start_moves[OF pk, of w] by (simp add: intake_confirm_def)
next
  case False
  let ?Q = "session_ok (ic_labels c) (ic_packs c) (ai_organization_id (ic_identity c))"
  let ?st = "dict_put ''submission_id'' (JStr (ic_uuid c)) st"
  let ?w = "(session_put (ic_event c) (intake_key_of c) (ai_provider (ic_identity c)) ?st (ic_now c) (fst w), snd w)"
  have Q: "?Q ?st" using submission_id_keeps[OF ok] pin unfolding session_ok_def by blast
  have sub: "submits ops c w (snd (create_order_once ops (intake_submission c p st sid) (ic_stamp c) (snd w)))" for sid
    using get pin ok step False unfolding submits_def by blast
  have known: ?thesis if "intake_confirm ops c p st w = submit_intake ops c p st sid w" for sid
    using submit_intake_effect[of ops c p st sid w] sub[of sid] that by (auto intro: session_moves_clear)
  have fresh: ?thesis if "intake_confirm ops c p st w = submit_intake ops c p ?st (ic_uuid c) ?w"
    using submit_intake_effect[of ops c p ?st "ic_uuid c" ?w] sub[of "ic_uuid c"] that
    by (auto simp: intake_submission_id intro: session_moves_put[where Q = ?Q, OF Q] session_moves_put_clear)
  show ?thesis
  proof (cases "state_text ''submission_id'' st")
    case None
    then show ?thesis using False fresh by (simp add: intake_confirm_def act_bind_def intake_save_def)
  next
    case (Some sid)
    then show ?thesis using False fresh known[of sid]
      by (cases "sid = []") (auto simp: intake_confirm_def act_bind_def intake_save_def)
  qed
qed

lemma with_pack_moves:
  assumes inv: "sessions_ok (ic_labels c) (ic_packs c) (fst w)"
    and step: "\<And>p v st. session_get (intake_key_of c) (fst w) = Some st \<Longrightarrow> conversation_ok p v st \<Longrightarrow>
      keeps c p v w (snd (f p st w))"
  shows "session_moves c (session_ok (ic_labels c) (ic_packs c) (ai_organization_id (ic_identity c))) (fst w)
    (fst (snd (with_pack c f w))) \<and> snd (snd (with_pack c f w)) = snd w"
proof (cases "session_get (intake_key_of c) (fst w)")
  case None
  then show ?thesis using start_moves[of c w] inv by (simp add: with_pack_none sessions_ok_def)
next
  case (Some st)
  then obtain p v where p: "pinned (ic_labels c) (ic_packs c) (ai_organization_id (ic_identity c)) v p" "conversation_ok p v st"
    using inv unfolding sessions_ok_def intake_key_of_def session_ok_def by blast
  have "session_moves c (session_ok (ic_labels c) (ic_packs c) (ai_organization_id (ic_identity c))) (fst w)
    (fst (snd (f p st w))) \<and> snd (snd (f p st w)) = snd w"
    by (rule keeps_moves[OF step[OF Some p(2)]]) (use p(1) in \<open>auto simp: session_ok_def\<close>)
  then show ?thesis by (simp add: with_pack_cases[OF Some p(2,1)])
qed

lemma intake_handle_moves:
  assumes inv: "sessions_ok (ic_labels c) (ic_packs c) (fst w)"
  shows "session_moves c (session_ok (ic_labels c) (ic_packs c) (ai_organization_id (ic_identity c))) (fst w)
      (fst (snd (intake_handle ops c i w))) \<and>
    (snd (snd (intake_handle ops c i w)) = snd w \<or> submits ops c w (snd (snd (intake_handle ops c i w))))"
proof (cases i)
  case InStart
  then show ?thesis using start_moves[of c w] inv by (simp add: sessions_ok_def)
next
  case (InText x)
  let ?f = "intake_text_step c x"
  have "session_moves c (session_ok (ic_labels c) (ic_packs c) (ai_organization_id (ic_identity c))) (fst w)
      (fst (snd (with_pack c ?f w))) \<and> snd (snd (with_pack c ?f w)) = snd w"
    by (rule with_pack_moves[OF inv]) (rule text_step_keeps)
  then show ?thesis using InText by simp
next
  case (InPoint lat lon how addr)
  let ?f = "intake_point_step c lat lon how addr"
  have "session_moves c (session_ok (ic_labels c) (ic_packs c) (ai_organization_id (ic_identity c))) (fst w)
      (fst (snd (with_pack c ?f w))) \<and> snd (snd (with_pack c ?f w)) = snd w"
    by (rule with_pack_moves[OF inv]) (rule point_step_keeps)
  then show ?thesis using InPoint by (simp add: act_lift_def)
next
  case (InButton act payload)
  show ?thesis
  proof (cases "act = ''intake_cancel''")
    case True
    then show ?thesis using InButton
      by (simp add: act_bind_def intake_forget_def act_lift_def session_moves_clear)
  next
    case False
    then have h: "intake_handle ops c i w = with_pack c (intake_button_step ops c act payload) w" using InButton by simp
    show ?thesis
    proof (cases "\<exists>st. session_get (intake_key_of c) (fst w) = Some st \<and> at_step st [''confirm''] \<and> act = ''intake_confirm''")
      case True
      then obtain st where st: "session_get (intake_key_of c) (fst w) = Some st" "at_step st [''confirm'']" "act = ''intake_confirm''"
        by blast
      then obtain p v where p: "pinned (ic_labels c) (ic_packs c) (ai_organization_id (ic_identity c)) v p" "conversation_ok p v st"
        using inv unfolding sessions_ok_def intake_key_of_def session_ok_def by blast
      have "with_pack c (intake_button_step ops c act payload) w = intake_confirm ops c p st w"
        using with_pack_cases[OF st(1) p(2,1)] st(2,3) by (simp add: intake_button_step_def)
      then show ?thesis using confirm_moves[OF _ st(1) p(2,1) st(2), of ops] inv h by (simp add: sessions_ok_def)
    next
      case False
      let ?f = "intake_button_step ops c act payload"
      have "session_moves c (session_ok (ic_labels c) (ic_packs c) (ai_organization_id (ic_identity c))) (fst w)
      (fst (snd (with_pack c ?f w))) \<and> snd (snd (with_pack c ?f w)) = snd w"
        by (rule with_pack_moves[OF inv], rule button_step_keeps) (use False in auto)
      then show ?thesis using h by simp
    qed
  qed
qed

section \<open>The conversations of an organization over time\<close>

text \<open>
  Clients write and press buttons, the web page chooses an address through its capability, old
  sessions are cleaned up, and meanwhile administrators edit and publish packs.
\<close>

inductive intake_world :: "(string, string) dict \<Rightarrow> pack_table \<Rightarrow> intake_key sessions \<Rightarrow> bool" for labels where
  init: "pack_constraints pk \<Longrightarrow> intake_world labels pk []"
| pack: "intake_world labels pk t \<Longrightarrow> pack_exec labels op pk = Inr pk' \<Longrightarrow> intake_world labels pk' t"
| client: "intake_world labels pk t \<Longrightarrow> ic_packs c = pk \<Longrightarrow> ic_labels c = labels \<Longrightarrow>
    intake_handle async_ops c i (t, s) = (r, (t', s')) \<Longrightarrow> intake_world labels pk t'"
| link: "intake_world labels pk t \<Longrightarrow>
    select_address_by_token (point_label c) token lat lon address now t = (sel, t') \<Longrightarrow> intake_world labels pk t'"
| cleanup: "intake_world labels pk t \<Longrightarrow> intake_cleanup hours scope now t = (n, t') \<Longrightarrow> intake_world labels pk t'"

lemma pinned_stays:
  assumes "pack_constraints pk" and "pack_exec labels op pk = Inr pk'" and "pinned labels pk org v p"
  shows "pinned labels pk' org v p \<and> pack_constraints pk'"
proof -
  have c: "pack_constraints pk'" using pack_exec_constraints[OF assms(1,2)] .
  obtain r where r: "0 < v" "r \<in> set pk" "published org v r" "pack_from_json labels (pk_definition r) = Inr p"
    using assms(3) unfolding pinned_row[OF assms(1)] by blast
  from published_row_stays[OF assms(1,2) r(2,3)] r c show ?thesis unfolding pinned_row[OF c] by auto
qed

lemma address_chosen_ok:
  assumes ok: "conversation_ok p v st" and "awaits_address token st" and "label \<noteq> []"
  shows "conversation_ok p v (address_chosen label lat lon st)"
proof -
  have step: "dict_get ''step'' st = Some (JStr ''address'')"
    using assms(2) by (auto simp: awaits_address_def state_text_def split: option.splits json.splits)
  then obtain d where d: "dict_get ''pack_version'' st = Some (JInt v)" "dict_get ''field_values'' st = Some (JObj d)"
    "values_ok p d" "dict_get ''phone'' d \<noteq> None" "dict_get ''selected'' st = None \<or> services_chosen p st"
    using ok by (auto simp: conversation_ok_def step_ok_def)
  have "values_ok p (dict_put ''address'' (JStr label) d)"
    using d(3) assms(3) by (auto intro: values_ok_put simp: value_ok_def)
  then show ?thesis using d by (auto simp: address_chosen_def field_values_def conversation_defs)
qed

lemma link_ok:
  assumes "sessions_ok labels pk t" and "select_address_by_token (point_label c) token lat lon address now t = (sel, t')"
  shows "sessions_ok labels pk t'"
proof (cases "find (\<lambda>(k, s). awaits_address token (ss_state s)) t")
  case None
  then show ?thesis using assms by (simp add: select_address_by_token_def Let_def)
next
  case (Some e)
  obtain org actor s where e: "e = ((org, actor), s)" by (cases e) auto
  define label where "label = (if take 500 (str_strip (case address of None \<Rightarrow> [] | Some a \<Rightarrow> a)) = []
    then point_label c lat lon else take 500 (str_strip (case address of None \<Rightarrow> [] | Some a \<Rightarrow> a)))"
  let ?s = "s\<lparr>ss_state := address_chosen label lat lon (ss_state s), ss_updated_at := now\<rparr>"
  have t': "t' = dict_put (org, actor) ?s t"
    using assms(2) Some e by (simp add: select_address_by_token_def Let_def label_def)
  have s: "awaits_address token (ss_state s)" "((org, actor), s) \<in> set t" using find_SomeD[OF Some] e by auto
  then have "dict_get (org, actor) t = Some s"
    using assms(1) by (simp add: sessions_ok_def dict_get_in)
  then have "session_get (org, actor) t = Some (ss_state s)" by (simp add: session_get_def)
  then obtain p v where p: "pinned labels pk org v p" "conversation_ok p v (ss_state s)"
    using assms(1) unfolding sessions_ok_def session_ok_def by blast
  have "conversation_ok p v (address_chosen label lat lon (ss_state s))"
    by (rule address_chosen_ok[OF p(2) s(1)]) (simp add: label_def point_label_def)
  then have new: "session_ok labels pk org (address_chosen label lat lon (ss_state s))"
    using p(1) unfolding session_ok_def by blast
  have "session_get k t' = (if k = (org, actor) then Some (address_chosen label lat lon (ss_state s)) else session_get k t)" for k
    by (simp add: t' session_get_def dict_get_put)
  then show ?thesis using assms(1) new by (auto simp: sessions_ok_def t')
qed

lemma cleanup_ok:
  assumes "sessions_ok labels pk t" and "intake_cleanup hours scope now t = (n, t')"
  shows "sessions_ok labels pk t'"
proof -
  obtain P where t': "t' = filter P t"
    using assms(2) by (auto simp: intake_cleanup_def cleanup_stale_def Let_def)
  have d: "dict_ok t" "dict_ok t'" using assms(1) distinct_filter_map[of fst t P]
    by (auto simp: sessions_ok_def t' dict_ok_def)
  have "session_get k t' = Some st \<Longrightarrow> session_get k t = Some st" for k st
    using d by (auto simp: session_get_def dict_get_in t')
  then show ?thesis using assms(1) d(2) unfolding sessions_ok_def by blast
qed

lemma intake_world_ok: "intake_world labels pk t \<Longrightarrow> sessions_ok labels pk t"
proof (induction rule: intake_world.induct)
  case (init pk)
  then show ?case by (simp add: sessions_ok_def session_get_def)
next
  case (pack pk t op pk')
  then show ?case using pinned_stays pack_exec_constraints unfolding sessions_ok_def session_ok_def by metis
next
  case (client pk t c i s r t' s')
  then show ?case using intake_handle_moves[of c "(t, s)" async_ops i] sessions_ok_moves[of labels pk t c t'] by auto
qed (auto intro: link_ok cleanup_ok)

section \<open>Properties\<close>

text \<open>The shapes that the code declares for the states (\<open>_PhoneState\<close> to \<open>_ConfirmState\<close>).\<close>

definition is_text :: "json \<Rightarrow> bool" where
  "is_text x = (case x of JStr s \<Rightarrow> True | _ \<Rightarrow> False)"

definition typed_state :: "state \<Rightarrow> bool" where
  "typed_state st \<longleftrightarrow>
     (case (dict_get ''step'' st, dict_get ''field_values'' st, dict_get ''pack_version'' st) of
        (Some (JStr step), Some (JObj d), Some (JInt v)) \<Rightarrow>
          0 < v \<and> list_all (\<lambda>e. is_text (snd e)) d \<and>
          (case dict_get ''selected'' st of
             None \<Rightarrow> step \<in> {''phone'', ''address''}
           | Some (JList xs) \<Rightarrow> list_all is_text xs | Some _ \<Rightarrow> False) \<and>
          (step = ''phone'' \<or>
           step = ''address'' \<and> (case dict_get ''address_token'' st of Some x \<Rightarrow> is_text x | None \<Rightarrow> False) \<or>
           step = ''services'' \<or>
           step = ''fields'' \<and> (case dict_get ''field_index'' st of Some (JInt i) \<Rightarrow> 0 \<le> i | _ \<Rightarrow> False) \<or>
           step = ''confirm'')
      | _ \<Rightarrow> False)"

lemma conversation_typed:
  assumes "conversation_ok p v st" and "0 < v"
  shows "typed_state st"
proof -
  obtain d step where d: "dict_get ''pack_version'' st = Some (JInt v)" "dict_get ''field_values'' st = Some (JObj d)"
    "dict_get ''step'' st = Some (JStr step)" "values_ok p d" "step_ok p step d st"
    and sel: "dict_get ''selected'' st = None \<or> services_chosen p st"
    using assms(1) unfolding conversation_ok_def by blast
  have "list_all (\<lambda>e. is_text (snd e)) d"
    using d(4) by (fastforce simp: values_ok_def list_all_iff is_text_def dict_get_in)
  moreover have "case dict_get ''selected'' st of None \<Rightarrow> step \<in> {''phone'', ''address''}
      | Some (JList xs) \<Rightarrow> list_all is_text xs | Some _ \<Rightarrow> False"
    using sel d(5) by (auto simp: services_chosen_def step_ok_def is_text_def list_all_iff)
  moreover have "step = ''phone'' \<or>
      step = ''address'' \<and> (case dict_get ''address_token'' st of Some x \<Rightarrow> is_text x | None \<Rightarrow> False) \<or>
      step = ''services'' \<or>
      step = ''fields'' \<and> (case dict_get ''field_index'' st of Some (JInt i) \<Rightarrow> 0 \<le> i | _ \<Rightarrow> False) \<or> step = ''confirm''"
    using d(5) unfolding step_ok_def is_text_def by (elim disjE conjE exE) simp_all
  ultimately show ?thesis
    using assms(2) unfolding typed_state_def d(1-3) by simp
qed

text \<open>
  (C28) Whatever clients send, in whatever order, while administrators edit and publish packs, web pages
  choose addresses and sessions expire, every stored state of a conversation has the shape that the code
  declares for its step: one of five steps, the answers a mapping of texts, a positive pack version, the
  chosen services a list of texts, the address token a text, the number of the current field not negative.
\<close>

theorem intake_states_are_typed:
  assumes "intake_world labels pk t" and "session_get (org, actor) t = Some st"
  shows "typed_state st"
proof -
  obtain p v where "pinned labels pk org v p" "conversation_ok p v st"
    using intake_world_ok[OF assms(1)] assms(2) unfolding sessions_ok_def session_ok_def by blast
  then show ?thesis by (intro conversation_typed) (auto simp: pinned_def)
qed

text \<open>
  What the order keeps of the answers that the conversation has stored. The point chosen on the map goes
  under its own key, and takes the place of an answer to a field with that key.
\<close>

definition answers_kept :: "state \<Rightarrow> submission \<Rightarrow> bool" where
  "answers_kept st sub \<longleftrightarrow> (\<forall>k x. dict_get k (field_values st) = Some x \<longrightarrow>
     dict_get k (sub_details sub) = Some x \<or>
     (k = ''service_location'' \<and> (\<exists>l. dict_get ''service_location'' st = Some (JObj l) \<and> dict_get k (sub_details sub) = Some (JObj l))))"

definition complete_submission :: "pack_definition \<Rightarrow> state \<Rightarrow> submission \<Rightarrow> bool" where
  "complete_submission p st sub \<longleftrightarrow>
     (\<exists>phone. dict_get ''phone'' (sub_details sub) = Some (JStr phone) \<and> 7 \<le> phone_length phone) \<and>
     (\<exists>address. dict_get ''address'' (sub_details sub) = Some (JStr address) \<and> address \<noteq> []) \<and>
     selected_keys st \<noteq> [] \<and> set (selected_keys st) \<subseteq> set (map sc_key (cat_categories (pd_catalog p))) \<and>
     sub_work_type sub = str_join '','' (selected_keys st) \<and>
     (\<forall>f \<in> set (pd_fields p). fd_required f \<longrightarrow>
        (\<exists>s. dict_get (fd_key f) (field_values st) = Some (JStr s) \<and> value_ok p (fd_key f) s)) \<and>
     answers_kept st sub \<and> sub_evidence sub = Some (pd_evidence p)"

lemma dict_get_rev: "dict_ok d \<Longrightarrow> dict_get k (rev d) = dict_get k d"
proof -
  assume d: "dict_ok d"
  then have "dict_ok (rev d)" by (simp add: dict_ok_def rev_map[symmetric])
  then show ?thesis
  proof (cases "dict_get k d")
    case None
    then have "k \<notin> fst ` set (rev d)" by (simp add: map_of_eq_None_iff)
    then have "dict_get k (rev d) = None" using map_of_eq_None_iff[of "rev d" k] by blast
    then show ?thesis using None by simp
  next
    case (Some a)
    then have "(k, a) \<in> set (rev d)" using dict_get_mem by simp
    then have "dict_get k (rev d) = Some a" using dict_get_in[OF \<open>dict_ok (rev d)\<close>] by simp
    then show ?thesis using Some by simp
  qed
qed

lemma submission_complete:
  assumes ok: "conversation_ok p v st" and step: "at_step st [''confirm'']" and sel: "selected_keys st \<noteq> []"
  shows "complete_submission p st (intake_submission c p st sid)"
proof -
  obtain d where d: "dict_get ''field_values'' st = Some (JObj d)" "values_ok p d" "dict_get ''phone'' d \<noteq> None"
    "dict_get ''address'' d \<noteq> None" "services_chosen p st" "answered_before (ordered_fields p) d (length (ordered_fields p))"
    using ok step by (auto simp: conversation_ok_def step_ok_def)
  have fv: "field_values st = d" using d(1) by (simp add: field_values_def)
  have known: "dict_get k (update_dict base d) = dict_get k d" if "dict_get k d \<noteq> None" for base k
    using that d(2) by (auto simp: values_ok_def update_dict_get dict_get_rev)
  have kept: "answers_kept st (intake_submission c p st sid)"
    unfolding answers_kept_def fv
    by (auto simp: intake_submission_def intake_details_def Let_def fv known dict_get_put split: option.splits json.splits)
  have texts: "\<exists>s. dict_get k d = Some (JStr s) \<and> value_ok p k s" if "dict_get k d \<noteq> None" for k
    using that d(2) by (auto simp: values_ok_def)
  have "dict_get (fd_key f) d \<noteq> None" if "f \<in> set (pd_fields p)" "fd_required f" for f
  proof -
    have "f \<in> set (ordered_fields p)" using that(1) by (simp add: in_ordered_fields)
    then obtain j where "j < length (ordered_fields p)" "f = ordered_fields p ! j" by (auto simp: in_set_conv_nth)
    then show ?thesis using d(6) that(2) by (auto simp: answered_before_def)
  qed
  with texts have fields: "\<forall>f \<in> set (pd_fields p). fd_required f \<longrightarrow>
      (\<exists>s. dict_get (fd_key f) d = Some (JStr s) \<and> value_ok p (fd_key f) s)" by blast
  have "dict_get k (intake_details p st) = dict_get k d" if "dict_get k d \<noteq> None" "k \<noteq> ''service_location''" for k
    unfolding intake_details_def Let_def fv using that by (simp add: known split: option.split json.split)
  with texts[of "''phone''"] texts[of "''address''"] d(3,4)
  have "\<exists>s. dict_get ''phone'' (intake_details p st) = Some (JStr s) \<and> 7 \<le> phone_length s"
    "\<exists>s. dict_get ''address'' (intake_details p st) = Some (JStr s) \<and> s \<noteq> []" by (auto simp: value_ok_def)
  moreover have "set (selected_keys st) \<subseteq> set (map sc_key (cat_categories (pd_catalog p)))"
    using d(5) by (auto simp: services_chosen_def selected_keys_def)
  ultimately show ?thesis
    using fields sel kept by (simp add: complete_submission_def fv intake_submission_def)
qed

text \<open>
  (C29) An order that a conversation submits is complete for the pack version that the client's
  stored conversation names (a published revision that is still there, whatever was edited and
  published meanwhile): the conversation had come to its confirmation; it has a phone of at least
  seven characters, an address, at least one of the services of that pack's catalog; the
  conversation holds an accepted answer to every required field of that pack, and the order carries
  every stored answer unchanged (except that a point chosen on the map takes the place of an answer
  to a field keyed service_location), the evidence rules of the pack, the organization and the
  client. Nothing else that a client sends touches the orders.
\<close>

theorem submitted_orders_are_complete:
  assumes "intake_world (ic_labels c) (ic_packs c) t"
    and "intake_handle ops c i (t, s) = (r, (t', s'))" and "s' \<noteq> s"
  shows "\<exists>p v st sub. session_get (intake_key_of c) t = Some st \<and> dict_get ''step'' st = Some (JStr ''confirm'') \<and>
    dict_get ''pack_version'' st = Some (JInt v) \<and>
    pinned (ic_labels c) (ic_packs c) (ai_organization_id (ic_identity c)) v p \<and>
    complete_submission p st sub \<and> sub_organization_id sub = ai_organization_id (ic_identity c) \<and>
    sub_requester_id sub = Some (ai_actor_id (ic_identity c)) \<and>
    s' = snd (create_order_once ops sub (ic_stamp c) s)"
proof -
  have "submits ops c (t, s) s'"
    using intake_handle_moves[of c "(t, s)" ops i] intake_world_ok[OF assms(1)] assms(2,3) by auto
  then obtain p v st sid where g: "session_get (intake_key_of c) t = Some st"
    "pinned (ic_labels c) (ic_packs c) (ai_organization_id (ic_identity c)) v p"
    "conversation_ok p v st" "at_step st [''confirm'']" "selected_keys st \<noteq> []"
    "s' = snd (create_order_once ops (intake_submission c p st sid) (ic_stamp c) s)"
    unfolding submits_def by auto
  have "dict_get ''step'' st = Some (JStr ''confirm'')" "dict_get ''pack_version'' st = Some (JInt v)"
    using g(3,4) by (auto simp: conversation_ok_def)
  moreover have "sub_organization_id (intake_submission c p st sid) = ai_organization_id (ic_identity c)"
    "sub_requester_id (intake_submission c p st sid) = Some (ai_actor_id (ic_identity c))"
    by (simp_all add: intake_submission_def)
  ultimately show ?thesis using g(1,2,6) submission_complete[OF g(3-5)] by blast
qed

section \<open>A conversation on the sample pack\<close>

definition demo_client :: actor_identity where
  "demo_client = \<lparr>ai_organization_id = ''acme'', ai_actor_id = ''cl'', ai_role = ''client'', ai_display_name = ''Cl'',
     ai_provider = ''telegram'', ai_external_user_id = ''1'', ai_roles = [''client'']\<rparr>"

definition demo_call :: intake_call where
  "demo_call = \<lparr>ic_identity = demo_client, ic_event = None, ic_now = 5, ic_packs = demo_pack_table, ic_labels = demo_labels,
     ic_base_url = None, ic_uuid = ''o1'', ic_token = ''t'', ic_stamp = demo_stamp, ic_fold = id, ic_point = \<lambda>_ _. []\<rparr>"

definition demo_inputs :: "intake_input list" where
  "demo_inputs = [InStart, InText ''5551234'', InText ''Main 10'',
     InButton ''intake_pick_service'' [(''service'', JStr ''repair'')], InButton ''intake_services_done'' []]"

fun intake_run ::
  "('s, 'u, 'z) uow_ops_scheme \<Rightarrow> intake_call \<Rightarrow> intake_input list \<Rightarrow> intake_key sessions \<times> 's \<Rightarrow> intake_key sessions \<times> 's" where
  "intake_run ops c [] w = w"
| "intake_run ops c (i # is) w = intake_run ops c is (snd (intake_handle ops c i w))"

lemma intake_run_world:
  "intake_world (ic_labels c) (ic_packs c) (fst w) \<Longrightarrow>
    intake_world (ic_labels c) (ic_packs c) (fst (intake_run async_ops c is w))"
proof (induction "is" arbitrary: w)
  case (Cons i "is")
  have "intake_handle async_ops c i (fst w, snd w) = (fst (intake_handle async_ops c i w),
      (fst (snd (intake_handle async_ops c i w)), snd (snd (intake_handle async_ops c i w))))" by simp
  from intake_world.client[OF Cons.prems refl refl this]
  have "intake_world (ic_labels c) (ic_packs c) (fst (snd (intake_handle async_ops c i w)))" .
  from Cons.IH[OF this] show ?case by simp
qed simp

lemmas intake_eval = intake_start_def intake_save_def intake_forget_def intake_state_def save_reply_def
  pack_for_state_def state_version_def put_field_def selected_keys_def address_buttons_def phone_length_def
  fill_phone_def fill_address_def confirmation_def to_confirmation_def finish_services_def pick_service_def
  with_pack_def at_step_def intake_text_step_def intake_button_step_def intake_key_of_def act_bind_def act_lift_def
  act_read_def session_get_def session_put_def session_clear_def state_with_session_event_def state_text_def
  get_default_def setdefault_def field_values_def payload_text_def Let_def

lemma demo_active: "active_revision demo_labels ''acme'' demo_pack_table =
    Inr (Some \<lparr>rv_version = 1, rv_state = PackActive, rv_definition = demo_pack\<rparr>)"
  by (simp add: demo_pack_table_def bootstrap_active_def active_revision_def optional_revision_def revision_from_row_def
      in_state_def demo_pack_stored result_bind_Inr)

lemma demo_revision: "pack_revision_at demo_labels ''acme'' 1 demo_pack_table =
    Inr (Some \<lparr>rv_version = 1, rv_state = PackActive, rv_definition = demo_pack\<rparr>)"
  by (simp add: demo_pack_table_def bootstrap_active_def pack_revision_at_def optional_revision_def revision_from_row_def
      in_state_def demo_pack_stored published_def at_version_def)

lemma demo_conversation:
  "\<exists>st. intake_run ops demo_call demo_inputs ([], s) =
      ([((''acme'', ''cl''), \<lparr>ss_provider = ''telegram'', ss_state = st, ss_updated_at = 5\<rparr>)], s) \<and>
    dict_get ''step'' st = Some (JStr ''confirm'') \<and> selected_keys st = [''repair''] \<and>
    dict_get ''submission_id'' st = Some (JStr ''o1'') \<and> dict_get ''pack_version'' st = Some (JInt 1)"
  by (simp add: demo_inputs_def demo_call_def demo_client_def intake_eval demo_active,
      simp add: intake_eval demo_revision str_strip_def is_space_def code_point_def,
      simp add: demo_pack_def ordered_fields_def)

lemma demo_world:
  "\<exists>t st. intake_world demo_labels demo_pack_table t \<and>
     session_get (''acme'', ''cl'') t = Some st \<and> dict_get ''step'' st = Some (JStr ''confirm'') \<and>
     selected_keys st = [''repair''] \<and> dict_get ''submission_id'' st = Some (JStr ''o1'') \<and>
     dict_get ''pack_version'' st = Some (JInt 1)"
proof -
  have "pack_constraints demo_pack_table"
    by (simp add: demo_pack_table_def bootstrap_active_def pack_constraints_def unique_on_def)
  then have "intake_world (ic_labels demo_call) (ic_packs demo_call)
      (fst (intake_run async_ops demo_call demo_inputs ([], empty_store)))"
    by (intro intake_run_world) (simp add: demo_call_def intake_world.init)
  then show ?thesis
    using demo_conversation[of async_ops empty_store] by (auto simp: demo_call_def session_get_def)
qed

theorem intake_states_are_typed_witness:
  "\<exists>t st. intake_world demo_labels demo_pack_table t \<and> session_get (''acme'', ''cl'') t = Some st \<and> typed_state st"
proof -
  obtain t st where "intake_world demo_labels demo_pack_table t" "session_get (''acme'', ''cl'') t = Some st"
    using demo_world by blast
  with intake_states_are_typed[OF this] show ?thesis by blast
qed

lemma demo_submits:
  assumes "session_get (''acme'', ''cl'') t = Some st" "dict_get ''step'' st = Some (JStr ''confirm'')"
    "selected_keys st = [''repair'']" "dict_get ''submission_id'' st = Some (JStr ''o1'')"
    "dict_get ''pack_version'' st = Some (JInt 1)"
  shows "snd (snd (intake_handle async_ops demo_call (InButton ''intake_confirm'' []) (t, empty_store))) \<noteq> empty_store"
  using assms
  by (simp add: demo_call_def demo_client_def intake_confirm_def submit_intake_def on_orders_def
      intake_submission_def state_text_def with_pack_def intake_state_def
      intake_key_of_def pack_for_state_def state_version_def get_default_def demo_revision
      intake_button_step_def at_step_def intake_forget_def demo_store_eval)

theorem submitted_orders_are_complete_witness:
  "\<exists>t r t' s'. intake_handle async_ops demo_call (InButton ''intake_confirm'' []) (t, empty_store) = (r, (t', s')) \<and>
    s' \<noteq> empty_store \<and> (\<exists>p v st sub. session_get (''acme'', ''cl'') t = Some st \<and>
      pinned demo_labels demo_pack_table ''acme'' v p \<and> complete_submission p st sub \<and>
      s' = snd (create_order_once async_ops sub demo_stamp empty_store))"
proof -
  obtain t st where t: "intake_world demo_labels demo_pack_table t" "session_get (''acme'', ''cl'') t = Some st"
    "dict_get ''step'' st = Some (JStr ''confirm'')" "selected_keys st = [''repair'']"
    "dict_get ''submission_id'' st = Some (JStr ''o1'')" "dict_get ''pack_version'' st = Some (JInt 1)"
    using demo_world by blast
  obtain r t' s' where r: "intake_handle async_ops demo_call (InButton ''intake_confirm'' []) (t, empty_store) = (r, (t', s'))"
    by (metis prod_cases3)
  with demo_submits[OF t(2-6)] have "s' \<noteq> empty_store" by simp
  have c: "ic_labels demo_call = demo_labels" "ic_packs demo_call = demo_pack_table" "ic_stamp demo_call = demo_stamp"
    "ai_organization_id (ic_identity demo_call) = ''acme''" "intake_key_of demo_call = (''acme'', ''cl'')"
    by (simp_all add: demo_call_def demo_client_def intake_key_of_def)
  show ?thesis
    using submitted_orders_are_complete[of demo_call t async_ops "InButton ''intake_confirm'' []" empty_store r t' s']
      t(1) r \<open>s' \<noteq> empty_store\<close> unfolding c by blast
qed

end
