(* ===== verification/Intake_Termination.thy ===== *)
theory Intake_Termination
  imports Intake_Laws
begin

text \<open>
  A conversation comes to an end: a client who answers what is asked reaches the confirmation, however the
  conversation came to be where it is.
\<close>

section \<open>What is left to do\<close>

definition field_at :: "state \<Rightarrow> nat" where
  "field_at st = (case dict_get ''field_index'' st of Some (JInt i) \<Rightarrow> nat i | _ \<Rightarrow> 0)"

definition to_go :: "pack_definition \<Rightarrow> state \<Rightarrow> nat" where
  "to_go p st =
     (let n = length (ordered_fields p); services = (if selected_keys st = [] then n + 1 else 0)
      in if at_step st [''phone''] then n + 4
         else if at_step st [''address''] then n + 3
         else if at_step st [''services''] then (if selected_keys st = [] then n + 2 else n + 1)
         else if at_step st [''fields''] then n - field_at st + services
         else services)"

text \<open>An answer that the field accepts.\<close>

definition plain :: "string \<Rightarrow> bool" where
  "plain s \<longleftrightarrow> s \<noteq> [] \<and> s \<noteq> ''-'' \<and> take 500 (str_strip s) = s"

definition good_answer :: "field_def \<Rightarrow> string" where
  "good_answer f =
     (if \<not> fd_required f then ''-''
      else case fd_type f of
          FInteger \<Rightarrow> ''0''
        | FEnum \<Rightarrow> (case find plain (fd_choices f) of None \<Rightarrow> ''-'' | Some s \<Rightarrow> s)
        | _ \<Rightarrow> ''x'')"

definition answerable :: "pack_definition \<Rightarrow> bool" where
  "answerable p \<longleftrightarrow> cat_categories (pd_catalog p) \<noteq> [] \<and>
     list_all (\<lambda>f. fd_required f \<and> fd_type f = FEnum \<longrightarrow> list_ex plain (fd_choices f)) (pd_fields p)"

definition next_input :: "pack_definition \<Rightarrow> state \<Rightarrow> intake_input" where
  "next_input p st =
     (if at_step st [''phone''] then InText ''0000000''
      else if at_step st [''address''] then InText ''00000''
      else if at_step st [''fields''] then InText (good_answer (ordered_fields p ! field_at st))
      else if at_step st [''services''] \<and> selected_keys st \<noteq> [] then InButton ''intake_services_done'' []
      else InButton ''intake_pick_service'' [(''service'', JStr (sc_key (hd (cat_categories (pd_catalog p)))))])"

fun guided ::
  "('s, 'u, 'z) uow_ops_scheme \<Rightarrow> intake_call \<Rightarrow> pack_definition \<Rightarrow> nat \<Rightarrow> intake_key sessions \<times> 's \<Rightarrow> intake_key sessions \<times> 's" where
  "guided ops c p 0 w = w"
| "guided ops c p (Suc k) w =
     (case session_get (intake_key_of c) (fst w) of
        None \<Rightarrow> w
      | Some st \<Rightarrow> if to_go p st = 0 then w else guided ops c p k (snd (intake_handle ops c (next_input p st) w)))"

section \<open>Every answer brings the confirmation nearer\<close>

definition saved :: "intake_call \<Rightarrow> state \<Rightarrow> intake_key sessions \<times> 's \<Rightarrow> intake_key sessions \<times> 's \<Rightarrow> bool" where
  "saved c st w w' \<longleftrightarrow>
     w' = (session_put (ic_event c) (intake_key_of c) (ai_provider (ic_identity c)) st (ic_now c) (fst w), snd w)"

definition advances :: "intake_call \<Rightarrow> pack_definition \<Rightarrow> nat \<Rightarrow> intake_key sessions \<times> 's \<Rightarrow> intake_key sessions \<times> 's \<Rightarrow> bool" where
  "advances c p n w w' \<longleftrightarrow> (\<exists>st. saved c st w w' \<and> to_go p st < n)"

lemma saved_advances: "to_go p st < n \<Longrightarrow> advances c p n w
    (session_put (ic_event c) (intake_key_of c) (ai_provider (ic_identity c)) st (ic_now c) (fst w), snd w)"
  by (auto simp: advances_def saved_def)

lemma to_go_event: "to_go p (state_with_session_event e st) = to_go p st"
  by (auto simp: to_go_def at_step_def state_text_def field_at_def selected_keys_def state_with_session_event_def
      SESSION_EVENT_KEY_def Let_def split: option.splits)

lemma keeps_state:
  assumes "keeps c p v w w'" "session_get (intake_key_of c) (fst w) = Some st" "conversation_ok p v st"
  shows "\<exists>st'. session_get (intake_key_of c) (fst w') = Some st' \<and> conversation_ok p v st'"
  using assms conversation_ok_event unfolding keeps_def by (auto simp: session_laws)

lemma to_go_at [simp]:
  assumes "dict_get ''step'' st = Some (JStr s)"
  shows "to_go p st = (let n = length (ordered_fields p) in
     if s = ''phone'' then n + 4 else if s = ''address'' then n + 3
     else if s = ''services'' then (if selected_keys st = [] then n + 2 else n + 1)
     else (if s = ''fields'' then n - field_at st else 0) + (if selected_keys st = [] then n + 1 else 0))"
  using assms by (simp add: to_go_def Let_def)

lemma selected_keys_put [simp]:
  "k \<noteq> ''selected'' \<Longrightarrow> selected_keys (dict_put k x st) = selected_keys st"
  "k \<noteq> ''selected'' \<Longrightarrow> selected_keys (setdefault k x st) = selected_keys st"
  "k \<noteq> ''selected'' \<Longrightarrow> selected_keys (dict_pop k st) = selected_keys st"
  by (simp_all add: selected_keys_def dict_get_setdefault dict_get_pop)

lemma field_at_put [simp]: "field_at (dict_put ''field_index'' (JInt (int i)) st) = i"
  by (simp add: field_at_def)

lemma confirmation_advances:
  "(if selected_keys st = [] then Suc (length (ordered_fields p)) else 0) < n \<Longrightarrow>
    advances c p n w (snd (to_confirmation c p st w))"
  by (auto simp: to_confirmation_def Let_def intro!: saved_advances)

lemma finish_advances:
  assumes "selected_keys st \<noteq> []" "length (ordered_fields p) < n"
  shows "advances c p n w (snd (finish_services c p st w))"
  using assms
  by (auto simp: finish_services_def Let_def dict_get_setdefault intro!: saved_advances confirmation_advances)

lemma pick_advances:
  assumes "cat_categories (pd_catalog p) \<noteq> []" "selected_keys st = []" "at_step st [''services'', ''confirm'']"
  shows "advances c p (to_go p st) w
    (snd (pick_service c p st [(''service'', JStr (sc_key (hd (cat_categories (pd_catalog p)))))] w))"
proof -
  let ?k = "sc_key (hd (cat_categories (pd_catalog p)))"
  have k: "?k \<in> set (map sc_key (cat_categories (pd_catalog p)))" using assms(1) by simp
  have sel: "selected_keys (dict_put ''selected'' (JList [JStr ?k]) st) = [?k]" by (simp add: selected_keys_def)
  have n: "to_go p st = length (ordered_fields p) + (if at_step st [''services''] then 2 else 1)"
    using assms(2,3) by (auto simp: at_step_def to_go_def)
  show ?thesis
  proof (cases "cat_multi_select (pd_catalog p)")
    case True
    have "to_go p (dict_put ''selected'' (JList [JStr ?k]) st) < to_go p st"
      using assms(2,3) by (auto simp: sel Let_def to_go_def at_step_def state_text_def)
    then show ?thesis
      using True k assms(2) by (simp add: pick_service_def payload_text_def Let_def saved_advances)
  next
    case False
    then show ?thesis
      using k n by (simp add: sel pick_service_def payload_text_def Let_def finish_advances)
  qed
qed

lemma field_answered_advances:
  assumes "dict_get ''step'' st = Some (JStr ''fields'')" "field_at st = i" "i < length (ordered_fields p)"
  shows "advances c p (to_go p st) w (snd (field_answered c p st i w))"
proof -
  let ?n = "next_open (drop (Suc i) (ordered_fields p)) (field_values st) (Suc i)"
  have "Suc i \<le> ?n" using next_open_le by blast
  then show ?thesis using assms
    by (auto simp: field_answered_def Let_def intro!: saved_advances confirmation_advances)
qed

lemma answer_plain:
  assumes "answerable p" "f \<in> set (pd_fields p)" "fd_required f"
  shows "plain (good_answer f) \<and> (fd_type f = FInteger \<longrightarrow> good_answer f = ''0'') \<and> (fd_type f = FEnum \<longrightarrow> good_answer f \<in> set (fd_choices f))"
proof (cases "fd_type f = FEnum")
  case True
  then have "list_ex plain (fd_choices f)" using assms by (auto simp: answerable_def list_all_iff)
  then obtain s where s: "find plain (fd_choices f) = Some s"
    by (cases "find plain (fd_choices f)") (auto simp: find_None_iff list_ex_iff)
  then show ?thesis using find_SomeD[OF s] True assms(3) by (simp add: good_answer_def)
next
  case False
  then show ?thesis using assms(3)
    by (cases "fd_type f") (simp_all add: good_answer_def plain_def str_strip_def is_space_def code_point_def)
qed

lemma answer_accepted:
  assumes "answerable p" "f \<in> set (pd_fields p)" "fd_required f"
  shows "normalize_field_value casefold f (good_answer f) \<noteq> None"
proof (cases "fd_type f")
  case FEnum
  then have "good_answer f \<in> set (fd_choices f)" using answer_plain[OF assms] by simp
  then have "find (\<lambda>choice. casefold choice = casefold (good_answer f)) (fd_choices f) \<noteq> None"
    by (auto simp: find_None_iff)
  then show ?thesis using FEnum by (simp add: normalize_field_value_def)
next
  case FInteger
  moreover have "parse_int ''0'' \<noteq> None" by code_simp
  ultimately show ?thesis using answer_plain[OF assms]
    by (simp add: normalize_field_value_def)
qed (simp_all add: normalize_field_value_def)

lemma field_advances:
  assumes ok: "conversation_ok p v st" and step: "at_step st [''fields'']" and a: "answerable p"
  shows "advances c p (to_go p st) w (snd (fill_field c p st (good_answer (ordered_fields p ! field_at st)) w))"
proof -
  obtain d i where d: "dict_get ''field_values'' st = Some (JObj d)" "dict_get ''step'' st = Some (JStr ''fields'')"
    and i: "dict_get ''field_index'' st = Some (JInt (int i))" "i < length (ordered_fields p)"
    using ok step by (auto simp: conversation_ok_def step_ok_def)
  let ?f = "ordered_fields p ! i"
  have at: "field_at st = i" using i(1) by (simp add: field_at_def)
  have f: "?f \<in> set (pd_fields p)" using i(2) by (simp add: in_ordered_fields[symmetric])
  have index: "as_int (get_default ''field_index'' (JInt 0) st) = Inr (int i)" using i(1) by (simp add: get_default_def)
  have skip: "take 500 (str_strip ''-'') = ''-''" by (simp add: str_strip_def is_space_def code_point_def)
  show ?thesis
  proof (cases "fd_required ?f")
    case False
    then have "good_answer ?f = ''-''" by (simp add: good_answer_def)
    then show ?thesis
      using False i(2) field_answered_advances[OF d(2) at i(2), of c w]
      by (simp add: fill_field_def index at skip del: to_go_at)
  next
    case True
    obtain y where y: "normalize_field_value (ic_fold c) ?f (good_answer ?f) = Some y"
      using answer_accepted[OF a f True] by blast
    have p: "take 500 (str_strip (good_answer ?f)) = good_answer ?f" "good_answer ?f \<noteq> []" "good_answer ?f \<noteq> ''-''"
      using answer_plain[OF a f True] by (simp_all add: plain_def)
    let ?st = "dict_put ''field_values'' (JObj (dict_put (fd_key ?f) (JStr y) d)) st"
    have "advances c p (to_go p ?st) w (snd (field_answered c p ?st i w))"
      by (rule field_answered_advances) (use d(2) i in \<open>simp_all add: field_at_def\<close>)
    moreover have "to_go p ?st = to_go p st" using d(2) by (simp add: field_at_def)
    ultimately show ?thesis
      using i(2) p y by (simp add: fill_field_def index at put_field_values[OF d(1)] act_bind_def act_lift_def del: to_go_at)
  qed
qed

lemma phone_advances:
  assumes "dict_get ''field_values'' st = Some (JObj d)" "at_step st [''phone'']"
  shows "advances c p (to_go p st) w (snd (fill_phone c st ''0000000'' w))"
proof -
  let ?st = "dict_pop ''service_location'' (dict_pop ''address_mode'' (dict_put ''address_token'' (JStr (ic_token c))
    (dict_put ''step'' (JStr ''address'') (dict_put ''field_values'' (JObj (dict_put ''phone'' (JStr ''0000000'') d)) st))))"
  have v: "take 500 (str_strip ''0000000'') = ''0000000''" by (simp add: str_strip_def is_space_def code_point_def)
  have "advances c p (to_go p st) w (snd (intake_save c ?st w))"
    unfolding intake_save_def snd_conv
    by (rule saved_advances) (use assms(2) in \<open>simp add: to_go_def at_step_def state_text_def Let_def\<close>)
  moreover have "snd (fill_phone c st ''0000000'' w) = snd (intake_save c ?st w)"
    unfolding fill_phone_def Let_def v put_field_values[OF assms(1)]
    by (cases "address_buttons c ?st") (simp_all add: phone_length_def act_bind_def act_lift_def intake_save_def)
  ultimately show ?thesis by simp
qed

lemma address_advances:
  assumes "dict_get ''field_values'' st = Some (JObj d)" "at_step st [''address'']"
  shows "advances c p (to_go p st) w (snd (fill_address c p st ''00000'' w))"
proof -
  have v: "take 500 (str_strip ''00000'') = ''00000''" by (simp add: str_strip_def is_space_def code_point_def)
  have t: "dict_get ''step'' st = Some (JStr ''address'')"
    using assms(2) by (auto simp: at_step_def state_text_def split: option.splits json.splits)
  show ?thesis
    unfolding fill_address_def Let_def v put_field_values[OF assms(1)]
    by (simp add: act_bind_def act_lift_def, rule saved_advances)
      (simp add: t to_go_def Let_def dict_get_setdefault dict_get_pop at_step_def state_text_def)
qed

lemma next_step:
  assumes ok: "conversation_ok p v st" and get: "session_get (intake_key_of c) (fst w) = Some st"
    and pin: "pinned (ic_labels c) (ic_packs c) (ai_organization_id (ic_identity c)) v p"
    and a: "answerable p" and "to_go p st \<noteq> 0"
  shows "advances c p (to_go p st) w (snd (intake_handle ops c (next_input p st) w)) \<and>
    keeps c p v w (snd (intake_handle ops c (next_input p st) w))"
proof -
  obtain d step where d: "dict_get ''field_values'' st = Some (JObj d)" "dict_get ''step'' st = Some (JStr step)" "step_ok p step d st"
    using ok by (auto simp: conversation_ok_def)
  have step: "step \<in> {''phone'', ''address'', ''fields'', ''services'', ''confirm''}" using d(3) by (auto simp: step_ok_def)
  have cat: "cat_categories (pd_catalog p) \<noteq> []" using a by (simp add: answerable_def)
  let ?pick = "[(''service'', JStr (sc_key (hd (cat_categories (pd_catalog p)))))]"
  note steps = with_pack_cases[OF get ok pin]
  have not_done: "\<not> (step = ''confirm'' \<and> selected_keys st \<noteq> [])"
    using \<open>to_go p st \<noteq> 0\<close> d(2) by (cases "selected_keys st = []") auto
  have "step = ''phone'' \<or> step = ''address'' \<or> step = ''fields'' \<or> step = ''services'' \<and> selected_keys st \<noteq> [] \<or>
      step \<in> {''services'', ''confirm''} \<and> selected_keys st = []"
    using step not_done by (cases "selected_keys st = []") simp_all
  then consider "step = ''phone''" | "step = ''address''" | "step = ''fields''"
    | "step = ''services''" "selected_keys st \<noteq> []" | "step \<in> {''services'', ''confirm''}" "selected_keys st = []"
    by (elim disjE conjE) (erule that)+
  then show ?thesis
  proof cases
    case 1
    then show ?thesis using phone_advances[OF d(1), of c p w] fill_phone_keeps[OF ok] d(2)
      by (simp add: next_input_def steps intake_text_step_def del: to_go_at)
  next
    case 2
    then show ?thesis using address_advances[OF d(1), of c p w] fill_address_keeps[OF ok] d(2)
      by (simp add: next_input_def steps intake_text_step_def del: to_go_at)
  next
    case 3
    then show ?thesis using field_advances[OF ok _ a, of c w] fill_field_keeps[OF ok] d(2)
      by (simp add: next_input_def steps intake_text_step_def del: to_go_at)
  next
    case 4
    then have "to_go p st = Suc (length (ordered_fields p))" using d(2) by simp
    with 4 show ?thesis using finish_advances[of st p "to_go p st" c w] finish_services_keeps[OF ok] d(2)
      by (simp add: next_input_def steps intake_button_step_def del: to_go_at)
  next
    case 5
    then have at1: "at_step st [''services'', ''confirm'']" using d(2) by simp
    then have at: "at_step st [''services'', ''confirm'']" "at_step st [''services'', ''fields'', ''confirm'']"
      by (auto simp: at_step_def)
    have "snd (intake_handle ops c (next_input p st) w) = snd (pick_service c p st ?pick w)"
      using 5 d(2) by (auto simp: next_input_def steps intake_button_step_def simp del: to_go_at)
    then show ?thesis using pick_advances[OF cat 5(2) at(1), of c w] pick_service_keeps[OF ok at(2), of c w ?pick] by simp
  qed
qed

lemma guided_ends:
  assumes "conversation_ok p v st" "session_get (intake_key_of c) (fst w) = Some st"
    and "pinned (ic_labels c) (ic_packs c) (ai_organization_id (ic_identity c)) v p" "answerable p" "to_go p st \<le> k"
  shows "\<exists>st'. session_get (intake_key_of c) (fst (guided ops c p k w)) = Some st' \<and> conversation_ok p v st' \<and>
    to_go p st' = 0 \<and> snd (guided ops c p k w) = snd w"
  using assms
proof (induction k arbitrary: w st)
  case (Suc k)
  show ?case
  proof (cases "to_go p st = 0")
    case True
    then show ?thesis using Suc.prems by auto
  next
    case False
    let ?w = "snd (intake_handle ops c (next_input p st) w)"
    have step: "advances c p (to_go p st) w ?w" "keeps c p v w ?w" using next_step[OF Suc.prems(1-4) False] by auto
    obtain st1 where st1: "session_get (intake_key_of c) (fst ?w) = Some st1" "conversation_ok p v st1"
      using keeps_state[OF step(2) Suc.prems(2,1)] by blast
    have "to_go p st1 < to_go p st" "snd ?w = snd w"
      using step(1) st1(1) by (auto simp: advances_def saved_def session_laws to_go_event)
    then have "to_go p st1 \<le> k" using Suc.prems(5) by simp
    from Suc.IH[OF st1(2,1) Suc.prems(3,4) this] show ?thesis
      using Suc.prems(2) False \<open>snd ?w = snd w\<close> by simp
  qed
qed auto

lemma to_go_bound: "to_go p st \<le> 2 * length (ordered_fields p) + 4"
proof -
  have "length (ordered_fields p) - field_at st \<le> length (ordered_fields p)" by simp
  then have "length (ordered_fields p) - field_at st \<le> length (ordered_fields p) + 3" by simp
  then show ?thesis by (simp add: to_go_def Let_def)
qed

lemma to_go_zero:
  assumes "conversation_ok p v st" "to_go p st = 0"
  shows "at_step st [''confirm''] \<and> selected_keys st \<noteq> []"
proof -
  obtain d step where d: "dict_get ''step'' st = Some (JStr step)" "step_ok p step d st"
    using assms(1) by (auto simp: conversation_ok_def)
  then show ?thesis using assms(2)
    by (auto simp: step_ok_def field_at_def Let_def split: if_splits)
qed

text \<open>
  (C34) No conversation is a dead end: wherever it stands after anything that clients, links and
  administrators did, at most twice as many answers as the pack has fields, and four more, bring it to the
  confirmation with a service chosen, and no order is touched on the way. The pack has a service, and
  each required field with choices has one that can be typed.
\<close>

theorem conversations_can_be_finished:
  assumes "intake_world (ic_labels c) (ic_packs c) t" and "session_get (intake_key_of c) t = Some st"
    and "\<And>v p. pinned (ic_labels c) (ic_packs c) (ai_organization_id (ic_identity c)) v p \<Longrightarrow> answerable p"
  shows "\<exists>v p st'. dict_get ''pack_version'' st = Some (JInt v) \<and>
    pinned (ic_labels c) (ic_packs c) (ai_organization_id (ic_identity c)) v p \<and>
    (case guided ops c p (2 * length (pd_fields p) + 4) (t, s) of
       (t', s') \<Rightarrow> s' = s \<and> session_get (intake_key_of c) t' = Some st' \<and> at_step st' [''confirm''] \<and> selected_keys st' \<noteq> [])"
proof -
  obtain p v where p: "pinned (ic_labels c) (ic_packs c) (ai_organization_id (ic_identity c)) v p" "conversation_ok p v st"
    using intake_world_ok[OF assms(1)] assms(2) unfolding sessions_ok_def session_ok_def intake_key_of_def by blast
  have "length (ordered_fields p) = length (pd_fields p)" by (simp add: ordered_fields_def)
  then have "to_go p st \<le> 2 * length (pd_fields p) + 4" using to_go_bound[of p st] by simp
  from guided_ends[OF p(2) _ p(1) assms(3)[OF p(1)] this, of "(t, s)" ops] assms(2)
  obtain st' where "session_get (intake_key_of c) (fst (guided ops c p (2 * length (pd_fields p) + 4) (t, s))) = Some st'"
    "conversation_ok p v st'" "to_go p st' = 0" "snd (guided ops c p (2 * length (pd_fields p) + 4) (t, s)) = s"
    by auto
  moreover have "dict_get ''pack_version'' st = Some (JInt v)" using p(2) by (simp add: conversation_ok_def)
  ultimately show ?thesis using p(1) to_go_zero by (fastforce split: prod.splits)
qed

lemma demo_pinned: "pinned demo_labels demo_pack_table ''acme'' v p \<Longrightarrow> p = demo_pack"
proof -
  assume p: "pinned demo_labels demo_pack_table ''acme'' v p"
  have "v = 1"
  proof (rule ccontr)
    assume "v \<noteq> 1"
    then have "pack_revision_at demo_labels ''acme'' v demo_pack_table = Inr None"
      by (simp add: demo_pack_table_def bootstrap_active_def pack_revision_at_def optional_revision_def published_def at_version_def)
    then show False using p by (simp add: pinned_def)
  qed
  then show ?thesis using p by (simp add: pinned_def demo_revision)
qed

theorem conversations_can_be_finished_witness:
  "\<exists>t st t' st'. intake_world demo_labels demo_pack_table t \<and> session_get (''acme'', ''cl'') t = Some st \<and>
     at_step st [''phone''] \<and>
     guided async_ops demo_call demo_pack (2 * length (pd_fields demo_pack) + 4) (t, empty_store) = (t', empty_store) \<and>
     session_get (''acme'', ''cl'') t' = Some st' \<and> at_step st' [''confirm'']"
proof -
  have c: "ic_labels demo_call = demo_labels" "ic_packs demo_call = demo_pack_table"
    "ai_organization_id (ic_identity demo_call) = ''acme''" "intake_key_of demo_call = (''acme'', ''cl'')"
    by (simp_all add: demo_call_def demo_client_def intake_key_of_def)
  obtain t s st where t: "intake_run async_ops demo_call [InStart] ([], empty_store) = (t, s)"
    "session_get (''acme'', ''cl'') t = Some st" "at_step st [''phone'']"
    by (simp add: demo_call_def demo_client_def intake_eval demo_active)
  have "pack_constraints demo_pack_table"
    by (simp add: demo_pack_table_def bootstrap_active_def pack_constraints_def unique_on_def)
  then have w: "intake_world (ic_labels demo_call) (ic_packs demo_call) t"
    using intake_run_world[of demo_call "([], empty_store)" "[InStart]"] t(1) by (simp add: c intake_world.init)
  have a: "answerable p" if "pinned (ic_labels demo_call) (ic_packs demo_call) (ai_organization_id (ic_identity demo_call)) v p" for v p
    using demo_pinned that unfolding c by (fastforce simp: answerable_def demo_pack_def)
  have get: "session_get (intake_key_of demo_call) t = Some st" using t(2) by (simp add: c)
  have "\<exists>v p st'. dict_get ''pack_version'' st = Some (JInt v) \<and>
    pinned (ic_labels demo_call) (ic_packs demo_call) (ai_organization_id (ic_identity demo_call)) v p \<and>
    (case guided async_ops demo_call p (2 * length (pd_fields p) + 4) (t, empty_store) of
       (t', s') \<Rightarrow> s' = empty_store \<and> session_get (intake_key_of demo_call) t' = Some st' \<and> at_step st' [''confirm''] \<and>
         selected_keys st' \<noteq> [])"
    by (rule conversations_can_be_finished[OF w get]) (rule a)
  then obtain v p st' where p: "pinned demo_labels demo_pack_table ''acme'' v p"
    "case guided async_ops demo_call p (2 * length (pd_fields p) + 4) (t, empty_store) of
       (t', s') \<Rightarrow> s' = empty_store \<and> session_get (''acme'', ''cl'') t' = Some st' \<and> at_step st' [''confirm''] \<and> selected_keys st' \<noteq> []"
    unfolding c by (elim exE conjE) (rule that)
  then have "p = demo_pack" using demo_pinned by blast
  with p(2) w t(2,3) show ?thesis unfolding c
    by (cases "guided async_ops demo_call p (2 * length (pd_fields p) + 4) (t, empty_store)") auto
qed

end
