(* ===== verification/Configurator.thy ===== *)
theory Configurator
  imports Intake "HOL-Library.Multiset"
begin

text \<open>
  The configurator (\<open>ConfigCoordinator\<close> in \<open>messaging/config.py\<close>): the administrator of an organization
  edits the draft of its pack with buttons and dialogs, publishes it, restores versions, and manages the
  operators. The texts of the replies are constructors with what they show; case folding, the
  identifiers and codes that are drawn, and the clock are arguments.
\<close>

section \<open>Keys for services and fields\<close>

text \<open>\<open>str.lower\<close> on the code points below 256.\<close>

definition lower_char :: "char \<Rightarrow> char" where
  "lower_char c = (let n = code_point c in
     if 65 \<le> n \<and> n \<le> 90 \<or> 192 \<le> n \<and> n \<le> 214 \<or> 216 \<le> n \<and> n \<le> 222 then char_of (n + 32) else c)"

definition str_lower :: "string \<Rightarrow> string" where
  "str_lower s = map lower_char s"

text \<open>
  What \<open>unicodedata.normalize("NFKD", s).encode("ascii", "ignore")\<close> leaves of a code point: the base
  letter of a letter with a mark, the digits of fractions and superscripts, nothing of the others.
\<close>

definition ascii_ignore :: "char \<Rightarrow> string" where
  "ascii_ignore c = (let n = code_point c in
     if n < 128 then [c]
     else if n \<in> {160, 168, 175, 180, 184} then '' ''
     else if n = 170 then ''a'' else if n = 186 then ''o''
     else if n = 178 then ''2'' else if n = 179 then ''3'' else if n = 185 then ''1''
     else if n = 188 then ''14'' else if n = 189 then ''12'' else if n = 190 then ''34''
     else if 192 \<le> n \<and> n \<le> 197 then ''A'' else if n = 199 then ''C''
     else if 200 \<le> n \<and> n \<le> 203 then ''E'' else if 204 \<le> n \<and> n \<le> 207 then ''I''
     else if n = 209 then ''N'' else if 210 \<le> n \<and> n \<le> 214 then ''O''
     else if 217 \<le> n \<and> n \<le> 220 then ''U'' else if n = 221 then ''Y''
     else if 224 \<le> n \<and> n \<le> 229 then ''a'' else if n = 231 then ''c''
     else if 232 \<le> n \<and> n \<le> 235 then ''e'' else if 236 \<le> n \<and> n \<le> 239 then ''i''
     else if n = 241 then ''n'' else if 242 \<le> n \<and> n \<le> 246 then ''o''
     else if 249 \<le> n \<and> n \<le> 252 then ''u'' else if n = 253 \<or> n = 255 then ''y''
     else [])"

definition slug_char :: "char \<Rightarrow> bool" where
  "slug_char c \<longleftrightarrow> (let n = code_point c in 97 \<le> n \<and> n \<le> 122 \<or> 48 \<le> n \<and> n \<le> 57)"

text \<open>\<open>re.sub(r"[^a-z0-9]+", "_", s)\<close>\<close>

fun underscore_runs :: "string \<Rightarrow> string" where
  "underscore_runs [] = []"
| "underscore_runs (c # s) =
     (if slug_char c then c # underscore_runs s
      else case underscore_runs s of
          CHR ''_'' # t \<Rightarrow> CHR ''_'' # t
        | t \<Rightarrow> CHR ''_'' # t)"

definition strip_underscores :: "string \<Rightarrow> string" where
  "strip_underscores s =
     rev (dropWhile (\<lambda>c. c = CHR ''_'') (rev (dropWhile (\<lambda>c. c = CHR ''_'') s)))"

definition slug_base :: "string \<Rightarrow> string \<Rightarrow> string" where
  "slug_base label prefix =
     (let base = strip_underscores (underscore_runs (str_lower (concat (map ascii_ignore label))))
      in if base = [] then prefix else base)"

definition numbered_key :: "string \<Rightarrow> nat \<Rightarrow> string" where
  "numbered_key base n = base @ ''_'' @ nat_str n"

text \<open>The loop of \<open>_slug\<close>: it ends because only finitely many keys are taken.\<close>

function free_key :: "string \<Rightarrow> string list \<Rightarrow> string \<Rightarrow> nat \<Rightarrow> string" where
  "free_key base taken key n =
     (if key \<in> set taken then free_key base taken (numbered_key base n) (Suc n) else key)"
  by pat_completeness auto

lemma numbered_inj: "numbered_key base m = numbered_key base n \<longleftrightarrow> m = n"
  by (simp add: numbered_key_def nat_str_inj)

lemma finite_numbered: "finite {m. n \<le> m \<and> numbered_key base m \<in> set taken}"
proof -
  have "inj (numbered_key base)" by (simp add: inj_def numbered_inj)
  then have "finite {m. numbered_key base m \<in> set taken}" using finite_vimageI[of "set taken" "numbered_key base"] by (simp add: vimage_def)
  then show ?thesis by (rule finite_subset[rotated]) auto
qed

definition rounds_left :: "string \<Rightarrow> string list \<Rightarrow> string \<Rightarrow> nat \<Rightarrow> nat" where
  "rounds_left base taken key n =
     (if key \<in> set taken then 1 else 0) + card {m. n \<le> m \<and> numbered_key base m \<in> set taken}"

lemma rounds_decrease:
  assumes "key \<in> set taken"
  shows "rounds_left base taken (numbered_key base n) (Suc n) < rounds_left base taken key n"
proof -
  let ?A = "{m. Suc n \<le> m \<and> numbered_key base m \<in> set taken}"
  have "{m. n \<le> m \<and> numbered_key base m \<in> set taken} = (if numbered_key base n \<in> set taken then insert n ?A else ?A)"
    by (auto simp: le_Suc_eq Suc_le_eq dest: le_neq_implies_less)
  moreover have "n \<notin> ?A" "finite ?A" using finite_numbered[of "Suc n"] by simp_all
  ultimately show ?thesis using assms by (simp add: rounds_left_def)
qed

termination free_key
  by (relation "measure (\<lambda>(base, taken, key, n). rounds_left base taken key n)") (simp_all add: rounds_decrease)

declare free_key.simps [simp del]

definition slug :: "string \<Rightarrow> string \<Rightarrow> string list \<Rightarrow> string" where
  "slug label prefix taken = (let base = slug_base label prefix in free_key base taken base 2)"

lemma free_key_fresh: "free_key base taken key n \<notin> set taken"
proof (induction base taken key n rule: free_key.induct)
  case (1 base taken key n)
  then show ?case by (subst free_key.simps) simp
qed

lemma free_key_nonempty: "key \<noteq> [] \<Longrightarrow> free_key base taken key n \<noteq> []"
proof (induction base taken key n rule: free_key.induct)
  case (1 base taken key n)
  then show ?case by (subst free_key.simps) (simp add: numbered_key_def)
qed

lemma slug_fresh: "slug label prefix taken \<notin> set taken"
  by (simp add: slug_def Let_def free_key_fresh)

lemma slug_nonempty: "prefix \<noteq> [] \<Longrightarrow> slug label prefix taken \<noteq> []"
  by (simp add: slug_def Let_def free_key_nonempty slug_base_def)

section \<open>Moving an item\<close>

definition move_item :: "('a \<Rightarrow> string) \<Rightarrow> string \<Rightarrow> string \<Rightarrow> 'a list \<Rightarrow> 'a list" where
  "move_item key_of key direction xs =
     (let i = length (takeWhile (\<lambda>x. key_of x \<noteq> key) xs);
          target = (if direction = ''up'' then int i - 1 else int i + 1)
      in if i = length xs then xs
         else if direction \<notin> {''up'', ''down''} \<or> target < 0 \<or> target \<ge> int (length xs) then xs
         else xs[i := xs ! nat target, nat target := xs ! i])"

lemma move_item_mset: "mset (move_item key_of key direction xs) = mset xs"
proof -
  have "i < length xs" if "length (takeWhile P xs) = i" "i \<noteq> length xs" for i P
    using that length_takeWhile_le[of P xs] by simp
  then show ?thesis by (auto simp: move_item_def Let_def mset_swap)
qed

lemma move_item_set: "set (move_item key_of key direction xs) = set xs"
  using move_item_mset mset_eq_setD by metis

section \<open>Replies\<close>

datatype config_note =
    PressSection
  | UnknownButton
  | ActionCancelled
  | UnknownCommand
  | BrandUpdated
  | NoVersions
  | DraftDiscarded
  | DraftWasGone
  | VersionCopied int int
  | NothingToPreview
  | NoDraftToPublish
  | OperatorNameLost
  | RoleAdded
  | RoleNotAdded
  | NanoModeOn

datatype config_text =
    Panel "config_note option" "(bool \<times> string \<times> nat \<times> nat) option"
  | PickByButton
  | AskBrandName
  | BrandNameEmpty
  | AskGreeting
  | AskSupport
  | ServicesShown bool "string list"
  | AskServiceName
  | ServiceNameEmpty
  | FieldsShown "field_def list"
  | AskFieldName
  | FieldNameEmpty
  | ChooseFieldType
  | UnknownFieldType
  | AskChoices
  | TwoChoicesWanted
  | TooManyChoices
  | AskRequired
  | AskPrompt string
  | EvidenceShown evidence_requirements
  | AllocationShown pool_mode
  | RoleLabelsShown string string string
  | AskRoleLabel string
  | RoleLabelEmpty
  | VersionsShown "(int \<times> pack_state \<times> string) list"
  | AskDiscard
  | AskRestore int
  | PreviewShown pack_definition
  | PublishFailed py_error
  | PackPublished int
  | RolesUnavailable
  | AdminProfileMissing
  | OwnerRoles "config_note option" "string list"
  | OperatorsUnavailable
  | AskOperatorName
  | OperatorNameEmpty
  | AskOperatorPhone string
  | FullPhoneWanted
  | OperatorCreated staff_actor
  | NoOperators
  | OperatorsShown "actor_summary list"
  | OperatorCard actor_row
  | OperatorCall actor_row
  | AskNewPhone string
  | AskRemoveOperator string

type_synonym config_reply = "config_text \<times> reply_button list"

definition admin_button :: "string \<Rightarrow> string \<Rightarrow> (string, json) dict \<Rightarrow> nat \<Rightarrow> reply_button" where
  "admin_button text act payload row = \<lparr>rb_text = text, rb_action = act, rb_payload = payload,
     rb_allowed_role = Some ''admin'', rb_row = int row, rb_url = None, rb_request_location = False\<rparr>"

definition CONFIG_CANCEL_BUTTON :: reply_button where
  "CONFIG_CANCEL_BUTTON = admin_button ''Cancel'' ''config_cancel'' [] 0"

definition menu_button :: "nat \<Rightarrow> reply_button" where
  "menu_button row = admin_button ''Menu'' ''config_menu'' [] row"

definition ask :: "config_text \<Rightarrow> config_reply" where
  "ask t = (t, [CONFIG_CANCEL_BUTTON])"

definition move_payload :: "string \<Rightarrow> string \<Rightarrow> (string, json) dict" where
  "move_payload key direction = [(''key'', JStr key), (''direction'', JStr direction)]"

text \<open>The two arrows of an item at \<open>index\<close> of \<open>n\<close>.\<close>

definition move_buttons :: "string \<Rightarrow> string \<Rightarrow> string \<Rightarrow> string \<Rightarrow> nat \<Rightarrow> nat \<Rightarrow> reply_button list" where
  "move_buttons up_text down_text act key index n =
     (if index > 0 then [admin_button up_text act (move_payload key ''up'') (index + 1)] else []) @
     (if index + 1 < n then [admin_button down_text act (move_payload key ''down'') (index + 1)] else [])"

definition services_shown :: "service_catalog \<Rightarrow> config_reply" where
  "services_shown cat =
     (let cats = cat_categories cat
      in (ServicesShown (cat_multi_select cat) (map sc_label cats),
          [admin_button ''Add a service'' ''config_service_add'' [] 0,
           admin_button (if cat_multi_select cat then ''Only one service'' else ''Allow several'') ''config_service_multi_select'' [] 0] @
          concat (map (\<lambda>(index, x). move_buttons (''up '' @ sc_label x) (''down '' @ sc_label x) ''config_service_move'' (sc_key x) index (length cats) @
            [admin_button (''Delete: '' @ sc_label x) ''config_service_delete'' [(''key'', JStr (sc_key x))] (index + 1)]) (enumerate 0 cats)) @
          [menu_button (length cats + 1)]))"

definition fields_shown :: "pack_definition \<Rightarrow> config_reply" where
  "fields_shown p =
     (let fs = ordered_fields p
      in (FieldsShown fs,
          [admin_button ''Add a field'' ''config_field_add'' [] 0] @
          concat (map (\<lambda>(index, x). move_buttons ''up'' ''down'' ''config_field_move'' (fd_key x) index (length fs) @
            [admin_button (''Text: '' @ fd_label x) ''config_field_prompt'' [(''key'', JStr (fd_key x))] (index + 1),
             admin_button ''Delete'' ''config_field_delete'' [(''key'', JStr (fd_key x))] (index + 1)]) (enumerate 0 fs)) @
          [menu_button (length fs + 1)]))"

definition FIELD_TYPE_LABELS :: "(field_type \<times> string) list" where
  "FIELD_TYPE_LABELS = [(FText, ''Text''), (FAddress, ''Address''), (FInteger, ''Number''), (FAssetReference, ''Object''),
     (FRoute, ''Route''), (FEnum, ''Choice from a list'')]"

definition field_types_shown :: config_reply where
  "field_types_shown =
     (ChooseFieldType,
      map (\<lambda>(index, (ty, label)). admin_button label ''config_field_type'' [(''type'', JStr (field_type_value ty))] index)
        (enumerate 0 FIELD_TYPE_LABELS) @
      [admin_button ''Cancel'' ''config_cancel'' [] (length FIELD_TYPE_LABELS)])"

definition required_field_reply :: config_reply where
  "required_field_reply =
     (AskRequired, [admin_button ''Yes'' ''config_field_required'' [(''required'', JBool True)] 0,
        admin_button ''No'' ''config_field_required'' [(''required'', JBool False)] 1])"

definition evidence_shown :: "evidence_requirements \<Rightarrow> config_reply" where
  "evidence_shown e =
     (EvidenceShown e,
      [admin_button ''Photo +1'' ''config_evidence_photo_inc'' [] 0, admin_button ''Photo -1'' ''config_evidence_photo_dec'' [] 0,
       admin_button ''Comment'' ''config_evidence_comment'' [] 1, admin_button ''Signature'' ''config_evidence_signature'' [] 1,
       admin_button ''Code of the client'' ''config_evidence_code'' [] 2, menu_button 3])"

definition allocation_shown :: "pool_mode \<Rightarrow> config_reply" where
  "allocation_shown m =
     (AllocationShown m,
      [admin_button ''The operator chooses'' ''config_pool_mode'' [(''mode'', JStr (pool_mode_value CURATED))] 0,
       admin_button ''The first response'' ''config_pool_mode'' [(''mode'', JStr (pool_mode_value FIRST_CLAIM))] 1, menu_button 2])"

definition EDITED_ROLES :: "string list" where
  "EDITED_ROLES = [''master'', ''operator'', ''client'']"

section \<open>One call\<close>

record config_call =
  cc_identity :: actor_identity
  cc_event :: "string option"
  cc_now :: instant
  cc_labels :: "(string, string) dict"
  cc_uuid :: string
  cc_hex :: string
  cc_draws :: "nat list"
  cc_fold :: "string \<Rightarrow> string"
  cc_manages :: bool

record config_db =
  cd_packs :: pack_table
  cd_sessions :: "config_key sessions"
  cd_people :: identity_db

type_synonym 'a configuring = "(config_db, 'a) action"

definition cc_org :: "config_call \<Rightarrow> string" where
  "cc_org c = ai_organization_id (cc_identity c)"

definition config_key_of :: "config_call \<Rightarrow> config_key" where
  "config_key_of c = (cc_org c, ai_actor_id (cc_identity c), ai_provider (cc_identity c))"

definition read_packs :: "(pack_table \<Rightarrow> 'a result) \<Rightarrow> 'a configuring" where
  "read_packs f = act_read (\<lambda>d. f (cd_packs d))"

definition on_packs :: "(pack_table \<Rightarrow> ('a \<times> pack_table) result) \<Rightarrow> 'a configuring" where
  "on_packs f d = (case f (cd_packs d) of Inl e \<Rightarrow> (Inl e, d) | Inr (x, t) \<Rightarrow> (Inr x, d\<lparr>cd_packs := t\<rparr>))"

definition read_people :: "(identity_db \<Rightarrow> 'a result) \<Rightarrow> 'a configuring" where
  "read_people f = act_read (\<lambda>d. f (cd_people d))"

definition on_people :: "(identity_db \<Rightarrow> ('a \<times> identity_db) result) \<Rightarrow> 'a configuring" where
  "on_people f d = (case f (cd_people d) of Inl e \<Rightarrow> (Inl e, d) | Inr (x, t) \<Rightarrow> (Inr x, d\<lparr>cd_people := t\<rparr>))"

definition config_session :: "config_call \<Rightarrow> state option configuring" where
  "config_session c = act_read (\<lambda>d. Inr (session_get (config_key_of c) (cd_sessions d)))"

definition set_session :: "config_call \<Rightarrow> state \<Rightarrow> unit configuring" where
  "set_session c st d = (Inr (), d\<lparr>cd_sessions :=
     session_put (cc_event c) (config_key_of c) (ai_provider (cc_identity c)) st (cc_now c) (cd_sessions d)\<rparr>)"

definition clear_session :: "config_call \<Rightarrow> unit configuring" where
  "clear_session c d = (Inr (), d\<lparr>cd_sessions := session_clear (config_key_of c) (cd_sessions d)\<rparr>)"

definition config_handled :: "config_call \<Rightarrow> string \<Rightarrow> config_db \<Rightarrow> bool" where
  "config_handled c ev d = session_handled (config_key_of c) ev (cd_sessions d)"

definition then_reply :: "unit configuring \<Rightarrow> config_reply \<Rightarrow> config_reply configuring" where
  "then_reply f r = act_bind f (\<lambda>_. act_lift (Inr r))"

definition config_draft :: "config_call \<Rightarrow> pack_definition configuring" where
  "config_draft c =
     act_bind (read_packs (pack_draft (cc_labels c) (cc_org c))) (\<lambda>draft.
       case draft of
         Some p \<Rightarrow> act_lift (Inr p)
       | None \<Rightarrow> act_bind (read_packs (pack_active (cc_labels c) (cc_org c))) (\<lambda>active.
           on_packs (ensure_draft (cc_labels c) (cc_org c)
             (case active of Some p \<Rightarrow> p | None \<Rightarrow> blank_definition (cc_labels c)))))"

definition config_replace :: "config_call \<Rightarrow> pack_definition \<Rightarrow> unit configuring" where
  "config_replace c p = on_packs (\<lambda>t. result_bind (update_draft (cc_org c) p t) (\<lambda>t'. Inr ((), t')))"

definition panel_source :: "pack_definition option \<Rightarrow> pack_definition option \<Rightarrow> (bool \<times> string \<times> nat \<times> nat) option" where
  "panel_source draft active =
     (case (case draft of Some p \<Rightarrow> Some p | None \<Rightarrow> active) of
        None \<Rightarrow> None
      | Some p \<Rightarrow> Some (draft \<noteq> None, br_name (pd_branding p), length (cat_categories (pd_catalog p)), length (pd_fields p)))"

definition panel_buttons :: "reply_button list" where
  "panel_buttons =
     [admin_button ''Brand'' ''config_brand'' [] 0, admin_button ''Services'' ''config_services'' [] 0,
      admin_button ''Fields'' ''config_fields'' [] 1, admin_button ''Closing'' ''config_evidence'' [] 1,
      admin_button ''Allocation'' ''config_allocation'' [] 2, admin_button ''Role names'' ''config_role_labels'' [] 2,
      admin_button ''Preview'' ''config_preview'' [] 3, admin_button ''Publish'' ''config_publish'' [] 3,
      admin_button ''Versions'' ''config_versions'' [] 4, admin_button ''Operators'' ''config_list_operators'' [] 4,
      admin_button ''My roles'' ''config_owner_roles'' [] 5]"

definition config_panel :: "config_call \<Rightarrow> config_note option \<Rightarrow> config_reply configuring" where
  "config_panel c note =
     act_bind (read_packs (pack_draft (cc_labels c) (cc_org c))) (\<lambda>draft.
     act_bind (read_packs (pack_active (cc_labels c) (cc_org c))) (\<lambda>active.
       act_lift (Inr (Panel note (panel_source draft active),
         if ai_provider (cc_identity c) = ''telegram'' then [] else panel_buttons))))"

section \<open>Brand and services\<close>

definition show_services :: "config_call \<Rightarrow> config_reply configuring" where
  "show_services c = act_bind (config_draft c) (\<lambda>p. act_lift (Inr (services_shown (pd_catalog p))))"

definition brand_start :: "config_call \<Rightarrow> config_reply configuring" where
  "brand_start c = act_bind (config_draft c) (\<lambda>p.
     then_reply (set_session c [(''flow'', JStr ''brand''), (''step'', JStr ''name'')]) (ask AskBrandName))"

definition brand_step :: "config_call \<Rightarrow> string option \<Rightarrow> string \<Rightarrow> config_reply configuring" where
  "brand_step c step text =
     act_bind (config_draft c) (\<lambda>p.
       let b = pd_branding p;
           value = (if text = ''-'' then [] else take (if step = Some ''name'' then 120 else 500) (str_strip text))
       in if step = Some ''name'' then
            (if value = [] then act_lift (Inr (ask BrandNameEmpty))
             else act_bind (config_replace c (p\<lparr>pd_branding := b\<lparr>br_name := value\<rparr>\<rparr>)) (\<lambda>_.
               then_reply (set_session c [(''flow'', JStr ''brand''), (''step'', JStr ''greeting'')]) (ask AskGreeting)))
          else if step = Some ''greeting'' then
            act_bind (config_replace c (p\<lparr>pd_branding := b\<lparr>br_greeting := value\<rparr>\<rparr>)) (\<lambda>_.
               then_reply (set_session c [(''flow'', JStr ''brand''), (''step'', JStr ''support'')]) (ask AskSupport))
          else act_bind (config_replace c (p\<lparr>pd_branding := b\<lparr>br_support := value\<rparr>\<rparr>)) (\<lambda>_.
            act_bind (clear_session c) (\<lambda>_. config_panel c (Some BrandUpdated))))"

definition service_add :: "config_call \<Rightarrow> config_reply configuring" where
  "service_add c = act_bind (config_draft c) (\<lambda>p.
     then_reply (set_session c [(''flow'', JStr ''service_add''), (''step'', JStr ''label'')]) (ask AskServiceName))"

definition replace_catalog :: "config_call \<Rightarrow> pack_definition \<Rightarrow> service_catalog \<Rightarrow> unit configuring" where
  "replace_catalog c p cat = act_bind (act_lift (make_catalog cat)) (\<lambda>x. config_replace c (p\<lparr>pd_catalog := x\<rparr>))"

definition service_save :: "config_call \<Rightarrow> state \<Rightarrow> string \<Rightarrow> config_reply configuring" where
  "service_save c st text =
     (let label = take 120 (str_strip text)
      in if label = [] then act_lift (Inr (ask ServiceNameEmpty))
         else act_bind (config_draft c) (\<lambda>p.
           let cats = cat_categories (pd_catalog p);
               key = text_of (state_text ''item_key'' st);
               saved_label = text_of (state_text ''item_label'' st)
           in if key \<in> set (map sc_key cats)
              then act_bind (clear_session c) (\<lambda>_. show_services c)
              else
                let again = (key = [] \<or> saved_label \<noteq> label);
                    key' = (if again then slug label ''service'' (map sc_key cats) else key)
                in act_bind (if again then set_session c (dict_put ''item_label'' (JStr label) (dict_put ''item_key'' (JStr key') st))
                             else act_lift (Inr ())) (\<lambda>_.
                   act_bind (act_lift (make_category \<lparr>sc_key = key', sc_label = label\<rparr>)) (\<lambda>x.
                   act_bind (replace_catalog c p ((pd_catalog p)\<lparr>cat_categories := cats @ [x]\<rparr>)) (\<lambda>_.
                   act_bind (clear_session c) (\<lambda>_. show_services c))))))"

definition service_delete :: "config_call \<Rightarrow> (string, json) dict \<Rightarrow> config_reply configuring" where
  "service_delete c payload =
     act_bind (config_draft c) (\<lambda>p.
     act_bind (replace_catalog c p ((pd_catalog p)\<lparr>cat_categories :=
         filter (\<lambda>x. sc_key x \<noteq> payload_text ''key'' payload) (cat_categories (pd_catalog p))\<rparr>)) (\<lambda>_. show_services c))"

definition service_multi_select :: "config_call \<Rightarrow> config_reply configuring" where
  "service_multi_select c =
     act_bind (config_draft c) (\<lambda>p.
     act_bind (replace_catalog c p ((pd_catalog p)\<lparr>cat_multi_select := \<not> cat_multi_select (pd_catalog p)\<rparr>)) (\<lambda>_. show_services c))"

definition service_move :: "config_call \<Rightarrow> (string, json) dict \<Rightarrow> config_reply configuring" where
  "service_move c payload =
     act_bind (config_draft c) (\<lambda>p.
     act_bind (replace_catalog c p ((pd_catalog p)\<lparr>cat_categories :=
         move_item sc_key (payload_text ''key'' payload) (payload_text ''direction'' payload) (cat_categories (pd_catalog p))\<rparr>))
       (\<lambda>_. show_services c))"

section \<open>Fields\<close>

definition show_fields :: "config_call \<Rightarrow> config_reply configuring" where
  "show_fields c = act_bind (config_draft c) (\<lambda>p. act_lift (Inr (fields_shown p)))"

definition field_add :: "config_call \<Rightarrow> config_reply configuring" where
  "field_add c = act_bind (config_draft c) (\<lambda>p.
     then_reply (set_session c [(''flow'', JStr ''field_add''), (''step'', JStr ''label''), (''scratch'', JObj [])]) (ask AskFieldName))"

definition field_label :: "config_call \<Rightarrow> state \<Rightarrow> string \<Rightarrow> config_reply configuring" where
  "field_label c st text =
     (let label = take 120 (str_strip text)
      in if label = [] then act_lift (Inr (ask FieldNameEmpty))
         else act_bind (config_draft c) (\<lambda>p.
           then_reply (set_session c (dict_put ''scratch'' (JObj [(''label'', JStr label),
               (''key'', JStr (slug label ''field'' (map fd_key (pd_fields p))))]) (dict_put ''step'' (JStr ''type'') st)))
             field_types_shown))"

definition scratch_of :: "state \<Rightarrow> (string, json) dict" where
  "scratch_of st = (case dict_get ''scratch'' st of Some (JObj d) \<Rightarrow> d | _ \<Rightarrow> [])"

definition adding_field :: "state option \<Rightarrow> state option" where
  "adding_field st = (case st of None \<Rightarrow> None | Some s \<Rightarrow> if state_text ''flow'' s = Some ''field_add'' then Some s else None)"

definition field_type_step :: "config_call \<Rightarrow> (string, json) dict \<Rightarrow> config_reply configuring" where
  "field_type_step c payload =
     act_bind (config_session c) (\<lambda>session.
       case adding_field session of
         None \<Rightarrow> show_fields c
       | Some st \<Rightarrow>
           (case field_type_of (payload_text ''type'' payload) of
              Inl e \<Rightarrow> act_lift (Inr (ask UnknownFieldType))
            | Inr ty \<Rightarrow>
                let scratch = dict_put ''type'' (JStr (field_type_value ty)) (scratch_of st)
                in act_bind
                     (if ty = FAddress
                      then act_bind (config_draft c) (\<lambda>p. act_lift (Inr (if ''address'' \<in> set (map fd_key (pd_fields p))
                        then scratch else dict_put ''key'' (JStr ''address'') scratch)))
                      else act_lift (Inr scratch)) (\<lambda>scratch'.
                   let st' = dict_put ''scratch'' (JObj scratch') st
                   in if ty = FEnum
                      then then_reply (set_session c (dict_put ''step'' (JStr ''choices'') st')) (ask AskChoices)
                      else then_reply (set_session c (dict_put ''step'' (JStr ''required'') st')) required_field_reply)))"

text \<open>The choices of a text: cut at commas, trimmed, empty ones and repeated ones left out.\<close>

fun split_at :: "char \<Rightarrow> string \<Rightarrow> string list" where
  "split_at sep [] = [[]]"
| "split_at sep (ch # s) =
     (if ch = sep then [] # split_at sep s
      else case split_at sep s of [] \<Rightarrow> [[ch]] | x # xs \<Rightarrow> (ch # x) # xs)"

fun distinct_choices :: "(string \<Rightarrow> string) \<Rightarrow> string list \<Rightarrow> string list \<Rightarrow> string list" where
  "distinct_choices casefold seen [] = []"
| "distinct_choices casefold seen (x # xs) =
     (let v = take 80 (str_strip x)
      in if v \<noteq> [] \<and> casefold v \<notin> set seen then v # distinct_choices casefold (casefold v # seen) xs
         else distinct_choices casefold seen xs)"

definition field_choices :: "config_call \<Rightarrow> state \<Rightarrow> string \<Rightarrow> config_reply configuring" where
  "field_choices c st text =
     (let values = distinct_choices (cc_fold c) [] (split_at (CHR '','') text)
      in if length values < 2 then act_lift (Inr (ask TwoChoicesWanted))
         else if length values > 20 then act_lift (Inr (ask TooManyChoices))
         else then_reply (set_session c (dict_put ''step'' (JStr ''required'')
           (dict_put ''scratch'' (JObj (dict_put ''choices'' (JList (map JStr values)) (scratch_of st))) st))) required_field_reply)"

definition scratch_choices :: "(string, json) dict \<Rightarrow> string list" where
  "scratch_choices d = (case dict_get ''choices'' d of
     Some (JList xs) \<Rightarrow> concat (map (\<lambda>x. case x of JStr s \<Rightarrow> [s] | _ \<Rightarrow> []) xs) | _ \<Rightarrow> [])"

definition field_required :: "config_call \<Rightarrow> (string, json) dict \<Rightarrow> config_reply configuring" where
  "field_required c payload =
     act_bind (config_session c) (\<lambda>session.
       case adding_field session of
         None \<Rightarrow> show_fields c
       | Some st \<Rightarrow>
           let scratch = scratch_of st; label = text_of (state_text ''label'' scratch);
               type_text = text_of (state_text ''type'' scratch)
           in act_bind (act_lift (field_type_of (if type_text = [] then ''text'' else type_text))) (\<lambda>ty.
              act_bind (config_draft c) (\<lambda>p.
                let keys = map fd_key (pd_fields p); old = text_of (state_text ''key'' scratch);
                    key = (if old = [] then slug label ''field'' keys else old)
                in act_bind (if old = [] then set_session c (dict_put ''scratch'' (JObj (dict_put ''key'' (JStr key) scratch)) st)
                             else act_lift (Inr ())) (\<lambda>_.
                   if key \<in> set keys then act_bind (clear_session c) (\<lambda>_. show_fields c)
                   else act_bind (act_lift (make_field \<lparr>fd_key = key, fd_label = label, fd_type = ty,
                       fd_required = truthy (get_default ''required'' JNull payload), fd_choices = scratch_choices scratch,
                       fd_prompt = ''Enter: '' @ label,
                       fd_order = (if pd_fields p = [] then 0 else Max (set (map fd_order (pd_fields p)))) + 1\<rparr>)) (\<lambda>f.
                     act_bind (config_replace c (p\<lparr>pd_fields := pd_fields p @ [f]\<rparr>)) (\<lambda>_.
                     act_bind (clear_session c) (\<lambda>_. show_fields c)))))))"

definition field_delete :: "config_call \<Rightarrow> (string, json) dict \<Rightarrow> config_reply configuring" where
  "field_delete c payload =
     act_bind (config_draft c) (\<lambda>p.
     act_bind (config_replace c (p\<lparr>pd_fields := filter (\<lambda>f. fd_key f \<noteq> payload_text ''key'' payload) (pd_fields p)\<rparr>))
       (\<lambda>_. show_fields c))"

definition field_move :: "config_call \<Rightarrow> (string, json) dict \<Rightarrow> config_reply configuring" where
  "field_move c payload =
     act_bind (config_draft c) (\<lambda>p.
       let moved = move_item fd_key (payload_text ''key'' payload) (payload_text ''direction'' payload) (ordered_fields p)
       in act_bind (config_replace c (p\<lparr>pd_fields := map (\<lambda>(index, f). f\<lparr>fd_order := int index\<rparr>) (enumerate 1 moved)\<rparr>))
            (\<lambda>_. show_fields c))"

definition field_prompt :: "config_call \<Rightarrow> (string, json) dict \<Rightarrow> config_reply configuring" where
  "field_prompt c payload =
     act_bind (config_draft c) (\<lambda>p.
       case find (\<lambda>f. fd_key f = payload_text ''key'' payload) (pd_fields p) of
         None \<Rightarrow> show_fields c
       | Some f \<Rightarrow> then_reply (set_session c [(''flow'', JStr ''field_prompt''), (''step'', JStr ''prompt''),
           (''key'', JStr (payload_text ''key'' payload))]) (ask (AskPrompt (field_ask f))))"

definition field_prompt_save :: "config_call \<Rightarrow> state \<Rightarrow> string \<Rightarrow> config_reply configuring" where
  "field_prompt_save c st text =
     (let key = text_of (state_text ''key'' st);
          prompt = (if str_strip text = ''-'' then [] else take 500 (str_strip text))
      in act_bind (config_draft c) (\<lambda>p.
           let fields = map (\<lambda>f. if fd_key f = key then f\<lparr>fd_prompt := prompt\<rparr> else f) (pd_fields p)
           in act_bind (if fields = pd_fields p then act_lift (Inr ()) else config_replace c (p\<lparr>pd_fields := fields\<rparr>)) (\<lambda>_.
              act_bind (clear_session c) (\<lambda>_. show_fields c))))"

section \<open>Evidence, allocation and role names\<close>

definition show_evidence :: "config_call \<Rightarrow> config_reply configuring" where
  "show_evidence c = act_bind (config_draft c) (\<lambda>p. act_lift (Inr (evidence_shown (pd_evidence p))))"

definition toggled :: "string \<Rightarrow> evidence_requirements \<Rightarrow> evidence_requirements" where
  "toggled act e =
     (if act = ''config_evidence_photo_inc'' then e\<lparr>minimum_photos := min (minimum_photos e + 1) 10\<rparr>
      else if act = ''config_evidence_photo_dec'' then e\<lparr>minimum_photos := max (minimum_photos e - 1) 0\<rparr>
      else if act = ''config_evidence_comment'' then e\<lparr>comment_required := \<not> comment_required e\<rparr>
      else if act = ''config_evidence_signature'' then e\<lparr>signature_required := \<not> signature_required e\<rparr>
      else if act = ''config_evidence_code'' then e\<lparr>customer_code_required := \<not> customer_code_required e\<rparr>
      else e)"

definition evidence_toggle :: "config_call \<Rightarrow> string \<Rightarrow> config_reply configuring" where
  "evidence_toggle c act =
     act_bind (config_draft c) (\<lambda>p.
       let e = toggled act (pd_evidence p)
       in then_reply (config_replace c (p\<lparr>pd_evidence := e\<rparr>)) (evidence_shown e))"

definition show_allocation :: "config_call \<Rightarrow> config_reply configuring" where
  "show_allocation c = act_bind (config_draft c) (\<lambda>p. act_lift (Inr (allocation_shown (pd_pool_mode p))))"

definition set_pool_mode :: "config_call \<Rightarrow> (string, json) dict \<Rightarrow> config_reply configuring" where
  "set_pool_mode c payload =
     (case pool_mode_of (payload_text ''mode'' payload) of
        Inl e \<Rightarrow> show_allocation c
      | Inr m \<Rightarrow> act_bind (config_draft c) (\<lambda>p.
          act_bind (config_replace c (p\<lparr>pd_pool_mode := m\<rparr>)) (\<lambda>_. show_allocation c)))"

definition show_role_labels :: "config_call \<Rightarrow> config_reply configuring" where
  "show_role_labels c =
     act_bind (config_draft c) (\<lambda>p.
       let label = (\<lambda>role. case dict_get role (pd_role_labels p) of None \<Rightarrow> Inl (KeyError role) | Some l \<Rightarrow> Inr l)
       in act_bind (act_lift (map_result label EDITED_ROLES)) (\<lambda>ls.
          act_lift (Inr (RoleLabelsShown (ls ! 0) (ls ! 1) (ls ! 2),
            map (\<lambda>(index, (role, l)). admin_button (''Change: '' @ l) ''config_role_label_edit'' [(''role'', JStr role)] index)
              (enumerate 0 (zip EDITED_ROLES ls)) @ [menu_button 3]))))"

definition role_label_edit :: "config_call \<Rightarrow> (string, json) dict \<Rightarrow> config_reply configuring" where
  "role_label_edit c payload =
     (let role = payload_text ''role'' payload
      in case dict_get role (cc_labels c) of
           None \<Rightarrow> show_role_labels c
         | Some l \<Rightarrow> then_reply (set_session c [(''flow'', JStr ''role_label''), (''step'', JStr ''label''), (''role'', JStr role)])
             (ask (AskRoleLabel l)))"

definition role_label_save :: "config_call \<Rightarrow> state \<Rightarrow> string \<Rightarrow> config_reply configuring" where
  "role_label_save c st text =
     (let role = text_of (state_text ''role'' st)
      in case dict_get role (cc_labels c) of
           None \<Rightarrow> act_bind (clear_session c) (\<lambda>_. show_role_labels c)
         | Some standard \<Rightarrow>
             let given = take 80 (str_strip text); label = (if given = ''-'' then standard else given)
             in if label = [] then act_lift (Inr (ask RoleLabelEmpty))
                else act_bind (config_draft c) (\<lambda>p.
                  act_bind (config_replace c (p\<lparr>pd_role_labels := dict_put role label (pd_role_labels p)\<rparr>)) (\<lambda>_.
                  act_bind (clear_session c) (\<lambda>_. show_role_labels c))))"

section \<open>Versions, preview and publication\<close>

definition version_buttons :: "pack_revision list \<Rightarrow> reply_button list" where
  "version_buttons rs =
     (let old = filter (\<lambda>r. rv_state r \<noteq> PackDraft) rs; drafted = list_ex (\<lambda>r. rv_state r = PackDraft) rs; n = length old
      in map (\<lambda>(index, r). admin_button (''To the draft v'' @ int_str (rv_version r)) ''config_restore_version''
           [(''version'', JInt (rv_version r))] index) (enumerate 0 old) @
         (if drafted then [admin_button ''Discard the draft'' ''config_discard_draft'' [] n, menu_button (n + 1)] else [menu_button n]))"

definition show_versions :: "config_call \<Rightarrow> config_reply configuring" where
  "show_versions c =
     act_bind (read_packs (revisions (cc_labels c) (cc_org c))) (\<lambda>rs.
       if rs = [] then config_panel c (Some NoVersions)
       else act_lift (Inr (VersionsShown (map (\<lambda>r. (rv_version r, rv_state r, br_name (pd_branding (rv_definition r)))) rs),
         version_buttons rs)))"

definition discard_draft_ask :: "config_call \<Rightarrow> config_reply configuring" where
  "discard_draft_ask c =
     act_bind (read_packs (pack_draft (cc_labels c) (cc_org c))) (\<lambda>draft.
       case draft of
         None \<Rightarrow> show_versions c
       | Some p \<Rightarrow> act_lift (Inr (AskDiscard, [admin_button ''Yes'' ''config_discard_draft_confirm'' [] 0,
           admin_button ''No'' ''config_versions'' [] 1])))"

definition discard_draft_confirm :: "config_call \<Rightarrow> config_reply configuring" where
  "discard_draft_confirm c =
     act_bind (on_packs (\<lambda>t. Inr (discard_draft (cc_org c) t))) (\<lambda>discarded.
       config_panel c (Some (if discarded then DraftDiscarded else DraftWasGone)))"

definition asked_version :: "(string, json) dict \<Rightarrow> int option result" where
  "asked_version payload =
     (case as_int (get_default ''version'' JNull payload) of
        Inr v \<Rightarrow> Inr (Some v) | Inl (TypeError m) \<Rightarrow> Inr None | Inl (ValueError m) \<Rightarrow> Inr None | Inl e \<Rightarrow> Inl e)"

definition restore_version :: "config_call \<Rightarrow> (string, json) dict \<Rightarrow> config_reply configuring" where
  "restore_version c payload =
     act_bind (act_lift (asked_version payload)) (\<lambda>version.
       case version of
         None \<Rightarrow> show_versions c
       | Some v \<Rightarrow> act_bind (read_packs (pack_revision_at (cc_labels c) (cc_org c) v)) (\<lambda>r.
           case r of
             None \<Rightarrow> show_versions c
           | Some x \<Rightarrow> act_lift (Inr (AskRestore v,
               [admin_button ''Yes'' ''config_restore_version_confirm'' [(''version'', JInt v)] 0, admin_button ''No'' ''config_versions'' [] 1]))))"

definition restore_version_confirm :: "config_call \<Rightarrow> (string, json) dict \<Rightarrow> config_reply configuring" where
  "restore_version_confirm c payload =
     act_bind (act_lift (asked_version payload)) (\<lambda>version.
       case version of
         None \<Rightarrow> show_versions c
       | Some v \<Rightarrow> (\<lambda>d. case on_packs (restore_as_draft (cc_org c) v) d of
           (Inl (NotFound k i), d') \<Rightarrow> show_versions c d'
         | (Inl e, d') \<Rightarrow> (Inl e, d')
         | (Inr draft_version, d') \<Rightarrow> config_panel c (Some (VersionCopied v draft_version)) d'))"

definition preview :: "config_call \<Rightarrow> config_reply configuring" where
  "preview c =
     act_bind (read_packs (pack_draft (cc_labels c) (cc_org c))) (\<lambda>draft.
     act_bind (if draft = None then read_packs (pack_active (cc_labels c) (cc_org c)) else act_lift (Inr draft)) (\<lambda>p.
       case p of
         None \<Rightarrow> config_panel c (Some NothingToPreview)
       | Some x \<Rightarrow> act_lift (Inr (PreviewShown x, [menu_button 0]))))"

definition publish :: "config_call \<Rightarrow> config_reply configuring" where
  "publish c d =
     (case on_packs (publish_draft (cc_labels c) (cc_org c) (cc_now c)) d of
        (Inl (PackValidationError m), d') \<Rightarrow> (Inr (PublishFailed (PackValidationError m), [menu_button 0]), d')
      | (Inl (NotFound k i), d') \<Rightarrow> config_panel c (Some NoDraftToPublish) d'
      | (Inl e, d') \<Rightarrow> (Inl e, d')
      | (Inr v, d') \<Rightarrow> (Inr (PackPublished v, []), d'))"

section \<open>The roles of the administrator\<close>

definition owner_roles :: "config_call \<Rightarrow> config_note option \<Rightarrow> config_reply configuring" where
  "owner_roles c note =
     (if \<not> cc_manages c then act_lift (Inr (RolesUnavailable, []))
      else act_bind (read_people (\<lambda>t. Inr (get_actor (cc_org c) (ai_actor_id (cc_identity c)) t))) (\<lambda>actor.
        case actor of
          None \<Rightarrow> act_lift (Inr (AdminProfileMissing, []))
        | Some (a, held) \<Rightarrow>
            let roles = (if held = [] then [a_role a] else held);
                b1 = (if ''operator'' \<in> set roles then [] else [admin_button ''Add the operator role'' ''config_owner_add_operator'' [] 0]);
                b2 = (if ''master'' \<in> set roles then [] else [admin_button ''Add the master role'' ''config_owner_add_master'' [] (length b1)]);
                b3 = (if {''operator'', ''master''} \<subseteq> set roles then []
                      else [admin_button ''Turn on the nano mode'' ''config_owner_nano'' [] (length (b1 @ b2))])
            in act_lift (Inr (OwnerRoles note (filter (\<lambda>r. r \<in> set roles) [''admin'', ''operator'', ''master'', ''client'']),
                 b1 @ b2 @ b3 @ [menu_button (length (b1 @ b2 @ b3))]))))"

definition grant_own_role :: "config_call \<Rightarrow> string \<Rightarrow> bool configuring" where
  "grant_own_role c role = on_people (grant_role (cc_org c) (ai_actor_id (cc_identity c)) role (cc_now c))"

definition grant_owner_role :: "config_call \<Rightarrow> string \<Rightarrow> config_reply configuring" where
  "grant_owner_role c role =
     (if \<not> cc_manages c then act_lift (Inr (RolesUnavailable, []))
      else act_bind (grant_own_role c role) (\<lambda>granted. owner_roles c (Some (if granted then RoleAdded else RoleNotAdded))))"

definition owner_nano :: "config_call \<Rightarrow> config_reply configuring" where
  "owner_nano c =
     (if \<not> cc_manages c then act_lift (Inr (RolesUnavailable, []))
      else act_bind (grant_own_role c ''operator'') (\<lambda>_. act_bind (grant_own_role c ''master'') (\<lambda>_.
        owner_roles c (Some NanoModeOn))))"

section \<open>Operators\<close>

definition managing :: "config_call \<Rightarrow> config_reply configuring \<Rightarrow> config_reply configuring" where
  "managing c f = (if cc_manages c then f else act_lift (Inr (OperatorsUnavailable, [])))"

definition actor_payload :: "string \<Rightarrow> (string, json) dict" where
  "actor_payload actor = [(''actor_id'', JStr actor)]"

definition list_operators :: "config_call \<Rightarrow> config_reply configuring" where
  "list_operators c = managing c
     (act_bind (read_people (list_actors (cc_org c) ''operator'')) (\<lambda>xs.
        if xs = [] then act_lift (Inr (NoOperators, [admin_button ''Add an operator'' ''config_add_operator'' [] 0, menu_button 1]))
        else act_lift (Inr (OperatorsShown xs,
          map (\<lambda>(index, x). admin_button (''i '' @ as_name x) ''config_operator_info'' (actor_payload (as_id x)) index) (enumerate 1 xs) @
          [admin_button ''Add an operator'' ''config_add_operator'' [] (length xs + 1), menu_button (length xs + 3)]))))"

definition add_operator :: "config_call \<Rightarrow> config_reply configuring" where
  "add_operator c = managing c
     (then_reply (set_session c [(''flow'', JStr ''add_operator''), (''step'', JStr ''name''),
        (''request_key'', JStr (ai_actor_id (cc_identity c) @ '':add-operator:'' @ cc_uuid c))]) (ask AskOperatorName))"

definition add_operator_save :: "config_call \<Rightarrow> state \<Rightarrow> string \<Rightarrow> config_reply configuring" where
  "add_operator_save c st text = managing c
     (let name = take 200 (str_strip text)
      in if name = [] then act_lift (Inr (ask OperatorNameEmpty))
         else then_reply (set_session c (dict_put ''name'' (JStr name) (dict_put ''step'' (JStr ''phone'') st)))
           (ask (AskOperatorPhone name)))"

definition add_operator_phone :: "config_call \<Rightarrow> state \<Rightarrow> string \<Rightarrow> config_reply configuring" where
  "add_operator_phone c st text = managing c
     (case normalize_phone text of
        None \<Rightarrow> act_lift (Inr (ask FullPhoneWanted))
      | Some phone \<Rightarrow>
          let name = str_strip (text_of (state_text ''name'' st))
          in if name = [] then act_bind (clear_session c) (\<lambda>_. config_panel c (Some OperatorNameLost))
             else
               let old = text_of (state_text ''request_key'' st);
                   request_key = (if old = [] then ai_actor_id (cc_identity c) @ '':add-operator:'' @ cc_uuid c else old)
               in act_bind (if old = [] then set_session c (dict_put ''request_key'' (JStr request_key) st) else act_lift (Inr ())) (\<lambda>_.
                  act_bind (on_people (create_staff_actor (cc_org c) ''operator'' name (Some phone) None None (Some request_key)
                      (cc_hex c) (cc_draws c) (cc_now c))) (\<lambda>x.
                  then_reply (clear_session c) (OperatorCreated x, [admin_button ''To the operators'' ''config_list_operators'' [] 0]))))"

text \<open>What is done with an operator of the payload; anybody else leads back to the list.\<close>

definition with_operator_row ::
  "config_call \<Rightarrow> (string, json) dict \<Rightarrow> (string \<Rightarrow> actor_row \<Rightarrow> config_reply configuring) \<Rightarrow> config_reply configuring" where
  "with_operator_row c payload f = managing c
     (let actor = payload_text ''actor_id'' payload
      in act_bind (read_people (\<lambda>t. Inr (get_actor (cc_org c) actor t))) (\<lambda>found.
        case found of
          None \<Rightarrow> list_operators c
        | Some (a, roles) \<Rightarrow> if ''operator'' \<in> set roles then f actor a else list_operators c))"

definition operator_info :: "config_call \<Rightarrow> (string, json) dict \<Rightarrow> config_reply configuring" where
  "operator_info c payload = with_operator_row c payload (\<lambda>actor a. act_lift (Inr (OperatorCard a,
     [admin_button ''Call the operator'' ''config_call_operator'' (actor_payload actor) 0,
      admin_button ''Change the phone'' ''config_edit_operator_phone'' (actor_payload actor) 1,
      admin_button ''Remove the operator role'' ''config_del_operator'' (actor_payload actor) 2,
      admin_button ''To the operators'' ''config_list_operators'' [] 3])))"

definition call_operator :: "config_call \<Rightarrow> (string, json) dict \<Rightarrow> config_reply configuring" where
  "call_operator c payload = with_operator_row c payload (\<lambda>actor a. act_lift (Inr (OperatorCall a,
     [admin_button ''To the operator'' ''config_operator_info'' (actor_payload actor) 0])))"

definition edit_operator_phone :: "config_call \<Rightarrow> (string, json) dict \<Rightarrow> config_reply configuring" where
  "edit_operator_phone c payload = with_operator_row c payload (\<lambda>actor a.
     then_reply (set_session c [(''flow'', JStr ''edit_operator_phone''), (''step'', JStr ''phone''), (''actor_id'', JStr actor)])
       (ask (AskNewPhone (a_name a))))"

definition edit_operator_phone_save :: "config_call \<Rightarrow> state \<Rightarrow> string \<Rightarrow> config_reply configuring" where
  "edit_operator_phone_save c st text = managing c
     (case normalize_phone text of
        None \<Rightarrow> act_lift (Inr (ask FullPhoneWanted))
      | Some phone \<Rightarrow>
          let actor = text_of (state_text ''actor_id'' st)
          in act_bind (on_people (\<lambda>t. Inr (update_actor_phone (cc_org c) actor phone t))) (\<lambda>updated.
             act_bind (clear_session c) (\<lambda>_.
               if updated then operator_info c (actor_payload actor) else list_operators c)))"

definition del_operator :: "config_call \<Rightarrow> (string, json) dict \<Rightarrow> config_reply configuring" where
  "del_operator c payload = managing c
     (let actor = payload_text ''actor_id'' payload
      in if actor = [] then list_operators c
         else act_bind (read_people (\<lambda>t. Inr (get_actor (cc_org c) actor t))) (\<lambda>found.
           case found of
             None \<Rightarrow> list_operators c
           | Some (a, roles) \<Rightarrow> act_lift (Inr (AskRemoveOperator (a_name a),
               [admin_button ''Yes'' ''config_del_operator_confirm'' (actor_payload actor) 0, admin_button ''Cancel'' ''config_cancel'' [] 1]))))"

definition del_operator_confirm :: "config_call \<Rightarrow> (string, json) dict \<Rightarrow> config_reply configuring" where
  "del_operator_confirm c payload = managing c
     (let actor = payload_text ''actor_id'' payload
      in act_bind (if actor = [] then act_lift (Inr False) else on_people (revoke_role (cc_org c) actor ''operator'' (cc_now c)))
           (\<lambda>_. list_operators c))"

section \<open>What the administrator sends\<close>

definition config_button :: "config_call \<Rightarrow> string \<Rightarrow> (string, json) dict \<Rightarrow> config_reply configuring" where
  "config_button c act payload =
     (if act = ''config_cancel'' then act_bind (clear_session c) (\<lambda>_. config_panel c (Some ActionCancelled))
      else if act = ''config_menu'' then config_panel c None
      else if act = ''config_brand'' then brand_start c
      else if act = ''config_services'' then show_services c
      else if act = ''config_service_add'' then service_add c
      else if act = ''config_service_delete'' then service_delete c payload
      else if act = ''config_service_move'' then service_move c payload
      else if act = ''config_service_multi_select'' then service_multi_select c
      else if act = ''config_fields'' then show_fields c
      else if act = ''config_field_add'' then field_add c
      else if act = ''config_field_delete'' then field_delete c payload
      else if act = ''config_field_move'' then field_move c payload
      else if act = ''config_field_prompt'' then field_prompt c payload
      else if act = ''config_field_type'' then field_type_step c payload
      else if act = ''config_field_required'' then field_required c payload
      else if act = ''config_evidence'' then show_evidence c
      else if act \<in> {''config_evidence_photo_inc'', ''config_evidence_photo_dec'', ''config_evidence_comment'',
        ''config_evidence_signature'', ''config_evidence_code''} then evidence_toggle c act
      else if act = ''config_allocation'' then show_allocation c
      else if act = ''config_pool_mode'' then set_pool_mode c payload
      else if act = ''config_role_labels'' then show_role_labels c
      else if act = ''config_role_label_edit'' then role_label_edit c payload
      else if act = ''config_versions'' then show_versions c
      else if act = ''config_discard_draft'' then discard_draft_ask c
      else if act = ''config_discard_draft_confirm'' then discard_draft_confirm c
      else if act = ''config_restore_version'' then restore_version c payload
      else if act = ''config_restore_version_confirm'' then restore_version_confirm c payload
      else if act = ''config_preview'' then preview c
      else if act = ''config_publish'' then publish c
      else if act = ''config_add_operator'' then add_operator c
      else if act = ''config_list_operators'' then list_operators c
      else if act = ''config_operator_info'' then operator_info c payload
      else if act = ''config_call_operator'' then call_operator c payload
      else if act = ''config_edit_operator_phone'' then edit_operator_phone c payload
      else if act = ''config_del_operator'' then del_operator c payload
      else if act = ''config_del_operator_confirm'' then del_operator_confirm c payload
      else if act = ''config_owner_roles'' then owner_roles c None
      else if act = ''config_owner_add_operator'' then grant_owner_role c ''operator''
      else if act = ''config_owner_add_master'' then grant_owner_role c ''master''
      else if act = ''config_owner_nano'' then owner_nano c
      else config_panel c (Some UnknownButton))"

text \<open>\<open>text.split()[0].lstrip("/").split("@")[0].lower()\<close> of a stripped text that starts with a slash\<close>

definition command_word :: "string \<Rightarrow> string" where
  "command_word text = str_lower (takeWhile (\<lambda>ch. ch \<noteq> CHR ''@'') (dropWhile (\<lambda>ch. ch = CHR ''/'')
     (takeWhile (\<lambda>ch. \<not> is_space ch) text)))"

definition config_command :: "config_call \<Rightarrow> string \<Rightarrow> config_reply configuring" where
  "config_command c text =
     (let word = command_word text
      in if word \<in> {''config'', ''start''} then config_panel c None
         else if word = ''brand'' then brand_start c
         else if word = ''services'' then show_services c
         else if word = ''fields'' then show_fields c
         else if word = ''evidence'' then show_evidence c
         else if word = ''allocation'' then show_allocation c
         else if word = ''role_labels'' then show_role_labels c
         else if word = ''versions'' then show_versions c
         else if word = ''operators'' then list_operators c
         else if word = ''preview'' then preview c
         else if word = ''publish'' then publish c
         else config_panel c (Some UnknownCommand))"

definition config_consume :: "config_call \<Rightarrow> state \<Rightarrow> string \<Rightarrow> config_reply configuring" where
  "config_consume c st text =
     (let here = (\<lambda>flow step. state_text ''flow'' st = Some flow \<and> state_text ''step'' st = Some step)
      in if state_text ''flow'' st = Some ''brand'' then brand_step c (state_text ''step'' st) text
         else if here ''service_add'' ''label'' then service_save c st text
         else if here ''field_add'' ''label'' then field_label c st text
         else if here ''field_add'' ''choices'' then field_choices c st text
         else if here ''field_prompt'' ''prompt'' then field_prompt_save c st text
         else if here ''role_label'' ''label'' then role_label_save c st text
         else if here ''add_operator'' ''name'' then add_operator_save c st text
         else if here ''add_operator'' ''phone'' then add_operator_phone c st text
         else if here ''edit_operator_phone'' ''phone'' then edit_operator_phone_save c st text
         else act_lift (Inr (ask PickByButton)))"

definition config_text :: "config_call \<Rightarrow> string \<Rightarrow> config_reply configuring" where
  "config_text c given =
     (let text = str_strip given; slash = str_starts_with ''/'' text
      in act_bind (config_session c) (\<lambda>session.
        case (case session of None \<Rightarrow> None | Some st \<Rightarrow> if text_of (state_text ''flow'' st) = [] then None else Some st) of
          Some st \<Rightarrow>
            if slash then act_bind (clear_session c) (\<lambda>_. config_command c text) else config_consume c st text
        | None \<Rightarrow> if slash then config_command c text else config_panel c (Some PressSection)))"

datatype config_input = CfStart | CfText string | CfButton string "(string, json) dict"

fun config_handle :: "config_call \<Rightarrow> config_input \<Rightarrow> config_reply configuring" where
  "config_handle c CfStart = config_panel c None"
| "config_handle c (CfText text) = config_text c text"
| "config_handle c (CfButton act payload) = config_button c act payload"

end
