(* ===== verification/Effects.thy ===== *)
theory Effects
  imports Dispatch_Service
begin

text \<open>
  How handlers are proved from the statements they run: an action keeps an invariant, moves the state along
  a relation, and what it returns has a property. The locale is the contract that a coordinator's state has
  to meet for this; the configurator and the workspaces of the staff interpret it.
\<close>

locale effects =
  fixes ok :: "'s \<Rightarrow> bool" and moves :: "'s \<Rightarrow> 's \<Rightarrow> bool"
  assumes moves_refl: "ok s \<Longrightarrow> moves s s"
    and moves_trans: "moves s s' \<Longrightarrow> moves s' s'' \<Longrightarrow> moves s s''"
begin

definition does :: "('a \<Rightarrow> bool) \<Rightarrow> ('s, 'a) action \<Rightarrow> bool" where
  "does Q f \<longleftrightarrow> (\<forall>s. ok s \<longrightarrow> (case f s of (r, s') \<Rightarrow> ok s' \<and> moves s s' \<and> (\<forall>x. r = Inr x \<longrightarrow> Q x)))"

lemma does_bind:
  assumes "does Q f" "\<And>x. Q x \<Longrightarrow> does Q' (g x)"
  shows "does Q' (act_bind f g)"
  unfolding does_def
proof (intro allI impI)
  fix s assume s: "ok s"
  obtain r s1 where f: "f s = (r, s1)" by force
  then have s1: "ok s1" "moves s s1" "\<And>x. r = Inr x \<Longrightarrow> Q x" using assms(1) s unfolding does_def by force+
  show "case act_bind f g s of (r, s') \<Rightarrow> ok s' \<and> moves s s' \<and> (\<forall>x. r = Inr x \<longrightarrow> Q' x)"
  proof (cases r)
    case (Inl e)
    then show ?thesis using f s1 by (simp add: act_bind_def)
  next
    case (Inr x)
    obtain r2 s2 where g: "g x s1 = (r2, s2)" by force
    then have "ok s2" "moves s1 s2" "\<And>y. r2 = Inr y \<Longrightarrow> Q' y"
      using assms(2)[OF s1(3)[OF Inr]] s1(1) unfolding does_def by force+
    then show ?thesis using f Inr g moves_trans[OF s1(2)] by (simp add: act_bind_def)
  qed
qed

lemma does_weaken: "does Q f \<Longrightarrow> (\<And>x. Q x \<Longrightarrow> Q' x) \<Longrightarrow> does Q' f"
  unfolding does_def by fastforce

lemma does_any: "does Q f \<Longrightarrow> does (\<lambda>_. True) f"
  by (erule does_weaken) simp

lemma does_lift: "(\<And>s x. ok s \<Longrightarrow> r = Inr x \<Longrightarrow> Q x) \<Longrightarrow> does Q (act_lift r)"
  by (simp add: does_def act_lift_def moves_refl)

lemma does_return: "does (\<lambda>_. True) (act_lift r)"
  by (rule does_lift) simp

lemma does_read: "(\<And>s x. ok s \<Longrightarrow> f s = Inr x \<Longrightarrow> Q x) \<Longrightarrow> does Q (act_read f)"
  by (simp add: does_def act_read_def moves_refl)

lemma does_split:
  "(b \<Longrightarrow> does Q f) \<Longrightarrow> (\<not> b \<Longrightarrow> does Q g) \<Longrightarrow> does Q (if b then f else g)"
  "(x = None \<Longrightarrow> does Q f) \<Longrightarrow> (\<And>y. x = Some y \<Longrightarrow> does Q (h y)) \<Longrightarrow> does Q (case x of None \<Rightarrow> f | Some y \<Rightarrow> h y)"
  "(\<And>e. z = Inl e \<Longrightarrow> does Q (k e)) \<Longrightarrow> (\<And>y. z = Inr y \<Longrightarrow> does Q (l y)) \<Longrightarrow> does Q (case z of Inl e \<Rightarrow> k e | Inr y \<Rightarrow> l y)"
  "(\<And>a b. w = (a, b) \<Longrightarrow> does Q (m a b)) \<Longrightarrow> does Q (case w of (a, b) \<Rightarrow> m a b)"
  by (auto split: option.split sum.split prod.split)

end

end
