(* ===== verification/Configurator_Laws.thy ===== *)
theory Configurator_Laws
  imports Configurator Intake_Laws Effects
begin

text \<open>
  What an administrator can do with the configurator: every input is a sequence of the operations of the
  pack store on the organization of the administrator, drafts stay well formed, and only publication
  changes what clients see.
\<close>

section \<open>Well-formed packs\<close>

definition pack_ok :: "(string, string) dict \<Rightarrow> pack_definition \<Rightarrow> bool" where
  "pack_ok labels p \<longleftrightarrow>
     list_all (\<lambda>f. make_field f = Inr f) (pd_fields p) \<and> distinct (map fd_key (pd_fields p)) \<and>
     list_all (\<lambda>x. make_category x = Inr x) (cat_categories (pd_catalog p)) \<and>
     distinct (map sc_key (cat_categories (pd_catalog p))) \<and>
     0 \<le> minimum_photos (pd_evidence p) \<and> update_dict labels (pd_role_labels p) = pd_role_labels p"

definition well_formed :: "(string, string) dict \<Rightarrow> json \<Rightarrow> bool" where
  "well_formed labels j \<longleftrightarrow> (case pack_from_json labels j of Inr p \<Rightarrow> pack_ok labels p | Inl e \<Rightarrow> False)"

definition packs_ok :: "(string, string) dict \<Rightarrow> pack_table \<Rightarrow> bool" where
  "packs_ok labels t \<longleftrightarrow> pack_constraints t \<and> (\<forall>r \<in> set t. well_formed labels (pk_definition r))"

lemma well_formed_reads: "well_formed labels j \<longleftrightarrow> (\<exists>p. pack_from_json labels j = Inr p \<and> pack_ok labels p)"
  by (auto simp: well_formed_def split: sum.splits)

lemma pack_ok_reads:
  assumes "pack_ok labels p"
  shows "pack_from_json labels (pack_to_json p) = Inr p"
proof -
  have "map_result category_from_json (map category_to_json (cat_categories (pd_catalog p))) = Inr (cat_categories (pd_catalog p))"
    using assms by (intro map_result_all) (auto simp: pack_ok_def list_all_iff intro: category_json)
  then have c: "catalog_from_json (catalog_to_json (pd_catalog p)) = Inr (pd_catalog p)"
    using assms by (cases "pd_catalog p") (simp add: pack_ok_def catalog_from_json_def catalog_to_json_def get_default_def make_catalog_def)
  have f: "map_result field_from_json (map field_to_json (pd_fields p)) = Inr (pd_fields p)"
    using assms by (intro map_result_all) (auto simp: pack_ok_def list_all_iff intro: field_json)
  have e: "evidence_from_json (evidence_to_json (pd_evidence p)) = Inr (pd_evidence p)"
    using assms by (cases "pd_evidence p") (simp add: pack_ok_def evidence_from_json_def evidence_to_json_def get_default_def make_evidence_def)
  show ?thesis
    using c f e assms
    by (cases p) (simp add: pack_ok_def pack_from_json_def pack_to_json_def get_default_def labels_json)
qed

lemma blank_ok: "dict_ok labels \<Longrightarrow> pack_ok labels (blank_definition labels)"
  using update_dict_idem[of labels "[]"] by (simp add: pack_ok_def blank_definition_def default_evidence_def)

lemma pack_ok_well_formed: "pack_ok labels p \<Longrightarrow> well_formed labels (pack_to_json p)"
  by (simp add: well_formed_def pack_ok_reads)

lemma packs_ok_read:
  assumes "packs_ok labels t"
  shows "pack_draft labels org t = Inr (Some p) \<Longrightarrow> pack_ok labels p"
    and "pack_active labels org t = Inr (Some p) \<Longrightarrow> pack_ok labels p"
proof -
  have "pack_ok labels p" if "find P t = Some r" "pack_from_json labels (pk_definition r) = Inr p" for P r
    using assms find_SomeD[OF that(1)] that(2) by (auto simp: packs_ok_def well_formed_def)
  then show "pack_draft labels org t = Inr (Some p) \<Longrightarrow> pack_ok labels p"
    "pack_active labels org t = Inr (Some p) \<Longrightarrow> pack_ok labels p"
    by (auto simp: pack_draft_def pack_active_def active_revision_def optional_revision_def revision_from_row_def
        split: option.splits)
qed

lemma packs_ok_exec:
  assumes "packs_ok labels t" "pack_exec labels op t = Inr t'"
    and "\<And>r'. r' \<in> set t' \<Longrightarrow> pk_definition r' \<in> pk_definition ` set t \<or> well_formed labels (pk_definition r')"
  shows "packs_ok labels t'"
  using assms pack_exec_constraints[of t labels op t'] unfolding packs_ok_def by fastforce

lemma packs_ok_update:
  assumes "packs_ok labels t" "pack_ok labels p" "update_draft org p t = Inr t'"
  shows "packs_ok labels t'"
proof (rule packs_ok_exec[OF assms(1)])
  show "pack_exec labels (UpdateDraft org p) t = Inr t'" using assms(3) by simp
qed (use assms pack_ok_well_formed[OF assms(2)] in \<open>auto simp: update_draft_def set_update_rows split: if_splits\<close>)

lemma insert_draft_set: "insert_draft org j t = Inr (v, t') \<Longrightarrow> r' \<in> set t' \<Longrightarrow> r' \<in> set t \<or> pk_definition r' = j"
  by (auto simp: insert_draft_def Let_def)

lemma ensure_draft_cases:
  assumes "ensure_draft labels org seed t = Inr (p, t')"
  obtains (old) r where "find (in_state org PackDraft) t = Some r" "pack_from_json labels (pk_definition r) = Inr p" "t' = t"
  | (seeded) v where "insert_draft org (pack_to_json seed) t = Inr (v, t')" "p = seed"
proof (cases "find (in_state org PackDraft) t")
  case None
  with assms show ?thesis
    by (cases "insert_draft org (pack_to_json seed) t") (auto simp: ensure_draft_def intro: seeded)
next
  case (Some r)
  with assms show ?thesis
    by (cases "pack_from_json labels (pk_definition r)") (auto simp: ensure_draft_def intro: old)
qed

lemma packs_ok_ensure:
  assumes "packs_ok labels t" "pack_ok labels seed" "ensure_draft labels org seed t = Inr (p, t')"
  shows "packs_ok labels t' \<and> pack_ok labels p"
  using assms(3)
proof (cases rule: ensure_draft_cases)
  case (seeded v)
  have "packs_ok labels t'"
  proof (rule packs_ok_exec[OF assms(1)])
    show "pack_exec labels (EnsureDraft org seed) t = Inr t'" using assms(3) by simp
  qed (use insert_draft_set[OF seeded(1)] pack_ok_well_formed[OF assms(2)] in \<open>metis imageI\<close>)
  then show ?thesis using seeded(2) assms(2) by simp
next
  case (old r)
  then have "well_formed labels (pk_definition r)" using assms(1) find_SomeD[OF old(1)] by (auto simp: packs_ok_def)
  then show ?thesis using assms(1) old by (simp add: well_formed_def)
qed

lemma packs_ok_restore:
  assumes "packs_ok labels t" "restore_as_draft org v t = Inr (n, t')"
  shows "packs_ok labels t'"
proof (rule packs_ok_exec[OF assms(1)])
  show "pack_exec labels (RestoreDraft org v) t = Inr t'" using assms(2) by simp
  obtain src where src: "src \<in> set t" "find (published org v) t = Some src"
    using assms(2) find_SomeD[of _ t] by (auto simp: restore_as_draft_def split: option.splits)
  fix r' assume "r' \<in> set t'"
  then show "pk_definition r' \<in> pk_definition ` set t \<or> well_formed labels (pk_definition r')"
    using assms(2) src
    by (auto simp: restore_as_draft_def set_update_rows split: option.splits dest: insert_draft_set)
qed

lemma packs_ok_discard: "packs_ok labels t \<Longrightarrow> packs_ok labels (snd (discard_draft org t))"
  by (rule packs_ok_exec[where op = "DiscardDraft org"]) (auto simp: discard_draft_def delete_rows_def)

lemma packs_ok_publish:
  assumes "packs_ok labels t" "publish_draft labels org now t = Inr (v, t')"
  shows "packs_ok labels t'"
proof (rule packs_ok_exec[OF assms(1)])
  show "pack_exec labels (PublishDraft org now) t = Inr t'" using assms(2) by simp
qed (use assms(2) in \<open>auto simp: publish_draft_def set_update_rows split: option.splits\<close>)

section \<open>The editing of a draft\<close>

fun op_organization :: "pack_op \<Rightarrow> string" where
  "op_organization (EnsureDraft org seed) = org"
| "op_organization (UpdateDraft org p) = org"
| "op_organization (DiscardDraft org) = org"
| "op_organization (RestoreDraft org v) = org"
| "op_organization (PublishDraft org now) = org"
| "op_organization (BootstrapActive org seed now) = org"

fun drafts_only :: "pack_op \<Rightarrow> bool" where
  "drafts_only (PublishDraft org now) = False"
| "drafts_only (BootstrapActive org seed now) = False"
| "drafts_only op = True"

inductive pack_steps :: "(string, string) dict \<Rightarrow> (pack_op \<Rightarrow> bool) \<Rightarrow> pack_table \<Rightarrow> pack_table \<Rightarrow> bool" for labels P where
  none: "pack_steps labels P t t"
| step: "pack_steps labels P t t1 \<Longrightarrow> P op \<Longrightarrow> pack_exec labels op t1 = Inr t2 \<Longrightarrow> pack_steps labels P t t2"

lemma pack_steps_trans: "pack_steps labels P t1 t2 \<Longrightarrow> pack_steps labels P t t1 \<Longrightarrow> pack_steps labels P t t2"
  by (induction rule: pack_steps.induct) (auto intro: pack_steps.step)

lemma pack_steps_one: "P op \<Longrightarrow> pack_exec labels op t = Inr t' \<Longrightarrow> pack_steps labels P t t'"
  by (auto intro: pack_steps.intros)

lemma pack_steps_mono: "pack_steps labels P t t' \<Longrightarrow> (\<And>op. P op \<Longrightarrow> Q op) \<Longrightarrow> pack_steps labels Q t t'"
  by (induction rule: pack_steps.induct) (auto intro: pack_steps.intros)

definition config_ok :: "config_call \<Rightarrow> config_db \<Rightarrow> bool" where
  "config_ok c d \<longleftrightarrow> dict_ok (cc_labels c) \<and> packs_ok (cc_labels c) (cd_packs d)"

definition drafting_op :: "config_call \<Rightarrow> pack_op \<Rightarrow> bool" where
  "drafting_op c op \<longleftrightarrow> op_organization op = cc_org c \<and> drafts_only op"

text \<open>What an input leaves alone: the people of other organizations and the sessions of other administrators.\<close>

definition elsewhere_same :: "config_call \<Rightarrow> config_db \<Rightarrow> config_db \<Rightarrow> bool" where
  "elsewhere_same c d d' \<longleftrightarrow> (\<forall>org. org \<noteq> cc_org c \<longrightarrow> people_of org (cd_people d') = people_of org (cd_people d)) \<and>
     (\<forall>k. k \<noteq> config_key_of c \<longrightarrow> dict_get k (cd_sessions d') = dict_get k (cd_sessions d))"

lemma elsewhere_same_refl [simp]: "elsewhere_same c d d" "elsewhere_same c d (d\<lparr>cd_packs := t\<rparr>)"
  by (simp_all add: elsewhere_same_def)

lemma elsewhere_same_trans: "elsewhere_same c d d1 \<Longrightarrow> elsewhere_same c d1 d2 \<Longrightarrow> elsewhere_same c d d2"
  by (simp add: elsewhere_same_def)

definition draft_moves :: "config_call \<Rightarrow> config_db \<Rightarrow> config_db \<Rightarrow> bool" where
  "draft_moves c d d' \<longleftrightarrow> pack_steps (cc_labels c) (drafting_op c) (cd_packs d) (cd_packs d') \<and> elsewhere_same c d d'"

interpretation drafting: effects "config_ok c" "draft_moves c" for c
  by unfold_locales (auto simp: draft_moves_def intro: pack_steps.none pack_steps_trans elsewhere_same_trans)

abbreviation edits :: "config_call \<Rightarrow> ('a \<Rightarrow> bool) \<Rightarrow> 'a configuring \<Rightarrow> bool" where
  "edits c \<equiv> effects.does (config_ok c) (draft_moves c)"

lemma edits_other:
  assumes "\<And>d. cd_packs (snd (f d)) = cd_packs d \<and> elsewhere_same c d (snd (f d))"
  shows "edits c (\<lambda>_. True) f"
  unfolding drafting.does_def using assms
  by (auto simp: config_ok_def draft_moves_def split: prod.split) (metis pack_steps.none snd_conv)+

lemma dict_get_other [simp]:
  "k' \<noteq> k \<Longrightarrow> dict_get k' (session_put ev k provider st now t) = dict_get k' t"
  "k' \<noteq> k \<Longrightarrow> dict_get k' (session_clear k t) = dict_get k' t"
  by (simp_all add: session_put_def session_clear_def dict_get_put dict_get_pop)

lemma edits_sessions: "edits c (\<lambda>_. True) (set_session c st)" "edits c (\<lambda>_. True) (clear_session c)"
  "edits c (\<lambda>_. True) (config_session c)"
  by (rule edits_other, simp add: set_session_def clear_session_def config_session_def act_read_def elsewhere_same_def)+

lemma edits_on_people:
  assumes "\<And>org t x t'. org \<noteq> cc_org c \<Longrightarrow> g t = Inr (x, t') \<Longrightarrow> people_of org t' = people_of org t"
  shows "edits c (\<lambda>_. True) (on_people g)"
  by (rule edits_other) (auto simp: on_people_def elsewhere_same_def dest: assms split: sum.split prod.split)

lemma edits_people: "edits c (\<lambda>_. True) (read_people f)"
  "edits c (\<lambda>_. True) (on_people (grant_role (cc_org c) actor role now))"
  "edits c (\<lambda>_. True) (on_people (revoke_role (cc_org c) actor role now))"
  "edits c (\<lambda>_. True) (on_people (create_staff_actor (cc_org c) role name phone provider user key hx draws now))"
  "edits c (\<lambda>_. True) (on_people (\<lambda>t. Inr (update_actor_phone (cc_org c) actor number t)))"
proof -
  show "edits c (\<lambda>_. True) (read_people f)" by (rule edits_other) (simp add: read_people_def act_read_def)
  show "edits c (\<lambda>_. True) (on_people (\<lambda>t. Inr (update_actor_phone (cc_org c) actor number t)))"
    by (rule edits_on_people) (use people_of_phone in \<open>metis Inr_inject snd_conv\<close>)
qed (rule edits_on_people; erule people_of_grant people_of_revoke people_of_staff; assumption)+

lemma edits_read_packs: "(\<And>t x. packs_ok (cc_labels c) t \<Longrightarrow> f t = Inr x \<Longrightarrow> Q x) \<Longrightarrow> edits c Q (read_packs f)"
  unfolding read_packs_def by (rule drafting.does_read) (auto simp: config_ok_def)

lemma edits_on_packs:
  assumes "\<And>t x t'. dict_ok (cc_labels c) \<Longrightarrow> packs_ok (cc_labels c) t \<Longrightarrow> f t = Inr (x, t') \<Longrightarrow> packs_ok (cc_labels c) t' \<and> Q x \<and>
    pack_steps (cc_labels c) (drafting_op c) t t'"
  shows "edits c Q (on_packs f)"
  unfolding drafting.does_def
proof (intro allI impI)
  fix d assume d: "config_ok c d"
  show "case on_packs f d of (r, d') \<Rightarrow> config_ok c d' \<and> draft_moves c d d' \<and> (\<forall>x. r = Inr x \<longrightarrow> Q x)"
  proof (cases "f (cd_packs d)")
    case (Inl e)
    then show ?thesis using d by (simp add: on_packs_def draft_moves_def pack_steps.none)
  next
    case (Inr xt)
    then show ?thesis using d assms[of "cd_packs d" "fst xt" "snd xt"]
      by (cases xt) (simp add: on_packs_def config_ok_def draft_moves_def)
  qed
qed

lemma edits_draft: "edits c (\<lambda>p. pack_ok (cc_labels c) p \<and> dict_ok (cc_labels c)) (config_draft c)"
proof -
  have seed: "edits c (\<lambda>p. pack_ok (cc_labels c) p \<and> dict_ok (cc_labels c)) (on_packs (ensure_draft (cc_labels c) (cc_org c) seed))"
    if "dict_ok (cc_labels c) \<longrightarrow> pack_ok (cc_labels c) seed" for seed
  proof (rule edits_on_packs)
    fix t x t' assume t: "dict_ok (cc_labels c)" "packs_ok (cc_labels c) t" "ensure_draft (cc_labels c) (cc_org c) seed t = Inr (x, t')"
    have "pack_exec (cc_labels c) (EnsureDraft (cc_org c) seed) t = Inr t'" using t(3) by simp
    then have "pack_steps (cc_labels c) (drafting_op c) t t'" by (rule pack_steps_one[rotated]) (simp add: drafting_op_def)
    then show "packs_ok (cc_labels c) t' \<and> (pack_ok (cc_labels c) x \<and> dict_ok (cc_labels c)) \<and> pack_steps (cc_labels c) (drafting_op c) t t'"
      using packs_ok_ensure[OF t(2) _ t(3)] that t(1) by simp
  qed
  have found: "edits c (\<lambda>r. \<forall>p. r = Some p \<longrightarrow> pack_ok (cc_labels c) p) (read_packs (pack_draft (cc_labels c) (cc_org c)))"
    "edits c (\<lambda>r. \<forall>p. r = Some p \<longrightarrow> pack_ok (cc_labels c) p) (read_packs (pack_active (cc_labels c) (cc_org c)))"
    by (rule edits_read_packs; use packs_ok_read in blast)+
  show ?thesis
    unfolding config_draft_def
    by (rule drafting.does_bind[OF found(1)], rule drafting.does_split, rule drafting.does_bind[OF found(2)], rule seed)
      (auto intro!: drafting.does_lift simp: blank_ok config_ok_def split: option.split)
qed

lemma edits_replace:
  assumes "pack_ok (cc_labels c) p"
  shows "edits c (\<lambda>_. True) (config_replace c p)"
  unfolding config_replace_def
proof (rule edits_on_packs)
  fix t x t' assume t: "dict_ok (cc_labels c)" "packs_ok (cc_labels c) t" "result_bind (update_draft (cc_org c) p t) (\<lambda>t'. Inr ((), t')) = Inr (x, t')"
  then have u: "update_draft (cc_org c) p t = Inr t'" by simp
  have "pack_exec (cc_labels c) (UpdateDraft (cc_org c) p) t = Inr t'" using u by simp
  then have "pack_steps (cc_labels c) (drafting_op c) t t'" by (rule pack_steps_one[rotated]) (simp add: drafting_op_def)
  then show "packs_ok (cc_labels c) t' \<and> True \<and> pack_steps (cc_labels c) (drafting_op c) t t'"
    using packs_ok_update[OF t(2) assms u] by simp
qed

lemma edits_reading: "edits c (\<lambda>_. True) (read_packs f)"
  by (rule edits_read_packs) simp

text \<open>How a handler is proved: the rules for its statements, and what it writes into the draft.\<close>

lemma edits_with_draft:
  "(\<And>p. pack_ok (cc_labels c) p \<Longrightarrow> dict_ok (cc_labels c) \<Longrightarrow> edits c Q (f p)) \<Longrightarrow> edits c Q (act_bind (config_draft c) f)"
  by (rule drafting.does_bind[OF edits_draft]) auto

lemma edits_then: "edits c (\<lambda>_. True) f \<Longrightarrow> (\<And>x. edits c Q (g x)) \<Longrightarrow> edits c Q (act_bind f g)"
  by (rule drafting.does_bind) auto

lemma edits_checked: "(\<And>x. r = Inr x \<Longrightarrow> edits c Q (g x)) \<Longrightarrow> edits c Q (act_bind (act_lift r) g)"
  by (rule drafting.does_bind[where Q = "\<lambda>x. r = Inr x"]) (auto intro: drafting.does_lift)

lemma edits_reply: "edits c (\<lambda>_. True) f \<Longrightarrow> edits c (\<lambda>_. True) (then_reply f r)"
  unfolding then_reply_def by (rule edits_then) (auto intro: drafting.does_return)

lemmas edit_rules = edits_with_draft edits_reply edits_checked edits_then drafting.does_return edits_sessions edits_people edits_reading
  edits_replace drafting.does_split

lemma edits_panel: "edits c (\<lambda>_. True) (config_panel c note)"
  unfolding config_panel_def by (intro edit_rules)

lemma pack_ok_parts [simp]:
  "pack_ok labels (p\<lparr>pd_branding := b\<rparr>) = pack_ok labels p"
  "pack_ok labels (p\<lparr>pd_pool_mode := m\<rparr>) = pack_ok labels p"
  "pack_ok labels p \<Longrightarrow> 0 \<le> minimum_photos e \<Longrightarrow> pack_ok labels (p\<lparr>pd_evidence := e\<rparr>)"
  by (simp_all add: pack_ok_def)

lemma toggled_ok: "0 \<le> minimum_photos e \<Longrightarrow> 0 \<le> minimum_photos (toggled act e)"
  by (simp add: toggled_def)

lemma distinct_keys_filter: "distinct (map k xs) \<Longrightarrow> distinct (map k (filter P xs))"
  by (induction xs) auto

lemma move_item_keys: "distinct (map k (move_item k key direction xs)) = distinct (map k xs)"
proof -
  have "mset (map k (move_item k key direction xs)) = mset (map k xs)" using move_item_mset by (metis mset_map)
  then show ?thesis by (rule mset_eq_imp_distinct_iff)
qed

lemma pack_ok_catalog:
  "pack_ok labels p \<Longrightarrow> list_all (\<lambda>x. make_category x = Inr x) (cat_categories cat) \<Longrightarrow> make_catalog cat = Inr cat' \<Longrightarrow>
    pack_ok labels (p\<lparr>pd_catalog := cat'\<rparr>)"
  by (auto simp: pack_ok_def make_catalog_def split: if_splits)

lemma edits_catalog:
  assumes "pack_ok (cc_labels c) p" "list_all (\<lambda>x. make_category x = Inr x) (cat_categories cat)"
  shows "edits c (\<lambda>_. True) (replace_catalog c p cat)"
  unfolding replace_catalog_def using pack_ok_catalog[OF assms] by (intro edit_rules) simp

lemma pack_ok_categories: "pack_ok labels p \<Longrightarrow> list_all (\<lambda>x. make_category x = Inr x) (cat_categories (pd_catalog p))"
  by (simp add: pack_ok_def)

lemma categories_kept:
  "list_all P xs \<Longrightarrow> list_all P (filter Q xs)" "list_all P xs \<Longrightarrow> list_all P (move_item k key direction xs)"
  by (auto simp: list_all_iff move_item_set)

lemma make_category_Inr: "make_category x = Inr y \<Longrightarrow> make_category y = Inr y"
  by (auto simp: make_category_def split: if_splits)

lemma pack_ok_fields:
  "pack_ok labels p \<Longrightarrow> list_all (\<lambda>f. make_field f = Inr f) fs \<Longrightarrow> distinct (map fd_key fs) \<Longrightarrow> pack_ok labels (p\<lparr>pd_fields := fs\<rparr>)"
  by (simp add: pack_ok_def)

lemma make_field_unchanged [simp]:
  "make_field (f\<lparr>fd_order := n\<rparr>) = Inr (f\<lparr>fd_order := n\<rparr>) \<longleftrightarrow> make_field f = Inr f"
  "make_field (f\<lparr>fd_prompt := s\<rparr>) = Inr (f\<lparr>fd_prompt := s\<rparr>) \<longleftrightarrow> make_field f = Inr f"
  by (simp_all add: make_field_def)

lemma pack_ok_delete_field: "pack_ok labels p \<Longrightarrow> pack_ok labels (p\<lparr>pd_fields := filter P (pd_fields p)\<rparr>)"
  by (rule pack_ok_fields) (auto simp: pack_ok_def list_all_iff distinct_keys_filter)

lemma pack_ok_prompt:
  "pack_ok labels p \<Longrightarrow> pack_ok labels (p\<lparr>pd_fields := map (\<lambda>f. if fd_key f = key then f\<lparr>fd_prompt := s\<rparr> else f) (pd_fields p)\<rparr>)"
proof (rule pack_ok_fields)
  assume p: "pack_ok labels p"
  have "map fd_key (map (\<lambda>f. if fd_key f = key then f\<lparr>fd_prompt := s\<rparr> else f) (pd_fields p)) = map fd_key (pd_fields p)" by simp
  then show "distinct (map fd_key (map (\<lambda>f. if fd_key f = key then f\<lparr>fd_prompt := s\<rparr> else f) (pd_fields p)))"
    using p by (simp add: pack_ok_def del: map_map)
qed (auto simp: pack_ok_def list_all_iff)

lemma ordered_fields_perm: "mset (ordered_fields p) = mset (pd_fields p)"
  by (simp add: ordered_fields_def)

lemma pack_ok_move:
  assumes "pack_ok labels p"
  shows "pack_ok labels (p\<lparr>pd_fields := map (\<lambda>(index, f). f\<lparr>fd_order := int index\<rparr>)
    (enumerate 1 (move_item fd_key key direction (ordered_fields p)))\<rparr>)"
proof (rule pack_ok_fields[OF assms])
  let ?fs = "move_item fd_key key direction (ordered_fields p)"
  have "mset ?fs = mset (pd_fields p)" by (simp add: move_item_mset ordered_fields_perm)
  then have set: "set ?fs = set (pd_fields p)" and "mset (map fd_key ?fs) = mset (map fd_key (pd_fields p))"
    by (auto dest: mset_eq_setD)
  then have "distinct (map fd_key ?fs)" using assms mset_eq_imp_distinct_iff by (fastforce simp: pack_ok_def)
  moreover have "map fd_key (map (\<lambda>(index, f). f\<lparr>fd_order := int index\<rparr>) xs) = map fd_key (map snd xs)" for xs :: "(nat \<times> field_def) list"
    by (simp add: comp_def case_prod_beta)
  ultimately show "distinct (map fd_key (map (\<lambda>(index, f). f\<lparr>fd_order := int index\<rparr>) (enumerate 1 ?fs)))"
    by (simp only: map_snd_enumerate)
  have "snd x \<in> set ?fs" if "x \<in> set (enumerate 1 ?fs)" for x using that by (metis map_snd_enumerate imageI list.set_map)
  then show "list_all (\<lambda>f. make_field f = Inr f) (map (\<lambda>(index, f). f\<lparr>fd_order := int index\<rparr>) (enumerate 1 ?fs))"
    using assms set by (fastforce simp: pack_ok_def list_all_iff case_prod_beta)
qed

lemma pack_ok_add_field:
  "pack_ok labels p \<Longrightarrow> make_field g = Inr f \<Longrightarrow> fd_key g \<notin> set (map fd_key (pd_fields p)) \<Longrightarrow>
    pack_ok labels (p\<lparr>pd_fields := pd_fields p @ [f]\<rparr>)"
  using make_field_Inr[of g f] by (auto simp: pack_ok_def)

lemma pack_ok_label:
  assumes "pack_ok labels p" "dict_ok labels" "dict_get role labels = Some x"
  shows "pack_ok labels (p\<lparr>pd_role_labels := dict_put role l (pd_role_labels p)\<rparr>)"
proof -
  have u: "update_dict labels (pd_role_labels p) = pd_role_labels p" using assms(1) by (simp add: pack_ok_def)
  have "update_dict labels (dict_put role l (pd_role_labels p)) = dict_put role l (pd_role_labels p)"
    using update_dict_idem[OF assms(2), of "pd_role_labels p @ [(role, l)]"] u by (simp add: update_dict_def)
  then show ?thesis using assms(1) by (simp add: pack_ok_def)
qed

lemma edits_shows:
  "edits c (\<lambda>_. True) (show_services c)" "edits c (\<lambda>_. True) (show_fields c)" "edits c (\<lambda>_. True) (show_evidence c)"
  "edits c (\<lambda>_. True) (show_allocation c)" "edits c (\<lambda>_. True) (show_role_labels c)" "edits c (\<lambda>_. True) (show_versions c)"
  unfolding show_services_def show_fields_def show_evidence_def show_allocation_def show_role_labels_def show_versions_def Let_def
  by (intro edit_rules edits_panel)+

lemmas edit_steps = edit_rules edits_panel edits_shows

lemma edits_brand: "edits c (\<lambda>_. True) (brand_start c)" "edits c (\<lambda>_. True) (brand_step c s text)"
  unfolding brand_start_def brand_step_def Let_def by (intro edit_steps; simp)+

lemma edits_services:
  "edits c (\<lambda>_. True) (service_add c)" "edits c (\<lambda>_. True) (service_delete c payload)"
  "edits c (\<lambda>_. True) (service_multi_select c)" "edits c (\<lambda>_. True) (service_move c payload)"
  unfolding service_add_def service_delete_def service_multi_select_def service_move_def
  by (intro edit_steps edits_catalog; simp add: categories_kept pack_ok_categories)+

lemma edits_service_save: "edits c (\<lambda>_. True) (service_save c st text)"
  unfolding service_save_def Let_def
  by (intro edit_steps edits_catalog; (simp add: pack_ok_categories make_category_Inr)?)

lemma edits_fields:
  "edits c (\<lambda>_. True) (field_add c)" "edits c (\<lambda>_. True) (field_label c st text)" "edits c (\<lambda>_. True) (field_type_step c payload)"
  "edits c (\<lambda>_. True) (field_choices c st text)" "edits c (\<lambda>_. True) (field_delete c payload)" "edits c (\<lambda>_. True) (field_move c payload)"
  "edits c (\<lambda>_. True) (field_prompt c payload)" "edits c (\<lambda>_. True) (field_prompt_save c st text)"
  unfolding field_add_def field_label_def field_type_step_def field_choices_def field_delete_def field_move_def field_prompt_def
    field_prompt_save_def Let_def
  by (intro edit_steps pack_ok_delete_field pack_ok_move pack_ok_prompt; assumption?)+

lemma edits_field_required: "edits c (\<lambda>_. True) (field_required c payload)"
  unfolding field_required_def Let_def
  by (intro edit_steps; (rule pack_ok_add_field, assumption, assumption, simp only: field_def.simps not_False_eq_True simp_thms)?)

lemma edits_settings:
  "edits c (\<lambda>_. True) (evidence_toggle c act)" "edits c (\<lambda>_. True) (set_pool_mode c payload)"
  "edits c (\<lambda>_. True) (role_label_edit c payload)" "edits c (\<lambda>_. True) (role_label_save c st text)"
  unfolding evidence_toggle_def set_pool_mode_def role_label_edit_def role_label_save_def Let_def
  by (intro edit_steps; (simp add: pack_ok_label)?; simp add: pack_ok_def toggled_ok)+

lemma edits_drafts:
  "edits c (\<lambda>_. True) (on_packs (\<lambda>t. Inr (discard_draft (cc_org c) t)))"
  "edits c (\<lambda>_. True) (on_packs (restore_as_draft (cc_org c) v))"
proof -
  show "edits c (\<lambda>_. True) (on_packs (\<lambda>t. Inr (discard_draft (cc_org c) t)))"
  proof (rule edits_on_packs)
    fix t x t' assume t: "packs_ok (cc_labels c) t" "Inr (discard_draft (cc_org c) t) = Inr (x, t')"
    then have "pack_exec (cc_labels c) (DiscardDraft (cc_org c)) t = Inr t'" by simp
    then have "pack_steps (cc_labels c) (drafting_op c) t t'" by (rule pack_steps_one[rotated]) (simp add: drafting_op_def)
    then show "packs_ok (cc_labels c) t' \<and> True \<and> pack_steps (cc_labels c) (drafting_op c) t t'"
      using packs_ok_discard[OF t(1), of "cc_org c"] t(2) by simp
  qed
  show "edits c (\<lambda>_. True) (on_packs (restore_as_draft (cc_org c) v))"
  proof (rule edits_on_packs)
    fix t x t' assume t: "packs_ok (cc_labels c) t" "restore_as_draft (cc_org c) v t = Inr (x, t')"
    then have "pack_exec (cc_labels c) (RestoreDraft (cc_org c) v) t = Inr t'" by simp
    then have "pack_steps (cc_labels c) (drafting_op c) t t'" by (rule pack_steps_one[rotated]) (simp add: drafting_op_def)
    then show "packs_ok (cc_labels c) t' \<and> True \<and> pack_steps (cc_labels c) (drafting_op c) t t'"
      using packs_ok_restore[OF t] by simp
  qed
qed

lemma edits_catch:
  assumes "edits c (\<lambda>_. True) f" "\<And>x. edits c (\<lambda>_. True) (g x)" "edits c (\<lambda>_. True) h"
  shows "edits c (\<lambda>_. True) (\<lambda>d. case f d of (Inl (NotFound k i), d') \<Rightarrow> h d' | (Inl e, d') \<Rightarrow> (Inl e, d') | (Inr x, d') \<Rightarrow> g x d')"
  unfolding drafting.does_def
proof (intro allI impI)
  fix d assume d: "config_ok c d"
  obtain r d1 where f: "f d = (r, d1)" by force
  then have d1: "config_ok c d1" "draft_moves c d d1" using assms(1) d unfolding drafting.does_def by force+
  have after: "case k d1 of (r, d') \<Rightarrow> config_ok c d' \<and> draft_moves c d d' \<and> (\<forall>x. r = Inr x \<longrightarrow> True)"
    if "edits c (\<lambda>_. True) k" for k :: "'b configuring"
    using that d1 drafting.moves_trans[OF d1(2)] unfolding drafting.does_def by (auto split: prod.splits)
  show "case (case f d of (Inl (NotFound k i), d') \<Rightarrow> h d' | (Inl e, d') \<Rightarrow> (Inl e, d') | (Inr x, d') \<Rightarrow> g x d') of
      (r, d') \<Rightarrow> config_ok c d' \<and> draft_moves c d d' \<and> (\<forall>x. r = Inr x \<longrightarrow> True)"
    using f d1 after[OF assms(2)] after[OF assms(3)] by (auto split: sum.split py_error.split)
qed

lemma edits_versions:
  "edits c (\<lambda>_. True) (discard_draft_ask c)" "edits c (\<lambda>_. True) (discard_draft_confirm c)"
  "edits c (\<lambda>_. True) (restore_version c payload)" "edits c (\<lambda>_. True) (restore_version_confirm c payload)"
  "edits c (\<lambda>_. True) (preview c)"
  unfolding discard_draft_ask_def discard_draft_confirm_def restore_version_def restore_version_confirm_def preview_def
  by (intro edit_steps edits_drafts edits_catch)+

lemma edits_owner:
  "edits c (\<lambda>_. True) (owner_roles c m)" "edits c (\<lambda>_. True) (grant_owner_role c role)" "edits c (\<lambda>_. True) (owner_nano c)"
proof -
  have roles: "edits c (\<lambda>_. True) (owner_roles c m)" for m
    unfolding owner_roles_def Let_def by (intro edit_steps)
  then show "edits c (\<lambda>_. True) (owner_roles c m)" .
  show "edits c (\<lambda>_. True) (grant_owner_role c role)" "edits c (\<lambda>_. True) (owner_nano c)"
    unfolding grant_owner_role_def owner_nano_def grant_own_role_def by (intro edit_steps roles)+
qed

lemma edits_list_operators: "edits c (\<lambda>_. True) (list_operators c)"
  unfolding list_operators_def managing_def by (intro edit_steps)

lemma edits_with_operator:
  "(\<And>actor a. edits c (\<lambda>_. True) (f actor a)) \<Longrightarrow> edits c (\<lambda>_. True) (with_operator_row c payload f)"
  unfolding with_operator_row_def managing_def Let_def by (intro edit_steps edits_list_operators)

lemma edits_operator_rows:
  "edits c (\<lambda>_. True) (operator_info c payload)" "edits c (\<lambda>_. True) (call_operator c payload)"
  "edits c (\<lambda>_. True) (edit_operator_phone c payload)"
  unfolding operator_info_def call_operator_def edit_operator_phone_def by (intro edits_with_operator edit_steps)+

lemma edits_operators:
  "edits c (\<lambda>_. True) (add_operator c)" "edits c (\<lambda>_. True) (add_operator_save c st text)"
  "edits c (\<lambda>_. True) (add_operator_phone c st text)" "edits c (\<lambda>_. True) (edit_operator_phone_save c st text)"
  "edits c (\<lambda>_. True) (del_operator c payload)" "edits c (\<lambda>_. True) (del_operator_confirm c payload)"
  unfolding add_operator_def add_operator_save_def add_operator_phone_def edit_operator_phone_save_def del_operator_def
    del_operator_confirm_def managing_def Let_def
  by (intro edit_steps edits_list_operators edits_operator_rows)+

section \<open>Every input\<close>

definition asks_to_publish :: "config_input \<Rightarrow> bool" where
  "asks_to_publish i =
     (case i of CfStart \<Rightarrow> False | CfText text \<Rightarrow> str_starts_with ''/'' (str_strip text) \<and> command_word (str_strip text) = ''publish''
      | CfButton act payload \<Rightarrow> act = ''config_publish'')"

lemmas edits_all = edits_panel edits_shows edits_brand edits_services edits_service_save edits_fields edits_field_required edits_settings
  edits_versions edits_owner edits_list_operators edits_operator_rows edits_operators

lemma edits_button: "act \<noteq> ''config_publish'' \<Longrightarrow> edits c (\<lambda>_. True) (config_button c act payload)"
  unfolding config_button_def
  by (intro drafting.does_split; ((rule edits_all) | (intro edits_then edits_sessions edits_panel; fail) | simp))

lemma edits_command: "command_word text \<noteq> ''publish'' \<Longrightarrow> edits c (\<lambda>_. True) (config_command c text)"
  unfolding config_command_def Let_def
  by (intro drafting.does_split; (rule edits_all | simp))

lemma edits_consume: "edits c (\<lambda>_. True) (config_consume c st text)"
  unfolding config_consume_def Let_def
  by (intro drafting.does_split; (rule edits_all | rule drafting.does_return))

lemma edits_input:
  assumes "\<not> asks_to_publish i"
  shows "edits c (\<lambda>_. True) (config_handle c i)"
proof (cases i)
  case (CfText given)
  let ?s = "str_strip given"
  have "command_word ?s \<noteq> ''publish'' \<or> \<not> str_starts_with ''/'' ?s" using assms CfText by (auto simp: asks_to_publish_def)
  then have "edits c (\<lambda>_. True) (config_text c given)"
    unfolding config_text_def Let_def
    by (intro edits_then edits_sessions drafting.does_split edits_consume edits_panel edits_command; simp)
  then show ?thesis using CfText by simp
qed (use assms edits_panel edits_button in \<open>auto simp: asks_to_publish_def\<close>)

section \<open>What the organization's clients can see\<close>

text \<open>The published revisions of an organization, and everything of every other organization.\<close>

definition in_force :: "string \<Rightarrow> pack_table \<Rightarrow> pack_table" where
  "in_force org t = filter (\<lambda>r. \<not> in_state org PackDraft r) t"

lemma in_state_definition [simp]: "in_state org x (r\<lparr>pk_definition := j\<rparr>) = in_state org x r"
  by (simp add: in_state_def)

lemma in_force_update:
  assumes "\<And>r. r \<in> set t \<Longrightarrow> q r \<Longrightarrow> in_state org PackDraft r"
  shows "in_force org (update_rows q (\<lambda>r. r\<lparr>pk_definition := j\<rparr>) t) = in_force org t"
  using assms unfolding in_force_def update_rows_def
proof (induction t)
  case (Cons r t)
  then show ?case by (cases "q r"; simp)
qed simp

lemma in_force_rows:
  "in_force org (update_rows (in_state org PackDraft) (\<lambda>r. r\<lparr>pk_definition := j\<rparr>) t) = in_force org t"
  "in_force org (delete_rows (in_state org PackDraft) t) = in_force org t"
  by (rule in_force_update, simp) (simp add: in_force_def delete_rows_def)

lemma in_force_insert: "insert_draft org j t = Inr (v, t') \<Longrightarrow> in_force org t' = in_force org t"
  by (auto simp: insert_draft_def Let_def in_force_def in_state_def)

lemma drafting_hides:
  assumes "pack_constraints t" "drafts_only op" "pack_exec labels op t = Inr t'"
  shows "in_force (op_organization op) t' = in_force (op_organization op) t"
proof (cases op)
  case (EnsureDraft org seed)
  then obtain p where "ensure_draft labels org seed t = Inr (p, t')" using assms(3) EnsureDraft by auto
  then show ?thesis by (cases rule: ensure_draft_cases) (auto simp: EnsureDraft in_force_insert)
next
  case (UpdateDraft org p)
  then show ?thesis using assms(3) by (auto simp: update_draft_def in_force_rows split: if_splits)
next
  case (RestoreDraft org v)
  then obtain n where r: "restore_as_draft org v t = Inr (n, t')" using assms(3) RestoreDraft by auto
  then obtain src where src: "find (published org v) t = Some src" by (auto simp: restore_as_draft_def split: option.splits)
  show ?thesis
  proof (cases "find (in_state org PackDraft) t")
    case None
    then show ?thesis using r src RestoreDraft by (auto simp: restore_as_draft_def intro: in_force_insert)
  next
    case (Some d)
    then have d: "d \<in> set t" "in_state org PackDraft d" using find_SomeD[OF Some] by auto
    have "in_state org PackDraft r'" if "r' \<in> set t" "at_version org (pk_version d) r'" for r'
      using unique_version[OF assms(1) that(1) d(1) that(2)] d by (auto simp: at_version_def in_state_def)
    then show ?thesis using r src Some RestoreDraft
      by (auto simp: restore_as_draft_def intro!: in_force_update)
  qed
qed (use assms in \<open>auto simp: discard_draft_def in_force_rows\<close>)

lemma drafts_hidden:
  "pack_steps labels (\<lambda>op. op_organization op = org \<and> drafts_only op) t t' \<Longrightarrow> pack_constraints t \<Longrightarrow>
   in_force org t' = in_force org t \<and> pack_constraints t'"
proof (induction rule: pack_steps.induct)
  case (step t t1 op t2)
  then show ?case using drafting_hides[of t1 op labels t2] pack_exec_constraints[of t1 labels op t2] by auto
qed simp

lemma draft_moves_hidden:
  assumes "draft_moves c d d'" "pack_constraints (cd_packs d)"
  shows "in_force (cc_org c) (cd_packs d') = in_force (cc_org c) (cd_packs d)"
  using drafts_hidden[of "cc_labels c" "cc_org c"] assms unfolding draft_moves_def drafting_op_def by simp

lemma in_force_others:
  assumes "in_force org t' = in_force org t" "org' \<noteq> org"
  shows "filter (\<lambda>r. pk_organization_id r = org') t' = filter (\<lambda>r. pk_organization_id r = org') t"
proof -
  have "filter (\<lambda>r. pk_organization_id r = org') x = filter (\<lambda>r. pk_organization_id r = org') (in_force org x)" for x
    using assms(2) by (induction x) (auto simp: in_force_def in_state_def)
  then show ?thesis using assms(1) by metis
qed

lemma publish_others:
  assumes "pack_constraints t" "publish_draft labels org now t = Inr (v, t')" "org' \<noteq> org"
  shows "filter (\<lambda>r. pk_organization_id r = org') t' = filter (\<lambda>r. pk_organization_id r = org') t"
proof -
  have "filter (\<lambda>r. pk_organization_id r = org') (map (publish_row org n now) t) = filter (\<lambda>r. pk_organization_id r = org') t" for n
    using assms(3) by (induction t) (auto simp: publish_row_def at_version_def in_state_def)
  then show ?thesis
    by (cases rule: publish_cases[OF assms(1), of org labels now]) (use assms(2) in auto)
qed


section \<open>The effect of every input\<close>

definition publishes :: "config_call \<Rightarrow> config_db \<Rightarrow> config_reply result \<times> config_db \<Rightarrow> bool" where
  "publishes c d x \<longleftrightarrow> (\<exists>v t'. publish_draft (cc_labels c) (cc_org c) (cc_now c) (cd_packs d) = Inr (v, t') \<and>
     fst x = Inr (PackPublished v, []) \<and> cd_packs (snd x) = t') \<and> elsewhere_same c d (snd x)"

definition config_effect :: "config_call \<Rightarrow> config_db \<Rightarrow> config_reply result \<times> config_db \<Rightarrow> bool" where
  "config_effect c d x \<longleftrightarrow> config_ok c (snd x) \<and> (draft_moves c d (snd x) \<or> publishes c d x)"

lemma edits_effect: "edits c (\<lambda>_. True) f \<Longrightarrow> config_ok c d \<Longrightarrow> config_effect c d (f d)"
  unfolding drafting.does_def config_effect_def by (erule allE[where x = d]) (simp split: prod.splits)

lemma publish_effect:
  assumes "config_ok c d"
  shows "config_effect c d (publish c d)"
proof (cases "publish_draft (cc_labels c) (cc_org c) (cc_now c) (cd_packs d)")
  case (Inl e)
  have "edits c (\<lambda>_. True) (config_panel c n)" for n by (rule edits_panel)
  from edits_effect[OF this assms] Inl assms show ?thesis
    by (cases e) (auto simp: publish_def on_packs_def config_effect_def draft_moves_def pack_steps.none)
next
  case (Inr vt)
  obtain v t' where vt: "vt = (v, t')" by force
  have "publish c d = (Inr (PackPublished v, []), d\<lparr>cd_packs := t'\<rparr>)" using Inr vt by (simp add: publish_def on_packs_def)
  moreover have "packs_ok (cc_labels c) t'" using packs_ok_publish Inr vt assms by (auto simp: config_ok_def)
  ultimately show ?thesis using Inr vt assms by (auto simp: config_effect_def publishes_def config_ok_def)
qed

lemma config_effect_before:
  "cd_packs d0 = cd_packs d \<Longrightarrow> elsewhere_same c d d0 \<Longrightarrow> config_effect c d0 x \<Longrightarrow> config_effect c d x"
  by (auto simp: config_effect_def publishes_def draft_moves_def intro: elsewhere_same_trans)

lemma input_effect:
  assumes "config_ok c d"
  shows "config_effect c d (config_handle c i d)"
proof (cases "asks_to_publish i")
  case False
  then show ?thesis using edits_effect[OF edits_input assms] by blast
next
  case True
  show ?thesis
  proof (cases i)
    case (CfText given)
    let ?d = "snd (clear_session c d)"
    have "config_ok c ?d" "cd_packs ?d = cd_packs d" "elsewhere_same c d ?d"
      using assms by (simp_all add: clear_session_def config_ok_def elsewhere_same_def)
    then have "config_effect c d (publish c ?d)" using publish_effect[of c ?d] config_effect_before[of ?d d c] by blast
    moreover have "config_handle c i d \<in> {publish c d, publish c ?d}"
      using CfText True
      by (simp add: asks_to_publish_def config_text_def Let_def config_command_def act_bind_def config_session_def
          act_read_def clear_session_def split: option.split)
    ultimately show ?thesis using publish_effect[OF assms] by auto
  next
    case (CfButton act payload)
    then have "config_handle c i d = publish c d" using True by (simp add: asks_to_publish_def config_button_def)
    then show ?thesis using publish_effect[OF assms] by simp
  qed (use True in \<open>simp add: asks_to_publish_def\<close>)
qed

lemma steps_keep_pinned:
  "pack_steps labels P t t' \<Longrightarrow> pack_constraints t \<Longrightarrow> pinned labels t org v p \<Longrightarrow>
   pinned labels t' org v p \<and> pack_constraints t'"
proof (induction rule: pack_steps.induct)
  case (step t t1 op t2)
  then show ?case using pinned_stays[of t1 labels op t2 org v p] by blast
qed simp


lemma steps_world:
  "pack_steps labels P pk pk' \<Longrightarrow> intake_world labels pk t \<Longrightarrow> intake_world labels pk' t"
  by (induction rule: pack_steps.induct) (auto intro: intake_world.pack)

lemma input_world:
  assumes "config_ok c d" "intake_world (cc_labels c) (cd_packs d) t"
  shows "intake_world (cc_labels c) (cd_packs (snd (config_handle c i d))) t \<and> config_ok c (snd (config_handle c i d))"
  using input_effect[OF assms(1), of i] unfolding config_effect_def
proof (elim conjE disjE)
  assume "draft_moves c d (snd (config_handle c i d))" "config_ok c (snd (config_handle c i d))"
  then show ?thesis using steps_world assms(2) unfolding draft_moves_def by blast
next
  assume "publishes c d (config_handle c i d)" and ok: "config_ok c (snd (config_handle c i d))"
  then have "pack_exec (cc_labels c) (PublishDraft (cc_org c) (cc_now c)) (cd_packs d) = Inr (cd_packs (snd (config_handle c i d)))"
    by (auto simp: publishes_def)
  then show ?thesis using intake_world.pack[OF assms(2)] ok by blast
qed

definition configure :: "(config_call \<times> config_input) list \<Rightarrow> config_db \<Rightarrow> config_db" where
  "configure calls d = foldl (\<lambda>d (c, i). snd (config_handle c i d)) d calls"

lemma configure_world:
  "(\<forall>(c, i) \<in> set calls. cc_labels c = labels) \<Longrightarrow> dict_ok labels \<Longrightarrow> packs_ok labels (cd_packs d) \<Longrightarrow>
   intake_world labels (cd_packs d) t \<Longrightarrow>
   intake_world labels (cd_packs (configure calls d)) t \<and> packs_ok labels (cd_packs (configure calls d))"
proof (induction calls arbitrary: d)
  case (Cons ci calls)
  obtain c i where ci: "ci = (c, i)" by force
  then have "cc_labels c = labels" using Cons.prems(1) by simp
  then have "intake_world labels (cd_packs (snd (config_handle c i d))) t \<and> packs_ok labels (cd_packs (snd (config_handle c i d)))"
    using input_world[of c d t i] Cons.prems by (simp add: config_ok_def)
  then show ?case using Cons.IH[of "snd (config_handle c i d)"] Cons.prems ci by (simp add: configure_def)
qed (simp add: configure_def)

text \<open>
  (C35) Whatever an administrator sends to the configurator, the pack revisions and the people of
  every other organization and the configurator sessions of every other administrator stay what they
  were, and every stored pack stays well formed. The revisions of the administrator's own
  organization that are in force stay what they were, too, with one exception, a successful
  publication: the input asked for it, the draft passed the checks, it is the active revision
  afterwards under the version that the reply names, and no draft is left.
\<close>

theorem only_publication_changes_what_is_in_force:
  assumes "dict_ok (cc_labels c)" and "packs_ok (cc_labels c) (cd_packs d)" and "config_handle c i d = (r, d')"
  shows "packs_ok (cc_labels c) (cd_packs d') \<and>
    (\<forall>org. org \<noteq> cc_org c \<longrightarrow>
       filter (\<lambda>r. pk_organization_id r = org) (cd_packs d') = filter (\<lambda>r. pk_organization_id r = org) (cd_packs d) \<and>
       people_of org (cd_people d') = people_of org (cd_people d)) \<and>
    (\<forall>k. k \<noteq> config_key_of c \<longrightarrow> dict_get k (cd_sessions d') = dict_get k (cd_sessions d)) \<and>
    (in_force (cc_org c) (cd_packs d') = in_force (cc_org c) (cd_packs d) \<or>
     asks_to_publish i \<and>
     (\<exists>v p. r = Inr (PackPublished v, []) \<and> pack_draft (cc_labels c) (cc_org c) (cd_packs d) = Inr (Some p) \<and>
        validate_definition p = None \<and> pack_draft (cc_labels c) (cc_org c) (cd_packs d') = Inr None \<and>
        active_revision (cc_labels c) (cc_org c) (cd_packs d') =
          Inr (Some \<lparr>rv_version = v, rv_state = PackActive, rv_definition = p\<rparr>)))"
proof -
  have ok: "config_ok c d" "pack_constraints (cd_packs d)" using assms(1,2) by (simp_all add: config_ok_def packs_ok_def)
  have drafting: "in_force (cc_org c) (cd_packs d') = in_force (cc_org c) (cd_packs d)" if "draft_moves c d d'"
    using draft_moves_hidden[OF that ok(2)] .
  have effect: "config_ok c d'" "draft_moves c d d' \<or> publishes c d (r, d')"
    using input_effect[OF ok(1), of i] assms(3) by (simp_all add: config_effect_def)
  have quiet: "draft_moves c d d'" if "\<not> asks_to_publish i"
    using edits_input[OF that, of c] ok(1) assms(3) unfolding drafting.does_def by (auto split: prod.splits)
  have elsewhere: "elsewhere_same c d d'" using effect(2) by (auto simp: draft_moves_def publishes_def)
  have others: "filter (\<lambda>r. pk_organization_id r = org) (cd_packs d') = filter (\<lambda>r. pk_organization_id r = org) (cd_packs d)"
    if "org \<noteq> cc_org c" for org
  proof (cases "draft_moves c d d'")
    case True
    then show ?thesis by (rule in_force_others[OF drafting that])
  next
    case False
    then have "publishes c d (r, d')" using effect(2) by blast
    then obtain v where "publish_draft (cc_labels c) (cc_org c) (cc_now c) (cd_packs d) = Inr (v, cd_packs d')"
      by (auto simp: publishes_def)
    then show ?thesis by (rule publish_others[OF ok(2) _ that])
  qed
  have "in_force (cc_org c) (cd_packs d') = in_force (cc_org c) (cd_packs d) \<or>
     asks_to_publish i \<and>
     (\<exists>v p. r = Inr (PackPublished v, []) \<and> pack_draft (cc_labels c) (cc_org c) (cd_packs d) = Inr (Some p) \<and>
        validate_definition p = None \<and> pack_draft (cc_labels c) (cc_org c) (cd_packs d') = Inr None \<and>
        active_revision (cc_labels c) (cc_org c) (cd_packs d') =
          Inr (Some \<lparr>rv_version = v, rv_state = PackActive, rv_definition = p\<rparr>))"
  proof (cases "draft_moves c d d'")
    case False
    then obtain v where v: "publish_draft (cc_labels c) (cc_org c) (cc_now c) (cd_packs d) = Inr (v, cd_packs d')"
      "r = Inr (PackPublished v, [])" "asks_to_publish i"
      using effect(2) quiet by (auto simp: publishes_def)
    from publish_activates_draft[OF ok(2) v(1)] v(2,3) show ?thesis by auto
  qed (use drafting in simp)
  with effect(1) elsewhere others show ?thesis by (simp add: config_ok_def elsewhere_same_def)
qed

text \<open>
  (C36) The configurator is one of the administrators that clients' conversations are protected from: any
  sequence of its inputs, of any administrators of any organizations, is a sequence of pack operations of the
  world in which conversations run. So every conversation that was open before can go on afterwards: the pack
  version that it began with can still be read and its state still fits that pack.
\<close>

theorem conversations_survive_configuration:
  assumes "\<forall>(c, i) \<in> set calls. cc_labels c = labels" and "dict_ok labels" and "packs_ok labels (cd_packs d)"
    and "intake_world labels (cd_packs d) t"
  shows "intake_world labels (cd_packs (configure calls d)) t \<and>
    (\<forall>org actor st. session_get (org, actor) t = Some st \<longrightarrow>
       (\<exists>p v. pinned labels (cd_packs (configure calls d)) org v p \<and> conversation_ok p v st))"
  using configure_world[OF assms] intake_world_ok[of labels "cd_packs (configure calls d)" t]
  unfolding sessions_ok_def session_ok_def by blast

section \<open>A run of the configurator\<close>

definition demo_admin :: config_call where
  "demo_admin = \<lparr>cc_identity = \<lparr>ai_organization_id = ''acme'', ai_actor_id = ''ad'', ai_role = ''admin'', ai_display_name = ''Ad'',
       ai_provider = ''telegram'', ai_external_user_id = ''7'', ai_roles = [''admin'']\<rparr>,
     cc_event = None, cc_now = 9, cc_labels = demo_labels, cc_uuid = ''u'', cc_hex = ''h'', cc_draws = [], cc_fold = id, cc_manages = True\<rparr>"

definition demo_config :: config_db where
  "demo_config = \<lparr>cd_packs = demo_pack_table, cd_sessions = [], cd_people = \<lparr>actors = [], memberships = [], externals = []\<rparr>\<rparr>"

definition demo_drafted :: config_db where
  "demo_drafted = demo_config\<lparr>cd_packs := demo_pack_table @
     [\<lparr>pk_organization_id = ''acme'', pk_version = 2, pk_state = PackDraft, pk_definition = pack_to_json demo_pack,
       pk_activated_at = None\<rparr>]\<rparr>"

lemma demo_packs_ok: "packs_ok demo_labels demo_pack_table" "packs_ok demo_labels (cd_packs demo_drafted)"
proof -
  have "well_formed demo_labels (pack_to_json demo_pack)"
    by (simp add: well_formed_def demo_pack_stored)
      (simp add: pack_ok_def demo_pack_def make_field_def make_category_def default_evidence_def demo_labels_def)
  then show "packs_ok demo_labels demo_pack_table" "packs_ok demo_labels (cd_packs demo_drafted)"
    by (simp_all add: packs_ok_def demo_drafted_def demo_config_def demo_pack_table_def bootstrap_active_def pack_constraints_def unique_on_def)
qed

lemma demo_labels_ok: "dict_ok demo_labels"
  by (simp add: demo_labels_def dict_ok_def)

lemma demo_publication:
  "fst (config_handle demo_admin (CfButton ''config_publish'' []) demo_drafted) = Inr (PackPublished 2, [])"
  "in_force ''acme'' (cd_packs (snd (config_handle demo_admin (CfButton ''config_publish'' []) demo_drafted))) \<noteq>
   in_force ''acme'' (cd_packs demo_drafted)"
  by (simp_all add: config_button_def publish_def on_packs_def cc_org_def demo_admin_def demo_drafted_def demo_config_def
      demo_pack_table_def bootstrap_active_def publish_draft_def demo_pack_stored demo_pack_valid in_state_def at_version_def
      constrained_def pack_constraints_def unique_on_def update_rows_def in_force_def)

theorem only_publication_changes_what_is_in_force_witness:
  "\<exists>p. validate_definition p = None \<and>
     active_revision demo_labels ''acme'' (cd_packs (snd (config_handle demo_admin (CfButton ''config_publish'' []) demo_drafted))) =
       Inr (Some \<lparr>rv_version = 2, rv_state = PackActive, rv_definition = p\<rparr>)"
proof -
  have a: "cc_labels demo_admin = demo_labels" "cc_org demo_admin = ''acme''" by (simp_all add: demo_admin_def cc_org_def)
  have "config_handle demo_admin (CfButton ''config_publish'' []) demo_drafted =
      (Inr (PackPublished 2, []), snd (config_handle demo_admin (CfButton ''config_publish'' []) demo_drafted))"
    using demo_publication(1) by (metis prod.collapse)
  from only_publication_changes_what_is_in_force[OF _ _ this] demo_packs_ok(2) demo_labels_ok demo_publication(2)
  show ?thesis unfolding a by auto
qed

theorem conversations_survive_configuration_witness:
  "\<exists>t st p v. session_get (''acme'', ''cl'') t = Some st \<and>
     pinned demo_labels (cd_packs (configure [(demo_admin, CfText ''/services''), (demo_admin, CfText ''/publish'')] demo_config))
       ''acme'' v p \<and> conversation_ok p v st"
proof -
  obtain t st where t: "intake_world demo_labels demo_pack_table t" "session_get (''acme'', ''cl'') t = Some st"
    using demo_world by blast
  have "cc_labels demo_admin = demo_labels" "cd_packs demo_config = demo_pack_table"
    by (simp_all add: demo_admin_def demo_config_def)
  then have "\<forall>org actor st. session_get (org, actor) t = Some st \<longrightarrow>
      (\<exists>p v. pinned demo_labels (cd_packs (configure [(demo_admin, CfText ''/services''), (demo_admin, CfText ''/publish'')] demo_config))
         org v p \<and> conversation_ok p v st)"
    using conversations_survive_configuration[of "[(demo_admin, CfText ''/services''), (demo_admin, CfText ''/publish'')]"
        demo_labels demo_config t] t(1) demo_packs_ok(1) demo_labels_ok by simp
  with t(2) show ?thesis by blast
qed

end
