(* ===== verification/Postgres_Store.thy ===== *)
theory Postgres_Store
  imports Packs Tables Async_Store
begin

text \<open>
  The PostgreSQL unit of work (\<open>infrastructure/postgres.py\<close>) over the tables of \<open>migrations/\<close>: the
  rows, the reading and writing of aggregates, the CHECK clauses and unique indexes of the tables, and
  the transaction. The row locks of the reads make a unit of work one atomic step, texts are ordered by
  code point, and \<open>jsonb\<close> gives back a document as it was written. Reference from a session to its
  order is the only foreign key that is modelled.
\<close>

section \<open>Rows\<close>

record order_row =
  or_organization_id :: string
  or_id :: string
  or_public_number :: string
  or_work_type :: string
  or_source :: string
  or_details :: json
  or_requester_id :: "string option"
  or_coordinator_id :: "string option"
  or_evidence :: json
  or_status :: string
  or_pool_mode :: "string option"
  or_assignee_id :: "string option"
  or_report :: "json option"
  or_version :: int
  or_created_at :: instant
  or_updated_at :: instant

record response_row =
  rr_organization_id :: string
  rr_work_order_id :: string
  rr_executor_id :: string
  rr_status :: string
  rr_responded_at :: instant

record tracking_row =
  tr_organization_id :: string
  tr_id :: string
  tr_work_order_id :: string
  tr_executor_id :: string
  tr_public_token :: "string option"
  tr_location_token :: "string option"
  tr_status :: string
  tr_point_count :: int
  tr_version :: int
  tr_created_at :: instant
  tr_updated_at :: instant

record point_row =
  pt_organization_id :: string
  pt_session_id :: string
  pt_sequence_no :: int
  pt_latitude :: pyfloat
  pt_longitude :: pyfloat
  pt_captured_at :: instant
  pt_ingested_at :: instant
  pt_source :: string
  pt_accuracy_m :: "pyfloat option"
  pt_source_event_id :: "string option"

record pg_db =
  pg_counters :: "(string, int) dict"
  pg_orders :: "order_row list"
  pg_responses :: "response_row list"
  pg_sessions :: "tracking_row list"
  pg_points :: "point_row list"
  pg_outbox :: "domain_event list"

definition empty_db :: pg_db where
  "empty_db = \<lparr>pg_counters = [], pg_orders = [], pg_responses = [], pg_sessions = [], pg_points = [], pg_outbox = []\<rparr>"

section \<open>From aggregates to rows and back\<close>

definition report_to_json :: "completion_report \<Rightarrow> json" where
  "report_to_json r = JObj
     [(''photo_refs'', JList (map JStr (photo_refs r))), (''comment'', opt_str (rep_comment r)),
      (''signature_ref'', opt_str (signature_ref r)), (''customer_code'', opt_str (customer_code r))]"

definition order_values :: "work_order \<Rightarrow> order_row" where
  "order_values w =
     \<lparr>or_organization_id = wo_organization_id w, or_id = wo_id w, or_public_number = wo_public_number w,
      or_work_type = wo_work_type w, or_source = wo_source w, or_details = JObj (wo_details w),
      or_requester_id = wo_requester_id w, or_coordinator_id = wo_coordinator_id w,
      or_evidence = evidence_to_json (wo_evidence w), or_status = status_value (wo_status w),
      or_pool_mode = map_option pool_mode_value (wo_pool_mode w), or_assignee_id = wo_assignee_id w,
      or_report = map_option report_to_json (wo_report w), or_version = wo_version w,
      or_created_at = wo_created_at w, or_updated_at = wo_updated_at w\<rparr>"

definition status_of :: "string \<Rightarrow> wo_status_t result" where
  "status_of s =
     (case find (\<lambda>x. status_value x = s)
        [SUBMITTED, POOL_OPEN, ASSIGNED, ACCEPTED, EN_ROUTE, IN_PROGRESS, COMPLETED, CANCELLED] of
        None \<Rightarrow> Inl (ValueError ''not a valid WorkOrderStatus'') | Some x \<Rightarrow> Inr x)"

definition response_status_of :: "string \<Rightarrow> pool_response_status result" where
  "response_status_of s =
     (case find (\<lambda>x. response_status_value x = s) [INTERESTED, SELECTED, REJECTED, WITHDRAWN] of
        None \<Rightarrow> Inl (ValueError ''not a valid PoolResponseStatus'') | Some x \<Rightarrow> Inr x)"

text \<open>\<open>EvidenceRequirements(**data)\<close> and the reading of a report.\<close>

definition evidence_from_row :: "json \<Rightarrow> evidence_requirements result" where
  "evidence_from_row j =
     result_bind (as_obj j) (\<lambda>d.
       if \<not> set (map fst d) \<subseteq> set [''minimum_photos'', ''comment_required'', ''signature_required'', ''customer_code_required'']
       then Inl (TypeError ''unexpected keyword argument'')
       else result_bind
         (case get_default ''minimum_photos'' (JInt 0) d of
            JInt n \<Rightarrow> Inr n | JBool b \<Rightarrow> Inr (if b then 1 else 0) | _ \<Rightarrow> Inl (TypeError ''number expected''))
         (\<lambda>photos. make_evidence photos (truthy (get_default ''comment_required'' (JBool False) d))
            (truthy (get_default ''signature_required'' (JBool False) d))
            (truthy (get_default ''customer_code_required'' (JBool False) d))))"

definition optional_text :: "string \<Rightarrow> (string, json) dict \<Rightarrow> string option result" where
  "optional_text k d =
     (case get_default k JNull d of JNull \<Rightarrow> Inr None | x \<Rightarrow> result_bind (as_str x) (\<lambda>s. Inr (Some s)))"

definition report_from_json :: "json \<Rightarrow> completion_report result" where
  "report_from_json j =
     result_bind (as_obj j) (\<lambda>d.
     result_bind (result_bind (as_list (get_default ''photo_refs'' (JList []) d)) (map_result as_str)) (\<lambda>photos.
     result_bind (optional_text ''comment'' d) (\<lambda>comment.
     result_bind (optional_text ''signature_ref'' d) (\<lambda>signature.
     result_bind (optional_text ''customer_code'' d) (\<lambda>code.
       Inr \<lparr>photo_refs = photos, rep_comment = comment, signature_ref = signature, customer_code = code\<rparr>)))))"

definition option_result :: "('a \<Rightarrow> 'b result) \<Rightarrow> 'a option \<Rightarrow> 'b option result" where
  "option_result f x = (case x of None \<Rightarrow> Inr None | Some a \<Rightarrow> result_bind (f a) (\<lambda>b. Inr (Some b)))"

definition response_from_row :: "response_row \<Rightarrow> (string \<times> pool_response) result" where
  "response_from_row r =
     result_bind (response_status_of (rr_status r)) (\<lambda>status.
       Inr (rr_executor_id r, \<lparr>pr_executor_id = rr_executor_id r, pr_status = status, pr_responded_at = rr_responded_at r\<rparr>))"

definition order_from_rows :: "order_row \<Rightarrow> response_row list \<Rightarrow> work_order result" where
  "order_from_rows r rs =
     result_bind (option_result report_from_json (or_report r)) (\<lambda>report.
     result_bind (map_result response_from_row rs) (\<lambda>responses.
     result_bind (as_obj (or_details r)) (\<lambda>details.
     result_bind (evidence_from_row (or_evidence r)) (\<lambda>evidence.
     result_bind (status_of (or_status r)) (\<lambda>status.
     result_bind (case or_pool_mode r of None \<Rightarrow> Inr None | Some m \<Rightarrow>
         if m = [] then Inr None else result_bind (pool_mode_of m) (\<lambda>m. Inr (Some m))) (\<lambda>mode.
       work_order_init
         \<lparr>wo_id = or_id r, wo_public_number = or_public_number r, wo_organization_id = or_organization_id r,
          wo_work_type = or_work_type r, wo_source = or_source r, wo_details = details,
          wo_requester_id = or_requester_id r, wo_coordinator_id = or_coordinator_id r, wo_evidence = evidence,
          wo_status = status, wo_pool_mode = mode, wo_assignee_id = or_assignee_id r,
          wo_pool_responses = fold (\<lambda>(k, x). dict_put k x) responses [], wo_report = report,
          wo_version = or_version r, wo_created_at = or_created_at r, wo_updated_at = or_updated_at r,
          wo_events = []\<rparr>))))))"

definition source_of :: "string \<Rightarrow> location_source result" where
  "source_of s =
     (case find (\<lambda>x. location_source_value x = s) [FromTelegram, FromMax, FromWeb, FromMobile, FromImport] of
        None \<Rightarrow> Inl (ValueError ''not a valid LocationSource'') | Some x \<Rightarrow> Inr x)"

definition tracking_status_of :: "string \<Rightarrow> tracking_status result" where
  "tracking_status_of s =
     (case find (\<lambda>x. tracking_status_value x = s) [TrackActive, TrackCompleted, TrackCancelled] of
        None \<Rightarrow> Inl (ValueError ''not a valid TrackingStatus'') | Some x \<Rightarrow> Inr x)"

definition point_from_row :: "point_row \<Rightarrow> tracking_point result" where
  "point_from_row p =
     result_bind (source_of (pt_source p)) (\<lambda>source.
       make_point \<lparr>tp_latitude = pt_latitude p, tp_longitude = pt_longitude p, tp_captured_at = pt_captured_at p,
         tp_ingested_at = pt_ingested_at p, tp_source = source, tp_accuracy_m = pt_accuracy_m p,
         tp_source_event_id = pt_source_event_id p\<rparr>)"

definition tracking_from_row :: "tracking_row \<Rightarrow> point_row option \<Rightarrow> tracking_session result" where
  "tracking_from_row r latest =
     result_bind (option_result point_from_row latest) (\<lambda>point.
     result_bind (tracking_status_of (tr_status r)) (\<lambda>status.
       session_init
         \<lparr>ts_id = tr_id r, ts_organization_id = tr_organization_id r, ts_work_order_id = tr_work_order_id r,
          ts_executor_id = tr_executor_id r, ts_public_token = tr_public_token r,
          ts_location_token = tr_location_token r, ts_status = status,
          ts_points = (case point of None \<Rightarrow> [] | Some p \<Rightarrow> [p]), ts_point_count = tr_point_count r,
          ts_version = tr_version r, ts_created_at = tr_created_at r, ts_updated_at = tr_updated_at r,
          ts_events = [], ts_persisted_point_count = tr_point_count r\<rparr>))"

section \<open>The orders\<close>

definition pg_allocate :: "string \<Rightarrow> pg_db \<Rightarrow> string result \<times> pg_db" where
  "pg_allocate org d =
     (let seq_no = (case dict_get org (pg_counters d) of None \<Rightarrow> 1 | Some n \<Rightarrow> n + 1)
      in (format_order_number seq_no, d\<lparr>pg_counters := dict_put org seq_no (pg_counters d)\<rparr>))"

definition order_row_is :: "string \<Rightarrow> string \<Rightarrow> order_row \<Rightarrow> bool" where
  "order_row_is org oid r \<longleftrightarrow> or_organization_id r = org \<and> or_id r = oid"

definition response_row_is :: "string \<Rightarrow> string \<Rightarrow> response_row \<Rightarrow> bool" where
  "response_row_is org oid r \<longleftrightarrow> rr_organization_id r = org \<and> rr_work_order_id r = oid"

definition pg_get_order :: "string \<Rightarrow> string \<Rightarrow> pg_db \<Rightarrow> work_order result" where
  "pg_get_order org oid d =
     (case find (order_row_is org oid) (pg_orders d) of
        None \<Rightarrow> Inl (NotFound ''work order'' oid)
      | Some r \<Rightarrow> order_from_rows r
          (sort_key (\<lambda>x. (rr_responded_at x, rr_executor_id x)) (filter (response_row_is org oid) (pg_responses d))))"

text \<open>The constraints of the table: its CHECK clauses for a new row, its unique indexes for all rows.\<close>

definition occupied_status :: "string \<Rightarrow> bool" where
  "occupied_status s \<longleftrightarrow> s \<in> set [''assigned'', ''accepted'', ''en_route'', ''in_progress'']"

definition order_checks :: "order_row \<Rightarrow> bool" where
  "order_checks r \<longleftrightarrow>
     or_status r \<in> set [''submitted'', ''pool_open'', ''assigned'', ''accepted'', ''en_route'', ''in_progress'',
       ''completed'', ''cancelled''] \<and>
     (case or_pool_mode r of None \<Rightarrow> or_status r \<noteq> ''pool_open'' | Some m \<Rightarrow> m \<in> set [''curated'', ''first_claim'']) \<and>
     (occupied_status (or_status r) \<or> or_status r = ''completed'' \<longrightarrow> or_assignee_id r \<noteq> None) \<and>
     1 \<le> or_version r"

definition order_indexes :: "order_row list \<Rightarrow> bool" where
  "order_indexes t \<longleftrightarrow>
     unique_on (\<lambda>r. or_assignee_id r \<noteq> None \<and> occupied_status (or_status r))
       (\<lambda>r. (or_organization_id r, or_assignee_id r)) t \<and>
     unique_on (\<lambda>_. True) (\<lambda>r. (or_organization_id r, or_public_number r)) t"

abbreviation check_violation :: py_error where
  "check_violation \<equiv> RuntimeError ''constraint violation''"

abbreviation unique_violation :: py_error where
  "unique_violation \<equiv> ConcurrencyConflict ''database uniqueness constraint''"

definition replace_responses :: "work_order \<Rightarrow> pg_db \<Rightarrow> pg_db result" where
  "replace_responses w d =
     (let kept = delete_rows (response_row_is (wo_organization_id w) (wo_id w)) (pg_responses d);
          new = map (\<lambda>(k, r). \<lparr>rr_organization_id = wo_organization_id w, rr_work_order_id = wo_id w,
            rr_executor_id = pr_executor_id r, rr_status = response_status_value (pr_status r),
            rr_responded_at = pr_responded_at r\<rparr>) (wo_pool_responses w)
      in raise_first [check (unique_on (\<lambda>_. True) (\<lambda>r. (rr_organization_id r, rr_work_order_id r, rr_executor_id r))
            (kept @ new)) unique_violation]
          (Inr (d\<lparr>pg_responses := kept @ new\<rparr>)))"

definition pg_save_order :: "work_order \<Rightarrow> int option \<Rightarrow> pg_db \<Rightarrow> pg_db result" where
  "pg_save_order w expected d =
     (let row = order_values w; mine = order_row_is (wo_organization_id w) (wo_id w) in
      result_bind
        (case expected of
           None \<Rightarrow> raise_first [check (order_checks row) check_violation,
               check (\<not> list_ex mine (pg_orders d)) (ConcurrencyConflict ''work order already exists'')]
             (Inr (pg_orders d @ [row]))
         | Some v \<Rightarrow>
             let current = (\<lambda>r. mine r \<and> or_version r = v)
             in raise_first [check (list_ex current (pg_orders d)) (ConcurrencyConflict ''work order changed concurrently''),
                 check (order_checks row) check_violation]
               (Inr (update_rows current (\<lambda>_. row) (pg_orders d))))
        (\<lambda>t. raise_first [check (order_indexes t) unique_violation] (replace_responses w (d\<lparr>pg_orders := t\<rparr>))))"

section \<open>The tracking sessions\<close>

definition tracking_row_is :: "string \<Rightarrow> string \<Rightarrow> tracking_row \<Rightarrow> bool" where
  "tracking_row_is org sid r \<longleftrightarrow> tr_organization_id r = org \<and> tr_id r = sid"

definition point_row_is :: "string \<Rightarrow> string \<Rightarrow> point_row \<Rightarrow> bool" where
  "point_row_is org sid p \<longleftrightarrow> pt_organization_id p = org \<and> pt_session_id p = sid"

definition latest_row :: "string \<Rightarrow> string \<Rightarrow> pg_db \<Rightarrow> point_row option" where
  "latest_row org sid d =
     (case sort_key (\<lambda>p. - pt_sequence_no p) (filter (point_row_is org sid) (pg_points d)) of
        [] \<Rightarrow> None | p # _ \<Rightarrow> Some p)"

definition pg_get_session :: "string \<Rightarrow> string \<Rightarrow> pg_db \<Rightarrow> tracking_session result" where
  "pg_get_session org sid d =
     (case find (tracking_row_is org sid) (pg_sessions d) of
        None \<Rightarrow> Inl (NotFound ''tracking session'' sid)
      | Some r \<Rightarrow> tracking_from_row r (latest_row org sid d))"

definition pg_has_source_event :: "string \<Rightarrow> string \<Rightarrow> string \<Rightarrow> pg_db \<Rightarrow> bool" where
  "pg_has_source_event org source ev d =
     list_ex (\<lambda>p. pt_organization_id p = org \<and> pt_source p = source \<and> pt_source_event_id p = Some ev) (pg_points d)"

definition pg_find_active :: "string \<Rightarrow> string \<Rightarrow> pg_db \<Rightarrow> tracking_session option result" where
  "pg_find_active org oid d =
     (case find (\<lambda>r. tr_organization_id r = org \<and> tr_work_order_id r = oid \<and> tr_status r = ''active'') (pg_sessions d) of
        None \<Rightarrow> Inr None
      | Some r \<Rightarrow> result_bind (pg_get_session org (tr_id r) d) (\<lambda>x. Inr (Some x)))"

definition tracking_values :: "tracking_session \<Rightarrow> tracking_row" where
  "tracking_values x =
     \<lparr>tr_organization_id = ts_organization_id x, tr_id = ts_id x, tr_work_order_id = ts_work_order_id x,
      tr_executor_id = ts_executor_id x, tr_public_token = ts_public_token x, tr_location_token = ts_location_token x,
      tr_status = tracking_status_value (ts_status x), tr_point_count = ts_point_count x, tr_version = ts_version x,
      tr_created_at = ts_created_at x, tr_updated_at = ts_updated_at x\<rparr>"

definition strong :: "string option \<Rightarrow> bool" where
  "strong t \<longleftrightarrow> (case t of None \<Rightarrow> True | Some s \<Rightarrow> 43 \<le> length s)"

definition tracking_checks :: "tracking_row \<Rightarrow> bool" where
  "tracking_checks r \<longleftrightarrow> tr_status r \<in> set [''active'', ''completed'', ''cancelled''] \<and> 1 \<le> tr_version r \<and>
     0 \<le> tr_point_count r \<and> strong (tr_public_token r) \<and> strong (tr_location_token r) \<and>
     (tr_public_token r = None \<or> tr_location_token r = None \<or> tr_public_token r \<noteq> tr_location_token r)"

definition tracking_indexes :: "tracking_row list \<Rightarrow> bool" where
  "tracking_indexes t \<longleftrightarrow>
     unique_on (\<lambda>r. tr_status r = ''active'') (\<lambda>r. (tr_organization_id r, tr_work_order_id r)) t \<and>
     unique_on (\<lambda>r. tr_public_token r \<noteq> None) tr_public_token t \<and>
     unique_on (\<lambda>r. tr_location_token r \<noteq> None) tr_location_token t"

definition point_checks :: "point_row \<Rightarrow> bool" where
  "point_checks p \<longleftrightarrow> fl_between (-90) (pt_latitude p) 90 \<and> fl_between (-180) (pt_longitude p) 180 \<and>
     pt_source p \<in> set [''telegram'', ''max'', ''web'', ''mobile'', ''import''] \<and>
     (case pt_accuracy_m p of None \<Rightarrow> True | Some a \<Rightarrow> a = NaN \<or> fl_le (Finite 0) a)"

definition point_indexes :: "point_row list \<Rightarrow> bool" where
  "point_indexes t \<longleftrightarrow>
     unique_on (\<lambda>_. True) (\<lambda>p. (pt_organization_id p, pt_session_id p, pt_sequence_no p)) t \<and>
     unique_on (\<lambda>p. pt_source_event_id p \<noteq> None) (\<lambda>p. (pt_organization_id p, pt_source p, pt_source_event_id p)) t"

definition point_values :: "tracking_session \<Rightarrow> int \<times> tracking_point \<Rightarrow> point_row" where
  "point_values x np =
     \<lparr>pt_organization_id = ts_organization_id x, pt_session_id = ts_id x, pt_sequence_no = fst np,
      pt_latitude = tp_latitude (snd np), pt_longitude = tp_longitude (snd np), pt_captured_at = tp_captured_at (snd np),
      pt_ingested_at = tp_ingested_at (snd np), pt_source = location_source_value (tp_source (snd np)),
      pt_accuracy_m = tp_accuracy_m (snd np), pt_source_event_id = tp_source_event_id (snd np)\<rparr>"

fun numbered :: "int \<Rightarrow> 'a list \<Rightarrow> (int \<times> 'a) list" where
  "numbered n [] = []"
| "numbered n (x # xs) = (n, x) # numbered (n + 1) xs"

definition append_new_points :: "tracking_session \<Rightarrow> pg_db \<Rightarrow> pg_db result" where
  "append_new_points x d =
     result_bind (pending_points x) (\<lambda>new.
       let rows = map (point_values x) (numbered (ts_persisted_point_count x + 1) new)
       in raise_first [check (list_all point_checks rows) check_violation,
             check (point_indexes (pg_points d @ rows)) unique_violation]
           (Inr (d\<lparr>pg_points := pg_points d @ rows\<rparr>)))"

definition order_exists :: "string \<Rightarrow> string \<Rightarrow> pg_db \<Rightarrow> bool" where
  "order_exists org oid d \<longleftrightarrow> list_ex (order_row_is org oid) (pg_orders d)"

definition pg_save_session :: "tracking_session \<Rightarrow> int option \<Rightarrow> pg_db \<Rightarrow> pg_db result" where
  "pg_save_session x expected d =
     (let row = tracking_values x; mine = tracking_row_is (ts_organization_id x) (ts_id x) in
      result_bind
        (case expected of
           None \<Rightarrow> raise_first [check (tracking_checks row) check_violation,
               check (\<not> list_ex mine (pg_sessions d)) (ConcurrencyConflict ''tracking session already exists'')]
             (Inr (pg_sessions d @ [row]))
         | Some v \<Rightarrow>
             let current = (\<lambda>r. mine r \<and> tr_version r = v)
             in raise_first [check (list_ex current (pg_sessions d)) (ConcurrencyConflict ''tracking session changed concurrently''),
                 check (tracking_checks row) check_violation]
               (Inr (update_rows current (\<lambda>r. row\<lparr>tr_created_at := tr_created_at r\<rparr>) (pg_sessions d))))
        (\<lambda>t. raise_first [check (tracking_indexes t) unique_violation,
             check (order_exists (ts_organization_id x) (ts_work_order_id x) d) check_violation]
           (append_new_points x (d\<lparr>pg_sessions := t\<rparr>))))"

section \<open>The outbox and the transaction\<close>

definition event_key :: "domain_event \<Rightarrow> string \<times> string \<times> string \<times> int" where
  "event_key e = (ev_organization_id e, aggregate_type e, aggregate_id e, aggregate_version e)"

fun pg_add_events :: "domain_event list \<Rightarrow> pg_db \<Rightarrow> pg_db result" where
  "pg_add_events [] d = Inr d"
| "pg_add_events (e # es) d =
     (if list_ex (\<lambda>o'. event_id o' = event_id e) (pg_outbox d) then pg_add_events es d
      else if list_ex (\<lambda>o'. event_key o' = event_key e) (pg_outbox d) then Inl check_violation
      else pg_add_events es (d\<lparr>pg_outbox := pg_outbox d @ [e]\<rparr>))"

datatype pg_statement =
    SaveOrder work_order "int option"
  | SaveSession tracking_session "int option"
  | AddEvents "domain_event list"

fun pg_exec :: "pg_statement \<Rightarrow> pg_db \<Rightarrow> pg_db result" where
  "pg_exec (SaveOrder w v) d = pg_save_order w v d"
| "pg_exec (SaveSession x v) d = pg_save_session x v d"
| "pg_exec (AddEvents es) d = pg_add_events es d"

fun pg_body :: "pg_statement list \<Rightarrow> pg_db \<Rightarrow> pg_db result" where
  "pg_body [] d = Inr d"
| "pg_body (c # cs) d = result_bind (pg_exec c d) (pg_body cs)"

text \<open>\<open>__aexit__\<close>: the transaction is kept when the body returned after a commit.\<close>

definition pg_close :: "pg_db \<Rightarrow> bool \<Rightarrow> pg_db result \<Rightarrow> unit result \<times> pg_db" where
  "pg_close before saved body =
     (case body of
        Inl e \<Rightarrow> (Inl e, before)
      | Inr after \<Rightarrow> (Inr (), if saved then after else before))"

definition pg_unit :: "pg_statement list \<Rightarrow> pg_db \<Rightarrow> unit result \<times> pg_db" where
  "pg_unit cs d = pg_close d True (pg_body cs d)"

section \<open>Migrations\<close>

text \<open>
  \<open>PostgresDatabase.migrate\<close>: the files of the directory by name, each unknown one run and noted in one
  transaction. \<open>run\<close> is what the database does with the text of a file.
\<close>

fun migrate_files ::
  "(string \<Rightarrow> 'd \<Rightarrow> 'd result) \<Rightarrow> (string \<times> string) list \<Rightarrow> string list \<times> 'd \<Rightarrow> string list result \<times> (string list \<times> 'd)"
where
  "migrate_files run [] w = (Inr [], w)"
| "migrate_files run ((version, sql) # files) w =
     (if version \<in> set (fst w) then migrate_files run files w
      else case run sql (snd w) of
          Inl e \<Rightarrow> (Inl e, w)
        | Inr d \<Rightarrow> (let (r, w') = migrate_files run files (fst w @ [version], d)
            in (result_bind r (\<lambda>vs. Inr (version # vs)), w')))"

definition migrate ::
  "(string \<Rightarrow> 'd \<Rightarrow> 'd result) \<Rightarrow> (string \<times> string) list \<Rightarrow> string list \<times> 'd \<Rightarrow> string list result \<times> (string list \<times> 'd)"
where
  "migrate run directory w = migrate_files run (sort_key fst directory) w"

lemma migrate_files_notes:
  "migrate_files run files w = (Inr vs, w') \<Longrightarrow>
    fst w' = fst w @ vs \<and> set (map fst files) \<subseteq> set (fst w')"
proof (induction run files w arbitrary: vs rule: migrate_files.induct)
  case (2 run version sql files w)
  then show ?case by (auto split: if_splits sum.splits prod.splits)
qed auto

text \<open>A second start of the same release runs nothing.\<close>

lemma migrate_twice:
  assumes "migrate run directory w = (Inr vs, w')"
  shows "migrate run directory w' = (Inr [], w')"
proof -
  have "set (map fst (sort_key fst directory)) \<subseteq> set (fst w')"
    using migrate_files_notes[OF assms[unfolded migrate_def]] by blast
  moreover have "set (map fst files) \<subseteq> set (fst w') \<Longrightarrow> migrate_files run files w' = (Inr [], w')" for files
    by (induction files) auto
  ultimately show ?thesis by (simp add: migrate_def)
qed

end
