(* ===== verification/Staff_Views.thy ===== *)
theory Staff_Views
  imports Postgres_Store Configurator
begin

text \<open>
  What the staff sees: the read model of active orders (\<open>PostgresStaffViewStore\<close> in
  \<open>infrastructure/staff_workflows.py\<close>) over the tables of orders and people, and the cards
  (\<open>messaging/cards.py\<close>) that show an order or a pack. The words on the cards are English stand-ins; the
  representation of floats, lists and mappings as text is an argument.
\<close>

section \<open>The read model\<close>

record order_view =
  ov_id :: string
  ov_public_number :: string
  ov_work_type :: string
  ov_source :: string
  ov_details :: json
  ov_status :: string
  ov_assignee_id :: "string option"
  ov_coordinator_id :: "string option"
  ov_created_at :: instant
  ov_updated_at :: instant
  ov_master_name :: "string option"
  ov_master_phone :: "string option"

definition active_statuses :: "string list" where
  "active_statuses = [''submitted'', ''pool_open'', ''assigned'', ''accepted'', ''en_route'', ''in_progress'']"

definition view_role_check :: "string \<Rightarrow> py_error option" where
  "view_role_check role = check (role \<in> set [''operator'', ''master'']) (ValueError ''unsupported staff view role'')"

text \<open>The condition on \<open>orders\<close>: a missing assignee is never equal to the actor.\<close>

definition in_view :: "string \<Rightarrow> string \<Rightarrow> string \<Rightarrow> order_row \<Rightarrow> bool" where
  "in_view org role actor r \<longleftrightarrow> or_organization_id r = org \<and> or_status r \<in> set active_statuses \<and>
     (role = ''master'' \<longrightarrow> or_assignee_id r = Some actor)"

definition view_of :: "identity_db \<Rightarrow> order_row \<Rightarrow> order_view" where
  "view_of people r =
     (let master = (case or_assignee_id r of None \<Rightarrow> None
            | Some x \<Rightarrow> find (is_actor (or_organization_id r) x) (actors people))
      in \<lparr>ov_id = or_id r, ov_public_number = or_public_number r, ov_work_type = or_work_type r, ov_source = or_source r,
          ov_details = or_details r, ov_status = or_status r, ov_assignee_id = or_assignee_id r,
          ov_coordinator_id = or_coordinator_id r, ov_created_at = or_created_at r, ov_updated_at = or_updated_at r,
          ov_master_name = map_option a_name master, ov_master_phone = Option.bind master a_phone\<rparr>)"

definition list_active_orders ::
  "string \<Rightarrow> string \<Rightarrow> string \<Rightarrow> int \<Rightarrow> order_row list \<Rightarrow> identity_db \<Rightarrow> order_view list result" where
  "list_active_orders org role actor limit orders people =
     raise_first [view_role_check role,
       check (1 \<le> limit \<and> limit \<le> 100) (ValueError ''order list limit must be between 1 and 100'')]
       (Inr (map (view_of people) (take (nat limit)
          (sort_key (\<lambda>r. (- or_updated_at r, or_id r)) (filter (in_view org role actor) orders)))))"

definition get_active_order ::
  "string \<Rightarrow> string \<Rightarrow> string \<Rightarrow> string \<Rightarrow> order_row list \<Rightarrow> identity_db \<Rightarrow> order_view option result" where
  "get_active_order org role actor oid orders people =
     raise_first [view_role_check role]
       (Inr (map_option (view_of people) (find (\<lambda>r. in_view org role actor r \<and> or_id r = oid) orders)))"

record staff_statistics =
  sx_total :: nat
  sx_active :: nat
  sx_submitted :: nat
  sx_completed_today :: nat
  sx_masters_total :: nat
  sx_masters_bound :: nat

definition active_masters :: "string \<Rightarrow> identity_db \<Rightarrow> role_row list" where
  "active_masters org people = filter (\<lambda>m. r_org m = org \<and> r_role m = ''master'' \<and> r_active m \<and>
     list_ex (\<lambda>a. is_actor org (r_actor m) a \<and> a_active a) (actors people)) (memberships people)"

definition statistics :: "string \<Rightarrow> instant \<Rightarrow> order_row list \<Rightarrow> identity_db \<Rightarrow> staff_statistics" where
  "statistics org today orders people =
     (let mine = filter (\<lambda>r. or_organization_id r = org) orders; masters = map r_actor (active_masters org people)
      in \<lparr>sx_total = length mine,
          sx_active = count_rows (\<lambda>r. or_status r \<in> set active_statuses) mine,
          sx_submitted = count_rows (\<lambda>r. or_status r = ''submitted'') mine,
          sx_completed_today = count_rows (\<lambda>r. or_status r = ''completed'' \<and> today \<le> or_updated_at r) mine,
          sx_masters_total = length masters,
          sx_masters_bound = length (remdups (filter (\<lambda>x. list_ex (\<lambda>e. e_org e = org \<and> e_actor e = x \<and>
            e_provider e \<in> {''telegram'', ''max''}) (externals people)) masters))\<rparr>)"

definition master_has_active_orders :: "string \<Rightarrow> string \<Rightarrow> order_row list \<Rightarrow> bool" where
  "master_has_active_orders org master orders =
     list_ex (\<lambda>r. or_organization_id r = org \<and> or_assignee_id r = Some master \<and> or_status r \<in> set active_statuses) orders"

section \<open>Words\<close>

text \<open>\<open>value in (None, "")\<close>\<close>

definition is_absent :: "json \<Rightarrow> bool" where
  "is_absent v \<longleftrightarrow> v = JNull \<or> v = JStr []"

definition detail :: "(string, json) dict \<Rightarrow> string \<Rightarrow> json" where
  "detail d k = get_default k JNull d"

fun first_detail :: "(json \<Rightarrow> string) \<Rightarrow> (string, json) dict \<Rightarrow> string list \<Rightarrow> string" where
  "first_detail show d [] = []"
| "first_detail show d (k # ks) = (if is_absent (detail d k) then first_detail show d ks else py_str show (detail d k))"

text \<open>\<open>s.split(maxsplit=1)[0]\<close>\<close>

definition first_word :: "string \<Rightarrow> string result" where
  "first_word s = (let t = dropWhile is_space s in if t = [] then Inl IndexError else Inr (takeWhile (\<lambda>c. \<not> is_space c) t))"

definition or_else :: "string \<Rightarrow> string \<Rightarrow> string" where
  "or_else s t = (if s = [] then t else s)"

definition phone_display :: "string \<Rightarrow> string" where
  "phone_display value =
     (let digits = filter is_digit value;
          digits = (if str_starts_with ''8'' digits \<and> length digits = 11 then ''7'' @ drop 1 digits else digits);
          digits = (if length digits = 10 then ''7'' @ digits else digits)
      in if digits = [] then ''-'' else ''+'' @ digits)"

definition order_number :: "order_view \<Rightarrow> string" where
  "order_number v = or_else (ov_public_number v) (or_else (ov_id v) ''-'')"

definition STATUS_LABELS :: "(string, string) dict" where
  "STATUS_LABELS =
     [(''submitted'', ''[new] New''), (''pool_open'', ''[pool] In the pool''), (''assigned'', ''[assigned] Assigned''),
      (''accepted'', ''[accepted] Accepted''), (''en_route'', ''[way] On the way''), (''in_progress'', ''[work] On site''),
      (''completed'', ''[done] Completed''), (''cancelled'', ''[x] Cancelled'')]"

definition MASTER_STATUS_EMOJI :: "(string, string) dict" where
  "MASTER_STATUS_EMOJI =
     [(''submitted'', ''[new]''), (''pool_open'', ''[pool]''), (''assigned'', ''[assigned]''), (''accepted'', ''[accepted]''),
      (''en_route'', ''[way]''), (''in_progress'', ''[repair]''), (''completed'', ''[done]''), (''cancelled'', ''[x]'')]"

definition status_label :: "string \<Rightarrow> string" where
  "status_label status = (case dict_get status STATUS_LABELS of Some l \<Rightarrow> l | None \<Rightarrow> or_else status ''[?] Unknown'')"

definition status_emoji :: "string \<Rightarrow> string result" where
  "status_emoji status = first_word (status_label status)"

definition source_label :: "string \<Rightarrow> string" where
  "source_label source =
     (if str_starts_with ''telegram'' source then ''Telegram''
      else if str_starts_with ''max'' source then ''MAX''
      else if str_starts_with ''site'' source \<or> str_starts_with ''web'' source then ''Site''
      else if source \<in> {''dispatcher_phone_call'', ''phone''} then ''Phone''
      else or_else source ''-'')"

text \<open>\<open>strftime("%d.%m.%Y %H:%M")\<close> of a UTC instant\<close>

definition datetime_text :: "instant \<Rightarrow> string" where
  "datetime_text t =
     (let secs = t div 1000000; sod = secs mod 86400; (y, m, d) = civil_from_days (secs div 86400)
      in pad_int 2 d @ ''.'' @ pad_int 2 m @ ''.'' @ int_str y @ '' '' @ pad_int 2 (sod div 3600) @ '':'' @ pad_int 2 (sod div 60 mod 60))"

definition card_details :: "order_view \<Rightarrow> (string, json) dict" where
  "card_details v = (case ov_details v of JObj d \<Rightarrow> d | _ \<Rightarrow> [])"

definition services_text :: "(json \<Rightarrow> string) \<Rightarrow> (string, json) dict \<Rightarrow> string \<Rightarrow> string" where
  "services_text show d fallback =
     (let value = detail d ''services'';
          labels = (case value of JList xs \<Rightarrow> str_join '', '' (filter (\<lambda>s. s \<noteq> []) (map (py_str show) xs)) | _ \<Rightarrow> [])
      in if labels \<noteq> [] then labels else if is_absent value then fallback else py_str show value)"

definition CORE_DETAIL_KEYS :: "string list" where
  "CORE_DETAIL_KEYS =
     [''address'', ''client_name'', ''comment'', ''description'', ''destination'', ''fault'', ''name'', ''phone'', ''problem'',
      ''schedule_note'', ''scheduled_at'', ''service_keys'', ''service_location'', ''services'', ''summary'']"

definition extra_fields :: "(json \<Rightarrow> string) \<Rightarrow> (string, json) dict \<Rightarrow> pack_definition option \<Rightarrow> string list" where
  "extra_fields show d pack =
     (case pack of None \<Rightarrow> []
      | Some p \<Rightarrow> map (\<lambda>f. ''* '' @ fd_label f @ '': '' @ py_str show (detail d (fd_key f)))
          (filter (\<lambda>f. fd_key f \<notin> set CORE_DETAIL_KEYS \<and> \<not> is_absent (detail d (fd_key f))) (ordered_fields p)))"

definition card_role_label :: "pack_definition option \<Rightarrow> string \<Rightarrow> string \<Rightarrow> string" where
  "card_role_label pack role fallback =
     (case pack of None \<Rightarrow> fallback
      | Some p \<Rightarrow> (case dict_get role (pd_role_labels p) of Some l \<Rightarrow> or_else l fallback | None \<Rightarrow> fallback))"

section \<open>The cards of an order\<close>

definition newline :: string where "newline = [char_of (10 :: nat)]"

definition master_line :: "order_view \<Rightarrow> pack_definition option \<Rightarrow> string list" where
  "master_line v pack =
     (case ov_master_name v of None \<Rightarrow> []
      | Some n \<Rightarrow> if n = [] then [] else [card_role_label pack ''master'' ''Master'' @ '': '' @ n])"

definition operator_order_card :: "(json \<Rightarrow> string) \<Rightarrow> order_view \<Rightarrow> pack_definition option \<Rightarrow> string result" where
  "operator_order_card show v pack =
     result_bind (status_emoji (ov_status v)) (\<lambda>emoji.
       let d = card_details v;
           description = first_detail show d [''description'', ''summary'', ''fault'', ''problem'', ''comment''];
           schedule = first_detail show d [''schedule_note'', ''scheduled_at'']
       in Inr (str_join newline
         ([emoji @ '' Order '' @ order_number v, [],
           card_role_label pack ''client'' ''Client'' @ '': '' @ or_else (first_detail show d [''client_name'', ''name'']) ''not given'',
           ''Phone:'', phone_display (first_detail show d [''phone'', ''client_phone'']), ''Press the number above'',
           ''Address: '' @ or_else (first_detail show d [''address'', ''destination'']) ''-'',
           ''Services: '' @ services_text show d (or_else (ov_work_type v) ''-'')] @
          (if description = [] then [] else [''Description: '' @ description]) @
          (if schedule = [] then [] else [''When: '' @ schedule]) @
          [''Status: '' @ status_label (ov_status v), ''Created: '' @ datetime_text (ov_created_at v),
           ''Source: '' @ source_label (ov_source v)] @
          master_line v pack @ extra_fields show d pack)))"

definition master_order_card :: "(json \<Rightarrow> string) \<Rightarrow> order_view \<Rightarrow> pack_definition option \<Rightarrow> string" where
  "master_order_card show v pack =
     (let d = card_details v;
          description = first_detail show d [''description'', ''summary'', ''fault'', ''problem'', ''comment''];
          schedule = first_detail show d [''schedule_note'', ''scheduled_at'']
      in str_join newline
        ([(case dict_get (ov_status v) MASTER_STATUS_EMOJI of Some e \<Rightarrow> e | None \<Rightarrow> ''[doc]'') @ '' Order '' @ order_number v, [],
          card_role_label pack ''client'' ''Client'' @ '': '' @ or_else (first_detail show d [''client_name'', ''name'']) ''-'',
          ''Phone:'', phone_display (first_detail show d [''phone'', ''client_phone'']),
          ''Address: '' @ or_else (first_detail show d [''address'', ''destination'']) ''-'',
          ''Description: '' @ or_else description (services_text show d (or_else (ov_work_type v) ''-''))] @
         (if schedule = [] then [] else [''When: '' @ schedule]) @
         [''Status: '' @ status_label (ov_status v)] @
         master_line v pack @ extra_fields show d pack))"

section \<open>The cards of a pack\<close>

definition greeting :: "pack_definition \<Rightarrow> string" where
  "greeting p = or_else (br_greeting (pd_branding p)) (''Hello! This is '' @ br_name (pd_branding p) @ ''. Choose a service.'')"

text \<open>What \<open>for item in services\<close> goes through.\<close>

fun service_items :: "(json \<Rightarrow> string) \<Rightarrow> json \<Rightarrow> string list result" where
  "service_items show (JList xs) = Inr (map (py_str show) xs)"
| "service_items show (JStr s) = Inr (map (\<lambda>c. [c]) s)"
| "service_items show (JObj d) = Inr (map fst d)"
| "service_items show v = Inl (TypeError ''object is not iterable'')"

definition render_card :: "(json \<Rightarrow> string) \<Rightarrow> pack_definition \<Rightarrow> string \<Rightarrow> (string, json) dict \<Rightarrow> string \<Rightarrow> string result" where
  "render_card show p header details fallback =
     (let services = detail details ''services'';
          fields = map (\<lambda>f. fd_label f @ '': '' @ py_str show (detail details (fd_key f)))
            (filter (\<lambda>f. \<not> is_absent (detail details (fd_key f))) (ordered_fields p))
      in result_bind (if truthy services
           then result_bind (service_items show services) (\<lambda>xs. Inr [''Services: '' @ str_join '', '' xs]) else Inr []) (\<lambda>shown.
         Inr (str_join newline ((if header = [] then [] else [header]) @ shown @ fields @
           (if \<not> truthy services \<and> fields = [] then [fallback] else [])))))"

definition order_card_text :: "(json \<Rightarrow> string) \<Rightarrow> pack_definition \<Rightarrow> string \<Rightarrow> (string, json) dict \<Rightarrow> string result" where
  "order_card_text show p work_type details = render_card show p (br_name (pd_branding p)) details work_type"

definition confirmation_card :: "(json \<Rightarrow> string) \<Rightarrow> pack_definition \<Rightarrow> string list \<Rightarrow> (string, json) dict \<Rightarrow> string result" where
  "confirmation_card show p service_labels answers =
     result_bind (render_card show p ''Check the order''
       (if service_labels = [] then answers else dict_put ''services'' (JList (map JStr service_labels)) answers)
       (br_name (pd_branding p))) (\<lambda>body. Inr (body @ newline @ newline @ ''Send it?''))"

end
