(* ===== verification/Workspaces.thy ===== *)
theory Workspaces
  imports Staff_Views
begin

text \<open>
  The workspaces of the staff (\<open>messaging/workspaces.py\<close>): the operator sees the active orders of the
  organization, calls clients and masters, adds masters and takes the role away from them; the master sees
  the orders assigned to him with the buttons that go on with them. The texts of the replies are
  constructors with what they show.
\<close>

section \<open>Replies\<close>

datatype workspace_note =
    AddMasterCancelled
  | ChooseAction
  | UnfinishedDropped
  | UnknownAction
  | MasterNotFound
  | OrderGone
  | MasterBusy
  | MasterRoleRemoved
  | MasterGone
  | MasterNameLost

datatype workspace_text =
    OperatorMenu "workspace_note option" bool
  | AskMasterName
  | MastersShown "workspace_note option" "actor_summary list"
  | MasterCard string string string
  | MasterCall string string
  | ClientCall string string
  | AskRemoveMaster string
  | OperatorOrders bool
  | StatisticsShown staff_statistics
  | MasterNameEmpty
  | AskMasterPhone string
  | MasterPhoneWanted
  | MasterCreated staff_actor
  | OrderShown string
  | MasterWelcome string
  | MasterOrders bool
  | OrderNotYours

type_synonym workspace_reply = "workspace_text \<times> reply_button list"

definition work_button :: "string \<Rightarrow> string \<Rightarrow> (string, json) dict \<Rightarrow> string \<Rightarrow> nat \<Rightarrow> reply_button" where
  "work_button label act payload role row = \<lparr>rb_text = label, rb_action = act, rb_payload = payload,
     rb_allowed_role = Some role, rb_row = int row, rb_url = None, rb_request_location = False\<rparr>"

definition order_payload :: "string \<Rightarrow> (string, json) dict" where
  "order_payload oid = [(''order_id'', JStr oid)]"

section \<open>One call\<close>

text \<open>
  The tables of orders and packs are only read here. \<open>wc_packs\<close> is missing where the coordinator was built
  without a pack store; \<open>wc_today\<close> is the start of the day for the database.
\<close>

record workspace_call =
  wc_identity :: actor_identity
  wc_event :: "string option"
  wc_now :: instant
  wc_today :: instant
  wc_orders :: "order_row list"
  wc_packs :: "pack_table option"
  wc_labels :: "(string, string) dict"
  wc_token :: string
  wc_hex :: string
  wc_draws :: "nat list"
  wc_show :: "json \<Rightarrow> string"

record workspace_db =
  wd_people :: identity_db
  wd_sessions :: "staff_key sessions"

type_synonym 'a working = "(workspace_db, 'a) action"

definition wc_org :: "workspace_call \<Rightarrow> string" where
  "wc_org c = ai_organization_id (wc_identity c)"

definition wc_actor :: "workspace_call \<Rightarrow> string" where
  "wc_actor c = ai_actor_id (wc_identity c)"

definition operator_key :: "workspace_call \<Rightarrow> staff_key" where
  "operator_key c = (wc_org c, wc_actor c, ''operator'', ai_provider (wc_identity c))"

definition view_people :: "(identity_db \<Rightarrow> 'a result) \<Rightarrow> 'a working" where
  "view_people f = act_read (\<lambda>d. f (wd_people d))"

definition change_people :: "(identity_db \<Rightarrow> ('a \<times> identity_db) result) \<Rightarrow> 'a working" where
  "change_people f d = (case f (wd_people d) of Inl e \<Rightarrow> (Inl e, d) | Inr (x, t) \<Rightarrow> (Inr x, d\<lparr>wd_people := t\<rparr>))"

definition operator_session :: "workspace_call \<Rightarrow> state option working" where
  "operator_session c = act_read (\<lambda>d. staff_get (operator_key c) (wd_sessions d))"

definition save_session :: "workspace_call \<Rightarrow> state \<Rightarrow> unit working" where
  "save_session c st d = (case staff_put (wc_event c) (operator_key c) st (wc_now c) (wd_sessions d) of
     Inl e \<Rightarrow> (Inl e, d) | Inr t \<Rightarrow> (Inr (), d\<lparr>wd_sessions := t\<rparr>))"

definition drop_session :: "workspace_call \<Rightarrow> unit working" where
  "drop_session c d = (case staff_clear (operator_key c) (wd_sessions d) of
     Inl e \<Rightarrow> (Inl e, d) | Inr t \<Rightarrow> (Inr (), d\<lparr>wd_sessions := t\<rparr>))"

definition operator_handled :: "workspace_call \<Rightarrow> string \<Rightarrow> workspace_db \<Rightarrow> bool result" where
  "operator_handled c ev d = staff_handled (operator_key c) ev (wd_sessions d)"

definition workspace_pack :: "workspace_call \<Rightarrow> pack_definition option result" where
  "workspace_pack c = (case wc_packs c of None \<Rightarrow> Inr None | Some t \<Rightarrow> pack_active (wc_labels c) (wc_org c) t)"

definition give :: "workspace_reply \<Rightarrow> workspace_reply working" where
  "give r = act_lift (Inr r)"

definition next_to :: "unit working \<Rightarrow> 'a working \<Rightarrow> 'a working" where
  "next_to f g = act_bind f (\<lambda>_. g)"

section \<open>Lists of orders\<close>

text \<open>\<open>_orders_reply\<close>; the title says whether there are any.\<close>

definition orders_reply ::
  "(bool \<Rightarrow> workspace_text) \<Rightarrow> string \<Rightarrow> string \<Rightarrow> string \<Rightarrow> order_view list \<Rightarrow> workspace_reply result" where
  "orders_reply title open_action role back_action orders =
     result_bind (map_result (\<lambda>(index, v). result_bind (status_emoji (ov_status v)) (\<lambda>emoji.
         Inr (work_button (emoji @ '' '' @ order_number v) open_action (order_payload (ov_id v)) role index))) (enumerate 0 orders))
       (\<lambda>buttons. Inr (title (orders \<noteq> []),
          buttons @ [work_button ''Main menu'' back_action [] role (length buttons)]))"

section \<open>The operator\<close>

definition operator_menu :: "workspace_call \<Rightarrow> workspace_note option \<Rightarrow> workspace_reply" where
  "operator_menu c n =
     (let telegram = (ai_provider (wc_identity c) = ''telegram'')
      in (OperatorMenu n telegram,
          if telegram then []
          else [work_button ''Active orders'' ''operator_list_orders'' [] ''operator'' 0,
                work_button ''Masters'' ''operator_list_masters'' [] ''operator'' 1,
                work_button ''Statistics'' ''operator_stats'' [] ''operator'' 2]))"

definition operator_start :: "workspace_call \<Rightarrow> workspace_reply working" where
  "operator_start c = next_to (drop_session c) (give (operator_menu c None))"

definition add_master :: "workspace_call \<Rightarrow> workspace_reply working" where
  "add_master c = next_to
     (save_session c [(''flow'', JStr ''add_master''), (''step'', JStr ''name''), (''request_key'', JStr (wc_token c))])
     (give (AskMasterName, [work_button ''Cancel'' ''operator_cancel'' [] ''operator'' 0]))"

definition list_masters :: "workspace_call \<Rightarrow> workspace_note option \<Rightarrow> workspace_reply working" where
  "list_masters c n =
     act_bind (view_people (list_actors (wc_org c) ''master'')) (\<lambda>xs.
       give (MastersShown n xs,
         map (\<lambda>(index, x). work_button (''i '' @ as_name x) ''operator_master_info'' (actor_payload (as_id x)) ''operator'' index)
           (enumerate 0 xs) @
         [work_button ''Add a master'' ''operator_add_master'' [] ''operator'' (length xs),
          work_button ''Main menu'' ''operator_menu'' [] ''operator'' (length xs + 1)]))"

text \<open>What is done with a master; anybody else leads back to the list.\<close>

definition with_master_row ::
  "workspace_call \<Rightarrow> string \<Rightarrow> (actor_row \<Rightarrow> workspace_reply working) \<Rightarrow> workspace_reply working" where
  "with_master_row c actor f =
     act_bind (view_people (\<lambda>t. Inr (get_actor (wc_org c) actor t))) (\<lambda>found.
       case found of
         None \<Rightarrow> list_masters c (Some MasterNotFound)
       | Some (a, roles) \<Rightarrow> if ''master'' \<in> set roles then f a else list_masters c (Some MasterNotFound))"

definition master_info :: "workspace_call \<Rightarrow> string \<Rightarrow> workspace_reply working" where
  "master_info c actor = with_master_row c actor (\<lambda>a.
     give (MasterCard (a_name a) (phone_display (text_of (a_phone a))) (a_id a),
       [work_button ''Call the master'' ''operator_call_master'' (actor_payload actor) ''operator'' 0,
        work_button ''Remove the master role'' ''operator_delete_master'' (actor_payload actor) ''operator'' 1,
        work_button ''To the masters'' ''operator_list_masters'' [] ''operator'' 2]))"

definition call_master :: "workspace_call \<Rightarrow> string \<Rightarrow> string \<Rightarrow> workspace_reply working" where
  "call_master c actor oid = with_master_row c actor (\<lambda>a.
     give (MasterCall (if oid \<noteq> [] then ''The master of the order '' @ oid else ''Master '' @ a_name a) (phone_display (text_of (a_phone a))),
       [work_button ''To the master'' ''operator_master_info'' (actor_payload actor) ''operator'' 0]))"

definition find_order :: "workspace_call \<Rightarrow> string \<Rightarrow> string \<Rightarrow> order_view option working" where
  "find_order c role oid = view_people (get_active_order (wc_org c) role (wc_actor c) oid (wc_orders c))"

definition client_phone :: "(string, json) dict \<Rightarrow> json" where
  "client_phone d = (if truthy (detail d ''phone'') then detail d ''phone'' else detail d ''client_phone'')"

definition call_client :: "workspace_call \<Rightarrow> string \<Rightarrow> workspace_reply working" where
  "call_client c oid =
     act_bind (find_order c ''operator'' oid) (\<lambda>found.
       case found of
         None \<Rightarrow> give (operator_menu c (Some OrderGone))
       | Some v \<Rightarrow>
           (let phone = client_phone (card_details v)
            in give (ClientCall (order_number v) (phone_display (if truthy phone then py_str (wc_show c) phone else [])),
              [work_button ''To the order'' ''operator_open_order'' (order_payload oid) ''operator'' 0])))"

definition delete_master :: "workspace_call \<Rightarrow> string \<Rightarrow> workspace_reply working" where
  "delete_master c actor = with_master_row c actor (\<lambda>a.
     give (AskRemoveMaster (a_name a),
       [work_button ''Yes, remove the role'' ''operator_delete_master_confirm'' (actor_payload actor) ''operator'' 0,
        work_button ''Cancel'' ''operator_list_masters'' [] ''operator'' 1]))"

definition delete_master_confirm :: "workspace_call \<Rightarrow> string \<Rightarrow> workspace_reply working" where
  "delete_master_confirm c actor =
     (if master_has_active_orders (wc_org c) actor (wc_orders c) then list_masters c (Some MasterBusy)
      else act_bind (change_people (revoke_role (wc_org c) actor ''master'' (wc_now c))) (\<lambda>removed.
        list_masters c (Some (if removed then MasterRoleRemoved else MasterGone))))"

definition operator_orders :: "workspace_call \<Rightarrow> workspace_reply working" where
  "operator_orders c =
     act_bind (view_people (list_active_orders (wc_org c) ''operator'' (wc_actor c) 20 (wc_orders c))) (\<lambda>orders.
       act_lift (orders_reply OperatorOrders ''operator_open_order'' ''operator'' ''operator_menu'' orders))"

text \<open>The buttons under an order, each in the row of its number.\<close>

definition numbered_rows :: "(nat \<Rightarrow> reply_button) list \<Rightarrow> reply_button list" where
  "numbered_rows bs = map (\<lambda>(index, b). b index) (enumerate 0 bs)"

definition operator_order_buttons :: "order_view \<Rightarrow> string \<Rightarrow> reply_button list" where
  "operator_order_buttons v oid =
     (let d = card_details v
      in numbered_rows (
        (if truthy (detail d ''phone'') \<or> truthy (detail d ''client_phone'')
         then [work_button ''Call the client'' ''operator_call_client'' (order_payload oid) ''operator''] else []) @
        (case ov_assignee_id v of None \<Rightarrow> []
         | Some x \<Rightarrow> if x = [] then []
             else [work_button ''Call the master'' ''operator_call_master''
               [(''actor_id'', JStr x), (''order_id'', JStr (order_number v))] ''operator'']) @
        (if ov_status v = ''submitted'' then [work_button ''Release to the pool'' ''pool_publish'' (order_payload oid) ''operator''] else []) @
        [work_button ''To the active orders'' ''operator_list_orders'' [] ''operator'']))"

definition operator_open_order :: "workspace_call \<Rightarrow> string \<Rightarrow> workspace_reply working" where
  "operator_open_order c oid =
     act_bind (find_order c ''operator'' oid) (\<lambda>found.
       case found of
         None \<Rightarrow> give (operator_menu c (Some OrderGone))
       | Some v \<Rightarrow>
           act_bind (act_lift (workspace_pack c)) (\<lambda>pack.
           act_bind (act_lift (operator_order_card (wc_show c) v pack)) (\<lambda>shown.
             give (OrderShown shown, operator_order_buttons v oid))))"

definition operator_statistics :: "workspace_call \<Rightarrow> workspace_reply working" where
  "operator_statistics c =
     act_bind (view_people (\<lambda>t. Inr (statistics (wc_org c) (wc_today c) (wc_orders c) t))) (\<lambda>x.
       give (StatisticsShown x, [work_button ''Main menu'' ''operator_menu'' [] ''operator'' 0]))"

text \<open>\<open>" ".join(value.split())\<close>\<close>

function words :: "string \<Rightarrow> string list" where
  "words s = (let t = dropWhile is_space s in
     if t = [] then [] else takeWhile (\<lambda>ch. \<not> is_space ch) t # words (dropWhile (\<lambda>ch. \<not> is_space ch) t))"
  by pat_completeness auto

termination words
proof (relation "measure length", simp)
  fix s t assume t: "t = dropWhile is_space s" "t \<noteq> []"
  then have "\<not> is_space (hd t)" using hd_dropWhile by metis
  then have "length (dropWhile (\<lambda>ch. \<not> is_space ch) t) < length t"
    using t(2) length_dropWhile_le[of "\<lambda>ch. \<not> is_space ch" "tl t"] by (cases t) simp_all
  also have "length t \<le> length s" using t(1) length_dropWhile_le by metis
  finally show "(dropWhile (\<lambda>ch. \<not> is_space ch) t, s) \<in> measure length" by simp
qed

declare words.simps [simp del]

definition master_name :: "workspace_call \<Rightarrow> state \<Rightarrow> string \<Rightarrow> workspace_reply working" where
  "master_name c st value =
     (let name = take 200 (str_join '' '' (words value))
      in if name = [] then give (MasterNameEmpty, [])
         else case dict_get ''request_key'' st of
           None \<Rightarrow> act_lift (Inl (KeyError ''request_key''))
         | Some request_key \<Rightarrow> next_to
             (save_session c [(''flow'', JStr ''add_master''), (''step'', JStr ''phone''), (''name'', JStr name), (''request_key'', request_key)])
             (give (AskMasterPhone name, [])))"

definition master_phone :: "workspace_call \<Rightarrow> state \<Rightarrow> string \<Rightarrow> workspace_reply working" where
  "master_phone c st value =
     (case normalize_phone value of
        None \<Rightarrow> give (MasterPhoneWanted, [])
      | Some phone \<Rightarrow>
          let name = str_strip (text_of (state_text ''name'' st))
          in if name = [] then next_to (drop_session c) (give (operator_menu c (Some MasterNameLost)))
             else act_bind (change_people (create_staff_actor (wc_org c) ''master'' name (Some phone) None None
                    (Some (text_of (state_text ''request_key'' st))) (wc_hex c) (wc_draws c) (wc_now c))) (\<lambda>created.
               next_to (drop_session c) (give (MasterCreated created,
                 [work_button ''To the masters'' ''operator_list_masters'' [] ''operator'' 0,
                  work_button ''Main menu'' ''operator_menu'' [] ''operator'' 1]))))"

text \<open>\<open>value.split(maxsplit=1)[0].split("@")[0].lower()\<close>, which raises for a blank text.\<close>

definition typed_command :: "string \<Rightarrow> string result" where
  "typed_command value = result_bind (first_word value) (\<lambda>w. Inr (str_lower (takeWhile (\<lambda>ch. ch \<noteq> CHR ''@'') w)))"

definition operator_text :: "workspace_call \<Rightarrow> string \<Rightarrow> workspace_reply working" where
  "operator_text c given =
     (let value = str_strip given
      in act_bind (act_lift (typed_command value)) (\<lambda>command.
        if command \<in> {''/start'', ''/menu''} then operator_start c
        else if command = ''/cancel'' then next_to (drop_session c) (give (operator_menu c (Some AddMasterCancelled)))
        else if command \<in> {''/active'', ''/orders''} then next_to (drop_session c) (operator_orders c)
        else if command \<in> {''/mastera'', ''/masters''} then next_to (drop_session c) (list_masters c None)
        else if command = ''/stats'' then next_to (drop_session c) (operator_statistics c)
        else act_bind (operator_session c) (\<lambda>session.
          case session of
            None \<Rightarrow> give (operator_menu c (Some ChooseAction))
          | Some st \<Rightarrow>
              if state_text ''flow'' st \<noteq> Some ''add_master''
              then next_to (drop_session c) (give (operator_menu c (Some UnfinishedDropped)))
              else if state_text ''step'' st = Some ''name'' then master_name c st value
              else if state_text ''step'' st = Some ''phone'' then master_phone c st value
              else next_to (drop_session c) (give (operator_menu c (Some UnfinishedDropped))))))"

definition operator_button :: "workspace_call \<Rightarrow> string \<Rightarrow> (string, json) dict \<Rightarrow> workspace_reply working" where
  "operator_button c act payload =
     (let oid = payload_text ''order_id'' payload; actor = payload_text ''actor_id'' payload
      in if act = ''operator_menu'' then next_to (drop_session c) (give (operator_menu c None))
         else if act = ''operator_cancel'' then next_to (drop_session c) (give (operator_menu c (Some AddMasterCancelled)))
         else if act = ''operator_list_orders'' then next_to (drop_session c) (operator_orders c)
         else if act = ''operator_open_order'' then next_to (drop_session c) (operator_open_order c oid)
         else if act = ''operator_list_masters'' then next_to (drop_session c) (list_masters c None)
         else if act = ''operator_add_master'' then add_master c
         else if act = ''operator_master_info'' then master_info c actor
         else if act = ''operator_call_master'' then call_master c actor oid
         else if act = ''operator_call_client'' then call_client c oid
         else if act = ''operator_delete_master'' then delete_master c actor
         else if act = ''operator_delete_master_confirm'' then delete_master_confirm c actor
         else if act = ''operator_stats'' then next_to (drop_session c) (operator_statistics c)
         else give (operator_menu c (Some UnknownAction)))"

section \<open>The master\<close>

definition master_start :: "workspace_call \<Rightarrow> workspace_reply" where
  "master_start c = (MasterWelcome (ai_display_name (wc_identity c)), [work_button ''My orders'' ''master_list_orders'' [] ''master'' 0])"

definition master_orders :: "workspace_call \<Rightarrow> workspace_reply working" where
  "master_orders c =
     act_bind (view_people (list_active_orders (wc_org c) ''master'' (wc_actor c) 20 (wc_orders c))) (\<lambda>orders.
       act_lift (orders_reply MasterOrders ''master_open_order'' ''master'' ''master_menu'' orders))"

definition master_order_buttons :: "string \<Rightarrow> string \<Rightarrow> reply_button list" where
  "master_order_buttons status oid =
     numbered_rows (
       (if status = ''assigned'' then [work_button ''Accept'' ''accept'' (order_payload oid) ''master'',
          work_button ''Decline'' ''reject'' (order_payload oid) ''master'']
        else if status = ''accepted'' then [work_button ''On the way'' ''start_travel'' (order_payload oid) ''master'',
          work_button ''Start on site'' ''start_work'' (order_payload oid) ''master'']
        else if status = ''en_route'' then [work_button ''Start work'' ''start_work'' (order_payload oid) ''master'']
        else if status = ''in_progress'' then [work_button ''Submit the report'' ''submit_report'' (order_payload oid) ''master'']
        else []) @
       [work_button ''To my orders'' ''master_list_orders'' [] ''master''])"

definition master_open_order :: "workspace_call \<Rightarrow> string \<Rightarrow> workspace_reply working" where
  "master_open_order c oid =
     act_bind (find_order c ''master'' oid) (\<lambda>found.
       case found of
         None \<Rightarrow> give (OrderNotYours, [work_button ''My orders'' ''master_list_orders'' [] ''master'' 0])
       | Some v \<Rightarrow>
           act_bind (act_lift (workspace_pack c)) (\<lambda>pack.
             give (OrderShown (master_order_card (wc_show c) v pack), master_order_buttons (ov_status v) oid)))"

definition master_text :: "workspace_call \<Rightarrow> string \<Rightarrow> workspace_reply working" where
  "master_text c given =
     act_bind (act_lift (typed_command (str_strip given))) (\<lambda>command.
       if command \<in> {''/active'', ''/orders''} then master_orders c else give (master_start c))"

definition master_button :: "workspace_call \<Rightarrow> string \<Rightarrow> (string, json) dict \<Rightarrow> workspace_reply working" where
  "master_button c act payload =
     (if act = ''master_list_orders'' then master_orders c
      else if act = ''master_open_order'' then master_open_order c (payload_text ''order_id'' payload)
      else give (master_start c))"

section \<open>What the staff sends\<close>

datatype staff_input =
    OperatorStarts | OperatorWrites string | OperatorPresses string "(string, json) dict"
  | MasterStarts | MasterWrites string | MasterPresses string "(string, json) dict"

fun workspace_handle :: "workspace_call \<Rightarrow> staff_input \<Rightarrow> workspace_reply working" where
  "workspace_handle c OperatorStarts = operator_start c"
| "workspace_handle c (OperatorWrites s) = operator_text c s"
| "workspace_handle c (OperatorPresses act payload) = operator_button c act payload"
| "workspace_handle c MasterStarts = give (master_start c)"
| "workspace_handle c (MasterWrites s) = master_text c s"
| "workspace_handle c (MasterPresses act payload) = master_button c act payload"

end
