(* ===== verification/Workspace_Laws.thy ===== *)
theory Workspace_Laws
  imports Workspaces Effects Callback_Commands
begin

text \<open>
  What the workspaces of the staff promise: the buttons of an opened order are commands that the order accepts,
  and nobody who is at work loses the role of a master.
\<close>


section \<open>A button of a fresh card is not refused\<close>

lemma change_not_refused:
  assumes "op_get_order async_ops org oid s = Inr w" "\<not> refused (f w)"
  shows "\<not> refused (fst (change_order async_ops org oid f s))"
proof
  assume "refused (fst (change_order async_ops org oid f s))"
  then obtain m s1 where c: "change_order async_ops org oid f s = (Inl (InvalidTransition m), s1)"
    unfolding refused_def by (metis prod.collapse)
  then have "s1 = s" by (rule async_uow.change_order_error)
  then have "f w = Inl (InvalidTransition m)" using change_order_was_refused[OF c] assms(1) by simp
  then show False using assms(2) by simp
qed

lemma tolerant_not_refused:
  assumes "op_get_order async_ops org oid s = Inr w" "\<not> refused (fst (cmd s))"
  shows "\<not> refused (fst (tolerant async_ops org oid cmd reply seen s))"
  using assms by (auto simp: tolerant_def refused_def split: prod.splits sum.splits py_error.splits)

lemma commit_not_refused: "op_commit async_ops u s = (Inl e, s') \<Longrightarrow> e \<noteq> InvalidTransition m"
  using async_uow.abort_law[of u s e s'] by auto

lemma travel_not_refused:
  assumes "op_get_order async_ops org oid s = Inr w" "wo_status w = ACCEPTED" "wo_assignee_id w = Some me"
  shows "\<not> refused (fst (travel_command async_ops execution uuid_of org oid me d s))"
proof -
  have w: "\<exists>w'. wo_start_travel me (dr_stamp d) w = Inr w'"
    using assms(2,3) by (simp add: wo_start_travel_def guard_simps raise_first_all_None)
  have x: "session_start sid o' oid' me' None None tokens st \<noteq> Inl (InvalidTransition m)" for sid o' oid' me' tokens st m
    by (simp add: session_start_def session_init_def check_def Let_def)
  have "\<not> refused (fst (start_travel async_ops org oid me sid fresh tokens (dr_stamp d) st' s))" for sid fresh tokens st'
    using w x commit_not_refused assms(1)
    by (cases tokens) (auto simp: start_travel_def act_bind_def act_read_def act_lift_def refused_def Let_def split: prod.splits sum.splits)
  then have "start_travel async_ops org oid me sid (dr_fresh d) (dr_tokens d) (dr_stamp d) (dr_session_stamp d) s \<noteq>
      (Inl (InvalidTransition m), s')" for sid m s'
    by (metis fst_conv refused_def)
  then show ?thesis
    by (auto simp: travel_command_def act_bind_def act_lift_def refused_def split: option.splits prod.splits sum.splits)
qed


lemma complete_not_refused:
  assumes "async_ok s" "op_get_order async_ops org oid s = Inr w" "wo_status w = IN_PROGRESS" "wo_assignee_id w = Some me"
  shows "\<not> refused (fst (complete_order async_ops org oid me report st st' s))"
proof -
  have w: "wo_complete me report st w \<noteq> Inl (InvalidTransition m)" for m
  proof -
    have "require_assignee me w = None" "require_status [IN_PROGRESS] w = None" using assms(3,4) by (simp_all add: guard_simps)
    then show ?thesis by (simp add: wo_complete_def validate_report_def check_def Let_def)
  qed
  have find: "op_find_active async_ops org oid s \<noteq> Inl (InvalidTransition m)" for m
    by (simp add: async_ops_def async_find_active_def Let_def)
  have x: "session_complete st' x \<noteq> Inl (InvalidTransition m)" if "op_find_active async_ops org oid s = Inr (Some x)" for x m
    using async_uow.find_active_law[OF assms(1) that] by (auto simp: session_complete_def active_session_of_def require_active_def check_def)
  show ?thesis
    using w find x commit_not_refused assms(2)
    by (auto simp: complete_order_def act_bind_def act_read_def act_lift_def refused_def Let_def split: prod.splits sum.splits option.splits)
qed

lemma report_not_refused:
  assumes "async_ok s" "op_get_order async_ops org oid s = Inr w" "wo_status w = IN_PROGRESS" "wo_assignee_id w = Some me"
  shows "\<not> refused (fst (submit_report async_ops org oid me d (s, drafts)))"
proof -
  have "\<not> refused (fst (tolerant async_ops org oid
      (complete_order async_ops org oid me (draft_get (org, oid, me) drafts) (dr_stamp d) (dr_session_stamp d))
      ReportAccepted (seen_if (\<lambda>w. wo_status w = COMPLETED) ReportAccepted) s))"
    by (rule tolerant_not_refused[OF assms(2)], rule complete_not_refused[OF assms])
  then show ?thesis by (auto simp: submit_report_def Let_def refused_def split: prod.splits sum.splits)
qed

lemma refused_on_store: "refused (fst (on_store f sd)) = refused (fst (f (fst sd)))"
  by (simp add: on_store_def split: prod.split)

text \<open>The stored order behind a row of the master's list.\<close>

lemma listed_order:
  assumes ok: "async_ok s" and found: "find (\<lambda>r. in_view org ''master'' me r \<and> or_id r = oid) (map (order_values \<circ> snd) (ms_orders s)) = Some r"
  shows "\<exists>w. op_get_order async_ops org oid s = Inr w \<and> wo_assignee_id w = Some me \<and> wo_id w = oid \<and>
    ds_orders (async_abs s) (org, oid) = Some w \<and> status_value (wo_status w) = or_status r"
proof -
  from find_SomeD[OF found] obtain k w where w: "(k, w) \<in> set (ms_orders s)" "r = order_values w"
    and r: "in_view org ''master'' me r" "or_id r = oid" by auto
  have "k = order_key w" using ok w(1) by (auto simp: async_ok_def list_all_iff)
  then have "k = (org, oid)" using r w(2) by (simp add: in_view_def order_values_def order_key_def)
  then have "dict_get (org, oid) (ms_orders s) = Some w" using dict_get_in[of "ms_orders s"] ok w(1) by (simp add: async_ok_def)
  then have "ds_orders (async_abs s) (org, oid) = Some w" by (simp add: async_abs_def)
  then show ?thesis
    using async_uow.read_order[OF ok, of org oid] r w(2) by (simp add: in_view_def order_values_def)
qed


lemma command_not_refused:
  assumes ok: "async_ok s" and w: "op_get_order async_ops (ai_organization_id i) oid s = Inr w" "wo_assignee_id w = Some (ai_actor_id i)"
    and role: "ai_role i = ''master''" and oid: "oid \<noteq> []"
    and b: "b \<in> set (master_order_buttons (status_value (wo_status w)) oid)" "rb_action b \<noteq> ''master_list_orders''"
  shows "\<not> refused (fst (order_command async_ops execution uuid_of mode i (rb_action b) (rb_payload b) dr (s, drafts)))"
proof -
  let ?org = "ai_organization_id i" and ?me = "ai_actor_id i"
  have me: "require_role i [''master''] = None" "check (oid \<noteq> []) e = None" for e
    using role oid by (simp_all add: require_role_def check_def)
  have change: "\<not> refused (fst (tolerant async_ops ?org oid (change_order async_ops ?org oid f) reply seen s))" if "\<not> refused (f w)" for f reply seen
    by (rule tolerant_not_refused[OF w(1)]) (rule change_not_refused[OF w(1), of f, OF that])
  consider "rb_action b = ''accept''" "wo_status w = ASSIGNED" | "rb_action b = ''reject''" "wo_status w = ASSIGNED"
    | "rb_action b = ''start_travel''" "wo_status w = ACCEPTED" | "rb_action b = ''start_work''" "wo_status w \<in> {ACCEPTED, EN_ROUTE}"
    | "rb_action b = ''submit_report''" "wo_status w = IN_PROGRESS"
    using b by (cases "wo_status w") (auto simp: master_order_buttons_def numbered_rows_def work_button_def)
  moreover have payload: "rb_payload b = order_payload oid"
    using b by (auto simp: master_order_buttons_def numbered_rows_def work_button_def split: if_splits)
  ultimately show ?thesis
  proof cases
    case 1
    then have "\<not> refused (wo_accept ?me (dr_stamp dr) w)" using w by (simp add: wo_accept_def guard_simps raise_first_all_None)
    then show ?thesis using change 1 payload
      by (simp add: order_command_def Let_def guarded_def me order_payload_def payload_text_def refused_on_store accept_order_def)
  next
    case 2
    then have "\<not> refused (reject_assignment ?me (dr_stamp dr) w)" using w by (simp add: reject_assignment_def guard_simps raise_first_all_None)
    then show ?thesis using change 2 payload
      by (simp add: order_command_def Let_def guarded_def me order_payload_def payload_text_def refused_on_store svc_reject_assignment_def)
  next
    case 3
    then show ?thesis using travel_not_refused[OF w(1) _ w(2)] payload
      by (simp add: order_command_def Let_def guarded_def me order_payload_def payload_text_def refused_on_store)
  next
    case 4
    then have "\<not> refused (wo_start_work ?me (dr_stamp dr) w)" using w by (auto simp: wo_start_work_def guard_simps raise_first_all_None)
    then show ?thesis using change 4 payload
      by (simp add: order_command_def Let_def guarded_def me order_payload_def payload_text_def refused_on_store svc_start_work_def)
  next
    case 5
    then show ?thesis using report_not_refused[OF ok w(1) _ w(2)] payload
      by (simp add: order_command_def Let_def guarded_def me order_payload_def payload_text_def)
  qed
qed

text \<open>
  (C37) What the workspace of a master offers is what the order allows: when a master opens an order, every
  button of the card that acts on the order is, if it is pressed before anything else happens, not refused as an
  invalid transition, whatever the history of the store. The button can still fail for other reasons, a
  report that lacks evidence or another active order of the master.
\<close>

theorem offered_commands_are_not_refused:
  assumes "s = run_calls (async_exec async_ops) cs empty_store" and "wc_orders c = map (order_values \<circ> snd) (ms_orders s)"
    and "ai_role (wc_identity c) = ''master''" and "master_open_order c oid d = (Inr (OrderShown shown, buttons), d')"
    and "b \<in> set buttons" and "rb_action b \<noteq> ''master_list_orders''"
  shows "fst (order_command async_ops execution uuid_of mode (wc_identity c) (rb_action b) (rb_payload b) dr (s, drafts)) \<noteq>
    Inl (InvalidTransition m)"
proof -
  have ok: "async_ok s" "dispatch_inv (async_abs s)" using async_reachable_store[of cs] assms(1) by simp_all
  obtain v where v: "get_active_order (wc_org c) ''master'' (wc_actor c) oid (wc_orders c) (wd_people d) = Inr (Some v)"
    "buttons = master_order_buttons (ov_status v) oid"
    using assms(4) unfolding master_open_order_def find_order_def view_people_def give_def
    by (auto simp: act_bind_def act_read_def act_lift_def split: sum.splits option.splits prod.splits)
  then obtain r where r: "find (\<lambda>r. in_view (wc_org c) ''master'' (wc_actor c) r \<and> or_id r = oid) (wc_orders c) = Some r"
    "v = view_of (wd_people d) r"
    by (auto simp: get_active_order_def)
  from listed_order[OF ok(1) r(1)[unfolded assms(2)]] obtain w where w: "op_get_order async_ops (wc_org c) oid s = Inr w"
    "wo_assignee_id w = Some (wc_actor c)" "wo_id w = oid" "ds_orders (async_abs s) (wc_org c, oid) = Some w"
    "status_value (wo_status w) = or_status r" by blast
  have "wo_reachable w" using ok(2) w(4) unfolding dispatch_inv_def aggregates_reachable_def by blast
  then have "oid \<noteq> []" using wo_reachable_inv w(3) by (auto simp: wo_inv_def inv_fields_def)
  then show ?thesis
    using command_not_refused[OF ok(1), of "wc_identity c" oid w b execution uuid_of mode dr drafts] w assms(3,5,6) v(2) r(2)
    by (auto simp: refused_def wc_org_def wc_actor_def view_of_def Let_def)
qed


section \<open>Masters who are at work\<close>

definition is_master :: "string \<Rightarrow> string \<Rightarrow> identity_db \<Rightarrow> bool" where
  "is_master org x p \<longleftrightarrow> (\<exists>m \<in> set (memberships p). is_membership org x ''master'' m \<and> r_active m) \<and>
     (\<exists>a \<in> set (actors p). is_actor org x a \<and> a_active a)"

text \<open>What the workspaces do to the people: the master role is taken from somebody without active orders, or a master is created.\<close>

inductive people_steps :: "workspace_call \<Rightarrow> identity_db \<Rightarrow> identity_db \<Rightarrow> bool" for c where
  none: "people_steps c p p"
| removed: "people_steps c p p1 \<Longrightarrow> \<not> master_has_active_orders (wc_org c) x (wc_orders c) \<Longrightarrow>
    revoke_role (wc_org c) x ''master'' now p1 = Inr (b, p2) \<Longrightarrow> people_steps c p p2"
| created: "people_steps c p p1 \<Longrightarrow> create_staff_actor (wc_org c) ''master'' name phone None None key hx draws now p1 = Inr (a, p2) \<Longrightarrow>
    people_steps c p p2"

lemma people_steps_trans: "people_steps c p1 p2 \<Longrightarrow> people_steps c p p1 \<Longrightarrow> people_steps c p p2"
  by (induction rule: people_steps.induct) (auto intro: people_steps.intros)

definition staff_moves :: "workspace_call \<Rightarrow> workspace_db \<Rightarrow> workspace_db \<Rightarrow> bool" where
  "staff_moves c d d' \<longleftrightarrow> people_steps c (wd_people d) (wd_people d') \<and>
     (\<forall>k. k \<noteq> operator_key c \<longrightarrow> session_get k (wd_sessions d') = session_get k (wd_sessions d))"

interpretation working: effects "\<lambda>_. True" "staff_moves c" for c
  by unfold_locales (auto simp: staff_moves_def intro: people_steps.none people_steps_trans)

abbreviation works :: "workspace_call \<Rightarrow> ('a \<Rightarrow> bool) \<Rightarrow> 'a working \<Rightarrow> bool" where
  "works c \<equiv> effects.does (\<lambda>_. True) (staff_moves c)"

lemma works_next: "works c (\<lambda>_. True) f \<Longrightarrow> works c (\<lambda>_. True) g \<Longrightarrow> works c (\<lambda>_. True) (next_to f g)"
  unfolding next_to_def by (rule working.does_bind) auto

lemma works_bind: "works c (\<lambda>_. True) f \<Longrightarrow> (\<And>x. works c (\<lambda>_. True) (g x)) \<Longrightarrow> works c (\<lambda>_. True) (act_bind f g)"
  by (rule working.does_bind) auto

lemma works_reads: "works c (\<lambda>_. True) (view_people f)" "works c (\<lambda>_. True) (operator_session c)" "works c (\<lambda>_. True) (give r)"
  unfolding view_people_def operator_session_def give_def by (auto intro: working.does_read working.does_return)

lemma works_sessions: "works c (\<lambda>_. True) (save_session c st)" "works c (\<lambda>_. True) (drop_session c)"
  unfolding working.does_def staff_moves_def save_session_def drop_session_def staff_put_def staff_clear_def
  by (auto simp: people_steps.none session_laws operator_key_def staff_role_check_def check_def)

lemma works_removal:
  assumes "\<not> master_has_active_orders (wc_org c) x (wc_orders c)"
  shows "works c (\<lambda>_. True) (change_people (revoke_role (wc_org c) x ''master'' now))"
  unfolding working.does_def staff_moves_def change_people_def
  using people_steps.removed[OF people_steps.none assms] by (auto simp: people_steps.none split: sum.splits prod.splits)

lemma works_creation:
  "works c (\<lambda>_. True) (change_people (create_staff_actor (wc_org c) ''master'' name phone None None key hx draws now))"
  unfolding working.does_def staff_moves_def change_people_def
  using people_steps.created[OF people_steps.none] by (auto simp: people_steps.none split: sum.splits prod.splits)

lemmas work_rules = works_next works_bind works_reads works_sessions works_creation working.does_split working.does_return

lemma works_masters: "works c (\<lambda>_. True) (list_masters c n)"
  unfolding list_masters_def by (intro work_rules)

lemma works_master_row: "(\<And>a. works c (\<lambda>_. True) (f a)) \<Longrightarrow> works c (\<lambda>_. True) (with_master_row c x f)"
  unfolding with_master_row_def by (intro work_rules works_masters)

lemma works_pages:
  "works c (\<lambda>_. True) (operator_orders c)" "works c (\<lambda>_. True) (operator_open_order c oid)" "works c (\<lambda>_. True) (operator_statistics c)"
  "works c (\<lambda>_. True) (call_client c oid)" "works c (\<lambda>_. True) (master_info c x)" "works c (\<lambda>_. True) (call_master c x oid)"
  "works c (\<lambda>_. True) (delete_master c x)" "works c (\<lambda>_. True) (operator_start c)" "works c (\<lambda>_. True) (add_master c)"
  "works c (\<lambda>_. True) (master_orders c)" "works c (\<lambda>_. True) (master_open_order c oid)"
  unfolding operator_orders_def operator_open_order_def operator_statistics_def call_client_def master_info_def call_master_def
    delete_master_def operator_start_def add_master_def master_orders_def master_open_order_def find_order_def Let_def
  by (intro work_rules works_master_row)+

lemma works_removing: "works c (\<lambda>_. True) (delete_master_confirm c x)"
  unfolding delete_master_confirm_def
  by (rule working.does_split(1)) (auto intro!: works_masters works_bind works_removal)

lemma works_dialog: "works c (\<lambda>_. True) (master_name c st value)" "works c (\<lambda>_. True) (master_phone c st value)"
  unfolding master_name_def master_phone_def Let_def by (intro work_rules)+

lemma works_texts: "works c (\<lambda>_. True) (operator_text c s)" "works c (\<lambda>_. True) (master_text c s)"
  unfolding operator_text_def master_text_def Let_def
  by (intro work_rules works_pages works_masters works_dialog)+

lemma works_buttons: "works c (\<lambda>_. True) (operator_button c act payload)" "works c (\<lambda>_. True) (master_button c act payload)"
  unfolding operator_button_def master_button_def Let_def
  by (intro work_rules works_pages works_masters works_removing)+

lemma works_input: "works c (\<lambda>_. True) (workspace_handle c i)"
  by (cases i) (auto intro: works_pages works_reads works_texts works_buttons)

lemma row_untouched: "r \<in> set t \<Longrightarrow> \<not> P r \<Longrightarrow> r \<in> set (update_rows P f t)"
  unfolding set_update_rows by force

lemma removed_keeps_master:
  assumes "revoke_role org y ''master'' now p = Inr (b, p')" "is_master org x p" "x \<noteq> y"
  shows "is_master org x p'"
proof -
  obtain m a where m: "m \<in> set (memberships p)" "is_membership org x ''master'' m" "r_active m"
    and a: "a \<in> set (actors p)" "is_actor org x a" "a_active a" using assms(2) by (auto simp: is_master_def)
  have other: "\<not> (is_membership org y ''master'' m \<and> r_active m)" "\<not> is_actor org y a" "\<not> (is_actor org y a \<and> a_role a = ''master'')"
    using m(2) a(2) assms(3) by (auto simp: is_membership_def is_actor_def)
  have "m \<in> set (memberships p') \<and> a \<in> set (actors p')"
    using assms(1) m(1) a(1) other
    by (auto simp: revoke_role_def revoke_memberships_def Let_def intro!: row_untouched split: if_splits list.splits)
  then show ?thesis using m a by (auto simp: is_master_def)
qed

lemma created_keeps_master:
  assumes "create_staff_actor org' role name phone None None key hx draws now p = Inr (a, p')" "is_master org x p"
  shows "is_master org x p'"
  using assms
  by (auto simp: create_staff_actor_def Let_def is_master_def add_staff_def commit_identity_Inr split: if_splits option.splits)

lemma steps_keep_master:
  "people_steps c p p' \<Longrightarrow> master_has_active_orders (wc_org c) x (wc_orders c) \<Longrightarrow> is_master (wc_org c) x p \<Longrightarrow> is_master (wc_org c) x p'"
proof (induction rule: people_steps.induct)
  case (removed p p1 y now b p2)
  then show ?case using removed_keeps_master[of "wc_org c" y now p1 b p2 x] by auto
next
  case (created p p1 name phone key hx draws now a p2)
  then show ?case using created_keeps_master by blast
qed simp

lemma steps_keep_others: "people_steps c p p' \<Longrightarrow> org \<noteq> wc_org c \<Longrightarrow> people_of org p' = people_of org p"
  by (induction rule: people_steps.induct) (auto simp: people_of_revoke people_of_staff)

text \<open>
  (C38) Whatever an operator or a master sends to the workspace, a master who has an active order keeps the role
  and stays active, the people of other organizations are as they were, and so is every conversation but that
  of the operator who wrote. (The check of the active orders and the removal are two transactions; an order
  that is assigned between them is not seen.)
\<close>

theorem masters_at_work_keep_their_role:
  assumes "workspace_handle c i d = (r, d')"
  shows "(\<forall>x. master_has_active_orders (wc_org c) x (wc_orders c) \<longrightarrow> is_master (wc_org c) x (wd_people d) \<longrightarrow>
      is_master (wc_org c) x (wd_people d')) \<and>
    (\<forall>org. org \<noteq> wc_org c \<longrightarrow> people_of org (wd_people d') = people_of org (wd_people d)) \<and>
    (\<forall>k. k \<noteq> operator_key c \<longrightarrow> session_get k (wd_sessions d') = session_get k (wd_sessions d))"
proof -
  have "staff_moves c d d'" using works_input[of c i] assms unfolding working.does_def by (auto split: prod.splits)
  then show ?thesis using steps_keep_master steps_keep_others unfolding staff_moves_def by blast
qed

text \<open>A blank message raises \<open>IndexError\<close>, which is no domain error, so the update is tried again until it is dead.\<close>

lemma blank_text_raises:
  assumes "str_strip given = []"
  shows "workspace_handle c (OperatorWrites given) d = (Inl IndexError, d)" "workspace_handle c (MasterWrites given) d = (Inl IndexError, d)"
    "\<not> is_domain_error IndexError"
  using assms by (simp_all add: operator_text_def master_text_def typed_command_def first_word_def act_bind_def act_lift_def)

section \<open>A day at the workspace\<close>

definition demo_people :: identity_db where
  "demo_people = \<lparr>actors = [\<lparr>a_org = ''acme'', a_id = ''m1'', a_role = ''master'', a_name = ''Max'', a_phone = None,
       a_bind_code = None, a_bind_expires = None, a_active = True, a_creation_key = None\<rparr>],
     memberships = [\<lparr>r_org = ''acme'', r_actor = ''m1'', r_role = ''master'', r_active = True, r_granted = 1, r_revoked = None\<rparr>],
     externals = []\<rparr>"

definition demo_workspace :: "string \<Rightarrow> string \<Rightarrow> order_row list \<Rightarrow> workspace_call" where
  "demo_workspace actor role orders = \<lparr>wc_identity = \<lparr>ai_organization_id = ''acme'', ai_actor_id = actor, ai_role = role,
       ai_display_name = ''X'', ai_provider = ''max'', ai_external_user_id = ''5'', ai_roles = [role]\<rparr>,
     wc_event = None, wc_now = 9, wc_today = 0, wc_orders = orders, wc_packs = None, wc_labels = demo_labels,
     wc_token = ''t'', wc_hex = ''h'', wc_draws = [], wc_show = (\<lambda>_. [])\<rparr>"

definition demo_desk :: workspace_db where
  "demo_desk = \<lparr>wd_people = demo_people, wd_sessions = []\<rparr>"


theorem masters_at_work_keep_their_role_witness:
  "is_master ''acme'' ''m1'' (wd_people (snd (workspace_handle
     (demo_workspace ''op'' ''operator'' [(order_values demo_order)\<lparr>or_status := ''accepted'', or_assignee_id := Some ''m1''\<rparr>])
     (OperatorPresses ''operator_delete_master_confirm'' [(''actor_id'', JStr ''m1'')]) demo_desk)))"
proof -
  let ?c = "demo_workspace ''op'' ''operator'' [(order_values demo_order)\<lparr>or_status := ''accepted'', or_assignee_id := Some ''m1''\<rparr>]"
  have org: "wc_org ?c = ''acme''" by (simp add: wc_org_def demo_workspace_def)
  have "master_has_active_orders ''acme'' ''m1'' (wc_orders ?c)"
    by (simp add: master_has_active_orders_def demo_workspace_def order_values_def demo_order_def wo_record_def active_statuses_def)
  moreover have "is_master ''acme'' ''m1'' (wd_people demo_desk)"
    by (simp add: is_master_def demo_desk_def demo_people_def is_membership_def is_actor_def)
  ultimately show ?thesis
    using masters_at_work_keep_their_role[of ?c "OperatorPresses ''operator_delete_master_confirm'' [(''actor_id'', JStr ''m1'')]"
        demo_desk _ "snd (workspace_handle ?c (OperatorPresses ''operator_delete_master_confirm'' [(''actor_id'', JStr ''m1'')]) demo_desk)"]
    unfolding org by (metis prod.collapse)
qed

definition demo_history :: "svc_call list" where
  "demo_history = [CreateCall (Some ''o1'') [] demo_submission demo_stamp,
     OrderCall ''acme'' ''o1'' (Assign ''m1'' None) \<lparr>env_session_id = None, env_fresh_id = ''s1'', env_tokens = (''t'', ''u''),
       env_stamp = demo_stamp, env_session_stamp = demo_stamp\<rparr>]"

lemma demo_assigned:
  "\<exists>w. ms_orders (run_calls (async_exec async_ops) demo_history empty_store) = [((''acme'', ''o1''), w)] \<and>
     wo_organization_id w = ''acme'' \<and> wo_id w = ''o1'' \<and> wo_status w = ASSIGNED \<and> wo_assignee_id w = Some ''m1''"
  by (simp add: demo_history_def demo_store_eval assign_order_def change_order_def async_get_order_def demo_eval)


theorem offered_commands_are_not_refused_witness:
  "\<exists>orders shown buttons d' b. master_open_order (demo_workspace ''m1'' ''master'' orders) ''o1'' demo_desk = (Inr (OrderShown shown, buttons), d') \<and>
     b \<in> set buttons \<and> rb_action b = ''accept'' \<and>
     fst (order_command async_ops async_execution id None (wc_identity (demo_workspace ''m1'' ''master'' orders)) ''accept'' (rb_payload b)
       demo_draw (run_calls (async_exec async_ops) demo_history empty_store, [])) \<noteq> Inl (InvalidTransition ''status'')"
proof -
  let ?s = "run_calls (async_exec async_ops) demo_history empty_store"
  let ?c = "demo_workspace ''m1'' ''master'' (map (order_values \<circ> snd) (ms_orders ?s))"
  obtain w where w: "ms_orders ?s = [((''acme'', ''o1''), w)]" "wo_organization_id w = ''acme''" "wo_id w = ''o1''"
    "wo_status w = ASSIGNED" "wo_assignee_id w = Some ''m1''" using demo_assigned by blast
  have opened: "\<exists>shown buttons d' b. master_open_order ?c ''o1'' demo_desk = (Inr (OrderShown shown, buttons), d') \<and>
      b \<in> set buttons \<and> rb_action b = ''accept''"
    using w(2-5) unfolding w(1)
    by (simp add: master_open_order_def find_order_def view_people_def give_def act_bind_def act_read_def act_lift_def
        demo_workspace_def wc_org_def wc_actor_def get_active_order_def view_role_check_def check_def in_view_def
        order_values_def active_statuses_def workspace_pack_def view_of_def Let_def master_order_buttons_def numbered_rows_def work_button_def)
      (rule exI, rule conjI, rule disjI1, rule refl, simp)
  then obtain shown buttons d' b where b: "master_open_order ?c ''o1'' demo_desk = (Inr (OrderShown shown, buttons), d')"
    "b \<in> set buttons" "rb_action b = ''accept''" by blast
  have "fst (order_command async_ops async_execution id None (wc_identity ?c) (rb_action b) (rb_payload b) demo_draw (?s, [])) \<noteq>
      Inl (InvalidTransition ''status'')"
    by (rule offered_commands_are_not_refused[OF refl _ _ b(1,2)]) (simp_all add: demo_workspace_def b(3))
  with b show ?thesis by metis
qed

end
