(* ===== verification/Postgres_Laws.thy ===== *)
theory Postgres_Laws
  imports Postgres_Store Service_Properties "HOL-Library.Multiset"
begin

text \<open>
  The PostgreSQL store against the asynchronous in-memory store: when the tables represent the
  dictionaries, every read gives the same answer and every unit of work has the same outcome.
\<close>

section \<open>What is read back\<close>

text \<open>An order comes back with its responses in the order of their instants, a session with its last point only.\<close>

definition order_read :: "work_order \<Rightarrow> work_order" where
  "order_read w = w\<lparr>wo_pool_responses := sort_key (\<lambda>(k, r). (pr_responded_at r, k)) (wo_pool_responses w)\<rparr>"

definition session_view :: "tracking_session \<Rightarrow> tracking_session" where
  "session_view x = x\<lparr>ts_points := (if ts_points x = [] then [] else [last (ts_points x)]),
     ts_persisted_point_count := ts_point_count x\<rparr>"

definition response_rows :: "work_order \<Rightarrow> response_row list" where
  "response_rows w = map (\<lambda>(k, r). \<lparr>rr_organization_id = wo_organization_id w, rr_work_order_id = wo_id w,
     rr_executor_id = pr_executor_id r, rr_status = response_status_value (pr_status r),
     rr_responded_at = pr_responded_at r\<rparr>) (wo_pool_responses w)"

definition storable :: "work_order \<Rightarrow> bool" where
  "storable w \<longleftrightarrow> wo_inv w \<and> 0 \<le> minimum_photos (wo_evidence w)"

lemma status_roundtrip [simp]: "status_of (status_value x) = Inr x"
  by (cases x) (simp_all add: status_of_def)

lemma response_status_roundtrip [simp]: "response_status_of (response_status_value y) = Inr y"
  by (cases y) (simp_all add: response_status_of_def)

lemma source_roundtrip [simp]: "source_of (location_source_value z) = Inr z"
  by (cases z) (simp_all add: source_of_def)

lemma tracking_status_roundtrip [simp]: "tracking_status_of (tracking_status_value t) = Inr t"
  by (cases t) (simp_all add: tracking_status_of_def)

lemma evidence_row_roundtrip: "0 \<le> minimum_photos e \<Longrightarrow> evidence_from_row (evidence_to_json e) = Inr e"
  by (simp add: evidence_from_row_def evidence_to_json_def get_default_def make_evidence_def)

lemma optional_text_roundtrip: "dict_get k d = Some (opt_str x) \<Longrightarrow> optional_text k d = Inr x"
  by (cases x) (simp_all add: optional_text_def get_default_def)

lemma report_roundtrip: "report_from_json (report_to_json r) = Inr r"
proof -
  have "map_result as_str (map JStr (photo_refs r)) = Inr (photo_refs r)"
    by (rule map_result_all) (simp add: list_all_iff)
  then show ?thesis
    by (simp add: report_from_json_def report_to_json_def get_default_def optional_text_roundtrip)
qed

lemma sort_key_map: "sort_key f (map g xs) = map g (sort_key (f \<circ> g) xs)"
proof -
  have ins: "insort_key f (g x) (map g ys) = map g (insort_key (f \<circ> g) x ys)" for x ys by (induction ys) auto
  show ?thesis by (induction xs) (simp_all add: ins[unfolded comp_def] comp_def)
qed

lemma sort_key_agree: "(\<And>x. x \<in> set xs \<Longrightarrow> f x = g x) \<Longrightarrow> sort_key f xs = sort_key g xs"
proof -
  have ins: "f a = g a \<Longrightarrow> (\<And>y. y \<in> set ys \<Longrightarrow> f y = g y) \<Longrightarrow> insort_key f a ys = insort_key g a ys" for a ys
    by (induction ys) auto
  show "(\<And>x. x \<in> set xs \<Longrightarrow> f x = g x) \<Longrightarrow> sort_key f xs = sort_key g xs"
  proof (induction xs)
    case (Cons a xs)
    then have "sort_key f xs = sort_key g xs" by simp
    with Cons.prems ins[of a "sort_key g xs"] show ?case by simp
  qed simp
qed

lemma sort_key_cong_mset:
  assumes "mset xs = mset ys" and "inj_on f (set xs)"
  shows "sort_key f xs = sort_key f ys"
proof (rule properties_for_sort_key)
  show "mset (sort_key f ys) = mset xs" using assms(1) by simp
  fix k assume k: "k \<in> set (sort_key f ys)"
  have "filter (\<lambda>x. f k = f x) zs = filter (\<lambda>x. k = x) zs" if "set zs = set xs" for zs
    using k assms(1,2) that by (intro filter_cong) (auto simp: inj_on_def dest: mset_eq_setD)
  moreover have "filter (\<lambda>x. k = x) zs = replicate (count (mset zs) k) k" for zs
    by (induction zs) auto
  ultimately show "filter (\<lambda>x. f k = f x) (sort_key f ys) = filter (\<lambda>x. f k = f x) xs"
    using assms(1) by (metis mset_eq_setD mset_sort set_sort)
qed simp

lemma fold_put_distinct: "distinct (map fst ps) \<Longrightarrow> fst ` set ps \<inter> fst ` set d = {} \<Longrightarrow>
    fold (\<lambda>(k, x). dict_put k x) ps d = d @ ps"
proof (induction ps arbitrary: d)
  case (Cons p ps)
  have "dict_put k x d = d @ [(k, x)]" if "k \<notin> fst ` set d" for k x using that by (induction d) auto
  with Cons show ?case by (cases p) auto
qed simp

lemma order_reads_back:
  assumes "storable w" and "wo_events w = []" and "mset rs = mset (response_rows w)"
  shows "order_from_rows (order_values w) (sort_key (\<lambda>x. (rr_responded_at x, rr_executor_id x)) rs) = Inr (order_read w)"
proof -
  let ?row = "\<lambda>(k, r). \<lparr>rr_organization_id = wo_organization_id w, rr_work_order_id = wo_id w,
     rr_executor_id = pr_executor_id r, rr_status = response_status_value (pr_status r), rr_responded_at = pr_responded_at r\<rparr>"
  let ?rs = "wo_pool_responses w" and ?key = "\<lambda>x. (rr_responded_at x, rr_executor_id x)"
  have inv: "dict_ok ?rs" "\<And>k r. (k, r) \<in> set ?rs \<Longrightarrow> pr_executor_id r = k"
    using assms(1) by (auto simp: storable_def wo_inv_def inv_responses_def list_all_iff)
  have inj: "inj_on ?key (set (response_rows w))"
    using inv by (auto simp: inj_on_def response_rows_def dict_ok_def dest: eq_key_imp_eq_value)
  have keyeq: "sort_key (?key \<circ> ?row) ?rs = sort_key (\<lambda>(k, r). (pr_responded_at r, k)) ?rs"
    by (rule sort_key_agree) (use inv(2) in auto)
  have "sort_key ?key rs = sort_key ?key (response_rows w)"
    using sort_key_cong_mset[OF assms(3)[symmetric] inj] by simp
  also have "\<dots> = map ?row (sort_key (\<lambda>(k, r). (pr_responded_at r, k)) ?rs)"
    by (simp only: response_rows_def sort_key_map keyeq)
  finally have rows: "sort_key ?key rs = map ?row (wo_pool_responses (order_read w))" by (simp add: order_read_def)
  have "map_result response_from_row (map ?row (wo_pool_responses (order_read w))) = Inr (wo_pool_responses (order_read w))"
    by (rule map_result_all) (use inv(2) in \<open>auto simp: list_all_iff response_from_row_def order_read_def\<close>)
  moreover have "fold (\<lambda>(k, x). dict_put k x) (wo_pool_responses (order_read w)) [] = wo_pool_responses (order_read w)"
  proof -
    have "mset (map fst (wo_pool_responses (order_read w))) = mset (map fst ?rs)" by (simp add: order_read_def)
    then have "distinct (map fst (wo_pool_responses (order_read w)))"
      using inv(1) unfolding dict_ok_def by (metis mset_eq_imp_distinct_iff)
    then show ?thesis by (simp add: fold_put_distinct)
  qed
  moreover have "option_result report_from_json (map_option report_to_json (wo_report w)) = Inr (wo_report w)"
    by (cases "wo_report w") (simp_all add: option_result_def report_roundtrip)
  moreover have "pool_mode_value m \<noteq> []" for m by (cases m) simp_all
  ultimately show ?thesis
    using assms(1,2) unfolding rows
    by (cases "wo_pool_mode w") (simp_all add: order_from_rows_def order_values_def evidence_row_roundtrip storable_def
      work_order_init_def wo_inv_def inv_fields_def order_read_def)
qed

section \<open>The tables of an in-memory store\<close>

abbreviation points_of :: "tracking_session \<Rightarrow> point_row list" where
  "points_of x \<equiv> map (point_values x) (numbered 1 (ts_points x))"

definition orders_represented :: "pg_db \<Rightarrow> async_store \<Rightarrow> bool" where
  "orders_represented d s \<longleftrightarrow> pg_orders d = map (order_values \<circ> snd) (ms_orders s) \<and> order_indexes (pg_orders d) \<and>
     unique_on (\<lambda>_. True) (\<lambda>r. (rr_organization_id r, rr_work_order_id r, rr_executor_id r)) (pg_responses d) \<and>
     (\<forall>k w. dict_get k (ms_orders s) = Some w \<longrightarrow> storable w \<and>
        mset (filter (response_row_is (fst k) (snd k)) (pg_responses d)) = mset (response_rows w))"

definition sessions_represented :: "pg_db \<Rightarrow> async_store \<Rightarrow> bool" where
  "sessions_represented d s \<longleftrightarrow> pg_sessions d = map (tracking_values \<circ> snd) (ms_sessions s) \<and>
     tracking_indexes (pg_sessions d) \<and> point_indexes (pg_points d) \<and>
     (\<forall>k x. dict_get k (ms_sessions s) = Some x \<longrightarrow> ts_inv x \<and> 1 \<le> ts_version x \<and>
        filter (point_row_is (fst k) (snd k)) (pg_points d) = points_of x) \<and>
     (\<forall>p \<in> set (pg_points d). dict_get (pt_organization_id p, pt_session_id p) (ms_sessions s) \<noteq> None)"

definition represents :: "pg_db \<Rightarrow> async_store \<Rightarrow> bool" where
  "represents d s \<longleftrightarrow> async_ok s \<and> orders_represented d s \<and> sessions_represented d s \<and> pg_outbox d = ms_outbox s"

lemma find_values:
  assumes "\<And>e. e \<in> set t \<Longrightarrow> P (f (snd e)) \<longleftrightarrow> fst e = k"
  shows "find P (map (f \<circ> snd) t) = map_option f (dict_get k t)"
  using assms by (induction t) auto

lemma numbered_append: "numbered n (xs @ ys) = numbered n xs @ numbered (n + int (length xs)) ys"
  by (induction xs arbitrary: n) (auto simp: algebra_simps)

lemma numbered_bounds: "(i, x) \<in> set (numbered n xs) \<Longrightarrow> n \<le> i \<and> i < n + int (length xs) \<and> x \<in> set xs"
  by (induction xs arbitrary: n) force+

lemma map_snd_numbered [simp]: "map snd (numbered n xs) = xs"
  by (induction xs arbitrary: n) auto

lemma latest_of_numbered:
  "sort_key (\<lambda>p. - pt_sequence_no p) (points_of x) = rev (points_of x)"
proof (rule sort_key_inj_key_eq)
  show "inj_on (\<lambda>p. - pt_sequence_no p) (set (points_of x))"
  proof -
    have "distinct (map fst (numbered n ps))" for n and ps :: "tracking_point list"
      by (induction ps arbitrary: n) (auto dest: numbered_bounds)
    then have "inj_on fst (set (numbered 1 (ts_points x)))" by (simp add: distinct_map)
    then show ?thesis by (auto simp: inj_on_def point_values_def)
  qed
  have "sorted (map (\<lambda>p. - pt_sequence_no p) (rev (map (point_values x) (numbered n ps))))" for n ps
    by (induction ps arbitrary: n) (auto simp: sorted_append point_values_def dest: numbered_bounds)
  then show "sorted (map (\<lambda>p. - pt_sequence_no p) (rev (points_of x)))" .
qed simp

lemma session_row_is [simp]: "tracking_row_is org sid (tracking_values x) \<longleftrightarrow> session_key x = (org, sid)"
  by (auto simp: tracking_row_is_def tracking_values_def session_key_def)

lemma order_row_is [simp]: "order_row_is org oid (order_values w) \<longleftrightarrow> order_key w = (org, oid)"
  by (auto simp: order_row_is_def order_values_def order_key_def)

lemma represented_order:
  assumes "represents d s" and "dict_get (org, oid) (ms_orders s) = Some w"
  shows "storable w \<and> mset (filter (response_row_is org oid) (pg_responses d)) = mset (response_rows w) \<and>
    order_key w = (org, oid) \<and> wo_events w = []"
proof -
  have "async_ok s" using assms(1) by (simp add: represents_def)
  note e = async_ok_entry(1)[OF this assms(2)]
  have "storable w \<and> mset (filter (response_row_is (fst (org, oid)) (snd (org, oid))) (pg_responses d)) = mset (response_rows w)"
    using assms unfolding represents_def orders_represented_def by blast
  then show ?thesis using e[THEN conjunct1, symmetric] e[THEN conjunct2] unfolding fst_conv snd_conv by blast
qed

lemma represented_session:
  assumes "represents d s" and "dict_get (org, sid) (ms_sessions s) = Some x"
  shows "ts_inv x \<and> 1 \<le> ts_version x \<and> filter (point_row_is org sid) (pg_points d) = points_of x \<and>
    session_key x = (org, sid) \<and> ts_events x = []"
proof -
  have "async_ok s" using assms(1) by (simp add: represents_def)
  note e = async_ok_entry(2)[OF this assms(2)]
  have "ts_inv x \<and> 1 \<le> ts_version x \<and> filter (point_row_is (fst (org, sid)) (snd (org, sid))) (pg_points d) = points_of x"
    using assms unfolding represents_def sessions_represented_def by blast
  then show ?thesis using e[THEN conjunct1, symmetric] e[THEN conjunct2] unfolding fst_conv snd_conv by blast
qed

lemma get_order_agrees:
  assumes "represents d s"
  shows "pg_get_order org oid d = result_bind (async_get_order org oid s) (\<lambda>w. Inr (order_read w))"
proof -
  have "find (order_row_is org oid) (pg_orders d) = map_option order_values (dict_get (org, oid) (ms_orders s))"
    using assms unfolding represents_def orders_represented_def async_ok_def
    by (simp add: find_values list_all_iff case_prod_beta')
  moreover have "order_from_rows (order_values w) (sort_key (\<lambda>x. (rr_responded_at x, rr_executor_id x))
      (filter (response_row_is org oid) (pg_responses d))) = Inr (order_read w)"
    if "dict_get (org, oid) (ms_orders s) = Some w" for w
    using represented_order[OF assms that] by (intro order_reads_back) auto
  ultimately show ?thesis by (auto simp: pg_get_order_def async_get_order_def split: option.splits)
qed

lemma point_reads_back:
  "valid_point p \<Longrightarrow> point_from_row (point_values x (n, p)) = Inr p"
  by (cases p) (simp add: point_from_row_def point_values_def make_point_def valid_point_def raise_first_all_None)

lemma tokens_usable:
  "inv_tokens x \<Longrightarrow> option_token_ok (ts_public_token x) \<and> option_token_ok (ts_location_token x) \<and>
    \<not> (ts_public_token x \<noteq> None \<and> ts_public_token x = ts_location_token x)"
  by (auto simp: inv_tokens_def option_token_ok_def split: if_splits)

lemma get_session_agrees:
  assumes "represents d s"
  shows "pg_get_session org sid d = result_bind (async_get_session org sid s) (\<lambda>x. Inr (session_view x))"
proof -
  have "find (tracking_row_is org sid) (pg_sessions d) = map_option tracking_values (dict_get (org, sid) (ms_sessions s))"
    using assms unfolding represents_def sessions_represented_def async_ok_def
    by (simp add: find_values list_all_iff case_prod_beta')
  moreover have "tracking_from_row (tracking_values x) (latest_row org sid d) = Inr (session_view x)"
    if "dict_get (org, sid) (ms_sessions s) = Some x" for x
  proof -
    have x: "ts_inv x" "filter (point_row_is org sid) (pg_points d) = points_of x" "ts_events x = []"
      using represented_session[OF assms that] by auto
    have latest: "option_result point_from_row (latest_row org sid d) =
        Inr (if ts_points x = [] then None else Some (last (ts_points x)))"
    proof (cases "ts_points x" rule: rev_cases)
      case (snoc ps p)
      have "valid_point p" using x(1) snoc by (simp add: ts_inv_def inv_points_def)
      then show ?thesis unfolding latest_row_def x(2) latest_of_numbered
        by (simp add: snoc numbered_append option_result_def point_reads_back)
    qed (simp add: latest_row_def x(2) option_result_def)
    have tok: "option_token_ok (ts_public_token x) \<and> option_token_ok (ts_location_token x) \<and>
        \<not> (ts_public_token x \<noteq> None \<and> ts_public_token x = ts_location_token x)"
      using x(1) by (intro tokens_usable) (simp add: ts_inv_def)
    have len: "ts_point_count x = int (length (ts_points x))" using x(1) by (simp add: ts_inv_def inv_count_def)
    show ?thesis
      using x(3) tok len unfolding tracking_from_row_def latest
      by (cases "ts_points x") (auto simp: tracking_values_def session_view_def session_init_def)
  qed
  ultimately show ?thesis by (auto simp: pg_get_session_def async_get_session_def split: option.splits)
qed

lemma points_of_iff:
  assumes "represents d s"
  shows "p \<in> set (pg_points d) \<longleftrightarrow>
    (\<exists>x. dict_get (pt_organization_id p, pt_session_id p) (ms_sessions s) = Some x \<and> p \<in> set (points_of x))"
proof
  assume p: "p \<in> set (pg_points d)"
  then obtain x where x: "dict_get (pt_organization_id p, pt_session_id p) (ms_sessions s) = Some x"
    using assms unfolding represents_def sessions_represented_def by blast
  have "p \<in> set (filter (point_row_is (pt_organization_id p) (pt_session_id p)) (pg_points d))"
    using p by (simp add: point_row_is_def)
  with represented_session[OF assms x] x
  show "\<exists>x. dict_get (pt_organization_id p, pt_session_id p) (ms_sessions s) = Some x \<and> p \<in> set (points_of x)" by metis
next
  assume "\<exists>x. dict_get (pt_organization_id p, pt_session_id p) (ms_sessions s) = Some x \<and> p \<in> set (points_of x)"
  then obtain x where x: "dict_get (pt_organization_id p, pt_session_id p) (ms_sessions s) = Some x" "p \<in> set (points_of x)"
    by blast
  from represented_session[OF assms x(1)] x(2)
  have "p \<in> set (filter (point_row_is (pt_organization_id p) (pt_session_id p)) (pg_points d))" by metis
  then show "p \<in> set (pg_points d)" by simp
qed

lemma source_event_agrees:
  assumes "represents d s"
  shows "pg_has_source_event org source ev d = async_has_source_event org source ev s"
proof
  assume "pg_has_source_event org source ev d"
  then obtain p where p: "p \<in> set (pg_points d)" "pt_organization_id p = org" "pt_source p = source"
    "pt_source_event_id p = Some ev" by (auto simp: pg_has_source_event_def list_ex_iff)
  then obtain x where x: "dict_get (org, pt_session_id p) (ms_sessions s) = Some x" "p \<in> set (points_of x)"
    using points_of_iff[OF assms, of p] by auto
  then obtain n q where "(n, q) \<in> set (numbered 1 (ts_points x))" "p = point_values x (n, q)" by auto
  moreover from this have "q \<in> set (ts_points x)" by (auto dest: numbered_bounds)
  moreover have "x \<in> snd ` set (ms_sessions s)" using dict_get_mem[OF x(1)] by (auto intro: rev_image_eqI)
  moreover have "ts_organization_id x = org" using represented_session[OF assms x(1)] by (simp add: session_key_def)
  ultimately show "async_has_source_event org source ev s"
    using p(3,4) by (force simp: async_has_source_event_def list_ex_iff point_values_def)
next
  assume "async_has_source_event org source ev s"
  then obtain k x q where x: "(k, x) \<in> set (ms_sessions s)" "ts_organization_id x = org" "q \<in> set (ts_points x)"
    "location_source_value (tp_source q) = source" "tp_source_event_id q = Some ev"
    by (auto simp: async_has_source_event_def list_ex_iff)
  have ok: "async_ok s" using assms by (simp add: represents_def)
  have "dict_get k (ms_sessions s) = Some x" using ok x(1) by (auto simp: async_ok_def dict_get_in)
  moreover from async_ok_entry(2)[OF ok this] have "k = (org, ts_id x)" using x(2) by (simp add: session_key_def)
  ultimately have g: "dict_get (org, ts_id x) (ms_sessions s) = Some x" by simp
  obtain n where "(n, q) \<in> set (numbered 1 (ts_points x))"
    using x(3) map_snd_numbered[of 1 "ts_points x"] by (metis (no_types, lifting) imageE list.set_map prod.collapse)
  then have "point_values x (n, q) \<in> set (points_of x)" by simp
  moreover have "pt_organization_id (point_values x (n, q)) = org" "pt_session_id (point_values x (n, q)) = ts_id x"
    using x(2) by (simp_all add: point_values_def)
  ultimately have "point_values x (n, q) \<in> set (pg_points d)"
    using g points_of_iff[OF assms, of "point_values x (n, q)"] by metis
  then show "pg_has_source_event org source ev d"
    using x(2,4,5) unfolding pg_has_source_event_def list_ex_iff by (intro bexI) (auto simp: point_values_def)
qed

lemma active_value: "tracking_status_value u = ''active'' \<longleftrightarrow> u = TrackActive"
  by (cases u) simp_all

lemma distinct_same_key: "distinct (map f xs) \<Longrightarrow> (\<And>x. x \<in> set xs \<Longrightarrow> f x = c) \<Longrightarrow> length xs \<le> 1"
  by (cases xs rule: remdups_adj.cases) auto

lemma find_by_filter: "find P t = (case filter P t of [] \<Rightarrow> None | x # _ \<Rightarrow> Some x)"
  by (induction t) auto

lemma find_active_agrees:
  assumes "represents d s"
  shows "pg_find_active org oid d = result_bind (async_find_active org oid s) (\<lambda>x. Inr (map_option session_view x))"
proof -
  let ?P = "\<lambda>r. tr_organization_id r = org \<and> tr_work_order_id r = oid \<and> tr_status r = ''active''"
  let ?Q = "\<lambda>((o', _), x). o' = org \<and> ts_work_order_id x = oid \<and> ts_status x = TrackActive"
  have ok: "async_ok s" and rows: "pg_sessions d = map (tracking_values \<circ> snd) (ms_sessions s)"
    and ix: "unique_on (\<lambda>r. tr_status r = ''active'') (\<lambda>r. (tr_organization_id r, tr_work_order_id r)) (pg_sessions d)"
    using assms by (auto simp: represents_def sessions_represented_def tracking_indexes_def)
  have P: "?P (tracking_values (snd e)) \<longleftrightarrow> ?Q e" if "e \<in> set (ms_sessions s)" for e
  proof -
    have "fst (fst e) = ts_organization_id (snd e)"
      using ok that by (auto simp: async_ok_def list_all_iff session_key_def)
    then show ?thesis by (simp add: tracking_values_def active_value case_prod_beta')
  qed
  have fl: "filter ?P (pg_sessions d) = map (tracking_values \<circ> snd) (filter ?Q (ms_sessions s))"
    unfolding rows filter_map comp_def by (intro arg_cong[where f = "map _"] filter_cong refl) (use P in auto)
  have "distinct (map (\<lambda>r. (tr_organization_id r, tr_work_order_id r)) (filter ?P (pg_sessions d)))"
  proof -
    have "filter ?P (pg_sessions d) = filter ?P (filter (\<lambda>r. tr_status r = ''active'') (pg_sessions d))"
      unfolding filter_filter by (rule filter_cong) auto
    then show ?thesis using distinct_map_filter[OF ix[unfolded unique_on_def], of ?P] by (rule ssubst)
  qed
  then have "length (filter ?P (pg_sessions d)) \<le> 1" by (rule distinct_same_key[where c = "(org, oid)"]) auto
  then have one: "length (filter ?Q (ms_sessions s)) \<le> 1" unfolding fl by simp
  show ?thesis
  proof (cases "filter ?Q (ms_sessions s)")
    case Nil
    have "find ?P (pg_sessions d) = None" unfolding find_by_filter fl Nil by simp
    moreover have "async_find_active org oid s = Inr None" unfolding async_find_active_def Nil by simp
    ultimately show ?thesis unfolding pg_find_active_def by simp
  next
    case (Cons e es)
    with one have es: "es = []" by simp
    obtain o' sid x where e: "e = ((o', sid), x)" by (cases e) auto
    have "e \<in> set (filter ?Q (ms_sessions s))" using Cons by simp
    then have in_s: "((org, sid), x) \<in> set (ms_sessions s)" using e by auto
    then have g: "dict_get (org, sid) (ms_sessions s) = Some x" using ok by (auto simp: async_ok_def dict_get_in)
    then have "ts_id x = sid" using represented_session[OF assms g] by (simp add: session_key_def)
    moreover have "pg_get_session org sid d = Inr (session_view x)"
      using get_session_agrees[OF assms, of org sid] g by (simp add: async_get_session_def)
    moreover have "async_find_active org oid s = Inr (Some x)"
      unfolding async_find_active_def Cons es e by simp
    moreover have "find ?P (pg_sessions d) = Some (tracking_values x)" unfolding find_by_filter fl Cons es e by simp
    ultimately show ?thesis unfolding pg_find_active_def by (simp add: tracking_values_def)
  qed
qed

section \<open>Saving an order\<close>

definition same_order :: "work_order \<Rightarrow> work_order \<Rightarrow> bool" where
  "same_order w' w \<longleftrightarrow> w'\<lparr>wo_pool_responses := [], wo_events := []\<rparr> = w\<lparr>wo_pool_responses := [], wo_events := []\<rparr> \<and>
     mset (wo_pool_responses w') = mset (wo_pool_responses w)"

definition order_ready :: "async_store \<Rightarrow> work_order \<Rightarrow> bool" where
  "order_ready s w \<longleftrightarrow> storable w \<and>
     (\<forall>k w2. dict_get k (ms_orders s) = Some w2 \<longrightarrow> wo_organization_id w2 = wo_organization_id w \<longrightarrow>
        wo_public_number w2 = wo_public_number w \<longrightarrow> k = order_key w)"

lemma same_order_rows:
  assumes "same_order w' w"
  shows "order_values w' = order_values (order_snapshot w)" "order_key w' = order_key w"
    "mset (response_rows w') = mset (response_rows w)"
    "wo_organization_id w' = wo_organization_id w" "wo_id w' = wo_id w"
proof -
  have e: "f (w'\<lparr>wo_pool_responses := [], wo_events := []\<rparr>) = f (w\<lparr>wo_pool_responses := [], wo_events := []\<rparr>)"
    for f :: "work_order \<Rightarrow> 'a" using assms by (simp add: same_order_def)
  show v: "wo_organization_id w' = wo_organization_id w" "wo_id w' = wo_id w"
    using assms by (cases w'; cases w; simp add: same_order_def)+
  show "order_values w' = order_values (order_snapshot w)" "order_key w' = order_key w"
    using assms by (cases w'; cases w; simp add: same_order_def order_values_def order_snapshot_def wo_pull_events_def order_key_def)+
  show "mset (response_rows w') = mset (response_rows w)"
    using assms v by (simp add: response_rows_def same_order_def mset_map)
qed

lemma dict_put_new: "dict_get k t = None \<Longrightarrow> dict_put k w t = t @ [(k, w)]"
  by (induction t) (auto split: if_splits)

lemma update_rows_values:
  assumes "dict_ok t" and "dict_get k t = Some w0" and "\<And>e. e \<in> set t \<Longrightarrow> P (f (snd e)) \<longleftrightarrow> fst e = k"
  shows "update_rows P (\<lambda>_. f w) (map (f \<circ> snd) t) = map (f \<circ> snd) (dict_put k w t)"
  using assms
proof (induction t)
  case (Cons e t)
  obtain j x where e: "e = (j, x)" by (cases e)
  have rest: "dict_get k t = None \<Longrightarrow> update_rows P (\<lambda>_. f w) (map (f \<circ> snd) t) = map (f \<circ> snd) t"
    using Cons.prems(3) by (auto simp: update_rows_def map_of_eq_None_iff rev_image_eqI)
  show ?case
  proof (cases "j = k")
    case True
    then have "dict_get k t = None" using Cons.prems(1) e by (auto simp: dict_ok_def map_of_eq_None_iff)
    then show ?thesis using rest Cons.prems(3)[of e] e True by (simp add: comp_def)
  next
    case False
    then have "update_rows P (\<lambda>_. f w) (map (f \<circ> snd) t) = map (f \<circ> snd) (dict_put k w t)"
      using Cons e by (intro Cons.IH) (auto simp: dict_ok_def)
    then show ?thesis using Cons.prems(3)[of e] e False by (simp add: comp_def)
  qed
qed simp

lemma order_row_passes: "wo_inv w \<Longrightarrow> order_checks (order_values w)"
proof -
  assume "wo_inv w"
  then have i: "inv_assignee w" "inv_pool w" "1 \<le> wo_version w" by (auto simp: wo_inv_def inv_events_def)
  have a: "owned_status (wo_status w) \<Longrightarrow> wo_assignee_id w \<noteq> None"
    using i(1) by (auto simp: inv_assignee_def nonempty_def split: option.splits)
  have m: "wo_status w = POOL_OPEN \<Longrightarrow> wo_pool_mode w \<noteq> None" using i(2) by (auto simp: inv_pool_def)
  have v: "pool_mode_value x = ''curated'' \<or> pool_mode_value x = ''first_claim''" for x by (cases x) simp_all
  show ?thesis
    using a m i(3) v by (cases "wo_status w"; cases "wo_pool_mode w")
      (simp_all add: order_checks_def order_values_def occupied_status_def)
qed

lemma occupied_value [simp]: "occupied_status (status_value x) \<longleftrightarrow> active_status x"
  by (cases x) (simp_all add: occupied_status_def)

lemma order_indexes_values:
  "order_indexes (map (order_values \<circ> snd) D) \<longleftrightarrow>
     capacity_scan async_executor_key (map snd D) [] = None \<and>
     unique_on (\<lambda>_. True) (\<lambda>r. (or_organization_id r, or_public_number r)) (map (order_values \<circ> snd) D)"
proof -
  have "filter (\<lambda>r. or_assignee_id r \<noteq> None \<and> occupied_status (or_status r)) (map (order_values \<circ> snd) D) =
      map order_values (filter busy (map snd D))"
    by (induction D) (auto simp: order_values_def busy_def)
  moreover have "async_executor_key = (\<lambda>r. (or_organization_id r, or_assignee_id r)) \<circ> order_values"
    by (rule ext) (simp add: async_executor_key_def order_values_def)
  ultimately have "unique_on (\<lambda>r. or_assignee_id r \<noteq> None \<and> occupied_status (or_status r))
      (\<lambda>r. (or_organization_id r, or_assignee_id r)) (map (order_values \<circ> snd) D) \<longleftrightarrow>
      capacity_scan async_executor_key (map snd D) [] = None"
    by (simp only: unique_on_def capacity_scan_None map_map list.set set_empty inf_bot_right simp_thms)
  then show ?thesis by (simp only: order_indexes_def)
qed

lemma unique_on_put:
  assumes ok: "dict_ok t" and u: "unique_on P key (map (f \<circ> snd) t)"
    and new: "\<And>k' x'. dict_get k' t = Some x' \<Longrightarrow> P (f x') \<Longrightarrow> P (f x) \<Longrightarrow> key (f x') = key (f x) \<Longrightarrow> k' = k"
  shows "unique_on P key (map (f \<circ> snd) (dict_put k x t))"
proof -
  have eq: "map key (filter P (map (f \<circ> snd) d)) = map (key \<circ> f) (filter (P \<circ> f) (map snd d))" for d :: "('a \<times> 'b) list"
    by (induction d) auto
  have old: "k1 = k2" if "dict_get k1 t = Some x1" "dict_get k2 t = Some x2" "P (f x1)" "P (f x2)" "key (f x1) = key (f x2)" for k1 k2 x1 x2
    using distinct_vals_key[of "key \<circ> f" "P \<circ> f" t k1 x1 k2 x2] u that by (simp add: unique_on_def eq)
  have "distinct (map (key \<circ> f) (filter (P \<circ> f) (map snd (dict_put k x t))))"
  proof (rule distinct_vals_keyI)
    show "dict_ok (dict_put k x t)" using ok by simp
    fix k1 k2 v1 v2
    assume "dict_get k1 (dict_put k x t) = Some v1" "dict_get k2 (dict_put k x t) = Some v2" "(P \<circ> f) v1" "(P \<circ> f) v2"
      "(key \<circ> f) v1 = (key \<circ> f) v2"
    then have g: "if k1 = k then v1 = x else dict_get k1 t = Some v1" "if k2 = k then v2 = x else dict_get k2 t = Some v2"
      "P (f v1)" "P (f v2)" "key (f v1) = key (f v2)"
      by (simp_all add: dict_get_put split: if_splits)
    note g1 = g(1) and g2 = g(2)
    show "k1 = k2"
    proof (cases "k1 = k")
      case True
      then have v1: "v1 = x" using g1 by simp
      have "k2 = k" if "k2 \<noteq> k"
      proof (rule new)
        show "dict_get k2 t = Some v2" using g2 that by simp
      qed (use g(3-5) v1 in simp_all)
      then show ?thesis using True by blast
    next
      case False
      then have d1: "dict_get k1 t = Some v1" using g1 by simp
      have "k1 = k" if "v2 = x" by (rule new[OF d1]) (use g(3-5) that in simp_all)
      then have d2: "dict_get k2 t = Some v2" using False g2 by (simp split: if_splits)
      show ?thesis by (rule old[OF d1 d2 g(3-5)])
    qed
  qed
  then show ?thesis by (simp add: unique_on_def eq)
qed

abbreviation order_saved :: "async_store \<Rightarrow> work_order \<Rightarrow> async_store" where
  "order_saved s w \<equiv> s\<lparr>ms_orders := dict_put (order_key w) (order_snapshot w) (ms_orders s)\<rparr>"

lemma response_row_is_rows [simp]:
  "r \<in> set (response_rows w) \<Longrightarrow> response_row_is org oid r \<longleftrightarrow> order_key w = (org, oid)"
  by (auto simp: response_rows_def response_row_is_def order_key_def)

lemma filter_response_rows [simp]:
  "filter (response_row_is org oid) (response_rows w) = (if order_key w = (org, oid) then response_rows w else [])"
  by (auto simp: filter_empty_conv)

lemma replace_responses_unfold:
  "replace_responses w d = (let t = delete_rows (response_row_is (wo_organization_id w) (wo_id w)) (pg_responses d) @ response_rows w
    in raise_first [check (unique_on (\<lambda>_. True) (\<lambda>r. (rr_organization_id r, rr_work_order_id r, rr_executor_id r)) t) unique_violation]
      (Inr (d\<lparr>pg_responses := t\<rparr>)))"
  by (simp add: replace_responses_def response_rows_def Let_def)

lemma unique_on_append:
  "unique_on P key (t @ u) \<longleftrightarrow> unique_on P key t \<and> unique_on P key u \<and>
     (\<forall>r \<in> set t. \<forall>q \<in> set u. P r \<longrightarrow> P q \<longrightarrow> key r \<noteq> key q)"
  by (auto simp: unique_on_def)

lemma responses_replaced:
  assumes u: "unique_on (\<lambda>_. True) (\<lambda>r. (rr_organization_id r, rr_work_order_id r, rr_executor_id r)) (pg_responses d)"
    and w: "wo_inv w" "same_order w' w"
  shows "\<exists>t. replace_responses w' d = Inr (d\<lparr>pg_responses := t\<rparr>) \<and>
    unique_on (\<lambda>_. True) (\<lambda>r. (rr_organization_id r, rr_work_order_id r, rr_executor_id r)) t \<and>
    (\<forall>org oid. mset (filter (response_row_is org oid) t) =
      (if order_key w = (org, oid) then mset (response_rows w) else mset (filter (response_row_is org oid) (pg_responses d))))"
proof -
  let ?key = "\<lambda>r. (rr_organization_id r, rr_work_order_id r, rr_executor_id r)"
  let ?kept = "delete_rows (response_row_is (wo_organization_id w') (wo_id w')) (pg_responses d)"
  note s = same_order_rows[OF w(2)]
  have "distinct (map ?key (response_rows w))"
    using w(1) by (auto simp: wo_inv_def inv_responses_def response_rows_def dict_ok_def comp_def case_prod_beta'
        distinct_map inj_on_def list_all_iff)
  then have new: "unique_on (\<lambda>_. True) ?key (response_rows w')"
    using mset_eq_imp_distinct_iff[OF arg_cong[OF s(3), of "image_mset ?key", folded mset_map]]
    by (simp add: unique_on_def)
  have "unique_on (\<lambda>_. True) ?key ?kept" using u by (rule unique_on_delete)
  moreover have "?key r \<noteq> ?key q" if "r \<in> set ?kept" "q \<in> set (response_rows w')" for r q
    using that by (auto simp: delete_rows_def response_rows_def response_row_is_def)
  ultimately have un: "unique_on (\<lambda>_. True) ?key (?kept @ response_rows w')" using new by (simp add: unique_on_append)
  have "mset (filter (response_row_is org oid) (?kept @ response_rows w')) =
      (if order_key w = (org, oid) then mset (response_rows w) else mset (filter (response_row_is org oid) (pg_responses d)))" for org oid
  proof (cases "order_key w = (org, oid)")
    case True
    then have "filter (response_row_is org oid) ?kept = []"
      using s(4,5) by (auto simp: delete_rows_def filter_empty_conv order_key_def)
    then show ?thesis using True s(2,3) by simp
  next
    case False
    then have "filter (response_row_is org oid) ?kept = filter (response_row_is org oid) (pg_responses d)"
      using s(4,5) by (auto simp: delete_rows_def order_key_def response_row_is_def intro!: filter_cong)
    then show ?thesis using False s(2) by simp
  qed
  moreover have "replace_responses w' d = Inr (d\<lparr>pg_responses := ?kept @ response_rows w'\<rparr>)"
    using un by (simp add: replace_responses_unfold Let_def)
  ultimately show ?thesis using un by blast
qed

lemma order_snapshot_storable: "storable w \<Longrightarrow> storable (order_snapshot w)"
  using wo_inv_pull[of w] by (simp add: storable_def order_snapshot_def[symmetric])

lemma response_rows_snapshot [simp]: "response_rows (order_snapshot w) = response_rows w"
  by (simp add: response_rows_def order_snapshot_def wo_pull_events_def)

lemma bex_key: "dict_ok t \<Longrightarrow> (\<exists>e \<in> set t. fst e = k \<and> P (snd e)) \<longleftrightarrow> (\<exists>w. dict_get k t = Some w \<and> P w)"
proof -
  assume ok: "dict_ok t"
  have "dict_get k t = Some w \<longleftrightarrow> (k, w) \<in> set t" for w by (rule dict_get_in[OF ok])
  then show ?thesis by (auto intro: bexI[rotated])
qed

text \<open>A table that holds one row for each entry of a dictionary, and the statements that address one row.\<close>

lemma keyed_rows:
  assumes ok: "dict_ok t" and mine: "\<And>e. e \<in> set t \<Longrightarrow> M (f (snd e)) \<longleftrightarrow> fst e = k" and ver: "\<And>x. V (f x) = g x"
  shows "list_ex M (map (f \<circ> snd) t) \<longleftrightarrow> dict_get k t \<noteq> None"
    and "list_ex (\<lambda>r. M r \<and> V r = n) (map (f \<circ> snd) t) \<longleftrightarrow> map_option g (dict_get k t) = Some n"
    and "dict_get k t = Some w0 \<Longrightarrow> g w0 = n \<Longrightarrow>
      update_rows (\<lambda>r. M r \<and> V r = n) (\<lambda>_. f w) (map (f \<circ> snd) t) = map (f \<circ> snd) (dict_put k w t)"
proof -
  have m: "list_ex N (map (f \<circ> snd) t) \<longleftrightarrow> (\<exists>e \<in> set t. N (f (snd e)))" for N
    by (auto simp: list_ex_iff)
  have "(\<exists>e \<in> set t. M (f (snd e))) \<longleftrightarrow> (\<exists>e \<in> set t. fst e = k \<and> True)"
    by (rule bex_cong[OF refl]) (simp add: mine)
  also have "\<dots> \<longleftrightarrow> (\<exists>w. dict_get k t = Some w \<and> True)" by (rule bex_key[OF ok])
  finally show "list_ex M (map (f \<circ> snd) t) \<longleftrightarrow> dict_get k t \<noteq> None" unfolding m by (simp only: simp_thms not_None_eq)
  have "(\<exists>e \<in> set t. M (f (snd e)) \<and> V (f (snd e)) = n) \<longleftrightarrow> (\<exists>e \<in> set t. fst e = k \<and> g (snd e) = n)"
    by (rule bex_cong[OF refl]) (simp add: mine ver)
  also have "\<dots> \<longleftrightarrow> (\<exists>w. dict_get k t = Some w \<and> g w = n)" by (rule bex_key[OF ok])
  finally show "list_ex (\<lambda>r. M r \<and> V r = n) (map (f \<circ> snd) t) \<longleftrightarrow> map_option g (dict_get k t) = Some n"
    unfolding m map_option_eq_Some .
  assume g: "dict_get k t = Some w0" "g w0 = n"
  have "M (f (snd e)) \<and> V (f (snd e)) = n \<longleftrightarrow> fst e = k" if "e \<in> set t" for e
  proof -
    have "g (snd e) = n" if "fst e = k"
    proof -
      have "(k, snd e) \<in> set t" using \<open>e \<in> set t\<close> that by (metis prod.collapse)
      then show ?thesis using g dict_get_in[OF ok, of k "snd e"] by simp
    qed
    then show ?thesis using mine[OF that] ver by metis
  qed
  from update_rows_values[where P = "\<lambda>r. M r \<and> V r = n" and f = f, OF ok g(1) this]
  show "update_rows (\<lambda>r. M r \<and> V r = n) (\<lambda>_. f w) (map (f \<circ> snd) t) = map (f \<circ> snd) (dict_put k w t)" .
qed

lemma order_table_saved:
  assumes "represents d s" and "same_order w' w" and "storable w"
  defines "D \<equiv> dict_put (order_key w) (order_snapshot w) (ms_orders s)"
  shows "pg_save_order w' v d =
    (if version_matches v (map_option wo_version (dict_get (order_key w) (ms_orders s)))
     then raise_first [check (order_indexes (map (order_values \<circ> snd) D)) unique_violation]
       (replace_responses w' (d\<lparr>pg_orders := map (order_values \<circ> snd) D\<rparr>))
     else Inl (ConcurrencyConflict (if v = None then ''work order already exists'' else ''work order changed concurrently'')))"
proof -
  let ?mine = "order_row_is (wo_organization_id w') (wo_id w')"
  note s = same_order_rows[OF assms(2)]
  have rows: "pg_orders d = map (order_values \<circ> snd) (ms_orders s)" and ok: "dict_ok (ms_orders s)"
    and keys: "\<And>e. e \<in> set (ms_orders s) \<Longrightarrow> order_key (snd e) = fst e"
    using assms(1) by (auto simp: represents_def orders_represented_def async_ok_def list_all_iff)
  have key: "order_key w = (wo_organization_id w', wo_id w')" using s(2) by (simp add: order_key_def)
  have chk: "order_checks (order_values w')"
    using order_row_passes[of "order_snapshot w"] order_snapshot_storable[OF assms(3)] by (simp add: s(1) storable_def)
  have mine: "?mine (order_values (snd e)) \<longleftrightarrow> fst e = order_key w" if "e \<in> set (ms_orders s)" for e
    using keys[OF that] key by auto
  note k = keyed_rows[where M = ?mine and f = order_values and V = or_version and g = wo_version, OF ok mine, folded rows]
  have ver: "or_version (order_values x) = wo_version x" for x by (simp add: order_values_def)
  show ?thesis
  proof (cases v)
    case None
    then show ?thesis
      using chk k(1)[OF _ ver] by (cases "dict_get (order_key w) (ms_orders s)")
        (simp_all add: pg_save_order_def Let_def rows D_def dict_put_new s(1) check_def)
  next
    case (Some n)
    then show ?thesis
      using chk k(2)[OF _ ver] k(3)[OF _ ver, where w = "order_snapshot w"]
      by (cases "dict_get (order_key w) (ms_orders s)") (simp_all add: pg_save_order_def Let_def s(1) D_def check_def)
  qed
qed

lemma async_ok_order_saved:
  "async_ok s \<Longrightarrow> async_ok (order_saved s w)"
  using set_dict_put_subset[of "order_key w" "order_snapshot w" "ms_orders s"] by (force simp: async_ok_def list_all_iff)

abbreviation order_accepted :: "async_store \<Rightarrow> work_order \<Rightarrow> int option \<Rightarrow> bool" where
  "order_accepted s w v \<equiv> version_matches v (map_option wo_version (dict_get (order_key w) (ms_orders s))) \<and>
     capacity_scan async_executor_key (map snd (dict_put (order_key w) (order_snapshot w) (ms_orders s))) [] = None"

lemma order_step:
  assumes r: "represents d s" and same: "same_order w' w" and ready: "order_ready s w"
  shows "if order_accepted s w v
    then \<exists>d'. pg_save_order w' v d = Inr d' \<and> represents d' (order_saved s w)
    else \<exists>e. pg_save_order w' v d = Inl e \<and> is_conflict e"
proof -
  let ?D = "dict_put (order_key w) (order_snapshot w) (ms_orders s)"
  have st: "storable w" using ready by (simp add: order_ready_def)
  have old: "dict_ok (ms_orders s)" "pg_orders d = map (order_values \<circ> snd) (ms_orders s)" "order_indexes (pg_orders d)"
    "unique_on (\<lambda>_. True) (\<lambda>r. (rr_organization_id r, rr_work_order_id r, rr_executor_id r)) (pg_responses d)"
    using r by (auto simp: represents_def orders_represented_def async_ok_def)
  have "unique_on (\<lambda>_. True) (\<lambda>r. (or_organization_id r, or_public_number r)) (map (order_values \<circ> snd) ?D)"
    using old(2,3) ready unfolding order_indexes_def order_ready_def
    by (intro unique_on_put[OF old(1)]) (auto simp: order_values_def)
  then have ix: "order_indexes (map (order_values \<circ> snd) ?D) \<longleftrightarrow> capacity_scan async_executor_key (map snd ?D) [] = None"
    by (simp add: order_indexes_values)
  let ?d = "d\<lparr>pg_orders := map (order_values \<circ> snd) ?D\<rparr>"
  obtain t where t: "replace_responses w' ?d = Inr (?d\<lparr>pg_responses := t\<rparr>)"
    "unique_on (\<lambda>_. True) (\<lambda>r. (rr_organization_id r, rr_work_order_id r, rr_executor_id r)) t"
    "\<And>org oid. mset (filter (response_row_is org oid) t) =
      (if order_key w = (org, oid) then mset (response_rows w) else mset (filter (response_row_is org oid) (pg_responses d)))"
    using responses_replaced[of ?d w w'] old(4) st same by (auto simp: storable_def)
  note save = order_table_saved[OF r same st, of v]
  show ?thesis
  proof (cases "order_accepted s w v")
    case True
    have "represents (?d\<lparr>pg_responses := t\<rparr>) (order_saved s w)"
      unfolding represents_def orders_represented_def
    proof (intro conjI allI impI)
      fix k x assume g: "dict_get k (ms_orders (order_saved s w)) = Some x"
      obtain org oid where k: "k = (org, oid)" by (cases k)
      show "storable x"
        using g r st k represented_order[OF r, of org oid] order_snapshot_storable
        by (auto simp: dict_get_put split: if_splits)
      show "mset (filter (response_row_is (fst k) (snd k)) (pg_responses (?d\<lparr>pg_responses := t\<rparr>))) = mset (response_rows x)"
        using g t(3)[of org oid] represented_order[OF r, of org oid x] unfolding k by (auto simp: dict_get_put split: if_splits)
    qed (use True ix t(2) r async_ok_order_saved in \<open>auto simp: represents_def sessions_represented_def\<close>)
    with True ix t(1) save show ?thesis by auto
  next
    case False
    then show ?thesis using save ix by (auto simp: check_def)
  qed
qed

section \<open>Saving a session\<close>

text \<open>
  The session that the PostgreSQL store read carries only its last stored point, so it ends with the
  points after some prefix of all points, and it counts \<open>k\<close> points as stored.
\<close>

definition same_session :: "nat \<Rightarrow> tracking_session \<Rightarrow> tracking_session \<Rightarrow> bool" where
  "same_session k y x \<longleftrightarrow> k \<le> length (ts_points x) \<and> (\<exists>j \<le> k. \<exists>es. y = x\<lparr>ts_points := drop j (ts_points x),
     ts_events := es, ts_persisted_point_count := int k\<rparr>)"

text \<open>
  A session whose version is the stored one extends the stored points; its tokens, its place as the active
  session and its new source events are not taken; and its order is stored. A session with a stale version,
  which both stores refuse, need not.
\<close>

definition session_fits :: "async_store \<Rightarrow> tracking_session \<Rightarrow> nat \<Rightarrow> bool" where
  "session_fits s x k \<longleftrightarrow>
     (case dict_get (session_key x) (ms_sessions s) of
        None \<Rightarrow> k = 0
      | Some x0 \<Rightarrow> k = length (ts_points x0) \<and> take k (ts_points x) = ts_points x0 \<and> ts_created_at x = ts_created_at x0) \<and>
     (\<forall>k2 x2. dict_get k2 (ms_sessions s) = Some x2 \<longrightarrow> k2 \<noteq> session_key x \<longrightarrow>
        (ts_public_token x2 \<noteq> None \<longrightarrow> ts_public_token x2 \<noteq> ts_public_token x) \<and>
        (ts_location_token x2 \<noteq> None \<longrightarrow> ts_location_token x2 \<noteq> ts_location_token x) \<and>
        \<not> (ts_status x = TrackActive \<and> active_session_of (ts_organization_id x) (ts_work_order_id x) x2)) \<and>
     (\<forall>p \<in> set (drop k (ts_points x)). \<forall>e. tp_source_event_id p = Some e \<longrightarrow>
        \<not> async_has_source_event (ts_organization_id x) (location_source_value (tp_source p)) e s) \<and>
     dict_get (ts_organization_id x, ts_work_order_id x) (ms_orders s) \<noteq> None"

abbreviation session_accepted :: "async_store \<Rightarrow> tracking_session \<Rightarrow> int option \<Rightarrow> bool" where
  "session_accepted s x v \<equiv> version_matches v (map_option ts_version (dict_get (session_key x) (ms_sessions s)))"

definition session_ready :: "async_store \<Rightarrow> tracking_session \<Rightarrow> int option \<Rightarrow> nat \<Rightarrow> bool" where
  "session_ready s x v k \<longleftrightarrow> ts_inv x \<and> 1 \<le> ts_version x \<and> (session_accepted s x v \<longrightarrow> session_fits s x k)"

abbreviation session_saved :: "async_store \<Rightarrow> tracking_session \<Rightarrow> async_store" where
  "session_saved s x \<equiv> s\<lparr>ms_sessions := dict_put (session_key x) (session_snapshot x) (ms_sessions s)\<rparr>"

lemma tracking_values_snapshot [simp]: "tracking_values (session_snapshot x) = tracking_values x"
  by (simp add: tracking_values_def session_snapshot_def ts_pull_events_def)

lemma same_session_rows:
  assumes "same_session k y x" and "ts_point_count x = int (length (ts_points x))"
  shows "tracking_values y = tracking_values x" "point_values y = point_values x" "session_key y = session_key x"
    "pending_points y = Inr (drop k (ts_points x))" "ts_persisted_point_count y = int k"
proof -
  obtain j es where y: "j \<le> k" "k \<le> length (ts_points x)" "y = x\<lparr>ts_points := drop j (ts_points x), ts_events := es,
      ts_persisted_point_count := int k\<rparr>" using assms(1) by (auto simp: same_session_def)
  show "tracking_values y = tracking_values x" "session_key y = session_key x" "ts_persisted_point_count y = int k"
    by (simp_all add: y(3) tracking_values_def session_key_def)
  show "point_values y = point_values x" by (rule ext) (simp add: y(3) point_values_def)
  show "pending_points y = Inr (drop k (ts_points x))"
    using y(1,2) assms(2) by (auto simp: y(3) pending_points_def Let_def nat_diff_distrib)
qed

lemma tracking_row_passes: "ts_inv x \<Longrightarrow> 1 \<le> ts_version x \<Longrightarrow> tracking_checks (tracking_values x)"
proof -
  assume i: "ts_inv x" "1 \<le> ts_version x"
  have "option_token_ok (ts_public_token x) \<and> option_token_ok (ts_location_token x) \<and>
      \<not> (ts_public_token x \<noteq> None \<and> ts_public_token x = ts_location_token x)"
    using i(1) by (intro tokens_usable) (simp add: ts_inv_def)
  moreover have "option_token_ok t \<Longrightarrow> strong t" for t
    by (cases t) (auto simp: option_token_ok_def strong_def token_ok_def)
  moreover have "tracking_status_value u \<in> set [''active'', ''completed'', ''cancelled'']" for u by (cases u) simp_all
  moreover have "0 \<le> ts_point_count x" using i(1) by (simp add: ts_inv_def inv_count_def)
  ultimately show ?thesis using i(2) by (auto simp: tracking_checks_def tracking_values_def)
qed

lemma point_row_passes: "valid_point p \<Longrightarrow> point_checks (point_values x (n, p))"
proof -
  assume "valid_point p"
  then have p: "fl_between (-90) (tp_latitude p) 90" "fl_between (-180) (tp_longitude p) 180"
    and a: "case tp_accuracy_m p of None \<Rightarrow> True | Some a \<Rightarrow> \<not> (\<not> fl_isfinite a \<or> fl_lt a (Finite 0))"
    by (auto simp: valid_point_def point_guards_def)
  have "case tp_accuracy_m p of None \<Rightarrow> True | Some a \<Rightarrow> a = NaN \<or> fl_le (Finite 0) a"
    using a by (auto simp: fl_lt_def split: option.splits elim!: fl_isfinite.elims)
  moreover have "location_source_value u \<in> set [''telegram'', ''max'', ''web'', ''mobile'', ''import'']" for u
    by (cases u) simp_all
  ultimately show ?thesis using p by (simp add: point_checks_def point_values_def)
qed

lemma numbered_distinct: "distinct (map fst (numbered n ps))"
  by (induction ps arbitrary: n) (auto dest: numbered_bounds)

abbreviation new_rows :: "nat \<Rightarrow> tracking_session \<Rightarrow> point_row list" where
  "new_rows k x \<equiv> map (point_values x) (numbered (int k + 1) (drop k (ts_points x)))"

lemma new_rows_unique:
  assumes "ts_inv x"
  shows "point_indexes (new_rows k x)"
proof -
  let ?n = "numbered (int k + 1) (drop k (ts_points x))"
  have "distinct (map ((\<lambda>p. (pt_organization_id p, pt_session_id p, pt_sequence_no p)) \<circ> point_values x) ?n)"
  proof -
    have "(\<lambda>p. (pt_organization_id p, pt_session_id p, pt_sequence_no p)) \<circ> point_values x =
        (\<lambda>i. (ts_organization_id x, ts_id x, i)) \<circ> fst" by (rule ext) (simp add: point_values_def)
    then show ?thesis using numbered_distinct[of "int k + 1" "drop k (ts_points x)"]
      by (simp add: distinct_map comp_def inj_on_def)
  qed
  moreover have "distinct (map ((\<lambda>p. (pt_organization_id p, pt_source p, pt_source_event_id p)) \<circ> point_values x)
      (filter ((\<lambda>p. pt_source_event_id p \<noteq> None) \<circ> point_values x) (numbered n ps)))"
    if "distinct (List.map_filter tp_source_event_id ps)" for n ps
    using that
  proof (induction ps arbitrary: n)
    case (Cons p ps)
    have "tp_source_event_id q \<noteq> tp_source_event_id p" if "tp_source_event_id p \<noteq> None" "q \<in> set ps" for q
      using Cons.prems that by (force simp: map_filter_def)
    moreover have "distinct (List.map_filter tp_source_event_id ps)"
      using Cons.prems by (auto simp: map_filter_def split: if_splits)
    ultimately show ?case using Cons.IH[of "n + 1"]
      by (auto simp: point_values_def dest!: numbered_bounds)
  qed simp
  moreover have "distinct (List.map_filter tp_source_event_id (drop k (ts_points x)))"
  proof -
    have "List.map_filter tp_source_event_id (ts_points x) =
        List.map_filter tp_source_event_id (take k (ts_points x)) @ List.map_filter tp_source_event_id (drop k (ts_points x))"
      by (metis append_take_drop_id filter_append map_append map_filter_def)
    then show ?thesis using assms by (simp add: ts_inv_def inv_points_def source_events_def)
  qed
  ultimately show ?thesis unfolding point_indexes_def unique_on_def filter_map map_map by simp
qed

lemma ready_stored:
  assumes "session_ready s x v k" and "dict_get (session_key x) (ms_sessions s) = Some x0" and "v = Some (ts_version x0)"
  shows "k = length (ts_points x0) \<and> take k (ts_points x) = ts_points x0 \<and> ts_created_at x = ts_created_at x0"
proof -
  have "session_fits s x k" using assms by (simp add: session_ready_def)
  then show ?thesis using assms(2) by (auto simp: session_fits_def)
qed

lemma stored_points:
  assumes r: "represents d s" and ready: "session_ready s x v k"
    and v: "version_matches v (map_option ts_version (dict_get (session_key x) (ms_sessions s)))"
  shows "filter (point_row_is (ts_organization_id x) (ts_id x)) (pg_points d) =
    map (point_values x) (numbered 1 (take k (ts_points x)))"
proof (cases "dict_get (session_key x) (ms_sessions s)")
  case None
  then have "v = None" using v by (cases v) simp_all
  then have "k = 0" using ready v None by (simp add: session_ready_def session_fits_def)
  moreover have "filter (point_row_is (ts_organization_id x) (ts_id x)) (pg_points d) = []"
    using r None by (auto simp: filter_empty_conv point_row_is_def represents_def sessions_represented_def session_key_def)
  ultimately show ?thesis by simp
next
  case (Some x0)
  then have "v = Some (ts_version x0)" using v by (cases v) simp_all
  then have k: "take k (ts_points x) = ts_points x0" using ready_stored[OF ready Some] by blast
  from represented_session[OF r Some[unfolded session_key_def]]
  have "filter (point_row_is (ts_organization_id x) (ts_id x)) (pg_points d) = points_of x0"
    and "session_key x0 = (ts_organization_id x, ts_id x)" by auto
  then show ?thesis using k by (auto simp: point_values_def session_key_def)
qed

lemma appended_indexes:
  assumes r: "represents d s" and ready: "session_ready s x v k" and kl: "k \<le> length (ts_points x)"
    and v: "version_matches v (map_option ts_version (dict_get (session_key x) (ms_sessions s)))"
  shows "point_indexes (pg_points d @ new_rows k x)"
proof -
  note own = stored_points[OF r ready v]
  have i: "ts_inv x" using ready by (simp add: session_ready_def)
  have "(pt_organization_id a, pt_session_id a, pt_sequence_no a) \<noteq> (pt_organization_id b, pt_session_id b, pt_sequence_no b)"
    if "a \<in> set (pg_points d)" "b \<in> set (new_rows k x)" for a b
  proof
    assume e: "(pt_organization_id a, pt_session_id a, pt_sequence_no a) = (pt_organization_id b, pt_session_id b, pt_sequence_no b)"
    then have "a \<in> set (filter (point_row_is (ts_organization_id x) (ts_id x)) (pg_points d))"
      using that by (auto simp: point_row_is_def point_values_def)
    then have "pt_sequence_no a \<le> int k" unfolding own using kl by (auto simp: point_values_def dest!: numbered_bounds)
    moreover have "int k < pt_sequence_no b" using that(2) by (auto simp: point_values_def dest!: numbered_bounds)
    ultimately show False using e by simp
  qed
  moreover have "(pt_organization_id a, pt_source a, pt_source_event_id a) \<noteq> (pt_organization_id b, pt_source b, pt_source_event_id b)"
    if a: "a \<in> set (pg_points d)" and b0: "b \<in> set (new_rows k x)" and ne: "pt_source_event_id a \<noteq> None" for a b
  proof
    assume e: "(pt_organization_id a, pt_source a, pt_source_event_id a) = (pt_organization_id b, pt_source b, pt_source_event_id b)"
    obtain n p where b: "b = point_values x (n, p)" "p \<in> set (drop k (ts_points x))"
      using b0 by (auto dest: numbered_bounds)
    obtain ev where ev: "pt_source_event_id a = Some ev" using ne by blast
    have "pg_has_source_event (ts_organization_id x) (location_source_value (tp_source p)) ev d"
      using a e b(1) ev by (auto simp: pg_has_source_event_def list_ex_iff point_values_def)
    moreover have "tp_source_event_id p = Some ev" using e b(1) ev by (simp add: point_values_def)
    ultimately show False
      using ready v b(2) unfolding source_event_agrees[OF r] session_ready_def session_fits_def by blast
  qed
  ultimately show ?thesis
    using r new_rows_unique[OF i, of k]
    by (auto simp: point_indexes_def unique_on_append represents_def sessions_represented_def)
qed

lemma points_appended:
  assumes r: "represents d s" and y: "same_session k y x" and ready: "session_ready s x v k"
    and v: "version_matches v (map_option ts_version (dict_get (session_key x) (ms_sessions s)))"
    and d': "pg_points d' = pg_points d"
  shows "append_new_points y d' = Inr (d'\<lparr>pg_points := pg_points d @ new_rows k x\<rparr>) \<and>
    point_indexes (pg_points d @ new_rows k x) \<and>
    filter (point_row_is (ts_organization_id x) (ts_id x)) (pg_points d) @ new_rows k x = points_of x"
proof -
  have i: "ts_inv x" using ready by (simp add: session_ready_def)
  then have len: "ts_point_count x = int (length (ts_points x))" by (simp add: ts_inv_def inv_count_def)
  note s = same_session_rows[OF y len]
  have kl: "k \<le> length (ts_points x)" using y by (simp add: same_session_def)
  have whole: "map (point_values x) (numbered 1 (take k (ts_points x))) @ new_rows k x = points_of x"
  proof -
    have n: "1 + int (length (take k (ts_points x))) = int k + 1" using kl by simp
    have "numbered 1 (ts_points x) = numbered 1 (take k (ts_points x)) @ numbered (int k + 1) (drop k (ts_points x))"
      using numbered_append[of 1 "take k (ts_points x)" "drop k (ts_points x)"] unfolding append_take_drop_id n .
    then show ?thesis by simp
  qed
  have checks: "list_all point_checks (new_rows k x)"
    using i by (auto simp: list_all_iff ts_inv_def inv_points_def intro!: point_row_passes dest!: numbered_bounds in_set_dropD)
  from checks whole stored_points[OF r ready v] appended_indexes[OF r ready kl v] d' show ?thesis
    by (simp add: append_new_points_def s Let_def check_def)
qed


lemma update_rows_agree:
  "(\<And>q. q \<in> set t \<Longrightarrow> P q \<Longrightarrow> f q = g q) \<Longrightarrow> update_rows P f t = update_rows P g t"
  by (simp add: update_rows_def)

lemma row_versions [simp]:
  "or_version (order_values w) = wo_version w" "tr_version (tracking_values x) = ts_version x"
  by (simp_all add: order_values_def tracking_values_def)

lemma order_exists_agrees:
  assumes "represents d s"
  shows "order_exists org oid d \<longleftrightarrow> dict_get (org, oid) (ms_orders s) \<noteq> None"
proof -
  have "pg_orders d = map (order_values \<circ> snd) (ms_orders s)" "dict_ok (ms_orders s)"
    "\<And>e. e \<in> set (ms_orders s) \<Longrightarrow> order_key (snd e) = fst e"
    using assms by (auto simp: represents_def orders_represented_def async_ok_def list_all_iff)
  then show ?thesis
    unfolding order_exists_def
    using keyed_rows(1)[of "ms_orders s" "order_row_is org oid" order_values "(org, oid)" or_version wo_version] by simp
qed

lemma tracking_table_saved:
  assumes r: "represents d s" and y: "same_session k y x" and ready: "session_ready s x v k"
  defines "D \<equiv> dict_put (session_key x) (session_snapshot x) (ms_sessions s)"
  shows "pg_save_session y v d =
    (if version_matches v (map_option ts_version (dict_get (session_key x) (ms_sessions s)))
     then raise_first [check (tracking_indexes (map (tracking_values \<circ> snd) D)) unique_violation]
       (append_new_points y (d\<lparr>pg_sessions := map (tracking_values \<circ> snd) D\<rparr>))
     else Inl (ConcurrencyConflict (if v = None then ''tracking session already exists'' else ''tracking session changed concurrently'')))"
proof -
  have i: "ts_inv x" "1 \<le> ts_version x" using ready by (simp_all add: session_ready_def)
  then have "ts_point_count x = int (length (ts_points x))" by (simp add: ts_inv_def inv_count_def)
  note s = same_session_rows[OF y this]
  let ?mine = "tracking_row_is (ts_organization_id y) (ts_id y)"
  have rows: "pg_sessions d = map (tracking_values \<circ> snd) (ms_sessions s)" and ok: "dict_ok (ms_sessions s)"
    and keys: "\<And>e. e \<in> set (ms_sessions s) \<Longrightarrow> session_key (snd e) = fst e"
    using r by (auto simp: represents_def sessions_represented_def async_ok_def list_all_iff)
  have key: "session_key x = (ts_organization_id y, ts_id y)" using s(3) by (simp add: session_key_def)
  have mine: "?mine (tracking_values (snd e)) \<longleftrightarrow> fst e = session_key x" if "e \<in> set (ms_sessions s)" for e
    using keys[OF that] key by auto
  note k = keyed_rows[where M = ?mine and f = tracking_values and V = tr_version and g = ts_version, OF ok mine, folded rows]
  have ver: "tr_version (tracking_values x) = ts_version x" for x by (simp add: tracking_values_def)
  have "ts_work_order_id y = ts_work_order_id x" "ts_organization_id y = ts_organization_id x"
    using arg_cong[OF s(1), of tr_work_order_id] arg_cong[OF s(1), of tr_organization_id] by (simp_all add: tracking_values_def)
  then have ord: "order_exists (ts_organization_id y) (ts_work_order_id y) d" if "session_accepted s x v"
    using ready that by (simp add: order_exists_agrees[OF r] session_ready_def session_fits_def)
  have chk: "tracking_checks (tracking_values y)" using tracking_row_passes[OF i] s(1) by simp
  show ?thesis
  proof (cases v)
    case None
    then show ?thesis
      using chk ord k(1)[OF _ ver] by (cases "dict_get (session_key x) (ms_sessions s)")
        (auto simp: pg_save_session_def Let_def rows D_def dict_put_new s(1) check_def order_exists_def)
  next
    case (Some n)
    let ?cur = "\<lambda>r. ?mine r \<and> tr_version r = n"
    have "update_rows ?cur (\<lambda>r. tracking_values y\<lparr>tr_created_at := tr_created_at r\<rparr>) (pg_sessions d) = map (tracking_values \<circ> snd) D"
      if g: "dict_get (session_key x) (ms_sessions s) = Some x0" "ts_version x0 = n" for x0
    proof -
      have "tracking_values y\<lparr>tr_created_at := tr_created_at q\<rparr> = tracking_values (session_snapshot x)"
        if q: "q \<in> set (pg_sessions d)" "?cur q" for q
      proof -
        obtain e where e: "e \<in> set (ms_sessions s)" "q = tracking_values (snd e)" using q(1) rows by auto
        then have "(session_key x, snd e) \<in> set (ms_sessions s)" using mine[OF e(1)] q(2) by (metis prod.collapse)
        then have "snd e = x0" using g(1) dict_get_in[OF ok, of "session_key x" "snd e"] by simp
        then have "tr_created_at q = ts_created_at x" using ready_stored[OF ready g(1)] Some g(2) e(2) by (simp add: tracking_values_def)
        then show ?thesis by (simp add: s(1)) (simp add: tracking_values_def)
      qed
      from update_rows_agree[OF this] k(3)[OF _ ver g, where w = "session_snapshot x"] show ?thesis
        by (simp add: D_def)
    qed
    then show ?thesis
      using Some chk ord k(2)[OF _ ver] by (cases "dict_get (session_key x) (ms_sessions s)")
        (auto simp: pg_save_session_def Let_def check_def order_exists_def)
  qed
qed

lemma tracking_values_sel [simp]:
  "tr_public_token (tracking_values x) = ts_public_token x" "tr_location_token (tracking_values x) = ts_location_token x"
  "tr_organization_id (tracking_values x) = ts_organization_id x" "tr_work_order_id (tracking_values x) = ts_work_order_id x"
  "tr_status (tracking_values x) = tracking_status_value (ts_status x)"
  by (simp_all add: tracking_values_def)

lemma tracking_indexes_saved:
  assumes r: "represents d s" and ready: "session_ready s x v k" and v: "session_accepted s x v"
  shows "tracking_indexes (map (tracking_values \<circ> snd) (dict_put (session_key x) (session_snapshot x) (ms_sessions s)))"
proof -
  have ok: "dict_ok (ms_sessions s)" and old: "tracking_indexes (map (tracking_values \<circ> snd) (ms_sessions s))"
    using r by (auto simp: represents_def sessions_represented_def async_ok_def)
  have other: "k2 = session_key x \<or> (ts_public_token x2 \<noteq> None \<longrightarrow> ts_public_token x2 \<noteq> ts_public_token x) \<and>
      (ts_location_token x2 \<noteq> None \<longrightarrow> ts_location_token x2 \<noteq> ts_location_token x) \<and>
      \<not> (ts_status x = TrackActive \<and> active_session_of (ts_organization_id x) (ts_work_order_id x) x2)"
    if "dict_get k2 (ms_sessions s) = Some x2" for k2 x2
    using ready v that unfolding session_ready_def session_fits_def by blast
  note u = old[unfolded tracking_indexes_def]
  show ?thesis
    unfolding tracking_indexes_def
  proof (intro conjI)
    show "unique_on (\<lambda>r. tr_status r = ''active'') (\<lambda>r. (tr_organization_id r, tr_work_order_id r))
        (map (tracking_values \<circ> snd) (dict_put (session_key x) (session_snapshot x) (ms_sessions s)))"
    proof (rule unique_on_put[OF ok u[THEN conjunct1]])
      fix k2 x2 assume "dict_get k2 (ms_sessions s) = Some x2" "tr_status (tracking_values x2) = ''active''"
        "tr_status (tracking_values (session_snapshot x)) = ''active''"
        "(tr_organization_id (tracking_values x2), tr_work_order_id (tracking_values x2)) =
          (tr_organization_id (tracking_values (session_snapshot x)), tr_work_order_id (tracking_values (session_snapshot x)))"
      then show "k2 = session_key x"
        using other[of k2 x2] by (simp add: active_value active_session_of_def)
    qed
    show "unique_on (\<lambda>r. tr_public_token r \<noteq> None) tr_public_token
        (map (tracking_values \<circ> snd) (dict_put (session_key x) (session_snapshot x) (ms_sessions s)))"
    proof (rule unique_on_put[OF ok u[THEN conjunct2, THEN conjunct1]])
      fix k2 x2 assume "dict_get k2 (ms_sessions s) = Some x2" "tr_public_token (tracking_values x2) \<noteq> None"
        "tr_public_token (tracking_values x2) = tr_public_token (tracking_values (session_snapshot x))"
      then show "k2 = session_key x" using other[of k2 x2] by auto
    qed
    show "unique_on (\<lambda>r. tr_location_token r \<noteq> None) tr_location_token
        (map (tracking_values \<circ> snd) (dict_put (session_key x) (session_snapshot x) (ms_sessions s)))"
    proof (rule unique_on_put[OF ok u[THEN conjunct2, THEN conjunct2]])
      fix k2 x2 assume "dict_get k2 (ms_sessions s) = Some x2" "tr_location_token (tracking_values x2) \<noteq> None"
        "tr_location_token (tracking_values x2) = tr_location_token (tracking_values (session_snapshot x))"
      then show "k2 = session_key x" using other[of k2 x2] by auto
    qed
  qed
qed

lemma async_ok_session_saved: "async_ok s \<Longrightarrow> async_ok (session_saved s x)"
  using set_dict_put_subset[of "session_key x" "session_snapshot x" "ms_sessions s"] by (force simp: async_ok_def list_all_iff)

lemma points_of_snapshot [simp]: "points_of (session_snapshot x) = points_of x"
proof -
  have "point_values (session_snapshot x) = point_values x" by (rule ext) (simp add: point_values_def)
  then show ?thesis by simp
qed

lemma ts_inv_snapshot: "ts_inv x \<Longrightarrow> ts_inv (session_snapshot x)"
  by (auto simp: ts_inv_def inv_tokens_def inv_points_def inv_count_def source_events_def session_snapshot_def ts_pull_events_def)

lemma point_row_is_values [simp]: "point_row_is org sid (point_values x np) \<longleftrightarrow> session_key x = (org, sid)"
  by (auto simp: point_row_is_def point_values_def session_key_def)

lemma filter_new_rows:
  "filter (point_row_is org sid) (new_rows k x) = (if session_key x = (org, sid) then new_rows k x else [])"
  by (simp add: filter_map comp_def)

lemma session_step:
  assumes r: "represents d s" and y: "same_session k y x" and ready: "session_ready s x v k"
  shows "if version_matches v (map_option ts_version (dict_get (session_key x) (ms_sessions s)))
    then \<exists>d'. pg_save_session y v d = Inr d' \<and> represents d' (session_saved s x)
    else \<exists>e. pg_save_session y v d = Inl e \<and> is_conflict e"
proof -
  let ?D = "dict_put (session_key x) (session_snapshot x) (ms_sessions s)"
  let ?d = "d\<lparr>pg_sessions := map (tracking_values \<circ> snd) ?D\<rparr>"
  let ?d' = "?d\<lparr>pg_points := pg_points d @ new_rows k x\<rparr>"
  note save = tracking_table_saved[OF r y ready]
  have i: "ts_inv x" "1 \<le> ts_version x" using ready by (simp_all add: session_ready_def)
  show ?thesis
  proof (cases "version_matches v (map_option ts_version (dict_get (session_key x) (ms_sessions s)))")
    case True
    have p: "append_new_points y ?d = Inr ?d'" "point_indexes (pg_points d @ new_rows k x)"
      "filter (point_row_is (ts_organization_id x) (ts_id x)) (pg_points d) @ new_rows k x = points_of x"
      using points_appended[OF r y ready True, of ?d] by simp_all
    have new: "pt_organization_id q = ts_organization_id x \<and> pt_session_id q = ts_id x" if "q \<in> set (new_rows k x)" for q
      using that by (auto simp: point_values_def)
    have "represents ?d' (session_saved s x)"
      unfolding represents_def sessions_represented_def
    proof (intro conjI allI impI ballI)
      fix j z assume g: "dict_get j (ms_sessions (session_saved s x)) = Some z"
      obtain org sid where j: "j = (org, sid)" by (cases j)
      note old = represented_session[OF r, of org sid]
      show "ts_inv z" "1 \<le> ts_version z"
        using g i old ts_inv_snapshot unfolding j by (auto simp: dict_get_put split: if_splits)
      show "filter (point_row_is (fst j) (snd j)) (pg_points ?d') = points_of z"
      proof (cases "j = session_key x")
        case True
        then have z: "z = session_snapshot x" using g by simp
        have j': "fst j = ts_organization_id x" "snd j = ts_id x" using True by (simp_all add: session_key_def)
        have "filter (point_row_is (ts_organization_id x) (ts_id x)) (new_rows k x) = new_rows k x"
          unfolding filter_new_rows by (simp add: session_key_def)
        moreover have "pg_points ?d' = pg_points d @ new_rows k x" by simp
        ultimately show ?thesis unfolding j' z points_of_snapshot using p(3) by (simp only: filter_append)
      next
        case False
        then have n: "filter (point_row_is org sid) (new_rows k x) = []" unfolding filter_new_rows j by simp
        have "pg_points ?d' = pg_points d @ new_rows k x" by simp
        moreover have "dict_get (org, sid) (ms_sessions s) = Some z" using g False unfolding j by simp
        ultimately show ?thesis using old n unfolding j fst_conv snd_conv by (simp only: filter_append append_Nil2)
      qed
    next
      fix q assume "q \<in> set (pg_points ?d')"
      then show "dict_get (pt_organization_id q, pt_session_id q) (ms_sessions (session_saved s x)) \<noteq> None"
        using r new[of q] by (auto simp: dict_get_put represents_def sessions_represented_def session_key_def)
    qed (use r p tracking_indexes_saved[OF r ready True] async_ok_session_saved in
      \<open>auto simp: represents_def orders_represented_def\<close>)
    moreover note p(1)
    ultimately show ?thesis using save True tracking_indexes_saved[OF r ready True] by simp
  next
    case False
    then show ?thesis using save by simp
  qed
qed

section \<open>A whole unit of work\<close>

definition events_ready :: "domain_event list \<Rightarrow> async_store \<Rightarrow> bool" where
  "events_ready es s \<longleftrightarrow> distinct (map event_id es) \<and> distinct (map event_key es) \<and>
     event_id ` set es \<inter> event_id ` set (ms_outbox s) = {} \<and> event_key ` set es \<inter> event_key ` set (ms_outbox s) = {}"

lemma list_ex_key: "list_ex (\<lambda>a. f a = b) xs \<longleftrightarrow> b \<in> f ` set xs"
  by (induction xs) auto

lemma events_step:
  assumes "represents d s" and "events_ready es s"
  shows "\<exists>d'. pg_add_events es d = Inr d' \<and> represents d' (s\<lparr>ms_outbox := ms_outbox s @ es\<rparr>)"
  using assms
proof (induction es arbitrary: d s)
  case (Cons e es)
  let ?d = "d\<lparr>pg_outbox := pg_outbox d @ [e]\<rparr>" and ?s = "s\<lparr>ms_outbox := ms_outbox s @ [e]\<rparr>"
  have out: "pg_outbox d = ms_outbox s" using Cons.prems(1) by (simp add: represents_def)
  have "represents ?d ?s"
    using Cons.prems(1) unfolding represents_def orders_represented_def sessions_represented_def async_ok_def
    by (elim conjE, intro conjI) simp_all
  moreover have "events_ready es ?s" using Cons.prems(2) by (auto simp: events_ready_def)
  ultimately obtain d' where d': "pg_add_events es ?d = Inr d'" "represents d' (?s\<lparr>ms_outbox := ms_outbox ?s @ es\<rparr>)"
    using Cons.IH by blast
  have "\<not> list_ex (\<lambda>o'. event_id o' = event_id e) (pg_outbox d)" "\<not> list_ex (\<lambda>o'. event_key o' = event_key e) (pg_outbox d)"
    using Cons.prems(2) by (simp_all add: events_ready_def list_ex_key out)
  then show ?case using d' by simp
qed simp

text \<open>
  The changes of a unit of work: what the in-memory store stages, and the statements that the
  PostgreSQL store runs for the same changes on the aggregates that it read.
\<close>

type_synonym order_change = "(work_order \<times> int option) option"
type_synonym session_change = "(tracking_session \<times> int option) option"

definition save_order_change :: "order_change \<Rightarrow> okey staged \<Rightarrow> okey staged" where
  "save_order_change ow u = (case ow of None \<Rightarrow> u | Some (w, v) \<Rightarrow> op_save_order async_ops w v u)"

definition save_session_change :: "session_change \<Rightarrow> okey staged \<Rightarrow> okey staged" where
  "save_session_change ox u = (case ox of None \<Rightarrow> u | Some (x, v) \<Rightarrow> op_save_session async_ops x v u)"

definition memory_unit :: "order_change \<Rightarrow> session_change \<Rightarrow> domain_event list \<Rightarrow> okey staged" where
  "memory_unit ow ox es = op_add_events async_ops es (save_session_change ox (save_order_change ow (op_open async_ops)))"

definition pg_statements :: "order_change \<Rightarrow> session_change \<Rightarrow> domain_event list \<Rightarrow> pg_statement list" where
  "pg_statements ow ox es =
     (case ow of None \<Rightarrow> [] | Some (w, v) \<Rightarrow> [SaveOrder w v]) @
     (case ox of None \<Rightarrow> [] | Some (x, v) \<Rightarrow> [SaveSession x v]) @ [AddEvents es]"

definition after_order :: "order_change \<Rightarrow> async_store \<Rightarrow> async_store" where
  "after_order ow s = (case ow of None \<Rightarrow> s | Some (w, v) \<Rightarrow> order_saved s w)"

definition matching_orders :: "async_store \<Rightarrow> order_change \<Rightarrow> order_change \<Rightarrow> bool" where
  "matching_orders s ow' ow \<longleftrightarrow>
     (case (ow', ow) of (None, None) \<Rightarrow> True
      | (Some (w', v'), Some (w, v)) \<Rightarrow> v' = v \<and> same_order w' w \<and> order_ready s w
      | _ \<Rightarrow> False)"

definition matching_sessions :: "async_store \<Rightarrow> session_change \<Rightarrow> session_change \<Rightarrow> bool" where
  "matching_sessions s ox' ox \<longleftrightarrow>
     (case (ox', ox) of (None, None) \<Rightarrow> True
      | (Some (y, v'), Some (x, v)) \<Rightarrow> v' = v \<and> (\<exists>k. same_session k y x \<and> session_ready s x v k)
      | _ \<Rightarrow> False)"

definition orders_accepted :: "async_store \<Rightarrow> order_change \<Rightarrow> bool" where
  "orders_accepted s ow \<longleftrightarrow> (case ow of None \<Rightarrow> True | Some (w, v) \<Rightarrow> order_accepted s w v)"

definition sessions_accepted :: "async_store \<Rightarrow> session_change \<Rightarrow> bool" where
  "sessions_accepted s ox \<longleftrightarrow> (case ox of None \<Rightarrow> True
     | Some (x, v) \<Rightarrow> version_matches v (map_option ts_version (dict_get (session_key x) (ms_sessions s))))"

definition matching_unit :: "async_store \<Rightarrow> okey staged \<Rightarrow> pg_statement list \<Rightarrow> bool" where
  "matching_unit s u cs \<longleftrightarrow> (\<exists>ow ow' ox ox' es. u = memory_unit ow ox es \<and> cs = pg_statements ow' ox' es \<and>
     matching_orders s ow' ow \<and> matching_sessions (after_order ow s) ox' ox \<and>
     (orders_accepted s ow \<and> sessions_accepted s ox \<longrightarrow> events_ready es s))"

definition after_unit :: "order_change \<Rightarrow> session_change \<Rightarrow> domain_event list \<Rightarrow> async_store \<Rightarrow> async_store" where
  "after_unit ow ox es s =
     (let s1 = after_order ow s; s2 = (case ox of None \<Rightarrow> s1 | Some (x, v) \<Rightarrow> session_saved s1 x)
      in s2\<lparr>ms_outbox := ms_outbox s2 @ es\<rparr>)"

lemma commit_outcome:
  "if list_all (\<lambda>g. g = None) (commit_guards u s c) then commit_with c u s = (Inr (), mem_write u s)
   else \<exists>e. commit_with c u s = (Inl e, s)"
  using raise_first_Inr[of "commit_guards u s c" "Inr ()" "()"]
  by (cases "raise_first (commit_guards u s c) (Inr ())") (simp_all add: commit_with_def raise_first_all_None)

lemma memory_unit_outcome:
  assumes r: "represents d s"
  shows "if orders_accepted s ow \<and> sessions_accepted s ox
    then async_commit (memory_unit ow ox es) s = (Inr (), after_unit ow ox es s)
    else \<exists>e. async_commit (memory_unit ow ox es) s = (Inl e, s) \<and> is_conflict e"
proof -
  let ?u = "memory_unit ow ox es"
  have cap: "capacity_scan async_executor_key (map snd (ms_orders s)) [] = None"
  proof -
    have "order_indexes (map (order_values \<circ> snd) (ms_orders s))" using r by (auto simp: represents_def orders_represented_def)
    then show ?thesis by (simp only: order_indexes_values)
  qed
  have u: "sg_orders ?u = (case ow of None \<Rightarrow> [] | Some (w, v) \<Rightarrow> [(order_key w, order_snapshot w, v)])"
    "sg_sessions ?u = (case ox of None \<Rightarrow> [] | Some (x, v) \<Rightarrow> [(session_key x, session_snapshot x, v)])"
    "sg_events ?u = es"
    by (auto simp: memory_unit_def save_order_change_def save_session_change_def async_ops_def async_add_events_def
        async_save_session_def async_save_order_def order_key_def session_key_def split: option.splits)
  have guards: "list_all (\<lambda>g. g = None) (commit_guards ?u s (async_check_capacity s ?u)) \<longleftrightarrow>
      orders_accepted s ow \<and> sessions_accepted s ox"
    using cap by (auto simp: commit_guards_def async_check_capacity_def u orders_accepted_def sessions_accepted_def split: option.splits)
  have written: "mem_write ?u s = after_unit ow ox es s"
    by (auto simp: mem_write_def u after_unit_def after_order_def Let_def split: option.splits)
  have "is_conflict e" if "async_commit ?u s = (Inl e, s)" for e
    by (rule commit_with_Inl[OF that[unfolded async_commit_def], THEN conjunct2])
      (auto simp: async_check_capacity_def dest: capacity_scan_conflict)
  with commit_outcome[of ?u s "async_check_capacity s ?u"] guards written show ?thesis
    by (auto simp: async_commit_def split: if_splits)
qed

lemma after_order_sessions [simp]: "ms_sessions (after_order ow s) = ms_sessions s" "ms_outbox (after_order ow s) = ms_outbox s"
  by (auto simp: after_order_def split: option.splits)

lemma orders_step:
  assumes "represents d s" and "matching_orders s ow' ow"
  shows "if orders_accepted s ow
    then \<exists>d'. pg_body (case ow' of None \<Rightarrow> [] | Some (w, v) \<Rightarrow> [SaveOrder w v]) d = Inr d' \<and> represents d' (after_order ow s)
    else \<exists>e. pg_body (case ow' of None \<Rightarrow> [] | Some (w, v) \<Rightarrow> [SaveOrder w v]) d = Inl e \<and> is_conflict e"
proof (cases ow)
  case (Some e)
  obtain w v where e: "e = (w, v)" by (cases e)
  then obtain w' where w': "ow' = Some (w', v)" "same_order w' w" "order_ready s w"
    using assms(2) Some by (cases ow') (auto simp: matching_orders_def)
  from order_step[OF assms(1) w'(2,3), of v] show ?thesis
    unfolding orders_accepted_def after_order_def Some e w'(1) option.case prod.case
    by (cases "order_accepted s w v") auto
qed (use assms in \<open>auto simp: matching_orders_def orders_accepted_def after_order_def split: option.splits\<close>)

lemma sessions_step:
  assumes "represents d s" and "matching_sessions s ox' ox"
  shows "if sessions_accepted s ox
    then \<exists>d'. pg_body (case ox' of None \<Rightarrow> [] | Some (x, v) \<Rightarrow> [SaveSession x v]) d = Inr d' \<and>
      represents d' (case ox of None \<Rightarrow> s | Some (x, v) \<Rightarrow> session_saved s x)
    else \<exists>e. pg_body (case ox' of None \<Rightarrow> [] | Some (x, v) \<Rightarrow> [SaveSession x v]) d = Inl e \<and> is_conflict e"
proof (cases ox)
  case (Some e)
  obtain x v where e: "e = (x, v)" by (cases e)
  then obtain y k where y: "ox' = Some (y, v)" "same_session k y x" "session_ready s x v k"
    using assms(2) Some by (cases ox') (auto simp: matching_sessions_def)
  from session_step[OF assms(1) y(2,3)] show ?thesis
    unfolding sessions_accepted_def Some e y(1) option.case prod.case
    by (cases "version_matches v (map_option ts_version (dict_get (session_key x) (ms_sessions s)))") auto
qed (use assms in \<open>auto simp: matching_sessions_def sessions_accepted_def split: option.splits\<close>)

lemma pg_body_append: "pg_body (cs @ cs') d = result_bind (pg_body cs d) (pg_body cs')"
proof (induction cs arbitrary: d)
  case (Cons a cs)
  then show ?case by (cases "pg_exec a d") simp_all
qed simp

lemma unit_agrees:
  assumes r: "represents d s" and m: "matching_unit s u cs"
  shows "(\<exists>d' s'. pg_unit cs d = (Inr (), d') \<and> async_commit u s = (Inr (), s') \<and> represents d' s') \<or>
    (\<exists>e e'. pg_unit cs d = (Inl e, d) \<and> async_commit u s = (Inl e', s) \<and> is_conflict e \<and> is_conflict e')"
proof -
  obtain ow ow' ox ox' es where u: "u = memory_unit ow ox es" "cs = pg_statements ow' ox' es"
    and mo: "matching_orders s ow' ow" and ms: "matching_sessions (after_order ow s) ox' ox"
    and ev: "orders_accepted s ow \<and> sessions_accepted s ox \<longrightarrow> events_ready es s"
    using m unfolding matching_unit_def by blast
  let ?co = "case ow' of None \<Rightarrow> [] | Some (w, v) \<Rightarrow> [SaveOrder w v]"
    and ?cx = "case ox' of None \<Rightarrow> [] | Some (x, v) \<Rightarrow> [SaveSession x v]"
  let ?s1 = "after_order ow s"
  let ?s2 = "case ox of None \<Rightarrow> ?s1 | Some (x, v) \<Rightarrow> session_saved ?s1 x"
  have cs: "pg_body cs d = result_bind (pg_body ?co d) (\<lambda>d1. result_bind (pg_body ?cx d1) (\<lambda>d2. pg_body [AddEvents es] d2))"
    unfolding u(2) pg_statements_def pg_body_append by (simp only: pg_body_append)
  note mem = memory_unit_outcome[OF r, of ow ox es, folded u(1)]
  have sa: "sessions_accepted ?s1 ox \<longleftrightarrow> sessions_accepted s ox" by (simp add: sessions_accepted_def split: option.splits)
  show ?thesis
  proof (cases "orders_accepted s ow")
    case False
    then obtain e where "pg_body ?co d = Inl e" "is_conflict e" using orders_step[OF r mo] by auto
    then have "pg_unit cs d = (Inl e, d)" by (simp add: pg_unit_def pg_close_def cs)
    then show ?thesis using mem False \<open>is_conflict e\<close> by auto
  next
    case True
    then obtain d1 where d1: "pg_body ?co d = Inr d1" "represents d1 ?s1" using orders_step[OF r mo] by auto
    note st = sessions_step[OF d1(2) ms]
    show ?thesis
    proof (cases "sessions_accepted s ox")
      case False
      then obtain e where "pg_body ?cx d1 = Inl e" "is_conflict e" using st sa by auto
      then have "pg_unit cs d = (Inl e, d)" using d1(1) by (simp add: pg_unit_def pg_close_def cs)
      then show ?thesis using mem False \<open>is_conflict e\<close> by auto
    next
      case acc: True
      then obtain d2 where d2: "pg_body ?cx d1 = Inr d2" "represents d2 ?s2" using st sa by auto
      have "events_ready es ?s2" using ev True acc by (simp add: events_ready_def split: option.split prod.split)
      from events_step[OF d2(2) this] obtain d3
        where d3: "pg_add_events es d2 = Inr d3" "represents d3 (after_unit ow ox es s)"
        by (auto simp: after_unit_def Let_def)
      have "pg_unit cs d = (Inr (), d3)" using d1(1) d2(1) d3(1) by (simp add: pg_unit_def pg_close_def cs)
      then show ?thesis using mem True acc d3(2) by auto
    qed
  qed
qed

section \<open>The two stores side by side\<close>

inductive lockstep :: "pg_db \<Rightarrow> async_store \<Rightarrow> bool" where
  start: "lockstep empty_db empty_store"
| unit: "lockstep d s \<Longrightarrow> matching_unit s u cs \<Longrightarrow> pg_unit cs d = (Inr (), d') \<Longrightarrow> async_commit u s = (Inr (), s') \<Longrightarrow>
    lockstep d' s'"
| allocate: "lockstep d s \<Longrightarrow> pg_allocate org d = (n, d') \<Longrightarrow> async_allocate org s = (n', s') \<Longrightarrow> lockstep d' s'"

lemma lockstep_represents: "lockstep d s \<Longrightarrow> represents d s"
proof (induction rule: lockstep.induct)
  case start
  then show ?case
    by (simp add: represents_def orders_represented_def sessions_represented_def empty_db_def empty_store_def async_ok_def
        order_indexes_def tracking_indexes_def point_indexes_def)
next
  case (unit d s u cs d' s')
  then show ?case using unit_agrees[of d s u cs] by auto
next
  case (allocate d s org n d' n' s')
  then have "async_ok s'" using async_allocate_ok[of s org] by (auto simp: represents_def)
  with allocate show ?case
    by (auto simp: pg_allocate_def async_allocate_def Let_def represents_def orders_represented_def sessions_represented_def)
qed

section \<open>Properties\<close>

definition demo_unit :: "okey staged" where
  "demo_unit = memory_unit (Some (demo_order, None)) None (wo_events demo_order)"

definition demo_statements :: "pg_statement list" where
  "demo_statements = pg_statements (Some (demo_order, None)) None (wo_events demo_order)"

lemma demo_matching: "matching_unit empty_store demo_unit demo_statements"
proof -
  have "storable demo_order"
    using wo_reachable_inv[OF demo_order_reachable] by (simp add: storable_def demo_order_def wo_record_def Let_def)
  then have "order_ready empty_store demo_order" by (simp add: order_ready_def empty_store_def)
  moreover have "same_order demo_order demo_order" by (simp add: same_order_def)
  moreover have "events_ready (wo_events demo_order) empty_store"
    by (simp add: events_ready_def demo_order_def wo_record_def Let_def empty_store_def)
  ultimately show ?thesis
    unfolding matching_unit_def demo_unit_def demo_statements_def
    by (intro exI[of _ "Some (demo_order, None)"] exI[of _ None] exI conjI refl)
      (auto simp: matching_orders_def matching_sessions_def)
qed

lemma demo_commits: "\<exists>s. async_commit demo_unit empty_store = (Inr (), s) \<and>
    async_get_order ''acme'' ''o1'' s = Inr (order_snapshot demo_order)"
  using memory_unit_outcome[of empty_db empty_store "Some (demo_order, None)" None "wo_events demo_order"]
    lockstep_represents[OF lockstep.start]
  by (simp add: demo_unit_def orders_accepted_def sessions_accepted_def empty_store_def after_unit_def after_order_def
      async_get_order_def demo_order_def order_key_def wo_record_def Let_def)

text \<open>
  What is written is read back: after the same units of work every read of the PostgreSQL store
  answers as the in-memory store does. An order comes back whole, with its responses sorted by their
  instants, a session with its last point and the number of its points, and the search for the active
  session and for a recorded source event find the same.
\<close>

lemma postgres_reads_like_memory:
  assumes "lockstep d s"
  shows "pg_get_order org oid d = result_bind (async_get_order org oid s) (\<lambda>w. Inr (order_read w)) \<and>
    pg_get_session org sid d = result_bind (async_get_session org sid s) (\<lambda>x. Inr (session_view x)) \<and>
    pg_find_active org oid d = result_bind (async_find_active org oid s) (\<lambda>x. Inr (map_option session_view x)) \<and>
    pg_has_source_event org source ev d = async_has_source_event org source ev s"
  using lockstep_represents[OF assms]
  by (simp add: get_order_agrees get_session_agrees find_active_agrees source_event_agrees)

text \<open>
  (C30) The PostgreSQL store and the in-memory store have the same outcome on a unit of work. When
  they served the same units from the empty state, and the next unit saves at most one order and one
  session, as each store read them, with the same expected versions, and adds the same events, then
  both commit, or both raise a concurrency conflict and keep their state; after a commit the
  outboxes are equal and every read of an order, of a session, of the active session of an order and
  of a recorded source event agrees (an order comes back whole with its responses sorted by their
  instants, a session with its last point and the number of its points). What is asked of the unit:
  the order has the invariant of the domain and asks for no negative number of photos, and no other
  order of its organization has its public number; the session has its invariant, and, if its
  version is the stored one, it extends the stored points, its tokens are not those of another
  session, no other session of its order is active, its order is stored, and the source events of
  its new points are not recorded yet; and, if the versions are the stored ones and the executor is
  free, the identifiers of the events and the aggregate versions they carry are new to the outbox. A
  stale unit, which both stores refuse, need not have any of the conditional properties.
\<close>

theorem postgres_commits_like_memory:
  assumes "lockstep d s" and "matching_unit s u cs"
  shows "case (pg_unit cs d, async_commit u s) of
      ((Inr _, d'), (Inr _, s')) \<Rightarrow> lockstep d' s' \<and> pg_outbox d' = ms_outbox s' \<and>
        (\<forall>org oid. pg_get_order org oid d' = result_bind (async_get_order org oid s') (\<lambda>w. Inr (order_read w))) \<and>
        (\<forall>org sid. pg_get_session org sid d' = result_bind (async_get_session org sid s') (\<lambda>x. Inr (session_view x))) \<and>
        (\<forall>org oid. pg_find_active org oid d' = result_bind (async_find_active org oid s') (\<lambda>x. Inr (map_option session_view x))) \<and>
        (\<forall>org source ev. pg_has_source_event org source ev d' = async_has_source_event org source ev s')
    | ((Inl e, d'), (Inl e', s')) \<Rightarrow> is_conflict e \<and> is_conflict e' \<and> d' = d \<and> s' = s
    | _ \<Rightarrow> False"
  using unit_agrees[OF lockstep_represents[OF assms(1)] assms(2)]
proof (elim disjE exE conjE)
  fix d' s' assume c: "pg_unit cs d = (Inr (), d')" "async_commit u s = (Inr (), s')"
  from lockstep.unit[OF assms c] have l: "lockstep d' s'" .
  moreover have "pg_outbox d' = ms_outbox s'" using lockstep_represents[OF l] by (simp add: represents_def)
  ultimately show ?thesis using postgres_reads_like_memory[OF l] c by simp
qed simp

text \<open>The first unit is committed by both stores; the same unit again is stale, and refused by both.\<close>

lemma demo_stale:
  assumes "async_commit demo_unit empty_store = (Inr (), s)"
  shows "matching_unit s demo_unit demo_statements" "\<exists>e. async_commit demo_unit s = (Inl e, s)"
proof -
  have s: "s = after_unit (Some (demo_order, None)) None (wo_events demo_order) empty_store"
    using assms memory_unit_outcome[OF lockstep_represents[OF lockstep.start], of "Some (demo_order, None)" None "wo_events demo_order"]
    by (auto simp: demo_unit_def split: if_splits)
  have l: "\<exists>d. represents d s"
    using unit_agrees[OF lockstep_represents[OF lockstep.start] demo_matching] assms by auto
  have no: "\<not> orders_accepted s (Some (demo_order, None))"
    by (simp add: s orders_accepted_def after_unit_def after_order_def Let_def empty_store_def)
  show "\<exists>e. async_commit demo_unit s = (Inl e, s)"
    using l memory_unit_outcome[of _ s "Some (demo_order, None)" None "wo_events demo_order"] no by (auto simp: demo_unit_def)
  have "storable demo_order"
    using wo_reachable_inv[OF demo_order_reachable] by (simp add: storable_def demo_order_def wo_record_def Let_def)
  then have "order_ready s demo_order"
    by (simp add: order_ready_def s after_unit_def after_order_def Let_def empty_store_def split: if_splits)
  then show "matching_unit s demo_unit demo_statements"
    unfolding matching_unit_def demo_unit_def demo_statements_def using no
    by (intro exI[of _ "Some (demo_order, None)"] exI[of _ None] exI conjI refl)
      (simp_all add: matching_orders_def matching_sessions_def same_order_def)
qed

theorem postgres_commits_like_memory_witness:
  "\<exists>d' s' e e'. pg_unit demo_statements empty_db = (Inr (), d') \<and> async_commit demo_unit empty_store = (Inr (), s') \<and>
    pg_get_order ''acme'' ''o1'' d' = Inr (order_read (order_snapshot demo_order)) \<and>
    pg_unit demo_statements d' = (Inl e, d') \<and> async_commit demo_unit s' = (Inl e', s')"
proof -
  obtain s' where s: "async_commit demo_unit empty_store = (Inr (), s')"
    "async_get_order ''acme'' ''o1'' s' = Inr (order_snapshot demo_order)" using demo_commits by blast
  note first = postgres_commits_like_memory[OF lockstep.start demo_matching, unfolded s(1)]
  obtain d' where d: "pg_unit demo_statements empty_db = (Inr (), d')"
    using first by (cases "pg_unit demo_statements empty_db"; cases "fst (pg_unit demo_statements empty_db)") auto
  from first d have l: "lockstep d' s'" and g: "pg_get_order ''acme'' ''o1'' d' = Inr (order_read (order_snapshot demo_order))"
    using s(2) by simp_all
  obtain e' where e': "async_commit demo_unit s' = (Inl e', s')" using demo_stale(2)[OF s(1)] by blast
  obtain r d2 where "pg_unit demo_statements d' = (r, d2)" by force
  with postgres_commits_like_memory[OF l demo_stale(1)[OF s(1)]] e' s(1) d g show ?thesis by (cases r) auto
qed

lemma postgres_reads_like_memory_witness:
  "\<exists>d s. lockstep d s \<and> pg_get_order ''acme'' ''o1'' d = Inr (order_read (order_snapshot demo_order))"
proof -
  obtain s' where s: "async_commit demo_unit empty_store = (Inr (), s')"
    "async_get_order ''acme'' ''o1'' s' = Inr (order_snapshot demo_order)"
    using demo_commits by blast
  obtain d' where l: "lockstep d' s'"
    using unit_agrees[OF lockstep_represents[OF lockstep.start] demo_matching] lockstep.unit[OF lockstep.start demo_matching] s(1)
    by auto
  from postgres_reads_like_memory[OF l, of "''acme''" "''o1''"] s(2) l show ?thesis by auto
qed

end
