(* ===== verification/Projector.thy ===== *)
theory Projector
  imports Postgres_Store Workers Callbacks Staff_Binding Pack_Store
begin

text \<open>
  Domain events become messages (\<open>PostgresNotificationProjector\<close> in \<open>messaging/projector.py\<close>): for each
  event a list of plans, for each plan its buttons with fresh callback tokens, and for each addressed
  account one row of the outbound queue, all in one transaction that also settles the event. The texts
  are English stand-ins, the card of an order is an argument, and the executor in a payload is a text,
  as the aggregate writes it.
\<close>

section \<open>What is planned for an event\<close>

record planned_button =
  pb_text :: string
  pb_action :: "string option"
  pb_payload :: "(string, json) dict"
  pb_allowed_role :: "string option"
  pb_row :: int
  pb_url :: "string option"
  pb_request_location :: bool

definition make_planned_button :: "planned_button \<Rightarrow> planned_button result" where
  "make_planned_button b =
     (if length (filter (\<lambda>x. x) [pb_action b \<noteq> None, pb_url b \<noteq> None, pb_request_location b]) \<noteq> 1
      then Inl (ValueError ''planned button requires exactly one destination'') else Inr b)"

definition action_button :: "string \<Rightarrow> string \<Rightarrow> (string, json) dict \<Rightarrow> string \<Rightarrow> int \<Rightarrow> planned_button" where
  "action_button text act payload role row = \<lparr>pb_text = text, pb_action = Some act, pb_payload = payload,
     pb_allowed_role = Some role, pb_row = row, pb_url = None, pb_request_location = False\<rparr>"

definition url_button :: "string \<Rightarrow> string \<Rightarrow> string \<Rightarrow> planned_button" where
  "url_button text role url = \<lparr>pb_text = text, pb_action = None, pb_payload = [], pb_allowed_role = Some role,
     pb_row = 0, pb_url = Some url, pb_request_location = False\<rparr>"

record recipient_plan =
  rp_actor_ids :: "string list"
  rp_roles :: "string list"
  rp_text :: string
  rp_buttons :: "planned_button list"
  rp_purpose :: string
  rp_delivery_role :: string

definition to_actors :: "string list \<Rightarrow> string \<Rightarrow> planned_button list \<Rightarrow> string \<Rightarrow> string \<Rightarrow> recipient_plan" where
  "to_actors ids text buttons purpose role = \<lparr>rp_actor_ids = ids, rp_roles = [], rp_text = text,
     rp_buttons = buttons, rp_purpose = purpose, rp_delivery_role = role\<rparr>"

definition to_roles :: "string list \<Rightarrow> string \<Rightarrow> planned_button list \<Rightarrow> string \<Rightarrow> string \<Rightarrow> recipient_plan" where
  "to_roles roles text buttons purpose role = \<lparr>rp_actor_ids = [], rp_roles = roles, rp_text = text,
     rp_buttons = buttons, rp_purpose = purpose, rp_delivery_role = role\<rparr>"

text \<open>The actor of an optional column; Python's truth value leaves out the empty text.\<close>

definition actor_list :: "string option \<Rightarrow> string list" where
  "actor_list a = (case a of None \<Rightarrow> [] | Some x \<Rightarrow> if x = [] then [] else [x])"

definition line :: "string \<Rightarrow> string \<Rightarrow> string" where
  "line a b = a @ CHR 0x0A # b"

definition travel_plans ::
  "string option \<Rightarrow> order_row \<Rightarrow> string \<Rightarrow> string option \<Rightarrow> string option \<Rightarrow> string \<Rightarrow> recipient_plan list result" where
  "travel_plans base o' shown public_token location_token oid =
     (let assignee = actor_list (or_assignee_id o'); coordinators = actor_list (or_coordinator_id o');
          requester = actor_list (or_requester_id o'); url = text_of base;
          link = (\<lambda>make token f. if url \<noteq> [] \<and> text_of token \<noteq> []
            then result_bind (make url (text_of token)) (\<lambda>u. Inr [f u]) else Inr [])
      in result_bind (if requester = [] then Inr [] else link public_tracking_url public_token (\<lambda>u.
            to_actors requester ''The master is on the way. The position can be followed by the link.''
              [url_button ''Open the map'' ''client'' u] ''travel:client'' ''client'')) (\<lambda>client.
         result_bind (if assignee = [] then Inr [] else link location_submission_url location_token (\<lambda>u.
            to_actors assignee ''If the messenger does not share the location, open the backup page.''
              [url_button ''Share the location'' ''master'' u] ''travel:browser_location'' ''master'')) (\<lambda>browser.
         Inr ([to_actors assignee (line ''The trip has begun.'' shown)
                 [action_button ''Start the work'' ''start_work'' [(''order_id'', JStr oid)] ''master'' 0] ''travel'' ''master'',
               to_actors assignee ''Send the location.''
                 [\<lparr>pb_text = ''Send the location'', pb_action = None, pb_payload = [], pb_allowed_role = Some ''master'',
                   pb_row = 0, pb_url = None, pb_request_location = True\<rparr>] ''travel:location'' ''master''] @
              (if coordinators = [] then []
               else [to_actors coordinators (line ''The master is on the way to the order.'' shown) [] ''coordinator_travel'' ''operator'']) @
              client @ browser))))"

definition completed_plans :: "order_row \<Rightarrow> string \<Rightarrow> recipient_plan list" where
  "completed_plans o' shown =
     (let text = line ''The order is completed.'' shown;
          coordinators = actor_list (or_coordinator_id o'); requester = actor_list (or_requester_id o');
          plans = (if coordinators = [] then [] else [to_actors coordinators text [] ''completed:operator'' ''operator'']) @
            (if requester = [] then [] else [to_actors requester text [] ''completed:client'' ''client''])
      in if plans = [] then [to_roles [''operator''] text [] ''completed:operator'' ''operator''] else plans)"

definition cancelled_plans :: "order_row \<Rightarrow> string \<Rightarrow> recipient_plan list" where
  "cancelled_plans o' shown =
     (let text = line ''The order is cancelled.'' shown;
          assignee = actor_list (or_assignee_id o'); requester = actor_list (or_requester_id o')
      in (if assignee = [] then [] else [to_actors assignee text [] ''cancelled:master'' ''master'']) @
         (if requester = [] then [] else [to_actors requester text [] ''cancelled:client'' ''client'']))"

text \<open>A plan for the coordinator of the order, or for all operators when it has none.\<close>

definition to_coordination :: "string list \<Rightarrow> string \<Rightarrow> planned_button list \<Rightarrow> string \<Rightarrow> recipient_plan" where
  "to_coordination coordinators text buttons purpose =
     (if coordinators = [] then to_roles [''operator''] text buttons purpose ''operator''
      else to_actors coordinators text buttons purpose ''operator'')"

definition assignment_plans :: "string \<Rightarrow> order_row \<Rightarrow> string \<Rightarrow> string \<Rightarrow> recipient_plan list" where
  "assignment_plans name o' shown oid =
     (let assignee = actor_list (or_assignee_id o'); coordinators = actor_list (or_coordinator_id o'); ref = [(''order_id'', JStr oid)]
      in if assignee = [] then []
         else [to_actors assignee (line ''An order is assigned to you.'' shown)
                 [action_button ''Accept'' ''accept'' ref ''master'' 0, action_button ''Reject'' ''reject'' ref ''master'' 1]
                 ''assignment'' ''master''] @
              (if coordinators = [] then []
               else [to_actors coordinators (line (if name = ''work_order.first_claim_won'' then ''A master took the order.''
                 else ''A master is assigned to the order.'') shown) [] ''coordinator_assignment'' ''operator'']))"

definition accepted_plans :: "order_row \<Rightarrow> string \<Rightarrow> string \<Rightarrow> recipient_plan list" where
  "accepted_plans o' shown oid =
     (let coordinators = actor_list (or_coordinator_id o'); ref = [(''order_id'', JStr oid)]
      in [to_actors (actor_list (or_assignee_id o')) (line ''The order is accepted.'' shown)
            [action_button ''On the way'' ''start_travel'' ref ''master'' 0, action_button ''Start on site'' ''start_work'' ref ''master'' 1]
            ''executor_accepted'' ''master''] @
         (if coordinators = [] then []
          else [to_actors coordinators (line ''The master accepted the order.'' shown) [] ''coordinator_accepted'' ''operator'']))"

definition event_plans ::
  "string option \<Rightarrow> domain_event \<Rightarrow> order_row option \<Rightarrow> string \<Rightarrow> string option \<Rightarrow> string option \<Rightarrow> recipient_plan list result" where
  "event_plans base e order shown public_token location_token =
     (case order of
        None \<Rightarrow> Inr []
      | Some o' \<Rightarrow>
          let name = ev_name e; oid = aggregate_id e; ref = [(''order_id'', JStr oid)];
              coordinators = actor_list (or_coordinator_id o')
          in if aggregate_type e \<noteq> ''work_order'' then Inr []
             else if name = ''work_order.submitted'' then
               Inr [to_roles [''operator''] (line ''A new order of a client.'' shown)
                 [action_button ''To the pool'' ''pool_publish'' ref ''operator'' 0] ''submitted'' ''operator'']
             else if name = ''work_order.coordination_claimed'' then
               Inr [to_actors (actor_list (Some (payload_text ''coordinator_id'' (ev_payload e))))
                 (line ''You took the order.'' shown) [] ''coordination_claimed'' ''operator'']
             else if name = ''work_order.pool_published'' then
               (let curated = dict_get ''mode'' (ev_payload e) = Some (JStr ''curated'')
                in Inr [to_roles [''master''] shown
                     [action_button (if curated then ''Ready to take'' else ''Take the order'')
                        (if curated then ''pool_interest'' else ''pool_claim'') ref ''master'' 0] ''pool'' ''master''])
             else if name = ''work_order.pool_interest_recorded'' then
               result_bind (get_required ''executor_id'' (ev_payload e)) (\<lambda>j. result_bind (as_str j) (\<lambda>executor.
                 Inr [to_coordination coordinators (line shown (''The master is ready: '' @ executor))
                   [action_button ''Choose the master'' ''assign'' (ref @ [(''executor_id'', JStr executor)]) ''operator'' 0]
                   (''interest:'' @ executor)]))
             else if name \<in> set [''work_order.assigned'', ''work_order.first_claim_won''] then Inr (assignment_plans name o' shown oid)
             else if name = ''work_order.accepted'' then Inr (accepted_plans o' shown oid)
             else if name = ''work_order.travel_started'' then travel_plans base o' shown public_token location_token oid
             else if name = ''work_order.started'' then
               Inr [to_actors (actor_list (or_assignee_id o')) (line (line ''The work has begun.'' shown) ''Send photos and a comment.'')
                 [action_button ''Complete'' ''submit_report'' ref ''master'' 0] ''work_started'' ''master'']
             else if name = ''work_order.completed'' then Inr (completed_plans o' shown)
             else if name = ''work_order.assignment_rejected'' then
               Inr [to_coordination coordinators (line ''The master refused; the order is back in the pool.'' shown) [] ''rejected'']
             else if name = ''work_order.cancelled'' then Inr (cancelled_plans o' shown)
             else Inr [])"

section \<open>The projection of one event\<close>

text \<open>
  One call: the clock, the tokens that are drawn (one for each callback row), the packs, and the text
  of the card.
\<close>

record projection =
  pj_now :: instant
  pj_fresh :: "nat \<Rightarrow> string"
  pj_packs :: "pack_table option"
  pj_labels :: "(string, string) dict"
  pj_base_url :: "string option"
  pj_card :: "order_row \<Rightarrow> pack_definition option \<Rightarrow> string"

record notify_db =
  nd_store :: pg_db
  nd_people :: identity_db
  nd_callbacks :: callback_table
  nd_outbound :: "outbound_row list"
  nd_outbox :: "outbox_row list"

definition active_pack :: "projection \<Rightarrow> string \<Rightarrow> pack_definition option result" where
  "active_pack c org =
     (case pj_packs c of
        None \<Rightarrow> Inr None
      | Some t \<Rightarrow> result_bind (active_revision (pj_labels c) org t) (\<lambda>r. Inr (map_option rv_definition r)))"

definition order_card :: "projection \<Rightarrow> order_row option \<Rightarrow> pack_definition option \<Rightarrow> string" where
  "order_card c o' pack = (case o' of None \<Rightarrow> [] | Some r \<Rightarrow> pj_card c r pack)"

definition button_entry :: "planned_button \<Rightarrow> string option \<Rightarrow> json" where
  "button_entry b token = JObj [(''text'', JStr (pb_text b)), (''callback_token'', opt_str token), (''url'', opt_str (pb_url b)),
     (''request_location'', JBool (pb_url b = None \<and> pb_request_location b)), (''row'', JInt (pb_row b))]"

fun mint_buttons ::
  "projection \<Rightarrow> string \<Rightarrow> planned_button list \<Rightarrow> callback_table \<Rightarrow> (json list \<times> callback_table) result" where
  "mint_buttons c org [] t = Inr ([], t)"
| "mint_buttons c org (b # bs) t =
     (if pb_url b \<noteq> None \<or> pb_request_location b
      then result_bind (mint_buttons c org bs t) (\<lambda>(js, t'). Inr (button_entry b None # js, t'))
      else let token = pj_fresh c (length t)
        in result_bind (callback_create token org (text_of (pb_action b)) (pb_payload b) (pb_allowed_role b) DEFAULT_LIFETIME
             (pj_now c) t) (\<lambda>(a, t1).
           result_bind (mint_buttons c org bs t1) (\<lambda>(js, t'). Inr (button_entry b (Some token) # js, t'))))"

definition holds_role :: "identity_db \<Rightarrow> string \<Rightarrow> string \<Rightarrow> string \<Rightarrow> bool" where
  "holds_role db org actor role \<longleftrightarrow> list_ex (\<lambda>m. is_membership org actor role m \<and> r_active m) (memberships db)"

definition addressed :: "identity_db \<Rightarrow> string \<Rightarrow> string list \<Rightarrow> string list \<Rightarrow> string \<Rightarrow> external_row \<Rightarrow> bool" where
  "addressed db org actor_ids roles delivery_role e \<longleftrightarrow>
     e_org e = org \<and> e_provider e \<in> set [''telegram'', ''max''] \<and>
     list_ex (\<lambda>a. is_actor org (e_actor e) a \<and> a_active a) (actors db) \<and>
     (delivery_role = [] \<or> holds_role db org (e_actor e) delivery_role) \<and>
     (e_actor e \<in> set actor_ids \<or> list_ex (holds_role db org (e_actor e)) roles)"

definition recipient_role :: "identity_db \<Rightarrow> string \<Rightarrow> string list \<Rightarrow> string \<Rightarrow> external_row \<Rightarrow> string" where
  "recipient_role db org roles delivery_role e =
     (if delivery_role \<noteq> [] then delivery_role
      else case find (holds_role db org (e_actor e)) roles of
          Some role \<Rightarrow> role
        | None \<Rightarrow> (case find (is_actor org (e_actor e)) (actors db) of None \<Rightarrow> [] | Some a \<Rightarrow> a_role a))"

definition recipients ::
  "identity_db \<Rightarrow> string \<Rightarrow> string list \<Rightarrow> string list \<Rightarrow> string \<Rightarrow> (external_row \<times> string) list" where
  "recipients db org actor_ids roles delivery_role =
     (if actor_ids = [] \<and> roles = [] then []
      else map (\<lambda>e. (e, recipient_role db org roles delivery_role e))
        (sort_key (\<lambda>e. (e_provider e, e_user e)) (filter (addressed db org actor_ids roles delivery_role) (externals db))))"

definition role_to_consumer_key :: "string \<Rightarrow> string" where
  "role_to_consumer_key role = (if role \<in> set [''admin'', ''operator'', ''master'', ''client''] then role else [])"

definition message_key :: "domain_event \<Rightarrow> recipient_plan \<Rightarrow> external_row \<Rightarrow> string" where
  "message_key e p x = event_id e @ '':'' @ rp_purpose p @ '':'' @ e_provider x @ '':'' @ e_user x"

fun send_plan ::
  "projection \<Rightarrow> domain_event \<Rightarrow> recipient_plan \<Rightarrow> json list \<Rightarrow> (external_row \<times> string) list \<Rightarrow> outbound_row list \<Rightarrow>
   nat \<times> outbound_row list" where
  "send_plan c e p buttons [] t = (0, t)"
| "send_plan c e p buttons ((x, role) # xs) t =
     (let (new, t1) = enqueue (message_key e p x) (ev_organization_id e) (e_provider x) (e_user x) (JStr (rp_text p))
            (JList buttons) (role_to_consumer_key role) (pj_now c) t;
          (n, t2) = send_plan c e p buttons xs t1
      in ((if new then 1 else 0) + n, t2))"

fun send_plans ::
  "projection \<Rightarrow> domain_event \<Rightarrow> recipient_plan list \<Rightarrow> notify_db \<Rightarrow> (nat \<times> notify_db) result" where
  "send_plans c e [] d = Inr (0, d)"
| "send_plans c e (p # ps) d =
     result_bind (mint_buttons c (ev_organization_id e) (rp_buttons p) (nd_callbacks d)) (\<lambda>(buttons, callbacks).
       let xs = recipients (nd_people d) (ev_organization_id e) (rp_actor_ids p) (rp_roles p) (rp_delivery_role p);
           (n, outbound) = send_plan c e p buttons xs (nd_outbound d)
       in result_bind (send_plans c e ps (d\<lparr>nd_callbacks := callbacks, nd_outbound := outbound\<rparr>)) (\<lambda>(m, d'). Inr (n + m, d')))"

definition capabilities :: "domain_event \<Rightarrow> order_row option \<Rightarrow> pg_db \<Rightarrow> string option \<times> string option" where
  "capabilities e o' db =
     (if ev_name e = ''work_order.travel_started'' \<and> o' \<noteq> None
      then case find (\<lambda>r. tr_organization_id r = ev_organization_id e \<and> tr_work_order_id r = aggregate_id e \<and>
             tr_status r = ''active'') (pg_sessions db) of
          None \<Rightarrow> (None, None) | Some r \<Rightarrow> (tr_public_token r, tr_location_token r)
      else (None, None))"

definition planned :: "projection \<Rightarrow> domain_event \<Rightarrow> pg_db \<Rightarrow> recipient_plan list result" where
  "planned c e db =
     (let o' = find (order_row_is (ev_organization_id e) (aggregate_id e)) (pg_orders db)
      in result_bind (active_pack c (ev_organization_id e)) (\<lambda>pack.
         let (public_token, location_token) = capabilities e o' db
         in event_plans (pj_base_url c) e o' (order_card c o' pack) public_token location_token))"

definition project :: "projection \<Rightarrow> domain_event \<Rightarrow> notify_db \<Rightarrow> nat result \<times> notify_db" where
  "project c e d =
     (case result_bind (planned c e (nd_store d)) (\<lambda>plans. send_plans c e plans d) of
        Inl err \<Rightarrow> (Inl err, d)
      | Inr (n, d') \<Rightarrow> (Inr n, d'\<lparr>nd_outbox := mark_projected (event_id e) (pj_now c) (nd_outbox d')\<rparr>))"

end
