(* ===== verification/Projector_Laws.thy ===== *)
theory Projector_Laws
  imports Projector
begin

text \<open>
  Who is told of an event, that nobody addressed is left out, and that telling twice does no harm.
\<close>

section \<open>Who is addressed\<close>

definition audience_ok :: "domain_event \<Rightarrow> order_row \<Rightarrow> recipient_plan \<Rightarrow> bool" where
  "audience_ok e o' p \<longleftrightarrow>
     (rp_delivery_role p = ''operator'' \<and> rp_roles p \<in> {[], [''operator'']} \<or>
      rp_delivery_role p = ''master'' \<and>
        (ev_name e = ''work_order.pool_published'' \<and> rp_actor_ids p = [] \<and> rp_roles p = [''master''] \<or>
         rp_roles p = [] \<and> set (rp_actor_ids p) \<subseteq> set (actor_list (or_assignee_id o'))) \<or>
      rp_delivery_role p = ''client'' \<and> rp_roles p = [] \<and> set (rp_actor_ids p) \<subseteq> set (actor_list (or_requester_id o')))"

definition links_ok :: "string option \<Rightarrow> string option \<Rightarrow> string option \<Rightarrow> recipient_plan \<Rightarrow> bool" where
  "links_ok base public_token location_token p \<longleftrightarrow>
     (\<forall>b \<in> set (rp_buttons p). \<forall>u. pb_url b = Some u \<longrightarrow>
        rp_delivery_role p = ''client'' \<and> public_tracking_url (text_of base) (text_of public_token) = Inr u \<or>
        rp_delivery_role p = ''master'' \<and> rp_roles p = [] \<and>
          location_submission_url (text_of base) (text_of location_token) = Inr u)"

definition fits :: "domain_event \<Rightarrow> order_row \<Rightarrow> string option \<Rightarrow> string option \<Rightarrow> string option \<Rightarrow> recipient_plan \<Rightarrow> bool" where
  "fits e o' base public_token location_token p \<longleftrightarrow> audience_ok e o' p \<and> links_ok base public_token location_token p"

abbreviation no_links :: "planned_button list \<Rightarrow> bool" where
  "no_links bs \<equiv> list_all (\<lambda>b. pb_url b = None) bs"

lemma fits_operator [simp]:
  "no_links bs \<Longrightarrow> fits e o' base pub loc (to_actors ids t bs purpose ''operator'')"
  "no_links bs \<Longrightarrow> fits e o' base pub loc (to_roles [''operator''] t bs purpose ''operator'')"
  "no_links bs \<Longrightarrow> fits e o' base pub loc (to_coordination ids t bs purpose)"
  by (auto simp: fits_def audience_ok_def links_ok_def to_actors_def to_roles_def to_coordination_def list_all_iff)

lemma fits_master [simp]:
  "set ids \<subseteq> set (actor_list (or_assignee_id o')) \<Longrightarrow> no_links bs \<Longrightarrow>
    fits e o' base pub loc (to_actors ids t bs purpose ''master'')"
  "no_links bs \<Longrightarrow> ev_name e = ''work_order.pool_published'' \<Longrightarrow>
    fits e o' base pub loc (to_roles [''master''] t bs purpose ''master'')"
  "location_submission_url (text_of base) (text_of loc) = Inr u \<Longrightarrow>
    fits e o' base pub loc (to_actors (actor_list (or_assignee_id o')) t [url_button b ''master'' u] purpose ''master'')"
  by (auto simp: fits_def audience_ok_def links_ok_def to_actors_def to_roles_def list_all_iff url_button_def)

lemma fits_client [simp]:
  "set ids \<subseteq> set (actor_list (or_requester_id o')) \<Longrightarrow> no_links bs \<Longrightarrow>
    fits e o' base pub loc (to_actors ids t bs purpose ''client'')"
  "public_tracking_url (text_of base) (text_of pub) = Inr u \<Longrightarrow>
    fits e o' base pub loc (to_actors (actor_list (or_requester_id o')) t [url_button b ''client'' u] purpose ''client'')"
  by (auto simp: fits_def audience_ok_def links_ok_def to_actors_def list_all_iff url_button_def)

lemma action_button_url [simp]: "pb_url (action_button t a payload role row) = None"
  by (simp add: action_button_def)

lemma travel_fits:
  assumes "travel_plans base o' shown pub loc oid = Inr plans"
  shows "list_all (fits e o' base pub loc) plans"
  using assms unfolding travel_plans_def Let_def
  by (auto split: if_splits)

lemma other_fits [simp]:
  "list_all (fits e o' base pub loc) (completed_plans o' shown)"
  "list_all (fits e o' base pub loc) (cancelled_plans o' shown)"
  "list_all (fits e o' base pub loc) (assignment_plans name o' shown oid)"
  "list_all (fits e o' base pub loc) (accepted_plans o' shown oid)"
  by (simp_all add: completed_plans_def cancelled_plans_def assignment_plans_def accepted_plans_def Let_def)

lemma event_fits:
  assumes "event_plans base e (Some o') shown pub loc = Inr plans"
  shows "list_all (fits e o' base pub loc) plans"
  using assms travel_fits[of base o' shown pub loc "aggregate_id e" plans e]
  by (auto simp: event_plans_def Let_def split: if_splits)

section \<open>What is queued\<close>

definition sent :: "domain_event \<Rightarrow> recipient_plan \<Rightarrow> json list \<Rightarrow> external_row \<Rightarrow> string \<Rightarrow> outbound_row \<Rightarrow> bool" where
  "sent e p bs x role r \<longleftrightarrow> q_id r = message_key e p x \<and> q_organization_id r = ev_organization_id e \<and>
     q_provider r = e_provider x \<and> msg_recipient_id (q_data r) = e_user x \<and> msg_text (q_data r) = JStr (rp_text p) \<and>
     msg_buttons (q_data r) = JList bs \<and> q_consumer_key r = role_to_consumer_key role \<and> q_status r = Pending"

definition all_queued :: "domain_event \<Rightarrow> recipient_plan \<Rightarrow> (external_row \<times> string) list \<Rightarrow> outbound_row list \<Rightarrow> bool" where
  "all_queued e p xs t \<longleftrightarrow> (\<forall>xr \<in> set xs. message_key e p (fst xr) \<in> q_id ` set t)"

lemma send_plan_rows:
  "send_plan c e p bs xs t = (n, t') \<Longrightarrow> \<exists>new. t' = t @ new \<and> n = length new \<and>
     (\<forall>r \<in> set new. q_id r \<notin> q_id ` set t \<and> (\<exists>xr \<in> set xs. sent e p bs (fst xr) (snd xr) r)) \<and> all_queued e p xs t' \<and>
     (all_queued e p xs t \<longrightarrow> new = [])"
proof (induction xs arbitrary: t n t')
  case Nil
  then show ?case by (simp add: all_queued_def)
next
  case (Cons a xs)
  obtain x role where a: "a = (x, role)" by (cases a)
  obtain b t1 where q: "enqueue (message_key e p x) (ev_organization_id e) (e_provider x) (e_user x) (JStr (rp_text p))
      (JList bs) (role_to_consumer_key role) (pj_now c) t = (b, t1)" by force
  obtain m t2 where m: "send_plan c e p bs xs t1 = (m, t2)" by force
  have res: "n = (if b then 1 else 0) + m" "t' = t2" using Cons.prems a q m by simp_all
  obtain new where new: "t2 = t1 @ new" "m = length new" "all_queued e p xs t2" "all_queued e p xs t1 \<longrightarrow> new = []"
    "\<And>r. r \<in> set new \<Longrightarrow> q_id r \<notin> q_id ` set t1 \<and> (\<exists>xr \<in> set xs. sent e p bs (fst xr) (snd xr) r)"
    using Cons.IH[OF m] by blast
  show ?case
  proof (cases "message_key e p x \<in> q_id ` set t")
    case True
    then have "t1 = t" "\<not> b" using q by (simp_all add: enqueue_def insert_once_def)
    then show ?thesis using True new res a by (intro exI[of _ new]) (auto simp: all_queued_def)
  next
    case False
    obtain r where r: "t1 = t @ [r]" "b" "sent e p bs x role r"
      using q False by (auto simp: enqueue_def insert_once_def sent_def)
    then have "q_id r = message_key e p x" by (simp add: sent_def)
    then show ?thesis using False new res a r
      by (intro exI[of _ "r # new"]) (auto simp: all_queued_def)
  qed
qed

lemma mint_buttons_entries:
  "mint_buttons c org bs t = Inr (js, t') \<Longrightarrow> list_all2 (\<lambda>b j. \<exists>token. j = button_entry b token) bs js"
proof (induction bs arbitrary: t js)
  case (Cons b bs)
  then show ?case by (fastforce simp: Let_def split: if_splits)
qed simp

definition recipients_of :: "identity_db \<Rightarrow> domain_event \<Rightarrow> recipient_plan \<Rightarrow> (external_row \<times> string) list" where
  "recipients_of people e p = recipients people (ev_organization_id e) (rp_actor_ids p) (rp_roles p) (rp_delivery_role p)"

lemma all_queued_mono: "all_queued e p xs t \<Longrightarrow> set t \<subseteq> set t' \<Longrightarrow> all_queued e p xs t'"
  by (auto simp: all_queued_def)

definition delivery :: "identity_db \<Rightarrow> domain_event \<Rightarrow> recipient_plan \<Rightarrow> outbound_row \<Rightarrow> bool" where
  "delivery people e p r \<longleftrightarrow> (\<exists>bs. list_all2 (\<lambda>b j. \<exists>token. j = button_entry b token) (rp_buttons p) bs \<and>
     (\<exists>xr \<in> set (recipients_of people e p). sent e p bs (fst xr) (snd xr) r))"

definition served :: "identity_db \<Rightarrow> domain_event \<Rightarrow> recipient_plan list \<Rightarrow> outbound_row list \<Rightarrow> bool" where
  "served people e ps t \<longleftrightarrow> (\<forall>p \<in> set ps. all_queued e p (recipients_of people e p) t)"

lemma served_simps [simp]:
  "served people e [] t"
  "served people e (p # ps) t \<longleftrightarrow> all_queued e p (recipients_of people e p) t \<and> served people e ps t"
  by (simp_all add: served_def)

lemma served_mono: "served people e ps t \<Longrightarrow> set t \<subseteq> set t' \<Longrightarrow> served people e ps t'"
  unfolding served_def by (blast intro: all_queued_mono)

definition grown :: "identity_db \<Rightarrow> domain_event \<Rightarrow> recipient_plan list \<Rightarrow> outbound_row list \<Rightarrow> nat \<Rightarrow> outbound_row list \<Rightarrow> bool" where
  "grown people e ps t n t' \<longleftrightarrow> (\<exists>new. t' = t @ new \<and> n = length new \<and>
     (\<forall>r \<in> set new. q_id r \<notin> q_id ` set t \<and> (\<exists>p \<in> set ps. delivery people e p r)) \<and>
     (served people e ps t \<longrightarrow> new = []))"

lemma grown_plan:
  assumes "send_plan c e p bs (recipients_of people e p) t = (n, t')"
    and "list_all2 (\<lambda>b j. \<exists>token. j = button_entry b token) (rp_buttons p) bs"
  shows "grown people e [p] t n t' \<and> served people e [p] t'"
  using send_plan_rows[OF assms(1)] assms(2) unfolding grown_def delivery_def by fastforce

lemma grown_append:
  assumes "grown people e [p] t k t1" "grown people e ps t1 m t2"
  shows "grown people e (p # ps) t (k + m) t2"
proof -
  obtain new1 where a: "t1 = t @ new1" "k = length new1" "served people e [p] t \<longrightarrow> new1 = []"
    "\<And>r. r \<in> set new1 \<Longrightarrow> q_id r \<notin> q_id ` set t \<and> delivery people e p r"
    using assms(1) unfolding grown_def by auto
  obtain new2 where b: "t2 = t1 @ new2" "m = length new2" "served people e ps t1 \<longrightarrow> new2 = []"
    "\<And>r. r \<in> set new2 \<Longrightarrow> q_id r \<notin> q_id ` set t1 \<and> (\<exists>q \<in> set ps. delivery people e q r)"
    using assms(2) unfolding grown_def by auto
  have "served people e (p # ps) t \<longrightarrow> new1 @ new2 = []" using a b served_mono[of people e ps t t1] by auto
  then show ?thesis unfolding grown_def using a b by (intro exI[of _ "new1 @ new2"]) auto
qed

lemma send_plans_rows:
  "send_plans c e ps d = Inr (n, d') \<Longrightarrow>
    grown (nd_people d) e ps (nd_outbound d) n (nd_outbound d') \<and> served (nd_people d) e ps (nd_outbound d') \<and>
    nd_people d' = nd_people d \<and> nd_store d' = nd_store d \<and> nd_outbox d' = nd_outbox d"
proof (induction ps arbitrary: d n)
  case Nil
  then show ?case by (auto simp: grown_def)
next
  case (Cons p ps)
  obtain bs cb where b: "mint_buttons c (ev_organization_id e) (rp_buttons p) (nd_callbacks d) = Inr (bs, cb)"
    using Cons.prems by (cases "mint_buttons c (ev_organization_id e) (rp_buttons p) (nd_callbacks d)") auto
  obtain k t1 where k: "send_plan c e p bs (recipients_of (nd_people d) e p) (nd_outbound d) = (k, t1)" by force
  let ?d = "d\<lparr>nd_callbacks := cb, nd_outbound := t1\<rparr>"
  obtain m where m: "send_plans c e ps ?d = Inr (m, d')" "n = k + m"
    using Cons.prems b k
    by (cases "send_plans c e ps ?d") (auto simp: Let_def recipients_of_def)
  have first: "grown (nd_people d) e [p] (nd_outbound d) k t1" "served (nd_people d) e [p] t1"
    using grown_plan[OF k mint_buttons_entries[OF b]] by auto
  have rest: "grown (nd_people d) e ps t1 m (nd_outbound d')" "served (nd_people d) e ps (nd_outbound d')"
    "nd_people d' = nd_people d" "nd_store d' = nd_store d" "nd_outbox d' = nd_outbox d"
    using Cons.IH[OF m(1)] by simp_all
  have "set t1 \<subseteq> set (nd_outbound d')" using rest(1) unfolding grown_def by auto
  then have "served (nd_people d) e [p] (nd_outbound d')" using first(2) by (rule served_mono[rotated])
  then show ?case using grown_append[OF first(1) rest(1)] rest m(2) by simp
qed

section \<open>What a projection does\<close>

lemma active_order:
  "find (order_row_is org oid) t = Some o' \<Longrightarrow> o' \<in> set t \<and> or_organization_id o' = org \<and> or_id o' = oid"
  by (auto simp: find_Some_iff order_row_is_def in_set_conv_nth)

definition subject :: "domain_event \<Rightarrow> notify_db \<Rightarrow> order_row option" where
  "subject e d = find (order_row_is (ev_organization_id e) (aggregate_id e)) (pg_orders (nd_store d))"

definition tracking_tokens :: "domain_event \<Rightarrow> notify_db \<Rightarrow> string option \<times> string option" where
  "tracking_tokens e d = capabilities e (subject e d) (nd_store d)"

lemma planned_subject:
  assumes "planned c e (nd_store d) = Inr plans" "plans \<noteq> []"
  obtains o' where "subject e d = Some o'"
    "list_all (fits e o' (pj_base_url c) (fst (tracking_tokens e d)) (snd (tracking_tokens e d))) plans"
proof -
  obtain pub loc where t: "capabilities e (subject e d) (nd_store d) = (pub, loc)" by force
  obtain shown where e: "event_plans (pj_base_url c) e (subject e d) shown pub loc = Inr plans"
    using assms(1) t unfolding planned_def subject_def
    by (cases "active_pack c (ev_organization_id e)") (auto simp: Let_def)
  then obtain o' where "subject e d = Some o'" using assms(2) by (cases "subject e d") (auto simp: event_plans_def)
  with e event_fits[of "pj_base_url c" e o' shown pub loc plans] t show ?thesis
    using that by (simp add: tracking_tokens_def)
qed

lemma project_cases:
  assumes "project c e d = (r, d')"
  obtains (failed) err where "r = Inl err" "d' = d"
  | (projected) n plans d1 where "r = Inr n" "planned c e (nd_store d) = Inr plans" "send_plans c e plans d = Inr (n, d1)"
      "d' = d1\<lparr>nd_outbox := mark_projected (event_id e) (pj_now c) (nd_outbox d1)\<rparr>"
proof (cases "planned c e (nd_store d)")
  case (Inr plans)
  show ?thesis
  proof (cases "send_plans c e plans d")
    case (Inl err)
    then show ?thesis using assms \<open>planned c e (nd_store d) = Inr plans\<close> by (intro failed) (auto simp: project_def)
  next
    case (Inr x)
    obtain n d1 where "x = (n, d1)" by (cases x)
    with Inr \<open>planned c e (nd_store d) = Inr plans\<close> assms show ?thesis
      by (intro projected[of n plans d1]) (auto simp: project_def)
  qed
qed (use assms in \<open>intro failed, auto simp: project_def\<close>)

text \<open>The addresses in the buttons of a message.\<close>

definition message_urls :: "json \<Rightarrow> string list" where
  "message_urls j = (case j of
     JList bs \<Rightarrow> concat (map (\<lambda>b. case b of
       JObj d \<Rightarrow> (case dict_get ''url'' d of Some (JStr u) \<Rightarrow> [u] | _ \<Rightarrow> []) | _ \<Rightarrow> []) bs)
   | _ \<Rightarrow> [])"

lemma entry_urls: "message_urls (JList [button_entry b token]) = (case pb_url b of None \<Rightarrow> [] | Some u \<Rightarrow> [u])"
  by (cases "pb_url b") (simp_all add: message_urls_def button_entry_def)

lemma message_urls_of_plan:
  assumes "list_all2 (\<lambda>b j. \<exists>token. j = button_entry b token) bs js"
  shows "set (message_urls (JList js)) = {u. \<exists>b \<in> set bs. pb_url b = Some u}"
  using assms
proof (induction rule: list_all2_induct)
  case (Cons b bs j js)
  obtain token where "j = button_entry b token" using Cons.hyps by blast
  moreover have "message_urls (JList (j # js)) = message_urls (JList [j]) @ message_urls (JList js)"
    by (simp add: message_urls_def)
  ultimately show ?case using Cons.IH by (auto simp: entry_urls split: option.splits)
qed (simp add: message_urls_def)

text \<open>
  Whom a queued message reaches: an account of the organization of the event, of an active person who holds
  the role under which the message is delivered; and what that role may learn.
\<close>

definition entitled :: "domain_event \<Rightarrow> order_row \<Rightarrow> string \<Rightarrow> string \<Rightarrow> bool" where
  "entitled e o' role actor \<longleftrightarrow> role = ''operator'' \<or>
     role = ''master'' \<and> (ev_name e = ''work_order.pool_published'' \<or> or_assignee_id o' = Some actor) \<or>
     role = ''client'' \<and> or_requester_id o' = Some actor"

definition reaches_audience :: "identity_db \<Rightarrow> domain_event \<Rightarrow> order_row \<Rightarrow> outbound_row \<Rightarrow> bool" where
  "reaches_audience people e o' r \<longleftrightarrow> (\<exists>x \<in> set (externals people).
     q_organization_id r = ev_organization_id e \<and> e_org x = ev_organization_id e \<and>
     e_provider x = q_provider r \<and> e_user x = msg_recipient_id (q_data r) \<and>
     (\<exists>a \<in> set (actors people). is_actor (ev_organization_id e) (e_actor x) a \<and> a_active a) \<and>
     holds_role people (ev_organization_id e) (e_actor x) (q_consumer_key r) \<and>
     entitled e o' (q_consumer_key r) (e_actor x))"

definition links_for_recipient :: "string option \<Rightarrow> string option \<times> string option \<Rightarrow> outbound_row \<Rightarrow> bool" where
  "links_for_recipient base tokens r \<longleftrightarrow> (\<forall>u \<in> set (message_urls (msg_buttons (q_data r))).
     q_consumer_key r = ''client'' \<and> public_tracking_url (text_of base) (text_of (fst tokens)) = Inr u \<or>
     q_consumer_key r = ''master'' \<and> location_submission_url (text_of base) (text_of (snd tokens)) = Inr u)"

lemma actor_list_set: "x \<in> set (actor_list a) \<Longrightarrow> a = Some x"
  by (auto simp: actor_list_def split: option.splits if_splits)

lemma delivery_reaches:
  assumes "fits e o' base pub loc p" "delivery people e p r"
  shows "reaches_audience people e o' r" "links_for_recipient base (pub, loc) r"
proof -
  obtain bs x role where bs: "list_all2 (\<lambda>b j. \<exists>token. j = button_entry b token) (rp_buttons p) bs"
    and x: "(x, role) \<in> set (recipients_of people e p)" and s: "sent e p bs x role r"
    using assms(2) unfolding delivery_def by auto
  have p: "audience_ok e o' p" "links_ok base pub loc p" using assms(1) by (simp_all add: fits_def)
  then have known: "rp_delivery_role p \<in> {''operator'', ''master'', ''client''}" by (auto simp: audience_ok_def)
  then have nonempty: "rp_delivery_role p \<noteq> []" by auto
  have a: "x \<in> set (externals people)"
    "addressed people (ev_organization_id e) (rp_actor_ids p) (rp_roles p) (rp_delivery_role p) x"
    "role = rp_delivery_role p"
    using x nonempty by (auto simp: recipients_of_def recipients_def recipient_role_def split: if_splits)
  have key: "q_consumer_key r = rp_delivery_role p"
    using s known a(3) by (auto simp: sent_def role_to_consumer_key_def)
  have "entitled e o' (rp_delivery_role p) (e_actor x)"
    using p(1) a(2) by (auto simp: entitled_def audience_ok_def addressed_def dest!: actor_list_set subsetD)
  then show "reaches_audience people e o' r"
    using s a nonempty by (auto simp: reaches_audience_def key sent_def addressed_def list_ex_iff intro!: bexI[of _ x])
  have "msg_buttons (q_data r) = JList bs" using s by (simp add: sent_def)
  then show "links_for_recipient base (pub, loc) r"
    using p(2) message_urls_of_plan[OF bs] by (fastforce simp: links_for_recipient_def links_ok_def key)
qed

lemma grown_member:
  "grown people e ps t n t' \<Longrightarrow> r \<in> set t' \<Longrightarrow> r \<notin> set t \<Longrightarrow> \<exists>p. p \<in> set ps \<and> delivery people e p r"
  unfolding grown_def by auto

text \<open>
  (C31) Every message that a projection queues goes to an account in the organization of the event, of an active
  person who holds the role it is delivered under. A client is told of an order only as its requester and a
  master only as its assignee, or when the order was published in the pool. A link in the message is the
  public map for the requester or the location page for the assignee, never the one for the other.
\<close>

theorem notifications_reach_their_audience:
  assumes "project c e d = (Inr n, d')" and "r \<in> set (nd_outbound d')" and "r \<notin> set (nd_outbound d)"
  shows "\<exists>o' \<in> set (pg_orders (nd_store d)). or_organization_id o' = ev_organization_id e \<and> or_id o' = aggregate_id e \<and>
    reaches_audience (nd_people d) e o' r \<and> links_for_recipient (pj_base_url c) (tracking_tokens e d) r"
  using assms(1)
proof (cases rule: project_cases)
  case (projected m plans d1)
  note rows = send_plans_rows[OF projected(3)]
  have "r \<in> set (nd_outbound d1)" using assms(2) projected(4) by simp
  then obtain p where p: "p \<in> set plans" "delivery (nd_people d) e p r"
    using grown_member[of "nd_people d" e plans] rows assms(3) by blast
  then have "plans \<noteq> []" by auto
  then obtain o' where o: "subject e d = Some o'"
    "list_all (fits e o' (pj_base_url c) (fst (tracking_tokens e d)) (snd (tracking_tokens e d))) plans"
    using planned_subject[OF projected(2)] by blast
  then have "fits e o' (pj_base_url c) (fst (tracking_tokens e d)) (snd (tracking_tokens e d)) p"
    using p(1) by (simp add: list_all_iff)
  from delivery_reaches[OF this p(2)] show ?thesis
    using active_order[OF o(1)[unfolded subject_def]] by auto
qed simp

text \<open>
  (C32) A domain event that is projected again adds nothing to the outbound queue, as long as the
  database of orders and sessions, the packs and the people are those of the first projection and
  every message key that was queued then is still there (messages may have been sent since, and
  others queued behind them; the clock, the callback tokens that are drawn, the callbacks and the
  outbox may be any): it counts zero new messages or raises and leaves everything as it was.
\<close>

theorem repeated_projection_queues_nothing:
  assumes "project c e d = (Inr n, d')"
    and "nd_store later = nd_store d" "nd_people later = nd_people d"
    and "q_id ` set (nd_outbound d') \<subseteq> q_id ` set (nd_outbound later)"
  shows "(case project (c\<lparr>pj_now := now, pj_fresh := fresh\<rparr>) e later of
    (r, later') \<Rightarrow> nd_outbound later' = nd_outbound later \<and> (r = Inr 0 \<or> (\<exists>err. r = Inl err \<and> later' = later)))"
proof -
  let ?c = "c\<lparr>pj_now := now, pj_fresh := fresh\<rparr>"
  have same: "planned ?c e db = planned c e db" for db
    by (simp add: planned_def active_pack_def order_card_def cong: option.case_cong)
  obtain r later' where again: "project ?c e later = (r, later')" by force
  from assms(1) obtain plans d1 where first: "planned c e (nd_store d) = Inr plans"
      "send_plans c e plans d = Inr (n, d1)" "nd_outbound d' = nd_outbound d1"
    by (cases rule: project_cases) auto
  have "served (nd_people d) e plans (nd_outbound d')" using send_plans_rows[OF first(2)] first(3) by simp
  then have queued: "served (nd_people later) e plans (nd_outbound later)"
    using assms(3,4) unfolding served_def all_queued_def by (metis subsetD)
  from again have "nd_outbound later' = nd_outbound later \<and> (r = Inr 0 \<or> (\<exists>err. r = Inl err \<and> later' = later))"
  proof (cases rule: project_cases)
    case (projected m plans' d2)
    then have "plans' = plans" using first(1) assms(2) same by simp
    with send_plans_rows[OF projected(3)] projected queued show ?thesis
      by (auto simp: grown_def)
  qed auto
  then show ?thesis by (simp add: again)
qed

text \<open>
  The keys of the messages of one event tell plans, providers and accounts apart, although purposes have
  colons of their own.
\<close>

definition distinguishes :: "string \<Rightarrow> string \<Rightarrow> bool" where
  "distinguishes s s' \<longleftrightarrow> (\<forall>provider \<in> {''telegram'', ''max''}. \<forall>provider' \<in> {''telegram'', ''max''}. \<forall>user user'.
     s @ '':'' @ provider @ '':'' @ user \<noteq> s' @ '':'' @ provider' @ '':'' @ user')"

abbreviation apart :: "recipient_plan \<Rightarrow> recipient_plan \<Rightarrow> bool" where
  "apart p p' \<equiv> distinguishes (rp_purpose p) (rp_purpose p')"

lemma plan_purpose [simp]:
  "rp_purpose (to_actors ids text bs purpose role) = purpose" "rp_purpose (to_roles roles text bs purpose role) = purpose"
  by (simp_all add: to_actors_def to_roles_def)

lemma travel_purposes:
  "distinguishes ''travel'' ''travel:location''" "distinguishes ''travel'' ''coordinator_travel''"
  "distinguishes ''travel'' ''travel:client''" "distinguishes ''travel'' ''travel:browser_location''"
  "distinguishes ''travel:location'' ''coordinator_travel''" "distinguishes ''travel:location'' ''travel:client''"
  "distinguishes ''travel:location'' ''travel:browser_location''" "distinguishes ''coordinator_travel'' ''travel:client''"
  "distinguishes ''coordinator_travel'' ''travel:browser_location''" "distinguishes ''travel:client'' ''travel:browser_location''"
  by (simp_all add: distinguishes_def)

lemma travel_apart:
  assumes "travel_plans base o' shown pub loc oid = Inr plans"
  shows "sorted_wrt apart plans"
  using assms by (auto simp: travel_plans_def Let_def travel_purposes split: if_splits)

lemma event_plans_apart:
  assumes "event_plans base e order shown pub loc = Inr plans"
  shows "sorted_wrt apart plans"
proof (cases order)
  case (Some o')
  have "sorted_wrt apart (completed_plans o' shown)" "sorted_wrt apart (cancelled_plans o' shown)"
    "sorted_wrt apart (assignment_plans name o' shown oid)" "sorted_wrt apart (accepted_plans o' shown oid)" for name oid
    by (auto simp: completed_plans_def cancelled_plans_def assignment_plans_def accepted_plans_def Let_def distinguishes_def)
  then show ?thesis
    using assms Some travel_apart by (auto simp: event_plans_def Let_def split: if_splits)
qed (use assms in \<open>simp add: event_plans_def\<close>)


lemma addressed_provider: "addressed people org ids roles role x \<Longrightarrow> e_provider x \<in> {''telegram'', ''max''}"
  by (simp add: addressed_def)

lemma same_purpose_key:
  assumes "provider \<in> {''telegram'', ''max''}" "provider' \<in> {''telegram'', ''max''}"
    and "purpose @ '':'' @ provider @ '':'' @ user = purpose @ '':'' @ provider' @ '':'' @ user'"
  shows "provider = provider' \<and> user = user'"
  using assms by auto

lemma message_key_inj:
  assumes "sorted_wrt apart plans" "p \<in> set plans" "p' \<in> set plans"
    and x: "e_provider x \<in> {''telegram'', ''max''}" "e_provider x' \<in> {''telegram'', ''max''}"
    and k: "message_key e p x = message_key e p' x'"
  shows "p = p' \<and> e_provider x = e_provider x' \<and> e_user x = e_user x'"
proof -
  obtain i j where i: "i < length plans" "p = plans ! i" and j: "j < length plans" "p' = plans ! j"
    using assms(2,3) by (auto simp: in_set_conv_nth)
  have eq: "rp_purpose p @ '':'' @ e_provider x @ '':'' @ e_user x = rp_purpose p' @ '':'' @ e_provider x' @ '':'' @ e_user x'"
    using k by (simp add: message_key_def)
  have "\<not> apart p p'" "\<not> apart p' p"
    using x eq eq[symmetric] unfolding distinguishes_def by blast+
  then have "p = p'" using assms(1) i j by (cases i j rule: linorder_cases) (auto simp: sorted_wrt_iff_nth_less)
  with same_purpose_key[OF x] eq show ?thesis by simp
qed

lemma planned_apart:
  assumes "planned c e db = Inr plans"
  shows "sorted_wrt apart plans" and "p \<in> set plans \<Longrightarrow> rp_delivery_role p \<noteq> []"
proof -
  obtain order shown pub loc where e: "event_plans (pj_base_url c) e order shown pub loc = Inr plans"
    using assms unfolding planned_def by (cases "active_pack c (ev_organization_id e)") (auto simp: Let_def split: prod.splits)
  then show "sorted_wrt apart plans" by (rule event_plans_apart)
  show "rp_delivery_role p \<noteq> []" if "p \<in> set plans"
  proof (cases order)
    case (Some o')
    then have "fits e o' (pj_base_url c) pub loc p" using event_fits[of "pj_base_url c" e o' shown pub loc plans] e that
      by (simp add: list_all_iff)
    then show ?thesis by (auto simp: fits_def audience_ok_def)
  qed (use e that in \<open>simp add: event_plans_def\<close>)
qed

lemma recipient_in:
  assumes "addressed people (ev_organization_id e) (rp_actor_ids p) (rp_roles p) (rp_delivery_role p) x" "x \<in> set (externals people)"
    and "rp_delivery_role p \<noteq> []"
  shows "(x, rp_delivery_role p) \<in> set (recipients_of people e p)"
proof -
  have "\<not> (rp_actor_ids p = [] \<and> rp_roles p = [])" using assms(1) by (auto simp: addressed_def)
  then show ?thesis using assms by (auto simp: recipients_of_def recipients_def recipient_role_def)
qed

lemma recipient_out:
  "(x, role) \<in> set (recipients_of people e p) \<Longrightarrow> rp_delivery_role p \<noteq> [] \<Longrightarrow>
    addressed people (ev_organization_id e) (rp_actor_ids p) (rp_roles p) (rp_delivery_role p) x \<and> role = rp_delivery_role p"
  by (auto simp: recipients_of_def recipients_def recipient_role_def split: if_splits)

definition message_for :: "domain_event \<Rightarrow> recipient_plan \<Rightarrow> external_row \<Rightarrow> outbound_row \<Rightarrow> bool" where
  "message_for e p x r \<longleftrightarrow> q_organization_id r = ev_organization_id e \<and> q_provider r = e_provider x \<and>
     msg_recipient_id (q_data r) = e_user x \<and> msg_text (q_data r) = JStr (rp_text p) \<and>
     (\<exists>bs. msg_buttons (q_data r) = JList bs \<and> list_all2 (\<lambda>b j. \<exists>token. j = button_entry b token) (rp_buttons p) bs) \<and>
     q_consumer_key r = role_to_consumer_key (rp_delivery_role p) \<and> q_status r = Pending"

lemma served_recipient:
  assumes plans: "planned c e (nd_store d) = Inr plans" and sp: "send_plans c e plans d = Inr (n, d1)"
    and fresh: "\<forall>k \<in> q_id ` set (nd_outbound d). \<not> str_starts_with (event_id e @ '':'') k"
    and p: "p \<in> set plans" and x: "x \<in> set (externals (nd_people d))"
      "addressed (nd_people d) (ev_organization_id e) (rp_actor_ids p) (rp_roles p) (rp_delivery_role p) x"
  shows "\<exists>r \<in> set (nd_outbound d1). r \<notin> set (nd_outbound d) \<and> message_for e p x r"
proof -
  note role = planned_apart(2)[OF plans]
  from send_plans_rows[OF sp] have g: "grown (nd_people d) e plans (nd_outbound d) n (nd_outbound d1)"
    and s: "served (nd_people d) e plans (nd_outbound d1)" by auto
  from recipient_in[OF x(2,1) role[OF p]] s p obtain r where r: "r \<in> set (nd_outbound d1)" "q_id r = message_key e p x"
    by (force simp: served_def all_queued_def)
  have "str_starts_with (event_id e @ '':'') (message_key e p x)" by (simp add: str_starts_with_def message_key_def)
  with fresh r(2) have new: "r \<notin> set (nd_outbound d)" by force
  from grown_member[OF g r(1) new] obtain p' where p': "p' \<in> set plans" "delivery (nd_people d) e p' r" by blast
  then obtain bs x' role where d: "list_all2 (\<lambda>b j. \<exists>token. j = button_entry b token) (rp_buttons p') bs"
    "(x', role) \<in> set (recipients_of (nd_people d) e p')" "sent e p' bs x' role r" by (auto simp: delivery_def)
  note out = recipient_out[OF d(2) role[OF p'(1)]]
  have "message_key e p x = message_key e p' x'" using r(2) d(3) by (simp add: sent_def)
  from message_key_inj[OF planned_apart(1)[OF plans] p p'(1) addressed_provider[OF x(2)] addressed_provider this] out
  have "p' = p" "e_provider x' = e_provider x" "e_user x' = e_user x" by metis+
  with d out have "message_for e p x r" by (auto simp: message_for_def sent_def)
  with r(1) new show ?thesis by blast
qed

text \<open>
  (C33) A projection serves everyone. If it returns, and no message of the event was queued before,
  then behind the queue as it was stand exactly the new messages, their number is the count, and for
  every plan of the event and every account of the organization that the plan addresses (an active
  person who holds the role of delivery, and is named by the plan or holds a role it names) there is
  a message of its own: to that account by its messenger, with the text and the buttons of the plan,
  under the role of the plan, due to be sent. No message goes to anybody else, and the event, if a
  worker was processing it, is delivered in the same transaction.
\<close>

theorem projection_serves_everyone:
  assumes "project c e d = (Inr n, d')"
    and "\<forall>k \<in> q_id ` set (nd_outbound d). \<not> str_starts_with (event_id e @ '':'') k"
  shows "\<exists>plans new. planned c e (nd_store d) = Inr plans \<and> nd_outbound d' = nd_outbound d @ new \<and> n = length new \<and>
    (\<forall>p \<in> set plans. \<forall>x \<in> set (externals (nd_people d)).
      addressed (nd_people d) (ev_organization_id e) (rp_actor_ids p) (rp_roles p) (rp_delivery_role p) x \<longrightarrow>
      (\<exists>r \<in> set new. message_for e p x r)) \<and>
    (\<forall>r \<in> set new. \<exists>p \<in> set plans. \<exists>x.
      addressed (nd_people d) (ev_organization_id e) (rp_actor_ids p) (rp_roles p) (rp_delivery_role p) x \<and> message_for e p x r) \<and>
    (\<forall>r. row_of (event_id e) (nd_outbox d) = Some r \<and> q_status r = Processing \<longrightarrow>
      (\<exists>r'. row_of (event_id e) (nd_outbox d') = Some r' \<and> q_status r' = Delivered))"
  using assms(1)
proof (cases rule: project_cases)
  case (projected m plans d1)
  from send_plans_rows[OF projected(3)] obtain new where new: "nd_outbound d1 = nd_outbound d @ new" "n = length new"
    "\<And>r. r \<in> set new \<Longrightarrow> r \<notin> set (nd_outbound d) \<and> (\<exists>p \<in> set plans. delivery (nd_people d) e p r)"
    and outbox: "nd_outbox d1 = nd_outbox d"
    using projected(1) unfolding grown_def by blast
  have all: "\<exists>r \<in> set new. message_for e p x r" if "p \<in> set plans" "x \<in> set (externals (nd_people d))"
    "addressed (nd_people d) (ev_organization_id e) (rp_actor_ids p) (rp_roles p) (rp_delivery_role p) x" for p x
    using served_recipient[OF projected(2,3) assms(2) that] unfolding new(1) by auto
  have only: "\<exists>p \<in> set plans. \<exists>x.
      addressed (nd_people d) (ev_organization_id e) (rp_actor_ids p) (rp_roles p) (rp_delivery_role p) x \<and> message_for e p x r"
    if r: "r \<in> set new" for r
  proof -
    obtain p where p: "p \<in> set plans" "delivery (nd_people d) e p r" using new(3)[OF r] by blast
    then obtain bs x role where d: "list_all2 (\<lambda>b j. \<exists>token. j = button_entry b token) (rp_buttons p) bs"
      "(x, role) \<in> set (recipients_of (nd_people d) e p)" "sent e p bs x role r" by (auto simp: delivery_def)
    from recipient_out[OF d(2) planned_apart(2)[OF projected(2) p(1)]] d p(1) show ?thesis
      by (intro bexI[of _ p] exI[of _ x]) (auto simp: message_for_def sent_def)
  qed
  have "\<exists>r'. row_of (event_id e) (nd_outbox d') = Some r' \<and> q_status r' = Delivered"
    if "row_of (event_id e) (nd_outbox d) = Some r" "q_status r = Processing" for r
    using that row_of_id[OF that(1)] by (simp add: projected(4) outbox mark_projected_def row_of_mark_done)
  with all only new(1,2) projected(2,4) show ?thesis by (intro exI[of _ plans] exI[of _ new]) simp
qed simp

section \<open>A new order is announced\<close>

definition demo_people :: identity_db where
  "demo_people = \<lparr>
     actors = [\<lparr>a_org = ''acme'', a_id = ''op'', a_role = ''operator'', a_name = ''Op'', a_phone = None, a_bind_code = None,
       a_bind_expires = None, a_active = True, a_creation_key = None\<rparr>],
     memberships = [\<lparr>r_org = ''acme'', r_actor = ''op'', r_role = ''operator'', r_active = True, r_granted = 1, r_revoked = None\<rparr>],
     externals = [\<lparr>e_org = ''acme'', e_provider = ''telegram'', e_user = ''7'', e_actor = ''op''\<rparr>]\<rparr>"

definition demo_projection :: projection where
  "demo_projection = \<lparr>pj_now = 5, pj_fresh = \<lambda>n. ''t'', pj_packs = None, pj_labels = [], pj_base_url = None, pj_card = \<lambda>_ _. ''card''\<rparr>"

definition demo_notify :: notify_db where
  "demo_notify = \<lparr>nd_store = empty_db\<lparr>pg_orders := [order_values Work_Order_Lifecycle.demo_order]\<rparr>, nd_people = demo_people, nd_callbacks = [],
     nd_outbound = [], nd_outbox = []\<rparr>"

definition demo_event :: domain_event where
  "demo_event = \<lparr>event_id = ''e1'', ev_organization_id = ''acme'', aggregate_type = ''work_order'', aggregate_id = ''o1'',
     aggregate_version = 1, ev_name = ''work_order.submitted'', occurred_at = 1, ev_payload = []\<rparr>"

lemma demo_planned: "planned demo_projection demo_event (nd_store demo_notify) =
    Inr [to_roles [''operator''] (line ''A new order of a client.'' ''card'')
      [action_button ''To the pool'' ''pool_publish'' [(''order_id'', JStr ''o1'')] ''operator'' 0] ''submitted'' ''operator'']"
  by (simp add: demo_projection_def demo_event_def demo_notify_def planned_def active_pack_def
      order_card_def capabilities_def event_plans_def order_row_is_def order_values_def Work_Order_Lifecycle.demo_order_def wo_record_def Let_def
      empty_db_def)

lemma demo_recipients: "recipients demo_people ''acme'' [] [''operator''] ''operator'' =
    [(\<lparr>e_org = ''acme'', e_provider = ''telegram'', e_user = ''7'', e_actor = ''op''\<rparr>, ''operator'')]"
  by (simp add: recipients_def demo_people_def addressed_def holds_role_def is_membership_def is_actor_def recipient_role_def)

lemma demo_projected:
  "\<exists>d' r. project demo_projection demo_event demo_notify = (Inr 1, d') \<and> nd_outbound d' = [r] \<and>
     q_id r = ''e1:submitted:telegram:7'' \<and> nd_store d' = nd_store demo_notify \<and> nd_people d' = nd_people demo_notify"
  unfolding project_def demo_planned
  by (simp add: demo_projection_def demo_event_def demo_notify_def demo_recipients to_roles_def action_button_def
      callback_create_def constrained_def enqueue_def insert_once_def message_key_def Let_def
      mark_projected_def mark_done_def update_rows_def callback_action.defs callback_row.defs)

theorem notifications_reach_their_audience_witness:
  "\<exists>d' r. project demo_projection demo_event demo_notify = (Inr 1, d') \<and> r \<in> set (nd_outbound d') \<and>
     (\<exists>o' \<in> set (pg_orders (nd_store demo_notify)). reaches_audience (nd_people demo_notify) demo_event o' r)"
proof -
  obtain d' r where p: "project demo_projection demo_event demo_notify = (Inr 1, d')" "nd_outbound d' = [r]"
    using demo_projected by blast
  have "r \<notin> set (nd_outbound demo_notify)" by (simp add: demo_notify_def)
  with notifications_reach_their_audience[OF p(1), of r] p show ?thesis by auto
qed

theorem repeated_projection_queues_nothing_witness:
  "\<exists>d'. project demo_projection demo_event demo_notify = (Inr 1, d') \<and>
     nd_outbound (snd (project (demo_projection\<lparr>pj_now := 9, pj_fresh := \<lambda>n. ''u''\<rparr>) demo_event d')) = nd_outbound d'"
proof -
  obtain d' where p: "project demo_projection demo_event demo_notify = (Inr 1, d')"
    "nd_store d' = nd_store demo_notify" "nd_people d' = nd_people demo_notify"
    using demo_projected by blast
  from repeated_projection_queues_nothing[where now = 9 and fresh = "\<lambda>n. ''u''", OF p subset_refl] p(1) show ?thesis
    by (auto split: prod.splits)
qed

theorem projection_serves_everyone_witness:
  "\<exists>d' r. project demo_projection demo_event demo_notify = (Inr 1, d') \<and> r \<in> set (nd_outbound d') \<and>
     q_provider r = ''telegram'' \<and> msg_recipient_id (q_data r) = ''7'' \<and> q_consumer_key r = ''operator''"
proof -
  let ?x = "\<lparr>e_org = ''acme'', e_provider = ''telegram'', e_user = ''7'', e_actor = ''op''\<rparr>"
  let ?p = "to_roles [''operator''] (line ''A new order of a client.'' ''card'')
      [action_button ''To the pool'' ''pool_publish'' [(''order_id'', JStr ''o1'')] ''operator'' 0] ''submitted'' ''operator''"
  obtain d' where p: "project demo_projection demo_event demo_notify = (Inr 1, d')" using demo_projected by blast
  have "\<forall>k \<in> q_id ` set (nd_outbound demo_notify). \<not> str_starts_with (event_id demo_event @ '':'') k" by (simp add: demo_notify_def)
  from projection_serves_everyone[OF p this] obtain plans new where
    g: "planned demo_projection demo_event (nd_store demo_notify) = Inr plans" "nd_outbound d' = nd_outbound demo_notify @ new"
    "\<forall>q \<in> set plans. \<forall>x \<in> set (externals (nd_people demo_notify)).
      addressed (nd_people demo_notify) (ev_organization_id demo_event) (rp_actor_ids q) (rp_roles q) (rp_delivery_role q) x \<longrightarrow>
      (\<exists>r \<in> set new. message_for demo_event q x r)" by blast
  have "?p \<in> set plans" "?x \<in> set (externals (nd_people demo_notify))" using g(1) unfolding demo_planned
    by (auto simp: demo_notify_def demo_people_def)
  moreover have "addressed (nd_people demo_notify) (ev_organization_id demo_event) (rp_actor_ids ?p) (rp_roles ?p) (rp_delivery_role ?p) ?x"
    by (simp add: demo_notify_def demo_people_def demo_event_def to_roles_def addressed_def holds_role_def is_membership_def is_actor_def)
  ultimately obtain r where "r \<in> set new" "message_for demo_event ?p ?x r" using g(3) by blast
  with p g(2) show ?thesis by (auto simp: message_for_def to_roles_def role_to_consumer_key_def)
qed

end
