(* ===== verification/Inbound.thy ===== *)
theory Inbound
  imports Processor Projector Transports
begin

text \<open>
  One row of the inbox from end to end (\<open>InboundProcessor._process\<close>, \<open>_resolve_shared_staff\<close>, \<open>_role_landing\<close>,
  \<open>_is_replayed_session_event\<close> and \<open>_mint_buttons\<close> in \<open>messaging/processor.py\<close>): the update is parsed, each of its
  events is attributed to a person, answered by a coordinator, and the answer is queued. The coordinators act
  on the whole database but the outbound queue; the texts and buttons of an answer are functions of it.
\<close>

section \<open>The processor and its database\<close>

record 'w inbound_db =
  ib_people :: identity_db
  ib_bindings :: binding_table
  ib_selections :: selection_table
  ib_callbacks :: callback_table
  ib_world :: 'w

datatype 'r outcome =
    StaffReply reply
  | Landed "reply_text option" 'r
  | EnteredAs "reply_text option" string string
  | NotRegistered string
  | AlreadyHandled
  | Refused py_error
  | Answered "'r response"

text \<open>What the processor draws and reads while it handles one event.\<close>

record moment =
  mo_draw :: draw
  mo_now :: instant
  mo_later :: instant
  mo_tokens :: "nat \<Rightarrow> string"

record ('w, 'r) inbound_processor =
  pr_consumer :: string
  pr_wiring :: wiring
  pr_bindings :: bool
  pr_staff_roles :: bool
  pr_transports :: "string list"
  pr_parse :: "string \<Rightarrow> payload \<Rightarrow> inbound_event list result"
  pr_handled :: "actor_identity \<Rightarrow> string \<Rightarrow> 'w inbound_db \<Rightarrow> bool result"
  pr_start :: "actor_identity \<Rightarrow> coordinator_call \<Rightarrow> ('w inbound_db, 'r) action"
  pr_dispatch :: "string \<Rightarrow> actor_identity \<Rightarrow> inbound_event \<Rightarrow> moment \<Rightarrow> ('w inbound_db, 'r response) action"
  pr_text :: "'r outcome \<Rightarrow> string"
  pr_buttons :: "'r outcome \<Rightarrow> reply_button list"
  pr_answer :: "string \<Rightarrow> string \<Rightarrow> string option \<Rightarrow> unit posted"

text \<open>The processor's own dispatch, with coordinators that work on the world.\<close>

definition dispatch_here ::
  "('s, 'u, 'z) async_uow_ops_scheme \<Rightarrow> (string \<Rightarrow> string \<Rightarrow> 's \<Rightarrow> active_execution option) \<Rightarrow> (string \<Rightarrow> string) \<Rightarrow>
   pool_mode option \<Rightarrow> wiring \<Rightarrow> (string \<Rightarrow> actor_identity \<Rightarrow> coordinator_call \<Rightarrow> ('s \<times> drafts, 'r) action) \<Rightarrow>
   string \<Rightarrow> actor_identity \<Rightarrow> inbound_event \<Rightarrow> moment \<Rightarrow> (('s \<times> drafts) inbound_db, 'r response) action"
where
  "dispatch_here ops execution uuid_of mode c coordinators sid i e m db =
     (case dispatch_event ops execution uuid_of mode c (coordinators sid) i e (mo_draw m) (mo_now m) (mo_later m)
        (ib_world db, ib_callbacks db) of
      (r, (w, t)) \<Rightarrow> (r, db\<lparr>ib_world := w, ib_callbacks := t\<rparr>))"

section \<open>Who wrote\<close>

definition landing_call :: "wiring \<Rightarrow> actor_identity \<Rightarrow> coordinator_call option" where
  "landing_call c i =
     (if ai_role i = ''admin'' \<and> with_config c then Some ConfigStart
      else if ai_role i = ''operator'' \<and> with_operator c then Some OperatorStart
      else if ai_role i = ''master'' \<and> with_master c then Some MasterStart
      else None)"

definition role_landing ::
  "('w, 'r) inbound_processor \<Rightarrow> actor_identity \<Rightarrow> reply_text option \<Rightarrow> ('w inbound_db, 'r outcome) action" where
  "role_landing p i note =
     (case landing_call (pr_wiring p) i of
        Some call \<Rightarrow> act_bind (pr_start p i call) (\<lambda>r. act_lift (Inr (Landed note r)))
      | None \<Rightarrow> act_lift (Inr (EnteredAs note (ai_display_name i) (ai_role i))))"

definition clear_selection :: "actor_identity \<Rightarrow> ('w inbound_db, unit) action" where
  "clear_selection i db =
     (Inr (), db\<lparr>ib_selections :=
        selection_clear (ai_organization_id i) (ai_provider i) (ai_external_user_id i) (ib_selections db)\<rparr>)"

definition resolve_in ::
  "string \<Rightarrow> string \<Rightarrow> string \<Rightarrow> string \<Rightarrow> ('w inbound_db, actor_identity option) action" where
  "resolve_in org provider user consumer = act_read (\<lambda>db. Inr (identity_resolve org provider user consumer (ib_people db)))"

fun reply_note :: "reply \<Rightarrow> reply_text" where
  "reply_note (Reply note_text bs) = note_text"

definition select_role ::
  "('w, 'r) inbound_processor \<Rightarrow> string \<Rightarrow> string \<Rightarrow> string \<Rightarrow> actor_identity \<Rightarrow> payload \<Rightarrow>
   ('w inbound_db, actor_identity \<times> 'r outcome) action"
where
  "select_role p org provider user base payload =
     act_bind (\<lambda>db. case staff_select base payload (ib_people db) (ib_selections db) of
         Inl err \<Rightarrow> (Inl err, db)
       | Inr (role, r, t) \<Rightarrow> (Inr (role, r), db\<lparr>ib_selections := t\<rparr>))
     (\<lambda>(chosen, r). case chosen of
         None \<Rightarrow> act_lift (Inr (base, StaffReply r))
       | Some role \<Rightarrow> act_bind (resolve_in org provider user role) (\<lambda>selected. case selected of
             None \<Rightarrow> act_bind (clear_selection base)
               (\<lambda>u. act_lift (Inr (base, StaffReply (role_menu base (Some SelectedRoleGone)))))
           | Some i \<Rightarrow> act_bind (role_landing p i (Some (reply_note r))) (\<lambda>out. act_lift (Inr (i, out)))))"

definition press_role ::
  "('w, 'r) inbound_processor \<Rightarrow> string \<Rightarrow> string \<Rightarrow> inbound_event \<Rightarrow> moment \<Rightarrow> actor_identity \<Rightarrow>
   ('w inbound_db, actor_identity \<times> 'r outcome) action"
where
  "press_role p org provider e m base db =
     (case callback_resolve (text_of (ev_callback_token e)) org (ai_role base) (Some (claim_key e)) (dr_fresh (mo_draw m))
        (mo_now m) (ib_callbacks db) of
        (None, t) \<Rightarrow> (Inr (base, StaffReply (role_menu base (Some RoleButtonStale))), db\<lparr>ib_callbacks := t\<rparr>)
      | (Some a, t) \<Rightarrow>
          (let (r, db1) = select_role p org provider (ev_external_user_id e) base (ca_payload a) (db\<lparr>ib_callbacks := t\<rparr>)
           in if (case r of Inl err \<Rightarrow> is_domain_error err | Inr x \<Rightarrow> True)
              then let (r', t') = complete_claim a e (mo_later m) r (ib_callbacks db1) in (r', db1\<lparr>ib_callbacks := t'\<rparr>)
              else (r, db1)))"

definition resolve_shared_staff ::
  "('w, 'r) inbound_processor \<Rightarrow> string \<Rightarrow> string \<Rightarrow> inbound_event \<Rightarrow> moment \<Rightarrow>
   ('w inbound_db, actor_identity option \<times> 'r outcome option) action"
where
  "resolve_shared_staff p org provider e m =
     act_bind (resolve_in org provider (ev_external_user_id e) []) (\<lambda>found. case found of
         None \<Rightarrow> act_lift (Inr (None, None))
       | Some base \<Rightarrow>
           if available_roles base = [] then act_lift (Inr (None, None))
           else if ev_kind e = EStart then
             (\<lambda>db. let (r, t) = staff_start base (ib_selections db)
               in (Inr (Some base, Some (StaffReply r)), db\<lparr>ib_selections := t\<rparr>))
           else act_bind
             (act_read (\<lambda>db. Inr (ev_kind e = ECallback \<and> \<not> falsy (ev_callback_token e) \<and>
               peek_action (text_of (ev_callback_token e)) org (Some (claim_key e)) (mo_now m) (ib_callbacks db) =
                 Some ''staff_select_role'')))
             (\<lambda>chooses. if chooses
               then act_bind (press_role p org provider e m base) (\<lambda>(i, out). act_lift (Inr (Some i, Some out)))
               else act_bind (act_read (\<lambda>db. Inr (staff_selected base (ib_selections db)))) (\<lambda>chosen. case chosen of
                   None \<Rightarrow> act_lift (Inr (Some base, Some (StaffReply (role_menu base None))))
                 | Some role \<Rightarrow> act_bind (resolve_in org provider (ev_external_user_id e) role) (\<lambda>selected. case selected of
                     Some i \<Rightarrow> act_lift (Inr (Some i, None))
                   | None \<Rightarrow> act_bind (clear_selection base)
                       (\<lambda>u. act_lift (Inr (Some base, Some (StaffReply (role_menu base None)))))))))"

text \<open>An account that is bound now lands in the workspace of its role, unless it is asked for the role first.\<close>

definition lands :: "('w, 'r) inbound_processor \<Rightarrow> actor_identity \<Rightarrow> bool" where
  "lands p i \<longleftrightarrow> \<not> (staff_frontend_role (pr_consumer p) = Some ''staff'' \<and> pr_staff_roles p) \<and>
     ai_role i \<in> set [''operator'', ''master'']"

definition bind_staff ::
  "('w, 'r) inbound_processor \<Rightarrow> string \<Rightarrow> inbound_event \<Rightarrow> moment \<Rightarrow>
   ('w inbound_db, actor_identity option \<times> 'r outcome option) action"
where
  "bind_staff p org e m =
     (if \<not> pr_bindings p then act_lift (Inr (None, None))
      else act_bind (\<lambda>db. case maybe_bind_staff (pr_consumer p) (pr_staff_roles p) (\<lambda>i t. Reply t []) org e (mo_now m)
          (ib_people db, ib_bindings db) of
            Inl err \<Rightarrow> (Inl err, db)
          | Inr (found, (people, bindings)) \<Rightarrow> (Inr found, db\<lparr>ib_people := people, ib_bindings := bindings\<rparr>))
        (\<lambda>(found, r). case found of
            Some i \<Rightarrow> if lands p i
              then act_bind (role_landing p i (Some BindingDone)) (\<lambda>out. act_lift (Inr (Some i, Some out)))
              else act_lift (Inr (Some i, map_option StaffReply r))
          | None \<Rightarrow> act_lift (Inr (None, map_option StaffReply r))))"

definition register_requester ::
  "('w, 'r) inbound_processor \<Rightarrow> string \<Rightarrow> inbound_event \<Rightarrow> moment \<Rightarrow> ('w inbound_db, actor_identity option) action" where
  "register_requester p org e m db =
     (case maybe_register_requester (with_intake (pr_wiring p)) (pr_consumer p) org e (mo_now m) (ib_people db) of
        Inl err \<Rightarrow> (Inl err, db)
      | Inr (found, people) \<Rightarrow> (Inr found, db\<lparr>ib_people := people\<rparr>))"

definition identify ::
  "('w, 'r) inbound_processor \<Rightarrow> string \<Rightarrow> string \<Rightarrow> inbound_event \<Rightarrow> moment \<Rightarrow>
   ('w inbound_db, actor_identity option \<times> 'r outcome option) action"
where
  "identify p org provider e m =
     act_bind
       (if pr_consumer p = ''staff'' \<and> provider = ''max'' \<and> pr_staff_roles p then resolve_shared_staff p org provider e m
        else act_bind (resolve_in org provider (ev_external_user_id e) (pr_consumer p)) (\<lambda>i. act_lift (Inr (i, None))))
       (\<lambda>(i, staff). if i \<noteq> None \<or> staff \<noteq> None then act_lift (Inr (i, staff))
         else act_bind (bind_staff p org e m) (\<lambda>(j, bound). if j \<noteq> None \<or> bound \<noteq> None then act_lift (Inr (j, bound))
           else act_bind (register_requester p org e m) (\<lambda>k. act_lift (Inr (k, None)))))"

section \<open>The answer\<close>

definition replayed ::
  "('w, 'r) inbound_processor \<Rightarrow> actor_identity \<Rightarrow> inbound_event \<Rightarrow> string \<Rightarrow> 'w inbound_db \<Rightarrow> bool result" where
  "replayed p i e sid db =
     (if ev_kind e = EMessage \<and>
         (ai_role i = ''client'' \<and> with_intake (pr_wiring p) \<or> ai_role i = ''admin'' \<and> with_config (pr_wiring p) \<or>
          ai_role i = ''operator'' \<and> with_operator (pr_wiring p))
      then pr_handled p i sid db else Inr False)"

text \<open>A domain error becomes a reply; any other error ends the handling of the row.\<close>

definition refusals :: "('s, 'r response) action \<Rightarrow> ('s, 'r outcome) action" where
  "refusals f s = (case f s of
       (Inr x, s') \<Rightarrow> (Inr (Answered x), s')
     | (Inl err, s') \<Rightarrow> (if is_domain_error err then Inr (Refused err) else Inl err, s'))"

definition respond ::
  "('w, 'r) inbound_processor \<Rightarrow> inbound_event \<Rightarrow> string \<Rightarrow> moment \<Rightarrow> actor_identity option \<Rightarrow> 'r outcome option \<Rightarrow>
   ('w inbound_db, 'r outcome) action"
where
  "respond p e sid m i out =
     (case (out, i) of
        (Some x, j) \<Rightarrow> act_lift (Inr x)
      | (None, None) \<Rightarrow> act_lift (Inr (NotRegistered (ev_external_user_id e)))
      | (None, Some j) \<Rightarrow> act_bind (act_read (replayed p j e sid)) (\<lambda>again.
          if again then act_lift (Inr AlreadyHandled) else refusals (pr_dispatch p sid j e m)))"

fun mint_reply_buttons ::
  "string \<Rightarrow> (nat \<Rightarrow> string) \<Rightarrow> instant \<Rightarrow> nat \<Rightarrow> reply_button list \<Rightarrow> (callback_table, outbound_button list) action" where
  "mint_reply_buttons org tokens now n [] = act_lift (Inr [])"
| "mint_reply_buttons org tokens now n (b # bs) =
     act_bind (\<lambda>t. if rb_url b \<noteq> None \<or> rb_request_location b then (mint_button [] b, t)
       else case callback_create (tokens n) org (rb_action b) (rb_payload b) (rb_allowed_role b) DEFAULT_LIFETIME now t of
           Inl err \<Rightarrow> (Inl err, t)
         | Inr (a, t') \<Rightarrow> (mint_button (ca_token a) b, t'))
     (\<lambda>ob. act_bind (mint_reply_buttons org tokens now (n + 1) bs) (\<lambda>obs. act_lift (Inr (ob # obs))))"

definition reply_key :: "('w, 'r) inbound_processor \<Rightarrow> inbox_row \<Rightarrow> nat \<Rightarrow> inbound_event \<Rightarrow> string" where
  "reply_key p item index e =
     ''inbox:'' @ q_organization_id item @ '':'' @ q_provider item @ '':'' @
     (if q_consumer_key item \<noteq> [] then q_consumer_key item else pr_consumer p) @ '':'' @
     snd (snd (snd (q_id item))) @ '':'' @ nat_str index @ '':'' @ ev_external_user_id e"

definition reply_consumer :: "('w, 'r) inbound_processor \<Rightarrow> actor_identity option \<Rightarrow> string" where
  "reply_consumer p i = (if pr_consumer p \<noteq> [] then pr_consumer p
     else role_to_consumer_key (case i of Some j \<Rightarrow> ai_role j | None \<Rightarrow> ''client''))"

definition queue_reply ::
  "('w, 'r) inbound_processor \<Rightarrow> inbox_row \<Rightarrow> nat \<Rightarrow> inbound_event \<Rightarrow> moment \<Rightarrow> actor_identity option \<Rightarrow> 'r outcome \<Rightarrow>
   ('w inbound_db \<times> outbound_row list, unit) action"
where
  "queue_reply p item index e m i out st =
     (let (db, q) = st in
      if pr_text p out = [] \<and> pr_buttons p out = [] then (Inr (), st)
      else case mint_reply_buttons (q_organization_id item) (mo_tokens m) (mo_later m) 0 (pr_buttons p out) (ib_callbacks db) of
          (Inl err, t) \<Rightarrow> (Inl err, (db\<lparr>ib_callbacks := t\<rparr>, q))
        | (Inr bs, t) \<Rightarrow> (Inr (), (db\<lparr>ib_callbacks := t\<rparr>,
            snd (enqueue (reply_key p item index e) (q_organization_id item) (q_provider item) (ev_chat_id e)
              (JStr (pr_text p out)) (JList (map button_to_json bs)) (reply_consumer p i) (mo_later m) q))))"

definition answer_callback :: "('w, 'r) inbound_processor \<Rightarrow> string \<Rightarrow> inbound_event \<Rightarrow> 'r outcome \<Rightarrow> unit result" where
  "answer_callback p provider e out =
     (if falsy (ev_callback_id e) then Inr ()
      else case pr_answer p provider (text_of (ev_callback_id e)) (text_option (pr_text p out)) of
          Inl (Raised (RuntimeError x)) \<Rightarrow> Inr ()
        | Inl (Raised err) \<Rightarrow> Inl err
        | Inl (RateLimited d x) \<Rightarrow> Inr ()
        | Inr u \<Rightarrow> Inr ())"

section \<open>A row\<close>

definition on_db :: "('d, 'a) action \<Rightarrow> ('d \<times> 'q, 'a) action" where
  "on_db f st = (let (r, db) = f (fst st) in (r, (db, snd st)))"

definition process_event ::
  "('w, 'r) inbound_processor \<Rightarrow> inbox_row \<Rightarrow> nat \<Rightarrow> inbound_event \<Rightarrow> moment \<Rightarrow>
   ('w inbound_db \<times> outbound_row list, unit) action"
where
  "process_event p item index e m =
     act_bind (on_db (identify p (q_organization_id item) (q_provider item) e m)) (\<lambda>(i, given).
     act_bind (on_db (respond p e (ev_external_event_id e @ '':'' @ nat_str index) m i given)) (\<lambda>out.
     act_bind (queue_reply p item index e m i out) (\<lambda>u. act_lift (answer_callback p (q_provider item) e out))))"

fun process_events ::
  "('w, 'r) inbound_processor \<Rightarrow> inbox_row \<Rightarrow> (nat \<Rightarrow> moment) \<Rightarrow> nat \<Rightarrow> inbound_event list \<Rightarrow>
   ('w inbound_db \<times> outbound_row list, unit) action"
where
  "process_events p item ms n [] = act_lift (Inr ())"
| "process_events p item ms n (e # es) =
     act_bind (process_event p item n e (ms n)) (\<lambda>u. process_events p item ms (n + 1) es)"

definition parsed_events :: "('w, 'r) inbound_processor \<Rightarrow> inbox_row \<Rightarrow> inbound_event list result" where
  "parsed_events p item =
     (if q_provider item \<notin> set (pr_transports p) then Inl (RuntimeError ''transport is not configured'')
      else pr_parse p (q_provider item) (object_or_empty (q_data item)))"

definition process_row ::
  "('w, 'r) inbound_processor \<Rightarrow> inbox_row \<Rightarrow> (nat \<Rightarrow> moment) \<Rightarrow> ('w inbound_db \<times> outbound_row list, unit) action" where
  "process_row p item ms =
     act_bind (act_lift (parsed_events p item)) (\<lambda>es. process_events p item ms 0 es)"

section \<open>Every event is answered once\<close>

lemma on_db_queue: "on_db f (db, q) = (r, (db', q')) \<Longrightarrow> q' = q"
  by (auto simp: on_db_def Let_def split: prod.splits)

definition answers :: "('w, 'r) inbound_processor \<Rightarrow> inbox_row \<Rightarrow> nat \<Rightarrow> inbound_event \<Rightarrow> outbound_row \<Rightarrow> bool" where
  "answers p item n e row \<longleftrightarrow>
     q_id row = reply_key p item n e \<and> q_organization_id row = q_organization_id item \<and>
     q_provider row = q_provider item \<and> q_status row = Pending \<and> q_attempts row = 0 \<and>
     msg_recipient_id (q_data row) = ev_chat_id e"

lemma enqueue_row:
  obtains row where "snd (enqueue dedup org provider recipient text bs consumer now q) =
      (if dedup \<in> q_id ` set q then q else q @ [row])"
    "q_id row = dedup" "q_organization_id row = org" "q_provider row = provider" "q_status row = Pending"
    "q_attempts row = 0" "msg_recipient_id (q_data row) = recipient"
  by (rule that) (auto simp: enqueue_def insert_once_def)

lemma queue_reply_rows:
  assumes "queue_reply p item n e m i out (db, q) = (r, (db', q'))"
  shows "q' = q \<or> reply_key p item n e \<notin> q_id ` set q \<and> (\<exists>row. q' = q @ [row] \<and> answers p item n e row)"
    and "\<lbrakk>r = Inr (); pr_text p out \<noteq> []\<rbrakk> \<Longrightarrow> reply_key p item n e \<in> q_id ` set q'"
proof -
  have "(q' = q \<or> reply_key p item n e \<notin> q_id ` set q \<and> (\<exists>row. q' = q @ [row] \<and> answers p item n e row)) \<and>
    (r = Inr () \<longrightarrow> pr_text p out \<noteq> [] \<longrightarrow> reply_key p item n e \<in> q_id ` set q')"
  proof (cases "pr_text p out = [] \<and> pr_buttons p out = []")
    case True
    then show ?thesis using assms by (simp add: queue_reply_def)
  next
    case False
    obtain x t where x: "mint_reply_buttons (q_organization_id item) (mo_tokens m) (mo_later m) 0 (pr_buttons p out) (ib_callbacks db) = (x, t)"
      by force
    show ?thesis
    proof (cases x)
      case (Inl err)
      then show ?thesis using assms x False by (auto simp: queue_reply_def)
    next
      case (Inr bs)
      obtain row where row: "snd (enqueue (reply_key p item n e) (q_organization_id item) (q_provider item) (ev_chat_id e)
          (JStr (pr_text p out)) (JList (map button_to_json bs)) (reply_consumer p i) (mo_later m) q) =
          (if reply_key p item n e \<in> q_id ` set q then q else q @ [row])" "answers p item n e row"
        by (rule enqueue_row[of "reply_key p item n e" "q_organization_id item" "q_provider item" "ev_chat_id e"
            "JStr (pr_text p out)" "JList (map button_to_json bs)" "reply_consumer p i" "mo_later m" q])
          (auto simp: answers_def)
      have "r = Inr ()" "q' = (if reply_key p item n e \<in> q_id ` set q then q else q @ [row])"
        using assms x False Inr row(1) by (auto simp: queue_reply_def)
      then show ?thesis using row(2) by (auto simp: answers_def)
    qed
  qed
  then show "q' = q \<or> reply_key p item n e \<notin> q_id ` set q \<and> (\<exists>row. q' = q @ [row] \<and> answers p item n e row)"
    and "\<lbrakk>r = Inr (); pr_text p out \<noteq> []\<rbrakk> \<Longrightarrow> reply_key p item n e \<in> q_id ` set q'" by blast+
qed

lemma process_event_rows:
  assumes "process_event p item n e m (db, q) = (r, (db', q'))"
  shows "q' = q \<or> reply_key p item n e \<notin> q_id ` set q \<and> (\<exists>row. q' = q @ [row] \<and> answers p item n e row)"
    and "\<lbrakk>r = Inr (); \<forall>out. pr_text p out \<noteq> []\<rbrakk> \<Longrightarrow> reply_key p item n e \<in> q_id ` set q'"
proof -
  obtain i given db1 q1 r1 where id: "on_db (identify p (q_organization_id item) (q_provider item) e m) (db, q) = (r1, (db1, q1))"
    by (metis prod.exhaust)
  then have q1: "q1 = q" by (rule on_db_queue)
  let ?A = "q' = q \<or> reply_key p item n e \<notin> q_id ` set q \<and> (\<exists>row. q' = q @ [row] \<and> answers p item n e row)"
  let ?B = "r = Inr () \<longrightarrow> (\<forall>out. pr_text p out \<noteq> []) \<longrightarrow> reply_key p item n e \<in> q_id ` set q'"
  have "?A \<and> ?B"
  proof (cases r1)
    case (Inl err)
    then show ?thesis using assms id q1 by (auto simp: process_event_def act_bind_def)
  next
    case (Inr x)
    obtain i given where x: "x = (i, given)" by force
    obtain r2 db2 q2 where rs: "on_db (respond p e (ev_external_event_id e @ '':'' @ nat_str n) m i given) (db1, q1) =
        (r2, (db2, q2))" by (metis prod.exhaust)
    then have q2: "q2 = q1" by (rule on_db_queue)
    show ?thesis
    proof (cases r2)
      case (Inl err)
      then show ?thesis using assms id q1 Inr x rs q2 by (auto simp: process_event_def act_bind_def)
    next
      case (Inr out)
      obtain r3 db3 q3 where qr: "queue_reply p item n e m i out (db2, q2) = (r3, (db3, q3))" by (metis prod.exhaust)
      have "q' = q3 \<and> (r = Inr () \<longrightarrow> r3 = Inr ())"
        using assms id \<open>r1 = Inr x\<close> x rs Inr qr
        by (cases r3) (auto simp: process_event_def act_bind_def act_lift_def)
      then show ?thesis using queue_reply_rows[OF qr] q1 q2 by auto
    qed
  qed
  then show ?A and "\<lbrakk>r = Inr (); \<forall>out. pr_text p out \<noteq> []\<rbrakk> \<Longrightarrow> reply_key p item n e \<in> q_id ` set q'" by blast+
qed

text \<open>The number of the event is read back from the key of its reply.\<close>

lemma takeWhile_digits: "takeWhile (\<lambda>c. c \<noteq> CHR '':'') (nat_str n @ CHR '':'' # rest) = nat_str n"
proof -
  have "c \<noteq> CHR '':''" if "c \<in> set (nat_str n)" for c
    using nat_str_digits[OF that] by (auto simp: is_ascii_digit_def code_point_def)
  then show ?thesis by (simp add: takeWhile_append2)
qed

lemma reply_key_inj: "reply_key p item m e = reply_key p item n e' \<Longrightarrow> m = n"
proof -
  assume "reply_key p item m e = reply_key p item n e'"
  then have "nat_str m @ CHR '':'' # ev_external_user_id e = nat_str n @ CHR '':'' # ev_external_user_id e'"
    by (simp add: reply_key_def)
  then have "nat_str m = nat_str n" using takeWhile_digits[of m "ev_external_user_id e"] takeWhile_digits[of n "ev_external_user_id e'"]
    by metis
  then show "m = n" by (simp add: nat_str_inj)
qed

text \<open>The keys of the replies to a row of the inbox, in the order of its events.\<close>

definition reply_keys :: "('w, 'r) inbound_processor \<Rightarrow> inbox_row \<Rightarrow> nat \<Rightarrow> inbound_event list \<Rightarrow> string list" where
  "reply_keys p item n es = map (\<lambda>(k, e). reply_key p item k e) (enumerate n es)"

lemma reply_keys_later: "k < n \<Longrightarrow> reply_key p item k e \<notin> set (reply_keys p item n es)"
  by (auto simp: reply_keys_def in_set_enumerate_eq dest: reply_key_inj)

lemma process_events_rows:
  assumes "process_events p item ms n es (db, q) = (r, (db', q'))" "\<forall>out. pr_text p out \<noteq> []"
  shows "\<exists>new k. q' = q @ new \<and> k \<le> length es \<and> (r = Inr () \<longrightarrow> k = length es) \<and>
    map q_id new = filter (\<lambda>key. key \<notin> q_id ` set q) (take k (reply_keys p item n es)) \<and>
    (\<forall>row \<in> set new. \<exists>j < length es. answers p item (n + j) (es ! j) row)"
  using assms(1)
proof (induction es arbitrary: n db q)
  case Nil
  then show ?case by auto
next
  case (Cons e es)
  obtain r1 db1 q1 where e: "process_event p item n e (ms n) (db, q) = (r1, (db1, q1))" by (metis prod.exhaust)
  note rows = process_event_rows[OF e]
  let ?key = "reply_key p item n e"
  obtain one where one: "q1 = q @ one" "map q_id one = [] \<or> map q_id one = [?key] \<and> ?key \<notin> q_id ` set q"
    "\<forall>row \<in> set one. answers p item n e row"
    using rows(1) by (elim disjE) (auto simp: answers_def)
  show ?case
  proof (cases r1)
    case (Inl err)
    then have r: "r = Inl err" "q' = q1" using Cons.prems e by (auto simp: act_bind_def)
    show ?thesis
    proof (cases one)
      case Nil
      then show ?thesis using r one by (intro exI[of _ "[]"] exI[of _ 0]) auto
    next
      case (Cons row rest)
      then show ?thesis using r one by (intro exI[of _ one] exI[of _ 1]) (auto simp: reply_keys_def intro!: exI[of _ 0])
    qed
  next
    case (Inr u)
    then have "process_events p item ms (n + 1) es (db1, q1) = (r, (db', q'))" using Cons.prems e by (simp add: act_bind_def)
    from Cons.IH[OF this] obtain new k where new: "q' = q1 @ new" "k \<le> length es" "r = Inr () \<longrightarrow> k = length es"
      "map q_id new = filter (\<lambda>key. key \<notin> q_id ` set q1) (take k (reply_keys p item (n + 1) es))"
      "\<forall>row \<in> set new. \<exists>j < length es. answers p item (n + 1 + j) (es ! j) row" by blast
    have key: "?key \<in> q_id ` set q1" using rows(2) assms(2) Inr by simp
    have other: "key \<noteq> ?key" if "key \<in> set (take k (reply_keys p item (n + 1) es))" for key
      using that reply_keys_later[of n "n + 1" p item e es] set_take_subset by fastforce
    have "filter (\<lambda>key. key \<notin> q_id ` set q1) (take k (reply_keys p item (n + 1) es)) =
        filter (\<lambda>key. key \<notin> q_id ` set q) (take k (reply_keys p item (n + 1) es))"
      using one(1,2) other[of ?key] by (auto intro!: filter_cong)
    moreover have "map q_id one = filter (\<lambda>key. key \<notin> q_id ` set q) [?key]"
    proof (cases "?key \<in> q_id ` set q")
      case False
      then have "one \<noteq> []" using one(1) key by auto
      then show ?thesis using one(2) False by simp
    qed (use one(2) in simp)
    moreover have "reply_keys p item n (e # es) = ?key # reply_keys p item (n + 1) es" by (simp add: reply_keys_def)
    ultimately have "map q_id (one @ new) = filter (\<lambda>key. key \<notin> q_id ` set q) (take (Suc k) (reply_keys p item n (e # es)))"
      using new(4) by simp
    moreover have "\<exists>j < length (e # es). answers p item (n + j) ((e # es) ! j) row" if "row \<in> set (one @ new)" for row
    proof (cases "row \<in> set one")
      case True
      then show ?thesis using one(3) by (intro exI[of _ 0]) auto
    next
      case False
      then have "row \<in> set new" using that by simp
      then obtain j where "j < length es" "answers p item (n + 1 + j) (es ! j) row" using new(5) by blast
      then show ?thesis by (intro exI[of _ "Suc j"]) auto
    qed
    ultimately show ?thesis using one(1) new(1-3) by (intro exI[of _ "one @ new"] exI[of _ "Suc k"]) auto
  qed
qed


lemma process_row_rows:
  assumes "process_row p item ms (db, q) = (r, (db', q'))" "\<forall>out. pr_text p out \<noteq> []" "parsed_events p item = Inr es"
  shows "\<exists>new k. q' = q @ new \<and> k \<le> length es \<and> (r = Inr () \<longrightarrow> k = length es) \<and>
    map q_id new = filter (\<lambda>key. key \<notin> q_id ` set q) (take k (reply_keys p item 0 es)) \<and>
    (\<forall>row \<in> set new. \<exists>j < length es. answers p item j (es ! j) row)"
  using process_events_rows[of p item ms 0 es db q r db' q'] assms by (simp add: process_row_def act_bind_def act_lift_def)

text \<open>
  (C4) Every event of an update is answered once. Handling a row of the inbox only adds to the
  outbound queue: whether it succeeds or raises somewhere, the new messages are answers to the first
  events of the update that had none yet, one each and in their order, addressed to the chat of
  their event. If it succeeds, every event has its answer; and handling the row again, at any time
  and on any database, adds nothing. The texts of replies are not empty, as those of the code are,
  and the update can be parsed.
\<close>

theorem every_event_is_answered_once:
  assumes "process_row p item ms (db, q) = (r, (db', q'))" and "parsed_events p item = Inr es"
    and "\<forall>out. pr_text p out \<noteq> []"
  shows "(\<exists>new k. q' = q @ new \<and> k \<le> length es \<and> (r = Inr () \<longrightarrow> k = length es) \<and>
      map q_id new = filter (\<lambda>key. key \<notin> q_id ` set q) (take k (reply_keys p item 0 es)) \<and>
      (\<forall>row \<in> set new. \<exists>j < length es. answers p item j (es ! j) row)) \<and>
    distinct (reply_keys p item 0 es) \<and>
    (r = Inr () \<longrightarrow> set (reply_keys p item 0 es) \<subseteq> q_id ` set q' \<and>
      (\<forall>ms' db2. snd (snd (process_row p item ms' (db2, q'))) = q'))"
proof -
  note rows = process_row_rows[OF assms(1,3,2)]
  have "inj_on (\<lambda>(k, e). reply_key p item k e) (set (enumerate 0 es))"
    by (auto simp: inj_on_def in_set_enumerate_eq dest!: reply_key_inj)
  then have d: "distinct (reply_keys p item 0 es)"
    by (simp add: reply_keys_def distinct_map distinct_enumerate)
  have all: "set (reply_keys p item 0 es) \<subseteq> q_id ` set q'" if "r = Inr ()"
  proof -
    from rows obtain new k where c: "q' = q @ new" "r = Inr () \<longrightarrow> k = length es"
      "map q_id new = filter (\<lambda>key. key \<notin> q_id ` set q) (take k (reply_keys p item 0 es))"
      by (elim exE conjE) (rule that; assumption)
    note k = c(1) mp[OF c(2) that] c(3)
    have "take k (reply_keys p item 0 es) = reply_keys p item 0 es" using k(2) by (simp add: reply_keys_def)
    with k(3) have new: "map q_id new = filter (\<lambda>key. key \<notin> q_id ` set q) (reply_keys p item 0 es)" by (simp only:)
    have "set (map q_id new) = {key \<in> set (reply_keys p item 0 es). key \<notin> q_id ` set q}"
      unfolding new by simp
    then show ?thesis using k(1) by auto
  qed
  have "snd (snd (process_row p item ms' (db2, q'))) = q'" if "r = Inr ()" for ms' db2
  proof -
    obtain r2 db3 q2 where two: "process_row p item ms' (db2, q') = (r2, (db3, q2))" by (metis prod.exhaust)
    from process_row_rows[OF two assms(3,2)] obtain new k where
      "q2 = q' @ new" "map q_id new = filter (\<lambda>key. key \<notin> q_id ` set q') (take k (reply_keys p item 0 es))"
      by (elim exE conjE) (rule that; assumption)
    moreover have "filter (\<lambda>key. key \<notin> q_id ` set q') (take k (reply_keys p item 0 es)) = []"
      using all[OF that] by (auto simp: filter_empty_conv dest: in_set_takeD)
    ultimately show ?thesis using two by simp
  qed
  then show ?thesis using rows d all by blast
qed

definition demo_processor :: "(unit, unit) inbound_processor" where
  "demo_processor = \<lparr>pr_consumer = [], pr_wiring = \<lparr>with_config = False, with_operator = False, with_intake = False, with_master = False\<rparr>,
     pr_bindings = False, pr_staff_roles = False, pr_transports = [''telegram''],
     pr_parse = transport_parse (\<lambda>v. ''?'') (\<lambda>f. []) (\<lambda>s. None) [],
     pr_handled = (\<lambda>i sid db. Inr False), pr_start = (\<lambda>i call. act_lift (Inr ())),
     pr_dispatch = (\<lambda>sid i e m. act_lift (Inr (Own EventTaken))), pr_text = (\<lambda>out. ''Hello''), pr_buttons = (\<lambda>out. []),
     pr_answer = (\<lambda>provider c t. Inr ())\<rparr>"

definition demo_row :: inbox_row where
  "demo_row = inbox_row ''telegram'' ''telegram:7'' ''acme'' (JObj demo_update) ''client'' 0"

definition demo_db :: "unit inbound_db" where
  "demo_db = \<lparr>ib_people = empty_identity_db, ib_bindings = [], ib_selections = [], ib_callbacks = [], ib_world = ()\<rparr>"

definition demo_moment :: moment where
  "demo_moment = \<lparr>mo_draw = demo_draw, mo_now = 5, mo_later = 6, mo_tokens = (\<lambda>n. [])\<rparr>"

lemma demo_processed:
  obtains db q where "process_row demo_processor demo_row (\<lambda>n. demo_moment) (demo_db, []) = (Inr (), (db, q))" "length q = 1"
proof -
  obtain ev where ev: "parsed_events demo_processor demo_row = Inr [ev]" "ev_callback_id ev = None"
    using demo_parse by (simp add: parsed_events_def demo_processor_def demo_row_def inbox_row_def blank_event_def)
  have id: "identify demo_processor ''acme'' ''telegram'' ev demo_moment demo_db = (Inr (None, None), demo_db)"
    by (simp add: identify_def demo_processor_def resolve_in_def act_bind_def act_read_def act_lift_def identity_resolve_def
        bound_actor_def demo_db_def empty_identity_db_def bind_staff_def register_requester_def maybe_register_requester_def)
  have q: "q_organization_id demo_row = ''acme''" "q_provider demo_row = ''telegram''" by (simp_all add: demo_row_def inbox_row_def)
  have "queue_reply demo_processor demo_row 0 ev demo_moment None out (demo_db, []) =
      (Inr (), (demo_db, snd (enqueue (reply_key demo_processor demo_row 0 ev) ''acme'' ''telegram'' (ev_chat_id ev) (JStr ''Hello'')
        (JList []) (reply_consumer demo_processor None) 6 [])))" for out
    by (simp add: queue_reply_def demo_processor_def act_lift_def q demo_db_def demo_moment_def)
  then have "\<exists>db q. process_row demo_processor demo_row (\<lambda>n. demo_moment) (demo_db, []) = (Inr (), (db, q)) \<and> length q = 1"
    using ev by (simp add: process_row_def process_event_def on_db_def q id respond_def act_bind_def act_lift_def
        answer_callback_def falsy_def enqueue_def insert_once_def)
  then show thesis using that by blast
qed

theorem every_event_is_answered_once_witness:
  "\<exists>db q. process_row demo_processor demo_row (\<lambda>n. demo_moment) (demo_db, []) = (Inr (), (db, q)) \<and> length q = 1 \<and>
     snd (snd (process_row demo_processor demo_row (\<lambda>n. demo_moment) (db, q))) = q"
proof -
  obtain db q where p: "process_row demo_processor demo_row (\<lambda>n. demo_moment) (demo_db, []) = (Inr (), (db, q))" "length q = 1"
    by (rule demo_processed)
  obtain es where "parsed_events demo_processor demo_row = Inr es"
    using demo_parse by (simp add: parsed_events_def demo_processor_def demo_row_def inbox_row_def)
  from every_event_is_answered_once[OF p(1) this] p show ?thesis by (auto simp: demo_processor_def)
qed

section \<open>Commands are run for people who hold the role\<close>

definition acts_as :: "string \<Rightarrow> string \<Rightarrow> string \<Rightarrow> actor_identity \<Rightarrow> identity_db \<Rightarrow> bool" where
  "acts_as org provider user i db \<longleftrightarrow>
     ai_organization_id i = org \<and> bound_actor org provider user db = Some (ai_actor_id i) \<and>
     role_held org (ai_actor_id i) (ai_role i) db \<and>
     (\<exists>a \<in> set (actors db). is_actor org (ai_actor_id i) a \<and> a_active a)"

lemma resolved_acts: "identity_resolve org provider user consumer db = Some i \<Longrightarrow> acts_as org provider user i db"
  by (auto simp: identity_resolve_def acts_as_def in_active_roles[symmetric] effective_role_granted
      split: option.splits dest!: find_SomeD)

lemma bound_replies:
  "maybe_bind_staff consumer shared landing org e now st = Inr ((Some i, r), st') \<Longrightarrow> r \<noteq> None"
  by (auto simp: maybe_bind_staff_def Let_def split: option.splits if_splits prod.splits)

lemma bound_upsert [simp]: "bound_actor org provider user (upsert_membership o2 actor role now db) = bound_actor org provider user db"
  "actors (upsert_membership o2 actor role now db) = actors db"
  by (simp_all add: upsert_membership_def bound_actor_def)

lemma bound_add_external:
  "bound_actor org provider user (add_external org provider user actor db) =
     (case bound_actor org provider user db of None \<Rightarrow> Some actor | Some x \<Rightarrow> Some x)"
proof (cases "find (is_external org provider user) (externals db)")
  case None
  then have "\<not> list_ex (is_external org provider user) (externals db)" by (auto simp: find_None_all list_ex_iff)
  then show ?thesis using None by (simp add: bound_actor_def add_external_def find_snoc is_external_def)
next
  case (Some x)
  then have "list_ex (is_external org provider user) (externals db)" by (auto simp: list_ex_iff find_Some_iff)
  then show ?thesis using Some by (simp add: bound_actor_def add_external_def)
qed

lemma bound_upsert_row [simp]: "bound_actor org provider user (upsert_actor_row o2 actor role name db) = bound_actor org provider user db"
  by (simp add: upsert_actor_row_def bound_actor_def)

lemma upserted_active: "\<exists>a \<in> set (actors (upsert_actor_row org actor role name db)). is_actor org actor a \<and> a_active a"
proof (cases "list_ex (is_actor org actor) (actors db)")
  case True
  then obtain a where a: "a \<in> set (actors db)" "is_actor org actor a" by (auto simp: list_ex_iff)
  then have "a\<lparr>a_name := name, a_active := True\<rparr> \<in> set (actors (upsert_actor_row org actor role name db))"
    using True by (auto simp: upsert_actor_row_def update_rows_def)
  then show ?thesis using a(2) by (intro bexI[of _ "a\<lparr>a_name := name, a_active := True\<rparr>"]) (auto simp: is_actor_def)
qed (simp add: upsert_actor_row_def is_actor_def)

lemma registered_acts:
  assumes r: "maybe_register_requester intake consumer org e now db = Inr (Some i, db')"
  shows "acts_as org (ev_provider e) (ev_external_user_id e) i db'"
proof (cases "identity_resolve org (ev_provider e) (ev_external_user_id e) [] db")
  case (Some base)
  have base: "acts_as org (ev_provider e) (ev_external_user_id e) base db" by (rule resolved_acts[OF Some])
  then have active: "list_ex (\<lambda>a. is_actor org (ai_actor_id base) a \<and> a_active a) (actors db)"
    by (auto simp: acts_as_def list_ex_iff)
  have "db' = upsert_membership org (ai_actor_id base) ''client'' now db" "i = base\<lparr>ai_role := ''client'',
      ai_roles := sort (remdups (''client'' # ai_roles base))\<rparr>"
    using r Some active by (auto simp: maybe_register_requester_def Let_def grant_role_def commit_identity_def split: if_splits)
  then show ?thesis using base by (simp add: acts_as_def role_held_upsert_self)
next
  case None
  let ?actor = "ev_provider e @ '':'' @ ev_external_user_id e"
  let ?db1 = "upsert_membership org ?actor ''client'' now (upsert_actor_row org ?actor ''client'' (ev_external_user_id e) db)"
  have b: "bound_actor org (ev_provider e) (ev_external_user_id e) db \<in> {None, Some ?actor}"
    "db' = add_external org (ev_provider e) (ev_external_user_id e) ?actor ?db1"
    "ai_organization_id i = org" "ai_actor_id i = ?actor" "ai_role i = ''client''"
    using r None by (auto simp: maybe_register_requester_def Let_def upsert_actor_def commit_identity_def
        split: if_splits option.splits)
  have "bound_actor org (ev_provider e) (ev_external_user_id e) db' = Some ?actor"
    using b(1,2) by (auto simp: bound_add_external)
  moreover have "actors db' = actors (upsert_actor_row org ?actor ''client'' (ev_external_user_id e) db)"
    using b(2) by (simp add: add_external_def)
  then have "\<exists>a \<in> set (actors db'). is_actor org ?actor a \<and> a_active a"
    using upserted_active by metis
  moreover have "role_held org ?actor ''client'' db'"
    using b(2) role_held_upsert_self by (simp add: role_held_def add_external_def)
  ultimately show ?thesis using b by (simp add: acts_as_def)
qed

lemma shared_staff_acts:
  assumes "resolve_shared_staff p org provider e m db = (Inr (Some i, None), db')"
  shows "acts_as org provider (ev_external_user_id e) i (ib_people db')"
  using assms
  by (auto simp: resolve_shared_staff_def resolve_in_def act_bind_def act_read_def act_lift_def clear_selection_def Let_def
      resolved_acts staff_start_def split: option.splits if_splits prod.splits sum.splits)

text \<open>
  (C5) Commands are run for people who hold the role. An event that is not answered by the greetings and
  dialogs around binding and the choice of a role reaches a coordinator only as an identity that the account
  it came from is bound to, of an active actor of the organization, in a role that is active for the actor.
\<close>

theorem commands_need_the_role:
  assumes "identify p org provider e m db = (Inr (Some i, None), db')" and "ev_provider e = provider"
  shows "acts_as org provider (ev_external_user_id e) i (ib_people db')"
proof -
  let ?first = "if pr_consumer p = ''staff'' \<and> provider = ''max'' \<and> pr_staff_roles p then resolve_shared_staff p org provider e m
      else act_bind (resolve_in org provider (ev_external_user_id e) (pr_consumer p)) (\<lambda>i. act_lift (Inr (i, None)))"
  from assms(1) obtain j staff db1 where first: "?first db = (Inr (j, staff), db1)"
    and rest: "(if j \<noteq> None \<or> staff \<noteq> None then act_lift (Inr (j, staff))
         else act_bind (bind_staff p org e m) (\<lambda>(j, bound). if j \<noteq> None \<or> bound \<noteq> None then act_lift (Inr (j, bound))
           else act_bind (register_requester p org e m) (\<lambda>k. act_lift (Inr (k, None))))) db1 = (Inr (Some i, None), db')"
    unfolding identify_def by auto
  show ?thesis
  proof (cases "j \<noteq> None \<or> staff \<noteq> None")
    case True
    then have j: "j = Some i" "staff = None" "db1 = db'" using rest by (auto simp: act_lift_def)
    show ?thesis
    proof (cases "pr_consumer p = ''staff'' \<and> provider = ''max'' \<and> pr_staff_roles p")
      case True
      then show ?thesis using first j shared_staff_acts by simp
    next
      case False
      then have "?first = act_bind (resolve_in org provider (ev_external_user_id e) (pr_consumer p)) (\<lambda>i. act_lift (Inr (i, None)))"
        by (rule if_not_P)
      then show ?thesis using first j by (auto simp: resolve_in_def resolved_acts)
    qed
  next
    case False
    then obtain k bound db2 where bind: "bind_staff p org e m db1 = (Inr (k, bound), db2)"
      and reg: "(if k \<noteq> None \<or> bound \<noteq> None then act_lift (Inr (k, bound))
           else act_bind (register_requester p org e m) (\<lambda>k. act_lift (Inr (k, None)))) db2 = (Inr (Some i, None), db')"
      using rest by auto
    have "\<not> (k \<noteq> None \<and> bound = None)"
      using bind bound_replies
      by (fastforce simp: bind_staff_def act_bind_def act_lift_def split: if_splits prod.splits sum.splits option.splits)
    then have "register_requester p org e m db2 = (Inr (Some i), db')"
      using reg by (auto simp: act_lift_def split: if_splits)
    then show ?thesis using assms(2) registered_acts
      by (fastforce simp: register_requester_def split: sum.splits prod.splits)
  qed
qed

definition demo_front :: "(unit, unit) inbound_processor" where
  "demo_front = demo_processor\<lparr>pr_consumer := ''client'', pr_wiring := demo_wiring\<rparr>"

lemma demo_registered:
  "\<exists>i people. maybe_register_requester True ''client'' ''acme'' guess 5 empty_identity_db = Inr (Some i, people) \<and>
     ai_actor_id i = ''max:42''"
  by (simp add: maybe_register_requester_def guess_def identity_resolve_def bound_actor_def empty_identity_db_def Let_def
      upsert_actor_def upsert_actor_row_def upsert_membership_def validate_role_def together_def ROLES_def
      commit_identity_def identity_constraints_def add_external_def is_actor_def is_membership_def is_external_def)

theorem commands_need_the_role_witness:
  "\<exists>i db'. identify demo_front ''acme'' ''max'' guess demo_moment demo_db = (Inr (Some i, None), db') \<and>
     ai_actor_id i = ''max:42'' \<and> acts_as ''acme'' ''max'' ''42'' i (ib_people db')"
proof -
  obtain i people where r: "maybe_register_requester True ''client'' ''acme'' guess 5 empty_identity_db = Inr (Some i, people)"
    "ai_actor_id i = ''max:42''" using demo_registered by blast
  have id: "identify demo_front ''acme'' ''max'' guess demo_moment demo_db = (Inr (Some i, None), demo_db\<lparr>ib_people := people\<rparr>)"
    using r(1) by (simp add: identify_def demo_front_def demo_processor_def resolve_in_def act_bind_def act_read_def act_lift_def
        identity_resolve_def bound_actor_def demo_db_def empty_identity_db_def bind_staff_def register_requester_def
        demo_wiring_def demo_moment_def)
  from commands_need_the_role[OF this] r(2) id show ?thesis by (simp add: guess_def)
qed

end
