(* ===== verification/Spec2Isabelle.thy ===== *)
theory Spec2Isabelle
  imports Transports Rate_Limit Work_Order_Lifecycle Order_Numbers Tracking Service_Concurrency Store_Differences Api_Auth Pack_Store Workers Processor
    Staff_Binding Session_Stores Intake_Termination Configurator_Laws Workspace_Laws Postgres_Laws Projector_Laws Inbound
begin

text \<open>
  Verification of dispatch-core, the Python program under \<open>src/src/dispatch_core\<close> that takes work orders
  from clients in messengers and on the web, lets an operator or a pool find a master for each, tracks
  the master's way to the client with a capability link, collects the report, and tells everybody
  concerned. File names below are relative to that directory.

  How the program works. Clients, operators and masters write to messenger bots. A receiver polls the
  transports (or a webhook is called) and puts each update into the \<^emph>\<open>inbox\<close>, a table. A worker claims
  rows of the inbox and gives each to the \<^emph>\<open>processor\<close>, which finds out who wrote, and answers through one
  coordinator: the \<^emph>\<open>intake\<close> of a client, the \<^emph>\<open>configurator\<close> of an administrator, the workspaces of the
  staff, or the buttons under an order. Coordinators call the \<^emph>\<open>dispatch service\<close>; each of its methods runs
  in a \<^emph>\<open>unit of work\<close>, which reads aggregates, changes them, and commits the changes together with the
  domain events they raised into the \<^emph>\<open>outbox\<close>. The projector turns events into messages of the
  \<^emph>\<open>outbound queue\<close>, and the sender delivers them. An industry \<^emph>\<open>pack\<close> of the organization says which
  services there are, which questions a client is asked and which evidence a report needs.

  Conventions. An exception of the program is a constructor of \<open>py_error\<close> (theory \<open>Prelude\<close>), a call that may
  raise has type \<open>'a result\<close>, with \<open>Inl\<close> for the exception and \<open>Inr\<close> for the value, and guards are listed
  in the order the code tests them. A method of a class is a definition that takes the state of the object
  and returns it changed; a call that changes a store and may raise is an \<open>action\<close>, a function from the
  state to a result and the state, so that the state after an error is part of the model. Python
  dictionaries are association lists in insertion order (\<open>dict_get\<close>, \<open>dict_put\<close>), JSON documents are the
  datatype \<open>json\<close> (theory \<open>Py_Values\<close>). What the code draws at random or reads from the clock is an argument
  of the definition, never a hidden choice. Database tables are lists of rows, a statement is a function
  on the list, the CHECK clauses and unique indexes are a test of the result (theory \<open>Tables\<close>), and a
  transaction is one step.

  The theories, and the code they model:

  \<^item> \<open>Prelude\<close>, \<open>Py_Values\<close>, \<open>Tables\<close>: results, dictionaries, values of Python, JSON, strings, tables; and
    the lemma collections the others use.
  \<^item> \<open>Domain_Events\<close> (\<open>domain/events.py\<close>), \<open>Work_Order\<close> and \<open>Work_Order_Lifecycle\<close> (\<open>domain/work_order.py\<close>),
    \<open>Order_Numbers\<close> (\<open>domain/order_numbers.py\<close>), \<open>Tracking\<close> (\<open>domain/tracking.py\<close>): the aggregates. A step of an
    order or of a tracking session is one method call that returned; invariants are proved by rule
    induction over the reachable states.
  \<^item> \<open>Dispatch_State\<close> (\<open>application/ports.py\<close>, \<open>application/async_ports.py\<close>): the contract of a store, as the
    locales \<open>unit_of_work\<close>, \<open>exact_unit_of_work\<close> and \<open>async_unit_of_work\<close> over an abstract state.
    \<open>Dispatch_Machine\<close>: the abstract specification of the services, a transition relation on that state.
    \<open>Dispatch_Service\<close> (\<open>application/service.py\<close>, \<open>application/async_service.py\<close>): the methods, parametric in the
    operations of the store. \<open>Memory_Store\<close> (\<open>infrastructure/memory.py\<close>), \<open>Async_Store\<close>
    (\<open>infrastructure/async_memory.py\<close>): two stores that interpret the locales. \<open>Service_Refinement\<close>: both services
    refine the specification on every lawful store. \<open>Service_Properties\<close>: capacity, outbox, tracking and
    idempotence on the stores. \<open>Service_Concurrency\<close>: interleaved callers. \<open>Store_Differences\<close>: where the two
    stores disagree. \<open>Postgres_Store\<close> (\<open>infrastructure/postgres.py\<close>) and \<open>Postgres_Laws\<close>: the tables behave as the
    asynchronous in-memory store does.
  \<^item> \<open>Sha256\<close>, \<open>Tokens\<close> (\<open>transports/common.py\<close>): signed callback data and executor tokens. \<open>Api_Auth\<close>
    (\<open>api/app.py\<close>): authentication of HTTP calls and the limit of failed attempts.
  \<^item> \<open>Packs\<close> (\<open>packs/catalog.py\<close>) and \<open>Pack_Store\<close> (\<open>infrastructure/pack_store.py\<close>): packs and their versions.
  \<^item> \<open>Queues\<close>, \<open>Queue_Laws\<close> (\<open>infrastructure/messaging.py\<close>), \<open>Workers\<close> (\<open>messaging/sender.py\<close> and the loops of the
    processor and the projector), \<open>Ingress\<close> (\<open>transports/polling.py\<close>, \<open>transports/contracts.py\<close>,
    \<open>messaging/models.py\<close>, \<open>application/tracking_links.py\<close>): the durable queues and what fills and empties them. The
    locale \<open>work_queue\<close> is what a worker relies on; the three stores interpret it.
  \<^item> \<open>Identity_Store\<close>, \<open>Identity_Laws\<close>, \<open>Session_Stores\<close>, \<open>Callbacks\<close> (\<open>infrastructure/workflow_store.py\<close>,
    \<open>infrastructure/staff_workflows.py\<close>, \<open>infrastructure/messaging.py\<close>): people, their roles and accounts, the
    states of conversations, report drafts, and the buttons that were sent.
  \<^item> \<open>Staff_Binding\<close>, \<open>Callback_Commands\<close>, \<open>Processor\<close> (\<open>messaging/processor.py\<close>, \<open>messaging/staff.py\<close>): unknown
    accounts, the buttons under an order, the routing of an event and the claim of a button.
  \<^item> \<open>Intake\<close>, \<open>Intake_Laws\<close>, \<open>Intake_Termination\<close> (\<open>messaging/intake.py\<close>): the conversation of a client.
    \<open>Configurator\<close>, \<open>Configurator_Laws\<close> (\<open>messaging/config.py\<close>): the panel of an administrator.
  \<^item> \<open>Projector\<close>, \<open>Projector_Laws\<close> (\<open>messaging/projector.py\<close>): messages about events.

  What the lemmas show, by group:

  \<^item> Orders and tracking: an order keeps its invariant, moves only along the status graph and completes
    exactly when the report has the evidence; a session keeps its points sorted and its tokens apart.
  \<^item> Services: an executor has at most one active order in an organization, every version of an aggregate
    has its events in the outbox, tracking follows the order, creation is idempotent, interleaved changes
    are serializable, and both services refine one specification. The PostgreSQL store is equivalent to
    the in-memory store, for reads and for units of work.
  \<^item> Queues and workers: a claimed row belongs to one worker, attempts are bounded, due rows are claimed,
    polling loses and repeats nothing, every message is settled, a button has one owner and a retried
    button finishes what was begun.
  \<^item> People: one account, one actor; a bind code works once and can be guessed a bounded number of times;
    failed authentications are limited.
  \<^item> Conversations: the stored states are typed, a submitted order is complete, and a client who answers
    reaches the end. The configurator changes what clients see by publication only, and never takes a
    published version away from a conversation that began with it.
  \<^item> Notifications: an event reaches every addressee, nobody else, and a repeated projection queues nothing.

  Termination and bounds. Loops over data are structural recursions. The loop of \<open>_slug\<close> ends because only
  finitely many keys are taken: the number of taken keys still ahead is the measure of \<open>free_key\<close>. The search of
  a free bind code draws at most a hundred numbers, as the code does. A conversation needs at most two answers
  per field of the pack and four more (\<open>Intake_Termination\<close>): the measure \<open>to_go\<close> decreases with every
  answer that is asked for. The only fuel is that of \<open>chunks\<close> in \<open>Sha256\<close>, the number of blocks. SHA-256 computes on 32-bit words; Python integers
  are unbounded, as in the code. An instant is an integer number of microseconds.

  Not modelled, and why:

  \<^item> The Russian texts of replies and messages are outside the string model, code points below 256. A
    reply is a constructor with what it shows, or carries an English stand-in; nothing in the program
    depends on these texts. The default role labels and the four built-in packs are texts, too.
  \<^item> Case folding, the notation of coordinates and floats in text, and name-based identifiers are
    arguments, because their definitions are not in the source; the text of the card of an order is an
    argument of the projector.
  \<^item> \<open>jsonb\<close> columns keep a document as it was written; PostgreSQL drops duplicate keys and reorders, which no
    code here relies on. Row locks and \<open>SKIP LOCKED\<close> make claims happen one after the other. Foreign keys of
    session tables are left out.
  \<^item> The network code of the transports, the HTTP routes, schemas and pages, the settings and start-up code
    under \<open>runtime\<close>, and the operations for metrics and clean-up are input and output around the modelled core.
\<close>

end
